(* ===== verification/Prelude.thy ===== *)
theory Prelude
  imports Main "HOL-Library.Word" "HOL-Library.AList" "HOL-Library.Multiset"
begin

text \<open>
  The prelude of the FerriSync development: names for the machine types of the Rust source,
  checked and wrapping arithmetic on \<open>usize\<close>, the byte order of length prefixes, and the
  facts on lists, association lists (\<open>HashMap\<close> contents) and sums that the component
  theories share. \<open>u8\<close>, \<open>u32\<close> and \<open>u64\<close> are words of that width; \<open>i64\<close> values
  (row ids, times) are \<open>int\<close>, with casts to unsigned words written out; lengths are \<open>nat\<close>.
\<close>

section \<open>Types\<close>

type_synonym u8 = "8 word"
type_synonym u16 = "16 word"
type_synonym u32 = "32 word"
type_synonym u64 = "64 word"
type_synonym i64 = int
type_synonym bytes = "u8 list"
type_synonym DeviceId = string
type_synonym FilePath = string
type_synonym FolderId = i64

text \<open>Collections of facts: \<open>result_simps\<close> opens the results of fallible code,
  \<open>hm_simps\<close> evaluates lookups in updated association lists.\<close>

named_theorems result_simps
named_theorems hm_simps

section \<open>Arithmetic on usize\<close>

text \<open>
  \<open>usize\<close> is 64 bits wide. With overflow checks (debug builds) an overflowing operation
  panics, without them (release builds) it wraps. \<open>checks\<close> selects the build.
\<close>

definition usize_modulus :: nat where
  "usize_modulus = 2 ^ 64"

definition usize_sub :: "bool \<Rightarrow> nat \<Rightarrow> nat \<Rightarrow> nat option" where
  "usize_sub checks a b =
     (if b \<le> a then Some (a - b)
      else if checks then None
      else Some ((a + usize_modulus - b) mod usize_modulus))"

definition usize_add :: "bool \<Rightarrow> nat \<Rightarrow> nat \<Rightarrow> nat option" where
  "usize_add checks a b =
     (if a + b < usize_modulus then Some (a + b)
      else if checks then None
      else Some ((a + b) mod usize_modulus))"

lemma usize_sub_le [simp]: "b \<le> a \<Longrightarrow> usize_sub checks a b = Some (a - b)"
  by (simp add: usize_sub_def)

lemma usize_add_small [simp]: "a + b < usize_modulus \<Longrightarrow> usize_add checks a b = Some (a + b)"
  by (simp add: usize_add_def)

lemma usize_sub_checked_panics: "a < b \<Longrightarrow> usize_sub True a b = None"
  by (simp add: usize_sub_def)

lemma usize_sub_release_wraps:
  "a < b \<Longrightarrow> b < usize_modulus \<Longrightarrow> usize_sub False a b = Some (usize_modulus - (b - a))"
  by (auto simp: usize_sub_def usize_modulus_def)

section \<open>Big-endian length prefixes\<close>

definition to_be_bytes :: "u32 \<Rightarrow> bytes" where
  "to_be_bytes w =
     [word_of_nat (unat w div 2 ^ 24), word_of_nat (unat w div 2 ^ 16 mod 256),
      word_of_nat (unat w div 2 ^ 8 mod 256), word_of_nat (unat w mod 256)]"

definition from_be_bytes :: "u8 \<Rightarrow> u8 \<Rightarrow> u8 \<Rightarrow> u8 \<Rightarrow> u32" where
  "from_be_bytes a b c d =
     word_of_nat (((unat a * 256 + unat b) * 256 + unat c) * 256 + unat d)"

lemma length_to_be_bytes [simp]: "length (to_be_bytes w) = 4"
  by (simp add: to_be_bytes_def)

lemma unat_u8_of_nat: "n < 256 \<Longrightarrow> unat (word_of_nat n :: u8) = n"
  by (simp add: unat_of_nat)

lemma from_to_be_bytes:
  "to_be_bytes w = [a, b, c, d] \<Longrightarrow> from_be_bytes a b c d = w"
proof -
  assume eq: "to_be_bytes w = [a, b, c, d]"
  define n where "n = unat w"
  have n: "n < 2 ^ 32"
    using unsigned_less [of w] by (simp add: n_def)
  have a: "unat a = n div 2 ^ 24" and b: "unat b = n div 2 ^ 16 mod 256"
    and c: "unat c = n div 2 ^ 8 mod 256" and d: "unat d = n mod 256"
    using eq n by (auto simp: to_be_bytes_def n_def [symmetric] unat_of_nat)
  have ab: "unat a * 256 + unat b = n div 2 ^ 16"
    using div_mult_mod_eq [of "n div 2 ^ 16" 256] unfolding a b by (simp flip: div_mult2_eq)
  have abc: "(unat a * 256 + unat b) * 256 + unat c = n div 2 ^ 8"
    using div_mult_mod_eq [of "n div 2 ^ 8" 256] unfolding ab c by (simp flip: div_mult2_eq)
  have "((unat a * 256 + unat b) * 256 + unat c) * 256 + unat d = n"
    using div_mult_mod_eq [of n 256] unfolding abc d by simp
  then show ?thesis
    by (simp add: from_be_bytes_def n_def)
qed

lemma word_less_plus_one: "x \<noteq> - 1 \<Longrightarrow> x < x + 1" for x :: "'a::len word"
  using unatSuc [of x] by (metis add.commute add_eq_0_iff lessI word_less_nat_alt)

section \<open>Printing integers\<close>

definition digit :: "nat \<Rightarrow> char" where
  "digit n = ''0123456789'' ! (n mod 10)"

fun show_nat :: "nat \<Rightarrow> string" where
  "show_nat n = (if n < 10 then [digit n] else show_nat (n div 10) @ [digit n])"

declare show_nat.simps [simp del]

definition show_int :: "int \<Rightarrow> string" where
  "show_int n = (if n < 0 then CHR ''-'' # show_nat (nat (- n)) else show_nat (nat n))"

lemma set_show_nat:
  assumes "\<And>k. digit k \<in> D"
  shows "set (show_nat n) \<subseteq> D"
proof (induction n rule: show_nat.induct)
  case (1 n)
  then show ?case using assms [of n] by (subst show_nat.simps) simp
qed

lemma digit_chars: "digit k \<notin> {CHR ''/'', CHR 0x00, CHR ''-''}"
proof -
  have "\<forall>i \<in> set [0..<10]. ''0123456789'' ! i \<notin> {CHR ''/'', CHR 0x00, CHR ''-''}" by code_simp
  moreover have "k mod 10 \<in> set [0..<10]" by simp
  ultimately show ?thesis unfolding digit_def by blast
qed

lemma show_int_chars: "c \<in> {CHR ''/'', CHR 0x00} \<Longrightarrow> c \<notin> set (show_int n)"
  using set_show_nat [of "- {CHR ''/'', CHR 0x00}"] digit_chars
  by (auto simp: show_int_def)

section \<open>Lists\<close>

lemma find_SomeD: "find P xs = Some x \<Longrightarrow> x \<in> set xs \<and> P x"
  by (auto simp: find_Some_iff)

lemma find_unique:
  assumes "distinct (map f xs)" and "x \<in> set xs"
  shows "find (\<lambda>y. f y = f x) xs = Some x"
  using assms by (induction xs) (auto simp: image_iff)

lemma map_filter_append [simp]:
  "List.map_filter f (xs @ ys) = List.map_filter f xs @ List.map_filter f ys"
  by (induction xs) (auto simp: List.map_filter_simps split: option.splits)

lemma set_map_filter: "set (List.map_filter f xs) = {y. \<exists>x \<in> set xs. f x = Some y}"
  by (induction xs) (auto simp: List.map_filter_simps split: option.splits)

lemma map_filter_empty_iff: "List.map_filter f xs = [] \<longleftrightarrow> (\<forall>x \<in> set xs. f x = None)"
  by (induction xs) (auto simp: List.map_filter_simps split: option.splits)

lemma length_filter_eq_one:
  "distinct xs \<Longrightarrow> x \<in> set xs \<Longrightarrow> length (filter (\<lambda>y. y = x) xs) = 1"
  by (induction xs) (auto simp: filter_empty_conv)

section \<open>Association lists as hash maps\<close>

text \<open>\<open>AList.update\<close> and \<open>AList.delete\<close> model insertion and removal in a
  \<open>HashMap\<close> whose keys are distinct; \<open>map_of\<close> is the lookup.\<close>

abbreviation hm_insert :: "'k \<Rightarrow> 'v \<Rightarrow> ('k \<times> 'v) list \<Rightarrow> ('k \<times> 'v) list" where
  "hm_insert \<equiv> AList.update"

abbreviation hm_remove :: "'k \<Rightarrow> ('k \<times> 'v) list \<Rightarrow> ('k \<times> 'v) list" where
  "hm_remove \<equiv> AList.delete"

definition hm_wf :: "('k \<times> 'v) list \<Rightarrow> bool" where
  "hm_wf m \<longleftrightarrow> distinct (map fst m)"

lemma hm_get_insert [hm_simps]: "map_of (hm_insert k v m) k' = (if k' = k then Some v else map_of m k')"
  by (simp add: update_conv)

lemma hm_get_remove [hm_simps]: "map_of (hm_remove k m) k' = (if k' = k then None else map_of m k')"
  by (simp add: delete_conv)

lemma hm_wf_Nil [simp]: "hm_wf []"
  by (simp add: hm_wf_def)

lemma hm_wf_insert [simp]: "hm_wf m \<Longrightarrow> hm_wf (hm_insert k v m)"
  by (simp add: hm_wf_def distinct_update)

lemma hm_wf_remove [simp]: "hm_wf m \<Longrightarrow> hm_wf (hm_remove k m)"
  by (simp add: hm_wf_def distinct_delete)

lemma hm_entries: "hm_wf m \<Longrightarrow> (k, v) \<in> set m \<longleftrightarrow> map_of m k = Some v"
  by (simp add: hm_wf_def)

lemma hm_insert_fresh: "map_of m k = None \<Longrightarrow> hm_insert k v m = m @ [(k, v)]"
  by (induction m) auto

lemma hm_remove_absent: "map_of m k = None \<Longrightarrow> hm_remove k m = m"
  by (simp add: delete_id map_of_eq_None_iff)

lemma hm_remove_snoc: "map_of m k = None \<Longrightarrow> hm_remove k (m @ [(k, v)]) = m"
  by (simp add: AList.delete_eq hm_remove_absent [unfolded AList.delete_eq])

section \<open>Results\<close>

text \<open>Fallible code returns \<open>Inl error\<close> or \<open>Inr value\<close>; \<open>bind\<close> is the
  \<open>?\<close> operator.\<close>

definition res_bind :: "'e + 'a \<Rightarrow> ('a \<Rightarrow> 'e + 'b) \<Rightarrow> 'e + 'b" where
  "res_bind r f = (case r of Inl e \<Rightarrow> Inl e | Inr x \<Rightarrow> f x)"

lemma res_bind_Inl [simp]: "res_bind (Inl e) f = Inl e"
  by (simp add: res_bind_def)

lemma res_bind_Inr [simp]: "res_bind (Inr x) f = f x"
  by (simp add: res_bind_def)

lemma res_bind_eq_Inr [result_simps]:
  "res_bind r f = Inr y \<longleftrightarrow> (\<exists>x. r = Inr x \<and> f x = Inr y)"
  by (cases r) auto

lemma res_bind_eq_Inl [result_simps]:
  "res_bind r f = Inl e \<longleftrightarrow> r = Inl e \<or> (\<exists>x. r = Inr x \<and> f x = Inl e)"
  by (cases r) auto

definition is_ok :: "'e + 'a \<Rightarrow> bool" where
  "is_ok r = (case r of Inl e \<Rightarrow> False | Inr x \<Rightarrow> True)"

lemma is_ok_simps [simp, result_simps]: "is_ok (Inr x)" "\<not> is_ok (Inl e)"
  by (simp_all add: is_ok_def)

lemma is_ok_iff: "is_ok r \<longleftrightarrow> (\<exists>x. r = Inr x)"
  by (cases r) auto

end
