(* ===== verification/Domain.thy ===== *)
theory Domain
  imports Prelude
begin

text \<open>
  The domain types of \<open>ferrisync-core/src/domain\<close>: devices, folders and their sync
  direction, per-device file versions, snapshots, sync plans, tombstones and conflicts.
  The central facts are that \<open>dominates\<close>, written in the source as two loops over hash
  maps with early returns, is the strict product order on version counters, and that it
  satisfies the \<open>version_order\<close> interface the reconciler relies on.
\<close>

section \<open>Devices\<close>

type_synonym CertificateFingerprint = bytes

definition fingerprint_from_der :: "(bytes \<Rightarrow> bytes) \<Rightarrow> bytes \<Rightarrow> CertificateFingerprint" where
  "fingerprint_from_der blake3 der = blake3 der"

text \<open>The \<open>Display\<close> instance prints two lower-case hex digits per byte.\<close>

definition hex_digit :: "nat \<Rightarrow> char" where
  "hex_digit n = ''0123456789abcdef'' ! (n mod 16)"

definition hex_byte :: "u8 \<Rightarrow> string" where
  "hex_byte b = [hex_digit (unat b div 16), hex_digit (unat b)]"

definition fingerprint_display :: "CertificateFingerprint \<Rightarrow> string" where
  "fingerprint_display fp = concat (map hex_byte fp)"

record Device =
  dev_id :: DeviceId
  dev_name :: string
  dev_fingerprint :: "CertificateFingerprint option"
  dev_last_seen :: "i64 option"
  dev_last_addr :: "string option"

section \<open>Folders and their direction\<close>

datatype SyncDirection = Bidirectional | PushOnly | PullOnly

fun direction_as_str :: "SyncDirection \<Rightarrow> string" where
  "direction_as_str Bidirectional = ''bidirectional''"
| "direction_as_str PushOnly = ''push''"
| "direction_as_str PullOnly = ''pull''"

datatype direction_error = UnknownDirection string

definition direction_from_str :: "string \<Rightarrow> direction_error + SyncDirection" where
  "direction_from_str s =
     (if s = ''bidirectional'' then Inr Bidirectional
      else if s = ''push'' then Inr PushOnly
      else if s = ''pull'' then Inr PullOnly
      else Inl (UnknownDirection s))"

record Folder =
  fol_id :: FolderId
  fol_local_path :: string
  fol_device_id :: DeviceId
  fol_direction :: SyncDirection
  fol_last_sync_at :: "i64 option"

lemma direction_from_str_iff: "direction_from_str s = Inr d \<longleftrightarrow> s = direction_as_str d"
  by (cases d) (auto simp: direction_from_str_def)

section \<open>File versions\<close>

text \<open>
  \<open>FileVersion\<close> wraps \<open>HashMap<DeviceId, u64>\<close>: the list holds the map's entries in
  its iteration order, with distinct keys (\<open>wf_version\<close>).
\<close>

record FileVersion =
  versions :: "(DeviceId \<times> u64) list"

definition wf_version :: "FileVersion \<Rightarrow> bool" where
  "wf_version v \<longleftrightarrow> hm_wf (versions v)"

definition version_new :: FileVersion where
  "version_new = \<lparr>versions = []\<rparr>"

definition version_single :: "DeviceId \<Rightarrow> u64 \<Rightarrow> FileVersion" where
  "version_single device version =
     version_new\<lparr>versions := hm_insert device version (versions version_new)\<rparr>"

definition version_get :: "FileVersion \<Rightarrow> DeviceId \<Rightarrow> u64" where
  "version_get v device = (case map_of (versions v) device of None \<Rightarrow> 0 | Some n \<Rightarrow> n)"

text \<open>\<open>entry(d).or_insert(0) += 1\<close> in 64-bit arithmetic: at \<open>u64::MAX\<close> a build with
  overflow checks panics (\<open>None\<close>), one without wraps to 0.\<close>

definition version_bump :: "bool \<Rightarrow> FileVersion \<Rightarrow> DeviceId \<Rightarrow> FileVersion option" where
  "version_bump checks v device =
     (if checks \<and> version_get v device = - 1 then None
      else Some (v\<lparr>versions := hm_insert device (version_get v device + 1) (versions v)\<rparr>))"

text \<open>The two loops of \<open>dominates\<close>. The first returns \<open>None\<close> for the early
  \<open>return false\<close> and the value of \<open>any_greater\<close> otherwise.\<close>

fun dominates_own :: "FileVersion \<Rightarrow> (DeviceId \<times> u64) list \<Rightarrow> bool \<Rightarrow> bool option" where
  "dominates_own other [] any_greater = Some any_greater"
| "dominates_own other ((dev, ver) # rest) any_greater =
     (let other_ver = version_get other dev in
      if ver < other_ver then None
      else dominates_own other rest (if other_ver < ver then True else any_greater))"

fun dominates_other :: "FileVersion \<Rightarrow> (DeviceId \<times> u64) list \<Rightarrow> bool" where
  "dominates_other self [] = True"
| "dominates_other self ((dev, other_ver) # rest) =
     (if map_of (versions self) dev = None \<and> 0 < other_ver then False
      else dominates_other self rest)"

definition dominates :: "FileVersion \<Rightarrow> FileVersion \<Rightarrow> bool" where
  "dominates self other =
     (case dominates_own other (versions self) False of
        None \<Rightarrow> False
      | Some any_greater \<Rightarrow>
          if dominates_other self (versions other) then any_greater else False)"

definition concurrent :: "FileVersion \<Rightarrow> FileVersion \<Rightarrow> bool" where
  "concurrent self other \<longleftrightarrow> \<not> dominates self other \<and> \<not> dominates other self"

subsection \<open>Versions as counters\<close>

lemma wf_version_new [simp]: "wf_version version_new"
  by (simp add: wf_version_def version_new_def)

lemma wf_version_single [simp]: "wf_version (version_single d n)"
  by (simp add: wf_version_def version_single_def version_new_def hm_wf_def)

lemma wf_version_bump: "wf_version v \<Longrightarrow> version_bump checks v d = Some w \<Longrightarrow> wf_version w"
  by (auto simp: wf_version_def version_bump_def split: if_splits)

lemma version_get_new [simp]: "version_get version_new d = 0"
  by (simp add: version_get_def version_new_def)

lemma version_get_single [simp]: "version_get (version_single d n) e = (if e = d then n else 0)"
  by (simp add: version_get_def version_single_def version_new_def)

lemma version_get_bump:
  "version_bump checks v d = Some w \<Longrightarrow>
     version_get w e = (if e = d then version_get v d + 1 else version_get v e)"
  by (auto simp: version_get_def version_bump_def hm_simps split: if_splits)

lemma dominates_own_eq:
  "dominates_own other xs any_greater =
     (if \<exists>(d, n) \<in> set xs. n < version_get other d then None
      else Some (any_greater \<or> (\<exists>(d, n) \<in> set xs. version_get other d < n)))"
  by (induction other xs any_greater rule: dominates_own.induct) (auto simp: Let_def)

lemma dominates_other_eq:
  "dominates_other self xs \<longleftrightarrow>
     (\<forall>(d, n) \<in> set xs. map_of (versions self) d = None \<longrightarrow> n = 0)"
  by (induction self xs rule: dominates_other.induct) (auto simp: word_gt_0)

lemma version_entry_get:
  "wf_version v \<Longrightarrow> (d, n) \<in> set (versions v) \<Longrightarrow> version_get v d = n"
  by (auto simp: wf_version_def version_get_def hm_entries)

lemma version_get_pos_entry:
  "version_get v d \<noteq> 0 \<Longrightarrow> (d, version_get v d) \<in> set (versions v)"
  by (auto simp: version_get_def split: option.splits dest: map_of_SomeD)

text \<open>Either early return happens exactly when some counter of \<open>other\<close> is ahead.\<close>

lemma dominates_rejects_iff:
  assumes a: "wf_version a" and b: "wf_version b"
  shows "(\<exists>(d, n) \<in> set (versions a). n < version_get b d) \<or> \<not> dominates_other a (versions b) \<longleftrightarrow>
    (\<exists>d. version_get a d < version_get b d)"
    (is "?early \<or> ?absent \<longleftrightarrow> ?R")
proof
  assume "?early \<or> ?absent"
  then show ?R
  proof
    assume ?early
    then show ?R using version_entry_get [OF a] by fastforce
  next
    assume ?absent
    then obtain d n where "(d, n) \<in> set (versions b)" "map_of (versions a) d = None" "n \<noteq> 0"
      by (auto simp: dominates_other_eq)
    then have "version_get a d = 0" "version_get b d = n"
      using version_entry_get [OF b] by (auto simp: version_get_def)
    with \<open>n \<noteq> 0\<close> show ?R by (auto simp: word_gt_0 intro!: exI [of _ d])
  qed
next
  assume ?R
  then obtain d where d: "version_get a d < version_get b d" ..
  show "?early \<or> ?absent"
  proof (cases "map_of (versions a) d")
    case None
    from d have "version_get b d \<noteq> 0" using word_not_simps(1) by fastforce
    with None version_get_pos_entry [OF this] show ?thesis
      by (auto simp: dominates_other_eq)
  next
    case (Some n)
    with d have "n < version_get b d" by (simp add: version_get_def)
    with Some show ?thesis by (auto dest: map_of_SomeD)
  qed
qed

lemma dominates_greater_iff:
  assumes a: "wf_version a"
  shows "(\<exists>(d, n) \<in> set (versions a). version_get b d < n) \<longleftrightarrow>
    (\<exists>d. version_get b d < version_get a d)"
proof
  assume "\<exists>(d, n) \<in> set (versions a). version_get b d < n"
  then show "\<exists>d. version_get b d < version_get a d"
    using version_entry_get [OF a] by fastforce
next
  assume "\<exists>d. version_get b d < version_get a d"
  then obtain d where d: "version_get b d < version_get a d" ..
  then have "version_get a d \<noteq> 0" using word_not_simps(1) by fastforce
  from d version_get_pos_entry [OF this]
  show "\<exists>(d, n) \<in> set (versions a). version_get b d < n" by auto
qed

text \<open>The loops compute the strict product order on counters.\<close>

lemma dominates_iff:
  assumes a: "wf_version a" and b: "wf_version b"
  shows "dominates a b \<longleftrightarrow>
    (\<forall>d. version_get b d \<le> version_get a d) \<and> (\<exists>d. version_get b d < version_get a d)"
proof -
  have "dominates a b \<longleftrightarrow>
      \<not> ((\<exists>(d, n) \<in> set (versions a). n < version_get b d) \<or> \<not> dominates_other a (versions b)) \<and>
      (\<exists>(d, n) \<in> set (versions a). version_get b d < n)"
    by (simp add: dominates_def dominates_own_eq)
  then show ?thesis
    unfolding dominates_rejects_iff [OF a b] dominates_greater_iff [OF a]
    by (simp add: not_less)
qed

subsection \<open>The order interface of versions\<close>

text \<open>What the reconciler relies on: a strict partial order on well-formed versions,
  and concurrency as incomparability.\<close>

locale version_order =
  fixes invar :: "'v \<Rightarrow> bool"
    and gt :: "'v \<Rightarrow> 'v \<Rightarrow> bool"
    and conc :: "'v \<Rightarrow> 'v \<Rightarrow> bool"
  assumes gt_irrefl: "invar a \<Longrightarrow> \<not> gt a a"
    and gt_trans: "invar a \<Longrightarrow> invar b \<Longrightarrow> invar c \<Longrightarrow> gt a b \<Longrightarrow> gt b c \<Longrightarrow> gt a c"
    and conc_iff: "conc a b \<longleftrightarrow> \<not> gt a b \<and> \<not> gt b a"
begin

lemma gt_asym: "invar a \<Longrightarrow> invar b \<Longrightarrow> gt a b \<Longrightarrow> \<not> gt b a"
  using gt_irrefl gt_trans by blast

lemma conc_sym: "conc a b \<longleftrightarrow> conc b a"
  by (auto simp: conc_iff)

lemma conc_refl: "invar a \<Longrightarrow> conc a a"
  by (simp add: conc_iff gt_irrefl)

lemma trichotomy:
  "invar a \<Longrightarrow> invar b \<Longrightarrow>
     (gt a b \<and> \<not> gt b a \<and> \<not> conc a b) \<or> (\<not> gt a b \<and> gt b a \<and> \<not> conc a b) \<or>
     (\<not> gt a b \<and> \<not> gt b a \<and> conc a b)"
  using gt_asym by (auto simp: conc_iff)

end

interpretation fv: version_order wf_version dominates concurrent
proof unfold_locales
  show "\<not> dominates a a" if "wf_version a" for a
    using that by (simp add: dominates_iff)
  show "dominates a c"
    if "wf_version a" "wf_version b" "wf_version c" "dominates a b" "dominates b c" for a b c
    using that by (simp add: dominates_iff) (meson order_le_less_trans order_trans)
  show "concurrent a b \<longleftrightarrow> \<not> dominates a b \<and> \<not> dominates b a" for a b
    by (simp add: concurrent_def)
qed

lemma dominates_single_iff:
  "dominates (version_single d m) (version_single d n) \<longleftrightarrow> n < m"
  by (auto simp: dominates_iff)

lemma dominates_single_other:
  "d \<noteq> e \<Longrightarrow> 0 < n \<Longrightarrow> \<not> dominates (version_single d m) (version_single e n)"
  by (auto simp: dominates_iff not_le intro!: exI [of _ e])

section \<open>Files, snapshots and plans\<close>

type_synonym FileHash = bytes

definition file_hash_from_bytes :: "(bytes \<Rightarrow> bytes) \<Rightarrow> bytes \<Rightarrow> FileHash" where
  "file_hash_from_bytes blake3 data = blake3 data"

definition file_hash_to_hex :: "FileHash \<Rightarrow> string" where
  "file_hash_to_hex h = concat (map hex_byte h)"

definition file_hash_display :: "FileHash \<Rightarrow> string" where
  "file_hash_display h = take 12 (file_hash_to_hex h)"

datatype EntryKind = File | Directory

record FileMetadata =
  fm_path :: FilePath
  fm_folder_id :: FolderId
  fm_kind :: EntryKind
  fm_mtime :: i64
  fm_size :: i64
  fm_hash :: FileHash
  fm_device_id :: DeviceId
  fm_version :: i64
  fm_local_version :: i64
  fm_remote_version :: i64
  fm_local_mtime :: i64
  fm_remote_mtime :: i64

record SnapshotEntry =
  se_path :: FilePath
  se_kind :: EntryKind
  se_size :: u64
  se_hash :: FileHash
  se_version :: FileVersion
  se_mtime :: i64

record Snapshot =
  snap_folder_id :: FolderId
  snap_generation :: u64
  snap_entries :: "SnapshotEntry list"

definition snapshot_new :: "FolderId \<Rightarrow> u64 \<Rightarrow> Snapshot" where
  "snapshot_new folder_id generation =
     \<lparr>snap_folder_id = folder_id, snap_generation = generation, snap_entries = []\<rparr>"

definition snapshot_find :: "Snapshot \<Rightarrow> FilePath \<Rightarrow> SnapshotEntry option" where
  "snapshot_find s path = find (\<lambda>e. se_path e = path) (snap_entries s)"

definition snapshot_len :: "Snapshot \<Rightarrow> nat" where
  "snapshot_len s = length (snap_entries s)"

definition snapshot_is_empty :: "Snapshot \<Rightarrow> bool" where
  "snapshot_is_empty s \<longleftrightarrow> snap_entries s = []"

record Tombstone =
  tomb_path :: FilePath
  tomb_folder_id :: FolderId
  tomb_device_id :: DeviceId
  tomb_deleted_at :: u64

datatype SyncOperation =
    Upload FilePath FileVersion u64
  | Download FilePath FileVersion u64
  | Delete FilePath
  | Conflict FilePath FileVersion FileVersion

fun op_path :: "SyncOperation \<Rightarrow> FilePath" where
  "op_path (Upload p _ _) = p"
| "op_path (Download p _ _) = p"
| "op_path (Delete p) = p"
| "op_path (Conflict p _ _) = p"

record SyncPlan =
  uploads :: "SyncOperation list"
  downloads :: "SyncOperation list"
  deletes :: "SyncOperation list"
  conflicts :: "SyncOperation list"

definition plan_new :: SyncPlan where
  "plan_new = \<lparr>uploads = [], downloads = [], deletes = [], conflicts = []\<rparr>"

definition plan_len :: "SyncPlan \<Rightarrow> nat" where
  "plan_len p = length (uploads p) + length (downloads p) + length (deletes p)
     + length (conflicts p)"

definition plan_is_empty :: "SyncPlan \<Rightarrow> bool" where
  "plan_is_empty p \<longleftrightarrow> plan_len p = 0"

lemma plan_is_empty_iff: "plan_is_empty p \<longleftrightarrow> p = plan_new"
  by (cases p) (auto simp: plan_is_empty_def plan_len_def plan_new_def)

record ConflictInfo =
  cf_path :: FilePath
  cf_folder_id :: FolderId
  cf_local_version :: FileVersion
  cf_remote_version :: FileVersion
  cf_local_device :: DeviceId
  cf_remote_device :: DeviceId

datatype ConflictResolution = KeepLocal | KeepRemote | PreserveBoth | Deferred

section \<open>Properties\<close>

text \<open>C27. On well-formed versions (hash maps with distinct keys) \<open>dominates\<close>, two loops
  with early returns over the maps, holds exactly when every counter is at least the other's and
  some counter is greater, and \<open>concurrent\<close> exactly when the counters are all equal or each
  side is ahead on some device.\<close>

theorem dominates_product_order:
  assumes "wf_version a" and "wf_version b"
  shows "(dominates a b \<longleftrightarrow> (\<forall>d. version_get b d \<le> version_get a d) \<and>
      (\<exists>d. version_get b d < version_get a d)) \<and>
    (concurrent a b \<longleftrightarrow> (\<forall>d. version_get a d = version_get b d) \<or>
      (\<exists>d. version_get a d < version_get b d) \<and> (\<exists>d. version_get b d < version_get a d))"
  unfolding concurrent_def dominates_iff [OF assms] dominates_iff [OF assms(2,1)]
  by (metis linorder_less_linear order_less_imp_le order_le_less not_le)

theorem dominates_product_order_witness:
  "dominates \<lparr>versions = [(''a'', 2), (''b'', 1)]\<rparr> \<lparr>versions = [(''a'', 1)]\<rparr> \<and>
   (\<exists>d. version_get \<lparr>versions = [(''a'', 1)]\<rparr> d < version_get \<lparr>versions = [(''a'', 2), (''b'', 1)]\<rparr> d)"
  using dominates_product_order
      [of "\<lparr>versions = [(''a'', 2), (''b'', 1)]\<rparr>" "\<lparr>versions = [(''a'', 1)]\<rparr>"]
  by (simp add: wf_version_def hm_wf_def dominates_def version_get_def)

text \<open>Any two well-formed versions are in exactly one of three relations: the first
  dominates, the second dominates, or they are concurrent; and domination is transitive. The
  reconciler's three-way decision therefore never depends on the order of its tests.\<close>

theorem versions_trichotomy:
  assumes "wf_version a" and "wf_version b" and "wf_version c"
  shows "((dominates a b \<and> \<not> dominates b a \<and> \<not> concurrent a b) \<or>
      (\<not> dominates a b \<and> dominates b a \<and> \<not> concurrent a b) \<or>
      (\<not> dominates a b \<and> \<not> dominates b a \<and> concurrent a b)) \<and>
    \<not> (dominates a b \<and> dominates b c \<and> \<not> dominates a c)"
  using fv.trichotomy [OF assms(1,2)] fv.gt_trans [OF assms] by blast

theorem versions_trichotomy_witness:
  "dominates (version_single ''a'' 3) (version_single ''a'' 1) \<and>
   \<not> concurrent (version_single ''a'' 3) (version_single ''a'' 1)"
  using versions_trichotomy
      [of "version_single ''a'' 3" "version_single ''a'' 1" "version_single ''a'' 0"]
  by (simp add: dominates_single_iff)

text \<open>C30. Bumping a device's counter yields a version that dominates the old one, except at
  \<open>u64::MAX\<close>: there a build with overflow checks panics, and one without wraps to 0, so
  that the old version dominates the bumped one.\<close>

theorem bump_dominates_unless_max:
  assumes "wf_version v"
  shows "if version_get v d = - 1
    then version_bump True v d = None \<and> (\<exists>w. version_bump False v d = Some w \<and> dominates v w)
    else (\<exists>w. version_bump checks v d = Some w \<and> dominates w v)"
proof (cases "version_get v d = - 1")
  case True
  then obtain w where w: "version_bump False v d = Some w"
    by (simp add: version_bump_def)
  have "dominates v w"
    using True assms wf_version_bump [OF assms w] version_get_bump [OF w]
    by (auto simp: dominates_iff word_gt_0 intro!: exI [of _ d])
  with True w show ?thesis by (simp add: version_bump_def)
next
  case False
  then obtain w where w: "version_bump checks v d = Some w"
    by (simp add: version_bump_def)
  have "version_get v d < version_get v d + 1"
    by (rule word_less_plus_one [OF False])
  then have "dominates w v"
    using assms wf_version_bump [OF assms w] version_get_bump [OF w]
    by (auto simp: dominates_iff intro!: exI [of _ d])
  with False w show ?thesis by simp
qed

theorem bump_dominates_unless_max_witness:
  "\<exists>w. version_bump True (version_single ''a'' 7) ''a'' = Some w \<and>
     dominates w (version_single ''a'' 7)"
  using bump_dominates_unless_max [of "version_single ''a'' 7" "''a''" True] by simp

end
