(* ===== verification/Reconciler.thy ===== *)
theory Reconciler
  imports Domain
begin

text \<open>
  The pure reconciler of \<open>ferrisync-core/src/sync/reconciler.rs\<close>. \<open>reconcile\<close> folds
  over the set of known paths and pushes operations onto a plan; the iteration order of the
  \<open>HashSet\<close> of paths is the parameter \<open>iter\<close>, of which only \<open>hashset_iter\<close> is
  assumed. \<open>decide\<close> is the specification: the operation one path calls for. The
  theorems relate the plan to \<open>decide\<close> path by path and show that the two peers of a
  session compute mirrored plans.
\<close>

section \<open>The model\<close>

text \<open>\<open>entries.iter().map(|e| (&e.path, e)).collect()\<close>: a later entry replaces an
  earlier one with the same path.\<close>

definition entry_map :: "SnapshotEntry list \<Rightarrow> FilePath \<Rightarrow> SnapshotEntry option" where
  "entry_map es = map_of (rev (map (\<lambda>e. (se_path e, e)) es))"

definition all_paths :: "Snapshot \<Rightarrow> Snapshot \<Rightarrow> FilePath list" where
  "all_paths local remote =
     map se_path (snap_entries local) @ map se_path (snap_entries remote)"

definition tombstoned :: "Tombstone list \<Rightarrow> FilePath \<Rightarrow> bool" where
  "tombstoned ts path \<longleftrightarrow> path \<in> set (map tomb_path ts)"

definition push_upload :: "SyncOperation \<Rightarrow> SyncPlan \<Rightarrow> SyncPlan" where
  "push_upload op plan = plan\<lparr>uploads := uploads plan @ [op]\<rparr>"

definition push_download :: "SyncOperation \<Rightarrow> SyncPlan \<Rightarrow> SyncPlan" where
  "push_download op plan = plan\<lparr>downloads := downloads plan @ [op]\<rparr>"

definition push_conflict :: "SyncOperation \<Rightarrow> SyncPlan \<Rightarrow> SyncPlan" where
  "push_conflict op plan = plan\<lparr>conflicts := conflicts plan @ [op]\<rparr>"

text \<open>The body of the loop over all paths.\<close>

definition reconcile_path ::
  "(FilePath \<Rightarrow> SnapshotEntry option) \<Rightarrow> (FilePath \<Rightarrow> SnapshotEntry option) \<Rightarrow>
   (FilePath \<Rightarrow> bool) \<Rightarrow> (FilePath \<Rightarrow> bool) \<Rightarrow> FilePath \<Rightarrow> SyncPlan \<Rightarrow> SyncPlan" where
  "reconcile_path local_map remote_map local_deleted remote_deleted path plan =
     (case (local_map path, remote_map path) of
        (Some local_e, Some remote_e) \<Rightarrow>
          if se_hash local_e = se_hash remote_e then plan
          else if dominates (se_version local_e) (se_version remote_e)
          then push_upload (Upload path (se_version local_e) (se_size local_e)) plan
          else if dominates (se_version remote_e) (se_version local_e)
          then push_download (Download path (se_version remote_e) (se_size remote_e)) plan
          else push_conflict (Conflict path (se_version local_e) (se_version remote_e)) plan
      | (Some local_e, None) \<Rightarrow>
          if remote_deleted path
          then push_conflict (Conflict path (se_version local_e) version_new) plan
          else push_upload (Upload path (se_version local_e) (se_size local_e)) plan
      | (None, Some remote_e) \<Rightarrow>
          if local_deleted path
          then push_conflict (Conflict path version_new (se_version remote_e)) plan
          else push_download (Download path (se_version remote_e) (se_size remote_e)) plan
      | (None, None) \<Rightarrow> plan)"

definition reconcile ::
  "(FilePath list \<Rightarrow> FilePath list) \<Rightarrow> Snapshot \<Rightarrow> Snapshot \<Rightarrow> Tombstone list \<Rightarrow>
   Tombstone list \<Rightarrow> SyncPlan" where
  "reconcile iter local remote local_tombstones remote_tombstones =
     fold (reconcile_path (entry_map (snap_entries local)) (entry_map (snap_entries remote))
             (tombstoned local_tombstones) (tombstoned remote_tombstones))
       (iter (all_paths local remote)) plan_new"

text \<open>What iteration over a \<open>HashSet\<close> guarantees: every inserted element exactly once,
  in an unspecified order.\<close>

definition hashset_iter :: "('a list \<Rightarrow> 'a list) \<Rightarrow> bool" where
  "hashset_iter iter \<longleftrightarrow> (\<forall>xs. distinct (iter xs) \<and> set (iter xs) = set xs)"

lemma hashset_iter_remdups: "hashset_iter remdups"
  by (simp add: hashset_iter_def)

section \<open>The specification: one operation per path\<close>

definition decide ::
  "(FilePath \<Rightarrow> SnapshotEntry option) \<Rightarrow> (FilePath \<Rightarrow> SnapshotEntry option) \<Rightarrow>
   (FilePath \<Rightarrow> bool) \<Rightarrow> (FilePath \<Rightarrow> bool) \<Rightarrow> FilePath \<Rightarrow> SyncOperation option" where
  "decide lm rm ld rd p =
     (case lm p of
        None \<Rightarrow> (case rm p of
            None \<Rightarrow> None
          | Some r \<Rightarrow> Some (if ld p then Conflict p version_new (se_version r)
                            else Download p (se_version r) (se_size r)))
      | Some l \<Rightarrow> (case rm p of
            None \<Rightarrow> Some (if rd p then Conflict p (se_version l) version_new
                           else Upload p (se_version l) (se_size l))
          | Some r \<Rightarrow>
              if se_hash l = se_hash r then None
              else if dominates (se_version l) (se_version r)
              then Some (Upload p (se_version l) (se_size l))
              else if dominates (se_version r) (se_version l)
              then Some (Download p (se_version r) (se_size r))
              else Some (Conflict p (se_version l) (se_version r))))"

fun is_upload :: "SyncOperation \<Rightarrow> bool" where
  "is_upload (Upload _ _ _) = True"
| "is_upload _ = False"

fun is_download :: "SyncOperation \<Rightarrow> bool" where
  "is_download (Download _ _ _) = True"
| "is_download _ = False"

fun is_conflict :: "SyncOperation \<Rightarrow> bool" where
  "is_conflict (Conflict _ _ _) = True"
| "is_conflict _ = False"

definition decisions ::
  "(FilePath list \<Rightarrow> FilePath list) \<Rightarrow> Snapshot \<Rightarrow> Snapshot \<Rightarrow> Tombstone list \<Rightarrow>
   Tombstone list \<Rightarrow> SyncOperation list" where
  "decisions iter l r lt rt =
     List.map_filter (decide (entry_map (snap_entries l)) (entry_map (snap_entries r))
       (tombstoned lt) (tombstoned rt)) (iter (all_paths l r))"

lemma decide_path: "decide lm rm ld rd p = Some op \<Longrightarrow> op_path op = p"
  by (auto simp: decide_def split: option.splits if_splits)

text \<open>The fold over the paths is the list of decisions, sorted into the plan's lists.\<close>

lemma fold_reconcile_path:
  "fold (reconcile_path lm rm ld rd) ps plan =
     \<lparr>uploads = uploads plan @ filter is_upload (List.map_filter (decide lm rm ld rd) ps),
      downloads = downloads plan @ filter is_download (List.map_filter (decide lm rm ld rd) ps),
      deletes = deletes plan,
      conflicts = conflicts plan @ filter is_conflict (List.map_filter (decide lm rm ld rd) ps)\<rparr>"
proof (induction ps arbitrary: plan)
  case Nil
  then show ?case by simp
next
  case (Cons p ps)
  show ?case
    by (simp only: fold_simps Cons.IH)
      (auto simp: List.map_filter_simps reconcile_path_def decide_def push_upload_def
        push_download_def push_conflict_def split: option.splits)
qed

lemma reconcile_eq_decisions:
  "reconcile iter l r lt rt =
     \<lparr>uploads = filter is_upload (decisions iter l r lt rt),
      downloads = filter is_download (decisions iter l r lt rt),
      deletes = [],
      conflicts = filter is_conflict (decisions iter l r lt rt)\<rparr>"
  by (simp add: reconcile_def fold_reconcile_path decisions_def plan_new_def)

lemmas reconcile_sel [simp] =
  arg_cong [where f = uploads, OF reconcile_eq_decisions, simplified]
  arg_cong [where f = downloads, OF reconcile_eq_decisions, simplified]
  arg_cong [where f = deletes, OF reconcile_eq_decisions, simplified]
  arg_cong [where f = conflicts, OF reconcile_eq_decisions, simplified]

section \<open>Facts about entry maps\<close>

lemma entry_map_None_iff: "entry_map es p = None \<longleftrightarrow> p \<notin> se_path ` set es"
  by (auto simp: entry_map_def map_of_eq_None_iff image_iff)

lemma entry_map_SomeD: "entry_map es p = Some e \<Longrightarrow> e \<in> set es \<and> se_path e = p"
  by (auto simp: entry_map_def dest!: map_of_SomeD)

lemma entry_map_distinct:
  assumes "distinct (map se_path es)"
  shows "entry_map es p = find (\<lambda>e. se_path e = p) es"
proof (cases "find (\<lambda>e. se_path e = p) es")
  case None
  then have "entry_map es p = None"
    by (auto simp: find_None_iff entry_map_None_iff)
  with None show ?thesis by simp
next
  case (Some e)
  then have e: "e \<in> set es" "se_path e = p" by (auto dest: find_SomeD)
  have "distinct (map fst (rev (map (\<lambda>e. (se_path e, e)) es)))"
    using assms by (simp add: rev_map [symmetric] comp_def)
  with e have "entry_map es p = Some e"
    unfolding entry_map_def by (subst map_of_eq_Some_iff) auto
  with Some show ?thesis by simp
qed

lemma decide_in_paths:
  "decide (entry_map (snap_entries l)) (entry_map (snap_entries r)) ld rd p = Some op \<Longrightarrow>
     p \<in> set (all_paths l r)"
  by (auto simp: decide_def all_paths_def entry_map_None_iff split: option.splits if_splits
      dest: entry_map_SomeD)

lemma set_decisions:
  assumes "hashset_iter iter"
  shows "op \<in> set (decisions iter l r lt rt) \<longleftrightarrow>
    decide (entry_map (snap_entries l)) (entry_map (snap_entries r))
      (tombstoned lt) (tombstoned rt) (op_path op) = Some op"
  using assms by (auto simp: decisions_def set_map_filter hashset_iter_def
      dest: decide_path decide_in_paths)

lemma distinct_map_filter_paths:
  "distinct ps \<Longrightarrow> distinct (map op_path (List.map_filter (decide lm rm ld rd) ps))"
  by (induction ps) (fastforce simp: List.map_filter_simps set_map_filter split: option.splits
      dest: decide_path)+

lemma distinct_decisions:
  "hashset_iter iter \<Longrightarrow> distinct (map op_path (decisions iter l r lt rt))"
  by (simp add: decisions_def distinct_map_filter_paths hashset_iter_def)

section \<open>Mirrored plans\<close>

fun mirror_op :: "SyncOperation \<Rightarrow> SyncOperation" where
  "mirror_op (Upload p v s) = Download p v s"
| "mirror_op (Download p v s) = Upload p v s"
| "mirror_op (Delete p) = Delete p"
| "mirror_op (Conflict p a b) = Conflict p b a"

lemma mirror_op_simps [simp]:
  "op_path (mirror_op op) = op_path op" "mirror_op (mirror_op op) = op"
  "is_upload (mirror_op op) = is_download op" "is_download (mirror_op op) = is_upload op"
  "is_conflict (mirror_op op) = is_conflict op"
  by (cases op; simp)+

definition wf_snapshot :: "Snapshot \<Rightarrow> bool" where
  "wf_snapshot s \<longleftrightarrow> (\<forall>e \<in> set (snap_entries s). wf_version (se_version e))"

lemma wf_snapshot_entry:
  "wf_snapshot s \<Longrightarrow> entry_map (snap_entries s) p = Some e \<Longrightarrow> wf_version (se_version e)"
  by (auto simp: wf_snapshot_def dest: entry_map_SomeD)

lemma decide_mirror:
  assumes "\<And>a b. lm p = Some a \<Longrightarrow> rm p = Some b \<Longrightarrow>
    wf_version (se_version a) \<and> wf_version (se_version b)"
  shows "decide rm lm rd ld p = map_option mirror_op (decide lm rm ld rd p)"
  using assms fv.gt_asym by (auto simp: decide_def split: option.splits)

lemma set_decisions_mirror:
  assumes "hashset_iter iter" and "hashset_iter iter'" and "wf_snapshot l" and "wf_snapshot r"
  shows "set (decisions iter' r l rt lt) = mirror_op ` set (decisions iter l r lt rt)"
proof -
  have eq: "decide (entry_map (snap_entries r)) (entry_map (snap_entries l))
        (tombstoned rt) (tombstoned lt) p =
      map_option mirror_op (decide (entry_map (snap_entries l)) (entry_map (snap_entries r))
        (tombstoned lt) (tombstoned rt) p)" for p
    by (rule decide_mirror) (use assms(3,4) wf_snapshot_entry in blast)
  show ?thesis
  proof (rule set_eqI)
    fix op
    have "op \<in> set (decisions iter' r l rt lt) \<longleftrightarrow> mirror_op op \<in> set (decisions iter l r lt rt)"
      by (auto simp: set_decisions [OF assms(1)] set_decisions [OF assms(2)] eq)
    also have "\<dots> \<longleftrightarrow> op \<in> mirror_op ` set (decisions iter l r lt rt)"
      by (metis (no_types, lifting) image_iff mirror_op_simps(2))
    finally show "op \<in> set (decisions iter' r l rt lt) \<longleftrightarrow>
        op \<in> mirror_op ` set (decisions iter l r lt rt)" .
  qed
qed

lemma plan_mirror_sets:
  assumes "hashset_iter iter" and "hashset_iter iter'" and "wf_snapshot l" and "wf_snapshot r"
  shows "set (downloads (reconcile iter' r l rt lt)) = mirror_op ` set (uploads (reconcile iter l r lt rt))"
    and "set (uploads (reconcile iter' r l rt lt)) = mirror_op ` set (downloads (reconcile iter l r lt rt))"
    and "set (conflicts (reconcile iter' r l rt lt)) = mirror_op ` set (conflicts (reconcile iter l r lt rt))"
  using set_decisions_mirror [OF assms] by (auto simp: image_iff)

section \<open>Properties\<close>

lemma filter_path_distinct:
  "distinct (map op_path ops) \<Longrightarrow> op \<in> set ops \<Longrightarrow>
     filter (\<lambda>x. op_path x = op_path op) ops = [op]"
proof (induction ops)
  case (Cons a ops)
  then show ?case
    by (cases "op = a") (auto simp: filter_empty_conv image_iff)
qed simp

lemma filter_path_decisions:
  assumes "hashset_iter iter"
  shows "filter (\<lambda>op. op_path op = p) (decisions iter l r lt rt) =
    (case decide (entry_map (snap_entries l)) (entry_map (snap_entries r))
       (tombstoned lt) (tombstoned rt) p of None \<Rightarrow> [] | Some op \<Rightarrow> [op])"
proof (cases "decide (entry_map (snap_entries l)) (entry_map (snap_entries r))
    (tombstoned lt) (tombstoned rt) p")
  case None
  then show ?thesis by (auto simp: filter_empty_conv set_decisions [OF assms])
next
  case (Some op)
  then have "op \<in> set (decisions iter l r lt rt)" "op_path op = p"
    using decide_path by (auto simp: set_decisions [OF assms])
  with filter_path_distinct [OF distinct_decisions [OF assms] this(1)] Some
  show ?thesis by simp
qed

lemma decide_kind:
  "decide lm rm ld rd p = Some op \<Longrightarrow> is_upload op \<or> is_download op \<or> is_conflict op"
  by (auto simp: decide_def split: option.splits if_splits)

lemma op_kinds_partition:
  "is_upload op \<or> is_download op \<or> is_conflict op \<Longrightarrow>
     filter is_upload [op] @ filter is_download [op] @ filter is_conflict [op] = [op]"
  by (cases op) simp_all

text \<open>C5. For every path the plan holds exactly the operation that the specification
  \<open>decide\<close> prescribes for it, once, in the list of its kind, and no operation otherwise,
  whatever the iteration order of the path set; deletions are never planned.\<close>

theorem reconcile_exact:
  assumes "hashset_iter iter"
  shows "filter (\<lambda>op. op_path op = p)
      (uploads (reconcile iter l r lt rt) @ downloads (reconcile iter l r lt rt) @
       deletes (reconcile iter l r lt rt) @ conflicts (reconcile iter l r lt rt)) =
    (case decide (entry_map (snap_entries l)) (entry_map (snap_entries r))
       (tombstoned lt) (tombstoned rt) p of None \<Rightarrow> [] | Some op \<Rightarrow> [op]) \<and>
    (\<forall>op. (op \<in> set (uploads (reconcile iter l r lt rt)) \<longrightarrow> is_upload op) \<and>
      (op \<in> set (downloads (reconcile iter l r lt rt)) \<longrightarrow> is_download op) \<and>
      (op \<in> set (conflicts (reconcile iter l r lt rt)) \<longrightarrow> is_conflict op)) \<and>
    deletes (reconcile iter l r lt rt) = []"
proof -
  define ds where "ds = filter (\<lambda>op. op_path op = p) (decisions iter l r lt rt)"
  have swap: "filter (\<lambda>op. op_path op = p) (filter k (decisions iter l r lt rt)) = filter k ds" for k
    unfolding ds_def filter_filter by (rule filter_cong) auto
  have ds: "ds = [] \<or> (\<exists>op. ds = [op] \<and> (is_upload op \<or> is_download op \<or> is_conflict op))"
    unfolding ds_def filter_path_decisions [OF assms]
    by (auto split: option.splits dest: decide_kind)
  have "filter is_upload ds @ filter is_download ds @ filter is_conflict ds = ds"
    using ds by (elim disjE [of "ds = []"] exE conjE) (simp, simp only: op_kinds_partition)
  then have "filter (\<lambda>op. op_path op = p)
      (uploads (reconcile iter l r lt rt) @ downloads (reconcile iter l r lt rt) @
       deletes (reconcile iter l r lt rt) @ conflicts (reconcile iter l r lt rt)) = ds"
    by (simp only: reconcile_sel filter_append swap filter.simps append_Nil)
  then show ?thesis
    unfolding filter_path_decisions [OF assms, symmetric] ds_def by simp
qed

text \<open>C10. The two peers compute mirrored plans: what one uploads the other downloads, and both
  see the same conflicts with the sides exchanged, for any iteration orders on the two machines.\<close>

theorem reconcile_mirror:
  assumes "hashset_iter iter" and "hashset_iter iter'" and "wf_snapshot l" and "wf_snapshot r"
  shows "set (downloads (reconcile iter' r l rt lt)) =
      mirror_op ` set (uploads (reconcile iter l r lt rt)) \<and>
    set (uploads (reconcile iter' r l rt lt)) =
      mirror_op ` set (downloads (reconcile iter l r lt rt)) \<and>
    set (conflicts (reconcile iter' r l rt lt)) =
      mirror_op ` set (conflicts (reconcile iter l r lt rt))"
  by (intro conjI plan_mirror_sets [OF assms])

text \<open>The plan is empty exactly when both snapshots hold the same paths with the same
  content hashes; versions, sizes, times and tombstones then play no role.\<close>

theorem reconcile_empty_iff:
  assumes "hashset_iter iter"
  shows "plan_is_empty (reconcile iter l r lt rt) \<longleftrightarrow>
    (\<forall>p. map_option se_hash (entry_map (snap_entries l) p) =
      map_option se_hash (entry_map (snap_entries r) p))"
proof -
  have "plan_is_empty (reconcile iter l r lt rt) \<longleftrightarrow> decisions iter l r lt rt = []"
  proof -
    have "\<exists>op. op \<in> set ds \<and> (is_upload op \<or> is_download op \<or> is_conflict op)"
      if "ds \<noteq> []" "ds = decisions iter l r lt rt" for ds
      using that set_decisions [OF assms, of "hd ds" l r lt rt] decide_kind
      by (metis list.set_sel(1))
    then show ?thesis
      by (auto simp: plan_is_empty_def plan_len_def filter_empty_conv)
  qed
  also have "\<dots> \<longleftrightarrow> (\<forall>p. decide (entry_map (snap_entries l)) (entry_map (snap_entries r))
      (tombstoned lt) (tombstoned rt) p = None)"
    using set_decisions [OF assms, of _ l r lt rt] decide_path
    by (metis (no_types, lifting) list.set_intros(1) neq_Nil_conv not_None_eq empty_iff list.set(1))
  also have "\<dots> \<longleftrightarrow> (\<forall>p. map_option se_hash (entry_map (snap_entries l) p) =
      map_option se_hash (entry_map (snap_entries r) p))"
    by (rule iff_allI) (auto simp: decide_def split: option.splits)
  finally show ?thesis .
qed

text \<open>Two snapshots that differ in every way the reconciler distinguishes.\<close>

definition example_entry :: "string \<Rightarrow> u8 \<Rightarrow> FileVersion \<Rightarrow> SnapshotEntry" where
  "example_entry p h v = \<lparr>se_path = p, se_kind = File, se_size = 1, se_hash = [h],
     se_version = v, se_mtime = 0\<rparr>"

definition example_local :: Snapshot where
  "example_local = \<lparr>snap_folder_id = 1, snap_generation = 0, snap_entries =
     [example_entry ''same'' 1 (version_single ''a'' 1), example_entry ''up'' 2 (version_single ''a'' 2),
      example_entry ''down'' 3 (version_single ''a'' 1), example_entry ''both'' 4 (version_single ''a'' 1),
      example_entry ''mine'' 5 (version_single ''a'' 1)]\<rparr>"

definition example_remote :: Snapshot where
  "example_remote = \<lparr>snap_folder_id = 1, snap_generation = 0, snap_entries =
     [example_entry ''same'' 1 (version_single ''b'' 9), example_entry ''up'' 6 (version_single ''a'' 1),
      example_entry ''down'' 7 (version_single ''a'' 2), example_entry ''both'' 8 (version_single ''b'' 1),
      example_entry ''theirs'' 9 (version_single ''b'' 1)]\<rparr>"

lemmas example_simps = example_local_def example_remote_def example_entry_def

lemma example_wf: "wf_snapshot example_local" "wf_snapshot example_remote"
  by (simp_all add: example_simps wf_snapshot_def)

lemma example_plan:
  "map op_path (uploads (reconcile remdups example_local example_remote [] [])) = [''mine'', ''up'']"
  "map op_path (downloads (reconcile remdups example_local example_remote [] [])) = [''down'', ''theirs'']"
  "map op_path (conflicts (reconcile remdups example_local example_remote [] [])) = [''both'']"
  by code_simp+

theorem reconcile_exact_witness:
  "filter (\<lambda>op. op_path op = ''up'')
      (uploads (reconcile remdups example_local example_remote [] []) @
       downloads (reconcile remdups example_local example_remote [] []) @
       deletes (reconcile remdups example_local example_remote [] []) @
       conflicts (reconcile remdups example_local example_remote [] [])) =
    [Upload ''up'' (version_single ''a'' 2) 1]"
proof -
  have "decide (entry_map (snap_entries example_local)) (entry_map (snap_entries example_remote))
      (tombstoned []) (tombstoned []) ''up'' = Some (Upload ''up'' (version_single ''a'' 2) 1)"
    by code_simp
  then show ?thesis
    using conjunct1 [OF reconcile_exact [OF hashset_iter_remdups,
          of "''up''" example_local example_remote "[]" "[]"]]
    by (simp only: option.case)
qed

theorem reconcile_mirror_witness:
  "op_path ` set (downloads (reconcile remdups example_remote example_local [] [])) =
    {''mine'', ''up''}"
proof -
  have "op_path ` mirror_op ` ops = op_path ` ops" for ops
    by (simp add: image_image)
  moreover have "op_path ` set (uploads (reconcile remdups example_local example_remote [] [])) =
      {''mine'', ''up''}"
    using arg_cong [OF example_plan(1), of set] by (simp only: set_map list.set)
  ultimately show ?thesis
    using reconcile_mirror [OF hashset_iter_remdups hashset_iter_remdups example_wf, of "[]" "[]"]
    by metis
qed

theorem reconcile_empty_iff_witness:
  "plan_is_empty (reconcile remdups example_local example_local [] []) \<and>
   \<not> plan_is_empty (reconcile remdups example_local example_remote [] [])"
proof -
  have "\<not> plan_is_empty (reconcile remdups example_local example_remote [] [])"
    by code_simp
  then show ?thesis
    using reconcile_empty_iff [OF hashset_iter_remdups, of example_local example_local "[]" "[]"] by simp
qed

end
