(* ===== verification/Protocol.thy ===== *)
theory Protocol
  imports Domain
begin

text \<open>
  The wire protocol: the Hello handshake (\<open>protocol_v2/hello.rs\<close>), the shared-folder
  messages (\<open>protocol_v2/shared.rs\<close>), the message type and its length-prefixed frames
  (\<open>protocol/mod.rs\<close>), and reading a frame from a connection that delivers bytes in
  segments of any size (\<open>sync_engine/session.rs\<close>, \<open>sync_engine/shared_folder.rs\<close>).
  The serialisation library (bincode) is a pair of parameters \<open>ser\<close> and \<open>deser\<close>.
\<close>

section \<open>Hello\<close>

definition PROTOCOL_VERSION :: u32 where
  "PROTOCOL_VERSION = 3"

definition MAX_HELLO_FOLDERS :: nat where
  "MAX_HELLO_FOLDERS = 256"

record HelloFolder =
  hf_id :: string
  hf_name :: string
  hf_direction :: string

record Hello =
  hello_protocol_version :: u32
  hello_device_id :: string
  hello_device_name :: string
  hello_cert_fingerprint :: bytes
  hello_folders :: "HelloFolder list"

record DeviceInfo =
  di_id :: DeviceId
  di_name :: string
  di_cert_fingerprint :: bytes

datatype HelloError =
    VersionMismatch u32 u32
  | EmptyDeviceId
  | DeviceIdTooLong nat nat
  | TooManyFolders nat nat
  | EmptyFolderName nat

fun validate_folders :: "nat \<Rightarrow> HelloFolder list \<Rightarrow> HelloError + unit" where
  "validate_folders i [] = Inr ()"
| "validate_folders i (f # fs) =
     (if hf_name f = [] then Inl (EmptyFolderName i) else validate_folders (Suc i) fs)"

definition hello_validate :: "Hello \<Rightarrow> HelloError + unit" where
  "hello_validate h =
     (if PROTOCOL_VERSION < hello_protocol_version h
      then Inl (VersionMismatch (hello_protocol_version h) PROTOCOL_VERSION)
      else if hello_device_id h = [] then Inl EmptyDeviceId
      else if 128 < length (hello_device_id h)
      then Inl (DeviceIdTooLong (length (hello_device_id h)) 128)
      else if MAX_HELLO_FOLDERS < length (hello_folders h)
      then Inl (TooManyFolders (length (hello_folders h)) MAX_HELLO_FOLDERS)
      else validate_folders 0 (hello_folders h))"

definition hello_from_device :: "DeviceInfo \<Rightarrow> bytes \<Rightarrow> HelloFolder list \<Rightarrow> Hello" where
  "hello_from_device device crypto_fingerprint folders =
     \<lparr>hello_protocol_version = PROTOCOL_VERSION, hello_device_id = di_id device,
      hello_device_name = di_name device, hello_cert_fingerprint = crypto_fingerprint,
      hello_folders = folders\<rparr>"

lemma validate_folders_ok: "validate_folders i fs = Inr () \<longleftrightarrow> (\<forall>f \<in> set fs. hf_name f \<noteq> [])"
  by (induction i fs rule: validate_folders.induct) auto

lemma validate_folders_err:
  "validate_folders i fs = Inl e \<longleftrightarrow>
     (\<exists>k < length fs. e = EmptyFolderName (i + k) \<and> hf_name (fs ! k) = [] \<and>
        (\<forall>j < k. hf_name (fs ! j) \<noteq> []))"
proof (induction i fs rule: validate_folders.induct)
  case (1 i)
  then show ?case by simp
next
  case (2 i f fs)
  show ?case
  proof (cases "hf_name f = []")
    case True
    then show ?thesis by (auto simp: less_Suc_eq_0_disj)
  next
    case False
    have "(\<exists>k < length fs. e = EmptyFolderName (Suc i + k) \<and> hf_name (fs ! k) = [] \<and>
          (\<forall>j < k. hf_name (fs ! j) \<noteq> [])) \<longleftrightarrow>
        (\<exists>k < length (f # fs). e = EmptyFolderName (i + k) \<and> hf_name ((f # fs) ! k) = [] \<and>
          (\<forall>j < k. hf_name ((f # fs) ! j) \<noteq> []))"
      using False by (fastforce simp: less_Suc_eq_0_disj Ex_less_Suc2 All_less_Suc2)
    with False 2 show ?thesis by simp
  qed
qed

section \<open>Shared folders\<close>

record SharedFolderInfo =
  sfi_folder_guid :: string
  sfi_name :: string
  sfi_mode :: string
  sfi_local_path :: string

definition shared_folder_info_new :: "string \<Rightarrow> string \<Rightarrow> string \<Rightarrow> string \<Rightarrow> SharedFolderInfo" where
  "shared_folder_info_new folder_guid name mode local_path =
     \<lparr>sfi_folder_guid = folder_guid, sfi_name = name, sfi_mode = mode, sfi_local_path = local_path\<rparr>"

record RemoteFolderPair =
  rfp_folder_guid :: string
  rfp_name :: string
  rfp_mode :: string
  rfp_remote_path :: "string option"

record RemoteFolderPairRequest =
  rfr_device_id :: string
  rfr_device_name :: string
  rfr_folder_guid :: string
  rfr_name :: string
  rfr_mode :: string

section \<open>Messages\<close>

definition MAX_CONTROL_FRAME :: nat where
  "MAX_CONTROL_FRAME = 1024 * 1024"

definition MAX_CHUNK_FRAME :: nat where
  "MAX_CHUNK_FRAME = 128 * 1024"

definition MAX_FILE_SIZE :: nat where
  "MAX_FILE_SIZE = 10 * 1024 * 1024 * 1024"

definition MAX_PATH_LEN :: nat where
  "MAX_PATH_LEN = 1024"

definition MAX_FILE_REQUEST_PATHS :: nat where
  "MAX_FILE_REQUEST_PATHS = 1000"

definition MAX_INDEX_ENTRIES :: nat where
  "MAX_INDEX_ENTRIES = 100000"

record PairRequest =
  preq_device_id :: string
  preq_device_name :: string
  preq_cert_fingerprint :: bytes

record PairResponse =
  presp_accepted :: bool
  presp_device_id :: string
  presp_device_name :: string
  presp_cert_fingerprint :: bytes
  presp_reason :: "string option"

record IndexEntry =
  ie_path :: string
  ie_local_version :: u64
  ie_remote_version :: u64
  ie_mtime :: i64
  ie_size :: u64
  ie_hash :: bytes

record Index =
  idx_folder_id :: string
  idx_device_id :: string
  idx_remote_path :: "string option"
  idx_entries :: "IndexEntry list"

record FileRequest =
  freq_folder_id :: string
  freq_paths :: "string list"

record FileChunk =
  ch_folder_id :: string
  ch_path :: string
  ch_offset :: u64
  ch_data :: bytes
  ch_total_size :: u64

record Ack =
  ack_path :: string
  ack_success :: bool
  ack_error :: "string option"

datatype ErrorCode =
  ProtocolVersionMismatch | AuthenticationFailed | FileNotFound | PermissionDenied | InternalError

record ErrorMessage =
  em_code :: ErrorCode
  em_message :: string

datatype SyncMessage =
    MHello Hello
  | MPairRequest PairRequest
  | MPairResponse PairResponse
  | MIndex Index
  | MFileRequest FileRequest
  | MFileChunk FileChunk
  | MAck Ack
  | MError ErrorMessage
  | MListSharedFolders
  | MSharedFolders "SharedFolderInfo list"
  | MRequestFolderPair RemoteFolderPairRequest
  | MFolderPairPending
  | MFolderPairApproved RemoteFolderPair
  | MFolderPairRejected string

section \<open>Frames\<close>

datatype frame_error =
    SerializeFailed
  | FrameTooShort
  | FrameTooLarge nat
  | IncompleteFrame
  | DeserializeFailed
  | ExpectedFileChunk
  | ConnectionClosed

definition frame_message :: "('m \<Rightarrow> bytes option) \<Rightarrow> 'm \<Rightarrow> frame_error + bytes" where
  "frame_message ser msg =
     (case ser msg of
        None \<Rightarrow> Inl SerializeFailed
      | Some payload \<Rightarrow> Inr (to_be_bytes (word_of_nat (length payload)) @ payload))"

text \<open>Both parsers read the 4-byte length, compare it with a limit, and decode the payload.\<close>

definition parse_frame :: "(bytes \<Rightarrow> 'm option) \<Rightarrow> bytes \<Rightarrow> frame_error + 'm \<times> nat" where
  "parse_frame deser data =
     (if length data < 4 then Inl FrameTooShort
      else let len = unat (from_be_bytes (data ! 0) (data ! 1) (data ! 2) (data ! 3)) in
        if MAX_CONTROL_FRAME < len then Inl (FrameTooLarge len)
        else if length data < 4 + len then Inl IncompleteFrame
        else (case deser (take len (drop 4 data)) of
                None \<Rightarrow> Inl DeserializeFailed
              | Some msg \<Rightarrow> Inr (msg, 4 + len)))"

fun is_file_chunk :: "SyncMessage \<Rightarrow> bool" where
  "is_file_chunk (MFileChunk _) = True"
| "is_file_chunk _ = False"

definition parse_chunk_frame ::
  "(bytes \<Rightarrow> SyncMessage option) \<Rightarrow> bytes \<Rightarrow> frame_error + SyncMessage \<times> nat" where
  "parse_chunk_frame deser data =
     (if length data < 4 then Inl FrameTooShort
      else let len = unat (from_be_bytes (data ! 0) (data ! 1) (data ! 2) (data ! 3)) in
        if MAX_CHUNK_FRAME < len then Inl (FrameTooLarge len)
        else if length data < 4 + len then Inl IncompleteFrame
        else (case deser (take len (drop 4 data)) of
                None \<Rightarrow> Inl DeserializeFailed
              | Some msg \<Rightarrow>
                  if \<not> is_file_chunk msg then Inl ExpectedFileChunk else Inr (msg, 4 + len)))"

text \<open>What the code relies on of bincode: decoding an encoded value gives it back.\<close>

definition codec_ok :: "('m \<Rightarrow> bytes option) \<Rightarrow> (bytes \<Rightarrow> 'm option) \<Rightarrow> bool" where
  "codec_ok ser deser \<longleftrightarrow> (\<forall>m b. ser m = Some b \<longrightarrow> deser b = Some m)"

lemma frame_prefix:
  assumes "length payload < 2 ^ 32"
    and "f = to_be_bytes (word_of_nat (length payload)) @ rest"
  shows "unat (from_be_bytes (f ! 0) (f ! 1) (f ! 2) (f ! 3)) = length payload"
proof -
  obtain a b c d where abcd: "to_be_bytes (word_of_nat (length payload)) = [a, b, c, d]"
    by (simp add: to_be_bytes_def)
  have "unat (word_of_nat (length payload) :: u32) = length payload"
    using assms(1) by (simp add: unat_of_nat)
  with assms(2) abcd show ?thesis by (simp add: from_to_be_bytes)
qed

lemma frame_message_ok:
  "frame_message ser m = Inr f \<longleftrightarrow>
     (\<exists>p. ser m = Some p \<and> f = to_be_bytes (word_of_nat (length p)) @ p)"
  by (auto simp: frame_message_def split: option.splits)

lemma parse_frame_framed:
  assumes "length p < 2 ^ 32" and "f = to_be_bytes (word_of_nat (length p)) @ p"
  shows "parse_frame deser (f @ rest) =
    (if MAX_CONTROL_FRAME < length p then Inl (FrameTooLarge (length p))
     else case deser p of None \<Rightarrow> Inl DeserializeFailed | Some m \<Rightarrow> Inr (m, length f))"
  using frame_prefix [OF assms(1), of "f @ rest" "p @ rest"] assms
  by (simp add: parse_frame_def Let_def add.commute cong: option.case_cong)

lemma parse_chunk_frame_framed:
  assumes "length p < 2 ^ 32" and "f = to_be_bytes (word_of_nat (length p)) @ p"
  shows "parse_chunk_frame deser (f @ rest) =
    (if MAX_CHUNK_FRAME < length p then Inl (FrameTooLarge (length p))
     else case deser p of
       None \<Rightarrow> Inl DeserializeFailed
     | Some m \<Rightarrow> if is_file_chunk m then Inr (m, length f) else Inl ExpectedFileChunk)"
  using frame_prefix [OF assms(1), of "f @ rest" "p @ rest"] assms
  by (simp add: parse_chunk_frame_def Let_def split: option.splits)

section \<open>Reading frames from a connection\<close>

text \<open>
  A connection is the list of segments that successive \<open>read\<close> calls can return; a read
  takes at most the requested number of bytes of the first segment, and an empty read means
  the peer closed the connection.
\<close>

fun conn_read :: "nat \<Rightarrow> bytes list \<Rightarrow> bytes \<times> bytes list" where
  "conn_read n [] = ([], [])"
| "conn_read n (seg # segs) =
     (take n seg, if length seg \<le> n then segs else drop n seg # segs)"

function read_exact :: "nat \<Rightarrow> bytes list \<Rightarrow> frame_error + bytes \<times> bytes list" where
  "read_exact n segs =
     (if n = 0 then Inr ([], segs)
      else let (got, segs') = conn_read n segs in
        if got = [] then Inl ConnectionClosed
        else res_bind (read_exact (n - length got) segs')
               (\<lambda>(more, segs''). Inr (got @ more, segs'')))"
  by pat_completeness auto
termination
  by (relation "measure fst") auto

declare read_exact.simps [simp del]

definition read_message ::
  "(bytes \<Rightarrow> 'm option) \<Rightarrow> bytes list \<Rightarrow> frame_error + 'm \<times> bytes list" where
  "read_message deser segs =
     res_bind (read_exact 4 segs) (\<lambda>(len_buf, segs1).
       let len = unat (from_be_bytes (len_buf ! 0) (len_buf ! 1) (len_buf ! 2) (len_buf ! 3)) in
       if MAX_CONTROL_FRAME < len then Inl (FrameTooLarge len)
       else res_bind (read_exact len segs1) (\<lambda>(payload, segs2).
         case deser payload of
           None \<Rightarrow> Inl DeserializeFailed
         | Some m \<Rightarrow> Inr (m, segs2)))"

text \<open>The shared-folder client has its own copy of the same reader.\<close>

definition read_frame ::
  "(bytes \<Rightarrow> 'm option) \<Rightarrow> bytes list \<Rightarrow> frame_error + 'm \<times> bytes list" where
  "read_frame deser segs =
     res_bind (read_exact 4 segs) (\<lambda>(len_buf, segs1).
       let len = unat (from_be_bytes (len_buf ! 0) (len_buf ! 1) (len_buf ! 2) (len_buf ! 3)) in
       if MAX_CONTROL_FRAME < len then Inl (FrameTooLarge len)
       else res_bind (read_exact len segs1) (\<lambda>(payload, segs2).
         case deser payload of
           None \<Rightarrow> Inl DeserializeFailed
         | Some m \<Rightarrow> Inr (m, segs2)))"

lemma read_exact_take:
  assumes "\<forall>s \<in> set segs. s \<noteq> []" and "n \<le> length (concat segs)"
  shows "\<exists>segs'. read_exact n segs = Inr (take n (concat segs), segs') \<and>
    concat segs' = drop n (concat segs) \<and> (\<forall>s \<in> set segs'. s \<noteq> [])"
  using assms
proof (induction n segs rule: read_exact.induct)
  case (1 n segs)
  show ?case
  proof (cases "n = 0")
    case True
    then show ?thesis using "1.prems" by (subst read_exact.simps) auto
  next
    case False
    with "1.prems" obtain seg rest where segs: "segs = seg # rest" and seg: "seg \<noteq> []"
      by (cases segs) auto
    define segs' where "segs' = (if length seg \<le> n then rest else drop n seg # rest)"
    have read: "conn_read n segs = (take n seg, segs')"
      by (simp add: segs segs'_def)
    have got: "take n seg \<noteq> []" using seg False by simp
    have ne: "\<forall>s \<in> set segs'. s \<noteq> []"
      using "1.prems" segs by (auto simp: segs'_def)
    have rest_eq: "concat segs' = drop (length (take n seg)) (concat segs)"
      by (auto simp: segs'_def segs)
    have "n - length (take n seg) \<le> length (concat segs')"
      using "1.prems" by (auto simp: rest_eq)
    from "1.IH" [OF False refl read [symmetric] got ne this]
    obtain segs'' where IH: "read_exact (n - length (take n seg)) segs' =
        Inr (take (n - length (take n seg)) (concat segs'), segs'')"
      "concat segs'' = drop (n - length (take n seg)) (concat segs')" "\<forall>s \<in> set segs''. s \<noteq> []"
      by blast
    have eq: "take n seg @ take (n - length (take n seg)) (concat segs') = take n (concat segs)"
      using nat_le_linear [of n "length seg"]
      by (simp add: rest_eq segs)
    have "read_exact n segs = Inr (take n (concat segs), segs'')"
      using False got by (subst read_exact.simps) (simp add: read IH(1) [simplified] eq [simplified])
    moreover have "concat segs'' = drop n (concat segs)"
      using nat_le_linear [of n "length seg"] by (auto simp: IH(2) rest_eq min_def segs)
    ultimately show ?thesis using IH(3) by blast
  qed
qed

lemma read_message_segments:
  assumes "\<forall>s \<in> set segs. s \<noteq> []" and "concat segs = f @ rest"
    and "f = to_be_bytes (word_of_nat (length p)) @ p" and "length p \<le> MAX_CONTROL_FRAME"
    and "deser p = Some m"
  shows "\<exists>segs'. read_message deser segs = Inr (m, segs') \<and> concat segs' = rest"
proof -
  have len: "length p < 2 ^ 32" using assms(4) by (simp add: MAX_CONTROL_FRAME_def)
  have "4 \<le> length (concat segs)" using assms by simp
  from read_exact_take [OF assms(1) this] obtain segs1 where
    r1: "read_exact 4 segs = Inr (to_be_bytes (word_of_nat (length p)), segs1)"
      "concat segs1 = p @ rest" "\<forall>s \<in> set segs1. s \<noteq> []"
    using assms(2,3) by auto
  have "length p \<le> length (concat segs1)" by (simp add: r1)
  from read_exact_take [OF r1(3) this] obtain segs2 where
    r2: "read_exact (length p) segs1 = Inr (p, segs2)" "concat segs2 = rest"
    using r1(2) by auto
  have "unat (from_be_bytes (b ! 0) (b ! 1) (b ! 2) (b ! 3)) = length p"
    if "b = to_be_bytes (word_of_nat (length p))" for b
    using frame_prefix [OF len, of b "[]"] that by simp
  then show ?thesis
    using r1(1) r2 assms(4,5) by (simp add: read_message_def Let_def)
qed

lemma read_frame_eq: "read_frame = read_message"
  by (simp add: fun_eq_iff read_frame_def read_message_def)

section \<open>Properties\<close>

text \<open>C28. A framed message parses back to itself and the parser consumes exactly the frame,
  whatever follows it, as long as the payload is within the control limit; beyond that limit the
  sender still produces the frame and the receiver refuses it.\<close>

theorem frame_roundtrip:
  assumes "codec_ok ser deser" and "ser m = Some p" and "length p < 2 ^ 32"
  shows "\<exists>f. frame_message ser m = Inr f \<and> length f = length p + 4 \<and>
    parse_frame deser (f @ rest) =
      (if length p \<le> MAX_CONTROL_FRAME then Inr (m, length f)
       else Inl (FrameTooLarge (length p)))"
proof -
  define f where "f = to_be_bytes (word_of_nat (length p)) @ p"
  have "deser p = Some m" using assms(1,2) by (simp add: codec_ok_def)
  moreover have "frame_message ser m = Inr f"
    using assms(2) by (simp add: frame_message_def f_def)
  ultimately show ?thesis
    using parse_frame_framed [OF assms(3) f_def, of deser rest] by (auto simp: f_def)
qed

definition one_byte_ser :: "SyncMessage \<Rightarrow> bytes option" where
  "one_byte_ser m = (case m of MListSharedFolders \<Rightarrow> Some [8] | MFolderPairPending \<Rightarrow> Some [11]
     | _ \<Rightarrow> None)"

definition one_byte_deser :: "bytes \<Rightarrow> SyncMessage option" where
  "one_byte_deser b = (if b = [8] then Some MListSharedFolders
     else if b = [11] then Some MFolderPairPending else None)"

lemma one_byte_codec: "codec_ok one_byte_ser one_byte_deser"
  by (auto simp: codec_ok_def one_byte_ser_def one_byte_deser_def split: SyncMessage.splits)

theorem frame_roundtrip_witness:
  "\<exists>f. frame_message one_byte_ser MListSharedFolders = Inr f \<and> length f = 5 \<and>
     parse_frame one_byte_deser (f @ [1, 2, 3]) = Inr (MListSharedFolders, 5)"
  using frame_roundtrip [OF one_byte_codec, of MListSharedFolders "[8]" "[1, 2, 3]"]
  by (auto simp: one_byte_ser_def MAX_CONTROL_FRAME_def)

text \<open>C29. Reading a message from a connection does not depend on how the bytes are split into
  reads: if the non-empty segments together start with a frame within the limit, the reader
  returns its message and leaves exactly the bytes behind it; both copies of the reader in the
  code (session and shared-folder client) do.\<close>

theorem read_message_any_segmentation:
  assumes "codec_ok ser deser" and "ser m = Some p" and "length p \<le> MAX_CONTROL_FRAME"
    and "frame_message ser m = Inr f" and "concat segs = f @ rest" and "\<forall>s \<in> set segs. s \<noteq> []"
  shows "\<exists>segs'. read_message deser segs = Inr (m, segs') \<and> read_frame deser segs = Inr (m, segs') \<and>
    concat segs' = rest"
proof -
  have "deser p = Some m" using assms(1,2) by (simp add: codec_ok_def)
  moreover have "f = to_be_bytes (word_of_nat (length p)) @ p"
    using assms(2,4) by (simp add: frame_message_ok)
  ultimately show ?thesis
    using read_message_segments [OF assms(6,5) _ assms(3)] by (auto simp: read_frame_eq)
qed

theorem read_message_any_segmentation_witness:
  "\<exists>segs'. read_message one_byte_deser [[0], [0, 0], [1, 8, 42]] = Inr (MListSharedFolders, segs') \<and>
     concat segs' = [42]"
proof -
  have "frame_message one_byte_ser MListSharedFolders = Inr [0, 0, 0, 1, 8]"
    by (simp add: frame_message_def one_byte_ser_def to_be_bytes_def)
  from read_message_any_segmentation [OF one_byte_codec _ _ this,
      of "[8]" "[[0], [0, 0], [1, 8, 42]]" "[42]"]
  show ?thesis by (auto simp: one_byte_ser_def MAX_CONTROL_FRAME_def)
qed

text \<open>A chunk frame is accepted exactly when its payload is within the chunk limit and
  decodes to a file chunk; every other well-framed payload is refused with the matching error.\<close>

theorem chunk_frame_only_chunks:
  assumes "length p < 2 ^ 32" and "f = to_be_bytes (word_of_nat (length p)) @ p"
  shows "(parse_chunk_frame deser (f @ rest) = Inr (m, n) \<longleftrightarrow>
      length p \<le> MAX_CHUNK_FRAME \<and> deser p = Some m \<and> is_file_chunk m \<and> n = length p + 4) \<and>
    (length p \<le> MAX_CHUNK_FRAME \<and> deser p = Some m \<and> \<not> is_file_chunk m \<longrightarrow>
      parse_chunk_frame deser (f @ rest) = Inl ExpectedFileChunk)"
  unfolding parse_chunk_frame_framed [OF assms]
  by (auto simp: assms(2) split: option.splits)

theorem chunk_frame_only_chunks_witness:
  "parse_chunk_frame one_byte_deser ([0, 0, 0, 1, 8] @ []) = Inl ExpectedFileChunk"
  using chunk_frame_only_chunks [of "[8]" "[0, 0, 0, 1, 8]" one_byte_deser "[]" MListSharedFolders 0]
  by (simp add: to_be_bytes_def one_byte_deser_def MAX_CHUNK_FRAME_def)

text \<open>A Hello is accepted exactly when its protocol version is not newer than ours, its
  device id has 1 to 128 bytes, it lists at most 256 folders and none has an empty name; on
  rejection for a folder name the error carries the index of the first such folder.\<close>

theorem hello_validate_exact:
  "(hello_validate h = Inr () \<longleftrightarrow>
      hello_protocol_version h \<le> PROTOCOL_VERSION \<and> hello_device_id h \<noteq> [] \<and>
      length (hello_device_id h) \<le> 128 \<and> length (hello_folders h) \<le> MAX_HELLO_FOLDERS \<and>
      (\<forall>f \<in> set (hello_folders h). hf_name f \<noteq> [])) \<and>
   (hello_validate h = Inl (EmptyFolderName i) \<longleftrightarrow>
      hello_protocol_version h \<le> PROTOCOL_VERSION \<and> hello_device_id h \<noteq> [] \<and>
      length (hello_device_id h) \<le> 128 \<and> length (hello_folders h) \<le> MAX_HELLO_FOLDERS \<and>
      i < length (hello_folders h) \<and> hf_name (hello_folders h ! i) = [] \<and>
      (\<forall>j < i. hf_name (hello_folders h ! j) \<noteq> []))"
  by (simp add: hello_validate_def validate_folders_ok validate_folders_err
      linorder_not_less [symmetric])

theorem hello_validate_exact_witness:
  "hello_validate \<lparr>hello_protocol_version = 2, hello_device_id = ''d'', hello_device_name = ''n'',
     hello_cert_fingerprint = [], hello_folders =
       [\<lparr>hf_id = ''1'', hf_name = ''docs'', hf_direction = ''push''\<rparr>,
        \<lparr>hf_id = ''2'', hf_name = [], hf_direction = ''pull''\<rparr>]\<rparr> = Inl (EmptyFolderName 1)"
  unfolding hello_validate_exact [THEN conjunct2]
  by (simp add: PROTOCOL_VERSION_def MAX_HELLO_FOLDERS_def)

end
