(* ===== verification/Session_State.thy ===== *)
theory Session_State
  imports Prelude
begin

text \<open>
  The session life-cycle machine of \<open>protocol_v2/state_machine.rs\<close>: a record of the current
  state and three counters, one operation per method. A failing method leaves the machine as it
  was. \<open>sm_step\<close> is the step relation of successful calls and \<open>sm_reach\<close> the machines
  reachable from \<open>StateMachine::new\<close> together with the successful calls that led there.
  Counters are \<open>usize\<close> in the source; they count calls and are \<open>nat\<close> here.
\<close>

section \<open>The model\<close>

datatype TransferDirection = DirUpload | DirDownload

datatype SyncEvent =
    HandshakeComplete string string
  | ReadyForIndex
  | IndexReceived string nat nat nat
  | TransferStarted string TransferDirection
  | TransferComplete string TransferDirection
  | TransferFailed string string
  | SessionComplete nat nat nat
  | SessionError string

fun transfer_direction_display :: "TransferDirection \<Rightarrow> string" where
  "transfer_direction_display DirUpload = ''upload''"
| "transfer_direction_display DirDownload = ''download''"

datatype SessionState =
  Handshaking | Active | Reconciling | Transferring | Finalizing | Complete | Error

definition is_terminal :: "SessionState \<Rightarrow> bool" where
  "is_terminal s \<longleftrightarrow> s = Complete \<or> s = Error"

fun session_state_display :: "SessionState \<Rightarrow> string" where
  "session_state_display Handshaking = ''handshaking''"
| "session_state_display Active = ''active''"
| "session_state_display Reconciling = ''reconciling''"
| "session_state_display Transferring = ''transferring''"
| "session_state_display Finalizing = ''finalizing''"
| "session_state_display Complete = ''complete''"
| "session_state_display Error = ''error''"

datatype TransitionError = InvalidTransition SessionState SessionState | AlreadyTerminal

fun transition_error_display :: "TransitionError \<Rightarrow> string" where
  "transition_error_display (InvalidTransition from to) =
     ''cannot transition from '' @ session_state_display from @ '' to '' @ session_state_display to"
| "transition_error_display AlreadyTerminal = ''session is already terminal''"

record StateMachine =
  sm_state :: SessionState
  sm_pushed :: nat
  sm_pulled :: nat
  sm_conflicts :: nat

record SessionStats =
  stat_pushed :: nat
  stat_pulled :: nat
  stat_conflicts :: nat

definition sm_new :: StateMachine where
  "sm_new = \<lparr>sm_state = Handshaking, sm_pushed = 0, sm_pulled = 0, sm_conflicts = 0\<rparr>"

definition require_state :: "StateMachine \<Rightarrow> SessionState \<Rightarrow> TransitionError + unit" where
  "require_state m expected =
     (if sm_state m \<noteq> expected then Inl (InvalidTransition (sm_state m) expected) else Inr ())"

definition on_handshake_complete :: "StateMachine \<Rightarrow> TransitionError + StateMachine" where
  "on_handshake_complete m =
     res_bind (require_state m Handshaking) (\<lambda>_. Inr (m\<lparr>sm_state := Active\<rparr>))"

definition on_index_received :: "StateMachine \<Rightarrow> TransitionError + StateMachine" where
  "on_index_received m =
     res_bind (require_state m Active) (\<lambda>_. Inr (m\<lparr>sm_state := Reconciling\<rparr>))"

definition on_transfer_start :: "StateMachine \<Rightarrow> TransitionError + StateMachine" where
  "on_transfer_start m =
     res_bind (require_state m Reconciling) (\<lambda>_. Inr (m\<lparr>sm_state := Transferring\<rparr>))"

definition on_transfer_complete :: "StateMachine \<Rightarrow> TransitionError + StateMachine" where
  "on_transfer_complete m =
     res_bind (require_state m Transferring) (\<lambda>_. Inr (m\<lparr>sm_state := Finalizing\<rparr>))"

definition record_upload :: "StateMachine \<Rightarrow> StateMachine" where
  "record_upload m = m\<lparr>sm_pushed := sm_pushed m + 1\<rparr>"

definition record_download :: "StateMachine \<Rightarrow> StateMachine" where
  "record_download m = m\<lparr>sm_pulled := sm_pulled m + 1\<rparr>"

definition record_conflict :: "StateMachine \<Rightarrow> StateMachine" where
  "record_conflict m = m\<lparr>sm_conflicts := sm_conflicts m + 1\<rparr>"

definition sm_finalize :: "StateMachine \<Rightarrow> TransitionError + StateMachine" where
  "sm_finalize m =
     res_bind (require_state m Finalizing) (\<lambda>_. Inr (m\<lparr>sm_state := Complete\<rparr>))"

definition sm_error :: "StateMachine \<Rightarrow> TransitionError + StateMachine" where
  "sm_error m =
     (if is_terminal (sm_state m) then Inl AlreadyTerminal else Inr (m\<lparr>sm_state := Error\<rparr>))"

definition sm_stats :: "StateMachine \<Rightarrow> SessionStats" where
  "sm_stats m =
     \<lparr>stat_pushed = sm_pushed m, stat_pulled = sm_pulled m, stat_conflicts = sm_conflicts m\<rparr>"

section \<open>Sequences of calls\<close>

datatype sm_call =
    CHandshake | CIndex | CTransferStart | CTransferComplete | CFinalize | CError
  | CUpload | CDownload | CConflict

fun sm_apply :: "sm_call \<Rightarrow> StateMachine \<Rightarrow> TransitionError + StateMachine" where
  "sm_apply CHandshake m = on_handshake_complete m"
| "sm_apply CIndex m = on_index_received m"
| "sm_apply CTransferStart m = on_transfer_start m"
| "sm_apply CTransferComplete m = on_transfer_complete m"
| "sm_apply CFinalize m = sm_finalize m"
| "sm_apply CError m = sm_error m"
| "sm_apply CUpload m = Inr (record_upload m)"
| "sm_apply CDownload m = Inr (record_download m)"
| "sm_apply CConflict m = Inr (record_conflict m)"

text \<open>A caller that goes on after a failing call: the machine keeps its state.\<close>

fun sm_run :: "sm_call list \<Rightarrow> StateMachine \<Rightarrow> StateMachine \<times> sm_call list" where
  "sm_run [] m = (m, [])"
| "sm_run (c # cs) m =
     (case sm_apply c m of
        Inl e \<Rightarrow> sm_run cs m
      | Inr m' \<Rightarrow> (let (m'', okc) = sm_run cs m' in (m'', c # okc)))"

inductive sm_step :: "StateMachine \<Rightarrow> sm_call \<Rightarrow> StateMachine \<Rightarrow> bool" where
  call: "sm_apply c m = Inr m' \<Longrightarrow> sm_step m c m'"

inductive_simps sm_step_iff: "sm_step m c m'"

inductive sm_reach :: "StateMachine \<Rightarrow> sm_call list \<Rightarrow> bool" where
  init: "sm_reach sm_new []"
| step: "sm_reach m tr \<Longrightarrow> sm_step m c m' \<Longrightarrow> sm_reach m' (tr @ [c])"

definition is_transition :: "sm_call \<Rightarrow> bool" where
  "is_transition c \<longleftrightarrow> c \<notin> {CUpload, CDownload, CConflict}"

definition session_chain :: "sm_call list" where
  "session_chain = [CHandshake, CIndex, CTransferStart, CTransferComplete, CFinalize]"

definition session_states :: "SessionState list" where
  "session_states = [Handshaking, Active, Reconciling, Transferring, Finalizing, Complete]"

text \<open>What a trace of successful calls says about the state: the transitions made so far are
  the first \<open>n\<close> of the chain, possibly followed by one \<open>error\<close> before completion.\<close>

definition trace_explains :: "sm_call list \<Rightarrow> SessionState \<Rightarrow> bool" where
  "trace_explains tr s \<longleftrightarrow>
     (\<exists>n \<le> 5. filter is_transition tr = take n session_chain \<and> s = session_states ! n) \<or>
     (\<exists>n < 5. filter is_transition tr = take n session_chain @ [CError] \<and> s = Error)"

lemmas sm_defs = on_handshake_complete_def on_index_received_def on_transfer_start_def
  on_transfer_complete_def sm_finalize_def sm_error_def require_state_def
  record_upload_def record_download_def record_conflict_def is_terminal_def

lemma le_5_cases: "n \<le> (5::nat) \<longleftrightarrow> n = 0 \<or> n = 1 \<or> n = 2 \<or> n = 3 \<or> n = 4 \<or> n = 5"
  by auto

lemma less_5_cases: "n < (5::nat) \<longleftrightarrow> n = 0 \<or> n = 1 \<or> n = 2 \<or> n = 3 \<or> n = 4"
  by auto

lemma trace_explains_iff:
  "trace_explains tr s \<longleftrightarrow>
     (filter is_transition tr = [] \<and> s = Handshaking) \<or>
     (filter is_transition tr = [CHandshake] \<and> s = Active) \<or>
     (filter is_transition tr = [CHandshake, CIndex] \<and> s = Reconciling) \<or>
     (filter is_transition tr = [CHandshake, CIndex, CTransferStart] \<and> s = Transferring) \<or>
     (filter is_transition tr = [CHandshake, CIndex, CTransferStart, CTransferComplete] \<and>
        s = Finalizing) \<or>
     (filter is_transition tr = session_chain \<and> s = Complete) \<or>
     (filter is_transition tr = [CError] \<and> s = Error) \<or>
     (filter is_transition tr = [CHandshake, CError] \<and> s = Error) \<or>
     (filter is_transition tr = [CHandshake, CIndex, CError] \<and> s = Error) \<or>
     (filter is_transition tr = [CHandshake, CIndex, CTransferStart, CError] \<and> s = Error) \<or>
     (filter is_transition tr =
        [CHandshake, CIndex, CTransferStart, CTransferComplete, CError] \<and> s = Error)"
  unfolding trace_explains_def le_5_cases less_5_cases ex_disj_distrib conj_disj_distribR
  by (simp add: session_chain_def session_states_def numeral_eq_Suc disj_assoc)

lemma trace_explains_step:
  assumes "sm_apply c m = Inr m'" and "trace_explains tr (sm_state m)"
  shows "trace_explains (tr @ [c]) (sm_state m')"
  using assms(2) [unfolded trace_explains_iff]
  by (elim disjE conjE; insert assms(1); cases c;
      simp add: trace_explains_iff is_transition_def session_chain_def sm_defs split: if_splits)
    auto

lemma sm_reach_explained: "sm_reach m tr \<Longrightarrow> trace_explains tr (sm_state m)"
proof (induction rule: sm_reach.induct)
  case init
  show ?case
    by (simp add: trace_explains_iff sm_new_def)
next
  case step
  then show ?case by (auto simp: sm_step_iff intro: trace_explains_step)
qed

lemma sm_run_reach:
  "sm_reach m tr \<Longrightarrow> sm_run cs m = (m', okc) \<Longrightarrow> sm_reach m' (tr @ okc)"
proof (induction cs arbitrary: m tr okc)
  case (Cons c cs)
  show ?case
  proof (cases "sm_apply c m")
    case (Inr m1)
    with Cons.prems obtain okc' where run: "sm_run cs m1 = (m', okc')" "okc = c # okc'"
      by (auto split: prod.splits)
    have "sm_reach m1 (tr @ [c])"
      using Cons.prems(1) Inr by (auto intro: sm_reach.step sm_step.call)
    from Cons.IH [OF this run(1)] run(2) show ?thesis by simp
  qed (use Cons in auto)
qed auto

lemma sm_reach_counters:
  "sm_reach m tr \<Longrightarrow> sm_pushed m = count_list tr CUpload \<and>
     sm_pulled m = count_list tr CDownload \<and> sm_conflicts m = count_list tr CConflict"
proof (induction rule: sm_reach.induct)
  case (step m tr c m')
  then show ?case by (cases c) (auto simp: sm_step_iff sm_defs split: if_splits)
qed (simp add: sm_new_def)

lemma sm_run_records:
  assumes "\<not> is_transition c"
  shows "sm_run cs m = (m', okc) \<Longrightarrow> count_list okc c = count_list cs c"
proof (induction cs arbitrary: m okc)
  case (Cons d cs)
  have "d \<noteq> c" if "sm_apply d m = Inl e" for e
    using that assms by (cases d) (auto simp: is_transition_def)
  then show ?case using Cons
    by (cases "sm_apply d m") (fastforce split: prod.splits)+
qed simp

section \<open>Properties\<close>

text \<open>C21. However the methods are called on a new machine, in any order and with failing calls
  in between, the successful transitions are a prefix of handshake, index, transfer start,
  transfer complete, finalize, with at most one final \<open>error\<close> before completion, and the
  state is the one that prefix names; in particular a machine is complete only after all five in
  that order.\<close>

theorem session_follows_chain:
  assumes "sm_run cs sm_new = (m, okc)"
  shows "trace_explains okc (sm_state m) \<and>
    (sm_state m = Complete \<longleftrightarrow> filter is_transition okc = session_chain)"
proof -
  have ex: "trace_explains okc (sm_state m)"
    using sm_reach_explained [OF sm_run_reach [OF sm_reach.init assms]] by simp
  then have "sm_state m = Complete \<longleftrightarrow> filter is_transition okc = session_chain"
    by (auto simp: trace_explains_iff session_chain_def)
  with ex show ?thesis by blast
qed

theorem session_follows_chain_witness:
  "sm_state (fst (sm_run [CIndex, CHandshake, CUpload, CIndex, CTransferStart, CTransferStart,
     CTransferComplete, CDownload, CFinalize, CError] sm_new)) = Complete"
  (is "sm_state (fst (sm_run ?cs sm_new)) = _")
proof -
  have "filter is_transition (snd (sm_run ?cs sm_new)) = session_chain"
    by code_simp
  then show ?thesis using session_follows_chain [of ?cs] by (metis prod.collapse)
qed

text \<open>The statistics of a session count the recorded uploads, downloads and conflicts,
  whatever transitions were made or refused in between.\<close>

theorem session_stats_count:
  "sm_stats (fst (sm_run cs sm_new)) =
     \<lparr>stat_pushed = count_list cs CUpload, stat_pulled = count_list cs CDownload,
      stat_conflicts = count_list cs CConflict\<rparr>"
proof -
  obtain m okc where run: "sm_run cs sm_new = (m, okc)" by fastforce
  have "sm_reach m okc"
    using sm_run_reach [OF sm_reach.init run] by simp
  with sm_reach_counters sm_run_records [OF _ run]
  show ?thesis by (auto simp: sm_stats_def run is_transition_def)
qed

text \<open>A terminal session is final: every transition method fails, with the error the source
  gives it, and from every other state \<open>error\<close> succeeds.\<close>

theorem terminal_is_final:
  "(if is_terminal (sm_state m)
    then sm_apply CError m = Inl AlreadyTerminal \<and>
      sm_apply CHandshake m = Inl (InvalidTransition (sm_state m) Handshaking) \<and>
      sm_apply CIndex m = Inl (InvalidTransition (sm_state m) Active) \<and>
      sm_apply CTransferStart m = Inl (InvalidTransition (sm_state m) Reconciling) \<and>
      sm_apply CTransferComplete m = Inl (InvalidTransition (sm_state m) Transferring) \<and>
      sm_apply CFinalize m = Inl (InvalidTransition (sm_state m) Finalizing)
    else sm_apply CError m = Inr (m\<lparr>sm_state := Error\<rparr>))"
  by (auto simp: sm_defs)

end
