(* ===== verification/Paths.thy ===== *)
theory Paths
  imports Prelude "HOL-Library.Sublist"
begin

text \<open>
  Path strings and the file system that the confinement code works on. Paths follow
  \<open>std::path\<close> on Unix: a string is split at \<open>/\<close>, empty and \<open>.\<close> segments
  vanish, except that a final one remains as \<open>CurDir\<close>, because the kernel then follows a
  symbolic link before it and requires a directory. A file system maps absolute paths (lists of
  names) to files, directories and symbolic links; \<open>walk\<close> is the kernel's path walk with its
  limit on followed links.
\<close>

section \<open>Path strings\<close>

datatype Component = CurDir | ParentDir | Normal string

type_synonym path = "Component list"
type_synonym abspath = "string list"

fun split_slash :: "string \<Rightarrow> string list" where
  "split_slash [] = [[]]"
| "split_slash (c # cs) =
     (if c = CHR ''/'' then [] # split_slash cs
      else (c # hd (split_slash cs)) # tl (split_slash cs))"

fun join_slash :: "string list \<Rightarrow> string" where
  "join_slash [] = []"
| "join_slash [s] = s"
| "join_slash (s # ss) = s @ CHR ''/'' # join_slash ss"

definition raw_comp :: "string \<Rightarrow> Component" where
  "raw_comp s = (if s = [] \<or> s = ''.'' then CurDir else if s = ''..'' then ParentDir else Normal s)"

definition raw_path :: "string \<Rightarrow> path" where
  "raw_path s =
     (let cs = map raw_comp (split_slash s) in
      filter (\<lambda>c. c \<noteq> CurDir) cs @ (if last cs = CurDir then [CurDir] else []))"

text \<open>\<open>Path::components\<close> of a relative path: only a leading \<open>.\<close> is kept.\<close>

definition path_components :: "string \<Rightarrow> Component list" where
  "path_components s =
     (if hd (split_slash s) = ''.'' then [CurDir] else []) @
     filter (\<lambda>c. c \<noteq> CurDir) (map raw_comp (split_slash s))"

definition is_absolute :: "string \<Rightarrow> bool" where
  "is_absolute s \<longleftrightarrow> take 1 s = ''/''"

definition path_trim :: "path \<Rightarrow> path" where
  "path_trim p = rev (dropWhile (\<lambda>c. c = CurDir) (rev p))"

definition path_parent :: "path \<Rightarrow> path option" where
  "path_parent p = (let q = path_trim p in if q = [] then None else Some (path_trim (butlast q)))"

definition path_file_name :: "path \<Rightarrow> string option" where
  "path_file_name p =
     (let q = path_trim p in
      if q = [] then None else case last q of Normal s \<Rightarrow> Some s | _ \<Rightarrow> None)"

text \<open>\<open>Path\<close> equality compares components.\<close>

definition path_eq :: "path \<Rightarrow> path \<Rightarrow> bool" where
  "path_eq p q \<longleftrightarrow> filter (\<lambda>c. c \<noteq> CurDir) p = filter (\<lambda>c. c \<noteq> CurDir) q"

abbreviation lit :: "abspath \<Rightarrow> path" where
  "lit ns \<equiv> map Normal ns"

definition valid_name :: "string \<Rightarrow> bool" where
  "valid_name s \<longleftrightarrow> s \<noteq> [] \<and> s \<noteq> ''.'' \<and> s \<noteq> ''..'' \<and> CHR ''/'' \<notin> set s \<and> CHR 0x00 \<notin> set s"

section \<open>The file system\<close>

datatype node = NFile bytes i64 | NDir | NLink string

type_synonym fs = "(abspath \<times> node) list"

fun is_link :: "node option \<Rightarrow> bool" where
  "is_link (Some (NLink _)) = True"
| "is_link _ = False"

definition wf_fs :: "fs \<Rightarrow> bool" where
  "wf_fs fs \<longleftrightarrow> distinct (map fst fs) \<and> map_of fs [] = Some NDir \<and>
     (\<forall>(p, n) \<in> set fs. p \<noteq> [] \<longrightarrow> map_of fs (butlast p) = Some NDir \<and> valid_name (last p))"

datatype walk_result = Found abspath | Missing abspath | ENoEnt | ENotDir | ELoop

definition MAXSYMLINKS :: nat where
  "MAXSYMLINKS = 40"

text \<open>\<open>Missing q\<close>: every directory on the way exists and only the last name does not.\<close>

function walk :: "fs \<Rightarrow> nat \<Rightarrow> bool \<Rightarrow> abspath \<Rightarrow> path \<Rightarrow> walk_result" where
  "walk fs n follow cur [] = Found cur"
| "walk fs n follow cur (c # cs) =
     (if map_of fs cur \<noteq> Some NDir then ENotDir
      else case c of
        CurDir \<Rightarrow> walk fs n follow cur cs
      | ParentDir \<Rightarrow> walk fs n follow (butlast cur) cs
      | Normal s \<Rightarrow>
          (case map_of fs (cur @ [s]) of
             None \<Rightarrow> if cs = [] then Missing (cur @ [s]) else ENoEnt
           | Some (NLink t) \<Rightarrow>
               if cs = [] \<and> \<not> follow then Found (cur @ [s])
               else (case n of
                   0 \<Rightarrow> ELoop
                 | Suc m \<Rightarrow> walk fs m follow (if is_absolute t then [] else cur) (raw_path t @ cs))
           | Some _ \<Rightarrow> walk fs n follow (cur @ [s]) cs))"
  by pat_completeness auto
termination
  by (relation "inv_image (less_than <*lex*> less_than) (\<lambda>(fs, n, follow, cur, cs). (n, length cs))")
    auto

definition canonicalize :: "fs \<Rightarrow> path \<Rightarrow> abspath option" where
  "canonicalize fs p = (case walk fs MAXSYMLINKS True [] p of Found q \<Rightarrow> Some q | _ \<Rightarrow> None)"

definition path_exists :: "fs \<Rightarrow> path \<Rightarrow> bool" where
  "path_exists fs p \<longleftrightarrow> canonicalize fs p \<noteq> None"

definition symlink_metadata :: "fs \<Rightarrow> path \<Rightarrow> node option" where
  "symlink_metadata fs p =
     (case walk fs MAXSYMLINKS False [] p of Found q \<Rightarrow> map_of fs q | _ \<Rightarrow> None)"

definition fs_metadata :: "fs \<Rightarrow> path \<Rightarrow> node option" where
  "fs_metadata fs p = (case canonicalize fs p of Some q \<Rightarrow> map_of fs q | None \<Rightarrow> None)"

definition fs_read :: "fs \<Rightarrow> path \<Rightarrow> bytes option" where
  "fs_read fs p = (case fs_metadata fs p of Some (NFile d m) \<Rightarrow> Some d | _ \<Rightarrow> None)"

definition fs_write :: "fs \<Rightarrow> path \<Rightarrow> bytes \<Rightarrow> i64 \<Rightarrow> fs option" where
  "fs_write fs p d now =
     (case walk fs MAXSYMLINKS True [] p of
        Found q \<Rightarrow> (case map_of fs q of
            Some (NFile _ _) \<Rightarrow> Some (hm_insert q (NFile d now) fs)
          | _ \<Rightarrow> None)
      | Missing q \<Rightarrow> Some (hm_insert q (NFile d now) fs)
      | _ \<Rightarrow> None)"

datatype mkdir_result = MkOk fs | MkNotFound | MkOther

definition mkdir :: "fs \<Rightarrow> path \<Rightarrow> mkdir_result" where
  "mkdir fs p =
     (case walk fs MAXSYMLINKS False [] (path_trim p) of
        Missing q \<Rightarrow> MkOk (hm_insert q NDir fs)
      | ENoEnt \<Rightarrow> MkNotFound
      | _ \<Rightarrow> MkOther)"

definition is_dir :: "fs \<Rightarrow> path \<Rightarrow> bool" where
  "is_dir fs p \<longleftrightarrow> fs_metadata fs p = Some NDir"

lemma path_parent_length: "path_parent p = Some q \<Longrightarrow> length q < length p"
proof -
  assume "path_parent p = Some q"
  then have ne: "path_trim p \<noteq> []" and q: "q = path_trim (butlast (path_trim p))"
    by (auto simp: path_parent_def Let_def split: if_splits)
  have trim: "length (path_trim r) \<le> length r" for r
    unfolding path_trim_def by (metis length_dropWhile_le length_rev)
  have "length q \<le> length (path_trim p) - 1"
    using trim [of "butlast (path_trim p)"] by (simp add: q)
  with trim [of p] ne show ?thesis by (cases "path_trim p") auto
qed

text \<open>\<open>std::fs::create_dir_all\<close>.\<close>

function create_dir_all :: "fs \<Rightarrow> path \<Rightarrow> fs option" where
  "create_dir_all fs p =
     (case mkdir fs p of
        MkOk fs' \<Rightarrow> Some fs'
      | MkOther \<Rightarrow> if is_dir fs p then Some fs else None
      | MkNotFound \<Rightarrow>
          (case path_parent p of
             None \<Rightarrow> None
           | Some q \<Rightarrow>
               (case create_dir_all fs q of
                  None \<Rightarrow> None
                | Some fs1 \<Rightarrow>
                    (case mkdir fs1 p of
                       MkOk fs2 \<Rightarrow> Some fs2
                     | _ \<Rightarrow> if is_dir fs1 p then Some fs1 else None))))"
  by pat_completeness auto
termination
  by (relation "measure (\<lambda>(fs, p). length p)") (auto dest: path_parent_length)

declare create_dir_all.simps [simp del]

definition fs_move :: "abspath \<Rightarrow> abspath \<Rightarrow> fs \<Rightarrow> fs" where
  "fs_move a b fs =
     map (\<lambda>(p, n). (if prefix a p then b @ drop (length a) p else p, n))
       (filter (\<lambda>(p, n). p \<noteq> b) fs)"

definition has_children :: "fs \<Rightarrow> abspath \<Rightarrow> bool" where
  "has_children fs q \<longleftrightarrow> (\<exists>(p, n) \<in> set fs. p \<noteq> [] \<and> butlast p = q)"

text \<open>\<open>rename(2)\<close>: the last names are not followed, a trailing slash on the source wants a directory
  there; a file replaces a file or link, a directory replaces an empty directory, a directory does not
  move below itself.\<close>

definition fs_rename :: "fs \<Rightarrow> path \<Rightarrow> path \<Rightarrow> fs option" where
  "fs_rename fs from to =
     (case walk fs MAXSYMLINKS False [] (path_trim from) of
        Found a \<Rightarrow>
          (case (map_of fs a = Some NDir,
                 walk fs MAXSYMLINKS False [] (if map_of fs a = Some NDir then path_trim to else to)) of
             (dir, Found b) \<Rightarrow>
               if \<not> dir \<and> from \<noteq> path_trim from then None
               else if a = b then Some fs
               else if dir then
                 (if map_of fs b = Some NDir \<and> \<not> has_children fs b \<and> \<not> prefix a b
                  then Some (fs_move a b fs) else None)
               else (if map_of fs b = Some NDir then None else Some (fs_move a b fs))
           | (dir, Missing b) \<Rightarrow>
               if \<not> dir \<and> from \<noteq> path_trim from then None
               else if dir \<and> prefix a b then None else Some (fs_move a b fs)
           | _ \<Rightarrow> None)
      | _ \<Rightarrow> None)"

definition fs_remove_file :: "fs \<Rightarrow> path \<Rightarrow> fs option" where
  "fs_remove_file fs p =
     (case walk fs MAXSYMLINKS False [] p of
        Found q \<Rightarrow> if map_of fs q = Some NDir then None else Some (hm_remove q fs)
      | _ \<Rightarrow> None)"

section \<open>Facts about path strings\<close>

lemma split_slash_ne [simp]: "split_slash s \<noteq> []"
  by (cases s) auto

lemma split_slash_no_slash: "x \<in> set (split_slash s) \<Longrightarrow> set x \<subseteq> set s - {CHR ''/''}"
proof (induction s arbitrary: x)
  case (Cons c cs)
  show ?case
  proof (cases "c = CHR ''/''")
    case False
    then have "x = c # hd (split_slash cs) \<or> x \<in> set (tl (split_slash cs))"
      using Cons.prems by auto
    then show ?thesis
    proof
      assume x: "x = c # hd (split_slash cs)"
      have "set (hd (split_slash cs)) \<subseteq> set cs - {CHR ''/''}"
        by (rule Cons.IH) simp
      with False show ?thesis unfolding x list.set by blast
    next
      assume "x \<in> set (tl (split_slash cs))"
      then have "x \<in> set (split_slash cs)" by (rule list.set_sel(2) [OF split_slash_ne])
      from Cons.IH [OF this] show ?thesis unfolding list.set by blast
    qed
  qed (use Cons in auto)
qed simp

lemma split_slash_single: "CHR ''/'' \<notin> set s \<Longrightarrow> split_slash s = [s]"
  by (induction s) auto

lemma split_slash_append: "CHR ''/'' \<notin> set s \<Longrightarrow> split_slash (s @ CHR ''/'' # t) = s # split_slash t"
  by (induction s) auto

lemma split_join:
  "ns \<noteq> [] \<Longrightarrow> \<forall>n \<in> set ns. valid_name n \<Longrightarrow> split_slash (join_slash ns) = ns"
  by (induction ns rule: join_slash.induct)
    (auto simp: valid_name_def split_slash_single split_slash_append)

lemma raw_comp_valid: "valid_name s \<Longrightarrow> raw_comp s = Normal s"
  by (simp add: valid_name_def raw_comp_def)

lemma map_raw_comp_valid: "\<forall>n \<in> set ns. valid_name n \<Longrightarrow> map raw_comp ns = lit ns"
  by (simp add: raw_comp_valid)

lemma filter_lit [simp]: "filter (\<lambda>c. c \<noteq> CurDir) (lit ns) = lit ns"
  by (induction ns) auto

lemma raw_path_join:
  assumes "ns \<noteq> []" and "\<forall>n \<in> set ns. valid_name n"
  shows "raw_path (join_slash ns) = lit ns" "path_components (join_slash ns) = lit ns"
  using assms hd_in_set [of ns]
  by (auto simp: raw_path_def path_components_def Let_def split_join map_raw_comp_valid last_map
      valid_name_def simp del: map_map)

lemma join_slash_not_absolute:
  assumes "ns \<noteq> []" and "\<forall>n \<in> set ns. valid_name n"
  shows "\<not> is_absolute (join_slash ns)"
proof -
  from assms obtain n ms where ns: "ns = n # ms" "valid_name n" by (cases ns) auto
  then obtain c n' where n: "n = c # n'" "c \<noteq> CHR ''/''"
    by (cases n) (auto simp: valid_name_def)
  have "take 1 (join_slash ns) = [c]" by (cases ms) (simp_all add: ns(1) n(1))
  with n(2) show ?thesis by (simp add: is_absolute_def)
qed

lemma set_join_slash: "x \<in> set (join_slash ns) \<Longrightarrow> x = CHR ''/'' \<or> (\<exists>n \<in> set ns. x \<in> set n)"
proof (induction ns rule: join_slash.induct)
  case (3 s t ts)
  then show ?case unfolding join_slash.simps(3) set_append list.set(2) by blast
qed simp_all

text \<open>A path without parent components is a list of valid names, perhaps with a final
  \<open>CurDir\<close>.\<close>

lemma lit_of_normals:
  assumes "\<forall>c \<in> set cs. \<exists>s. c = Normal s \<and> P s"
  shows "\<exists>ns. cs = lit ns \<and> (\<forall>n \<in> set ns. P n)"
  using assms
proof (induction cs)
  case (Cons c cs)
  then obtain s ns where "c = Normal s" "P s" "cs = lit ns" "\<forall>n \<in> set ns. P n" by auto
  then have "c # cs = lit (s # ns)" "\<forall>n \<in> set (s # ns). P n" by auto
  then show ?case by (intro exI [of _ "s # ns"] conjI)
qed auto

lemma raw_path_shape:
  assumes "CHR 0x00 \<notin> set s" and "ParentDir \<notin> set (path_components s)"
  obtains ns tr where "raw_path s = lit ns @ tr" and "tr = [] \<or> tr = [CurDir]"
    and "\<forall>n \<in> set ns. valid_name n" and "tr = [] \<Longrightarrow> ns \<noteq> []"
proof -
  define cs where "cs = map raw_comp (split_slash s)"
  have "\<exists>n. c = Normal n \<and> valid_name n" if "c \<in> set (filter (\<lambda>c. c \<noteq> CurDir) cs)" for c
  proof -
    from that obtain x where x: "x \<in> set (split_slash s)" "c = raw_comp x" "c \<noteq> CurDir"
      by (auto simp: cs_def)
    have "c \<in> set (path_components s)" using that by (auto simp: path_components_def cs_def)
    then have "c \<noteq> ParentDir" using assms(2) by auto
    with x split_slash_no_slash [OF x(1)] assms(1) show ?thesis
      by (auto simp: raw_comp_def valid_name_def split: if_splits)
  qed
  then obtain ns where ns: "filter (\<lambda>c. c \<noteq> CurDir) cs = lit ns" "\<forall>n \<in> set ns. valid_name n"
    using lit_of_normals [of "filter (\<lambda>c. c \<noteq> CurDir) cs" valid_name] by blast
  have "ns \<noteq> []" if "last cs \<noteq> CurDir"
  proof -
    have "last cs \<in> set (filter (\<lambda>c. c \<noteq> CurDir) cs)"
      using that last_in_set [of cs] by (simp add: cs_def)
    with ns(1) show ?thesis by auto
  qed
  moreover have "raw_path s = lit ns @ (if last cs = CurDir then [CurDir] else [])"
    by (simp add: raw_path_def Let_def ns(1) flip: cs_def)
  ultimately show thesis
    using that [of ns "if last cs = CurDir then [CurDir] else []"] ns(2)
    by (cases "last cs = CurDir") auto
qed

lemma path_trim_lit [simp]:
  "path_trim (lit ns) = lit ns" "path_trim (lit ns @ [CurDir]) = lit ns"
proof -
  have "dropWhile (\<lambda>c. c = CurDir) (rev (lit ns)) = rev (lit ns)"
    by (cases "rev ns") (auto simp flip: rev_map)
  then show "path_trim (lit ns) = lit ns" "path_trim (lit ns @ [CurDir]) = lit ns"
    by (simp_all add: path_trim_def)
qed

lemma path_parent_lit:
  "path_parent (lit (ns @ [x])) = Some (lit ns)"
  "path_parent (lit (ns @ [x]) @ [CurDir]) = Some (lit ns)"
proof -
  have "path_trim (lit (ns @ [x])) = lit (ns @ [x])" "path_trim (lit (ns @ [x]) @ [CurDir]) = lit (ns @ [x])"
    by (rule path_trim_lit)+
  moreover have "butlast (lit (ns @ [x])) = lit ns" by (simp add: map_butlast)
  ultimately show "path_parent (lit (ns @ [x])) = Some (lit ns)"
    "path_parent (lit (ns @ [x]) @ [CurDir]) = Some (lit ns)"
    by (simp_all only: path_parent_def Let_def path_trim_lit) auto
qed

lemma path_parent_Nil [simp]: "path_parent [] = None" "path_parent [CurDir] = None"
  by (simp_all add: path_parent_def path_trim_def)

section \<open>Facts about the walk\<close>

lemma wf_fs_root [simp]: "wf_fs fs \<Longrightarrow> map_of fs [] = Some NDir"
  by (simp add: wf_fs_def)

lemma wf_fs_snoc:
  assumes "wf_fs fs" and "map_of fs (p @ [x]) = Some n"
  shows "map_of fs p = Some NDir" "valid_name x"
  using assms map_of_SomeD [OF assms(2)] by (fastforce simp: wf_fs_def)+

lemma wf_fs_prefix:
  assumes "wf_fs fs"
  shows "map_of fs (p @ q) = Some n \<Longrightarrow> q \<noteq> [] \<Longrightarrow> map_of fs p = Some NDir"
proof (induction q arbitrary: n rule: rev_induct)
  case (snoc x q)
  have "map_of fs (p @ q) = Some NDir"
    using wf_fs_snoc(1) [OF assms, of "p @ q" x n] snoc.prems by simp
  with snoc.IH show ?case by (cases "q = []") auto
qed simp

lemma walk_lit_append:
  assumes "wf_fs fs" and "map_of fs (cur @ ns) = Some NDir"
  shows "walk fs n follow cur (lit ns @ cs) = walk fs n follow (cur @ ns) cs"
  using assms(2)
proof (induction ns arbitrary: cur)
  case (Cons x ns)
  have "map_of fs cur = Some NDir"
    using wf_fs_prefix [OF assms(1), of cur "x # ns"] Cons.prems by simp
  moreover have "map_of fs (cur @ [x]) = Some NDir"
    using wf_fs_prefix [OF assms(1), of "cur @ [x]" ns] Cons.prems by (cases "ns = []") auto
  ultimately show ?case using Cons.IH [of "cur @ [x]"] Cons.prems by simp
qed simp

lemma walk_lit_found:
  assumes "wf_fs fs" and "map_of fs (cur @ ns) = Some nd" and "ns = [] \<or> \<not> follow \<or> \<not> is_link (Some nd)"
  shows "walk fs n follow cur (lit ns) = Found (cur @ ns)"
proof (cases ns rule: rev_cases)
  case (snoc ms x)
  have dir: "map_of fs (cur @ ms) = Some NDir"
    using wf_fs_prefix [OF assms(1), of "cur @ ms" "[x]"] assms(2) snoc by simp
  show ?thesis
    using walk_lit_append [OF assms(1) dir, of n follow "[Normal x]"] dir assms(2,3)
    by (cases nd) (auto simp: snoc)
qed simp

text \<open>Without links on the way the walk of plain names stays on the path it spells.\<close>

lemma walk_nolinks:
  assumes "\<And>ms. prefix ms ns \<Longrightarrow> ms \<noteq> [] \<Longrightarrow> \<not> is_link (map_of fs (cur @ ms))"
  shows "walk fs n follow cur (lit ns) \<in> {Found (cur @ ns), Missing (cur @ ns), ENoEnt, ENotDir}"
  using assms
proof (induction ns arbitrary: cur)
  case (Cons x ns)
  have "\<not> is_link (map_of fs (cur @ [x]))" using Cons.prems [of "[x]"] by simp
  moreover have "walk fs n follow (cur @ [x]) (lit ns) \<in>
      {Found ((cur @ [x]) @ ns), Missing ((cur @ [x]) @ ns), ENoEnt, ENotDir}"
  proof (rule Cons.IH)
    fix ms assume "prefix ms ns" "ms \<noteq> []"
    then show "\<not> is_link (map_of fs ((cur @ [x]) @ ms))" using Cons.prems [of "x # ms"] by simp
  qed
  ultimately show ?case by (auto split: option.splits node.splits)
qed simp

lemma walk_missingD:
  "walk fs n follow cur cs = Missing q \<Longrightarrow>
     map_of fs q = None \<and> q \<noteq> [] \<and> map_of fs (butlast q) = Some NDir"
  by (induction fs n follow cur cs rule: walk.induct)
    (auto split: if_splits option.splits node.splits Component.splits nat.splits)

lemma walk_found_exists:
  "walk fs n follow cur cs = Found q \<Longrightarrow> map_of fs cur \<noteq> None \<Longrightarrow> wf_fs fs \<Longrightarrow> map_of fs q \<noteq> None"
proof (induction fs n follow cur cs rule: walk.induct)
  case (2 fs n follow cur c cs)
  have "map_of fs (butlast cur) \<noteq> None" if "map_of fs cur = Some NDir"
    using that wf_fs_snoc(1) [OF "2.prems"(3), of "butlast cur" "last cur"] "2.prems"(3)
    by (cases "cur = []") auto
  with 2 show ?case
    by (auto split: if_splits option.splits node.splits Component.splits nat.splits)
qed simp

text \<open>A path that ends in \<open>CurDir\<close> resolves to a directory or not at all.\<close>

lemma walk_curdir:
  assumes "walk fs n follow cur cs = w" and "cs \<noteq> []" and "last cs = CurDir"
  shows "w \<noteq> Missing q \<and> (w = Found q \<longrightarrow> map_of fs q = Some NDir)"
  using assms
proof (induction fs n follow cur cs arbitrary: w rule: walk.induct)
  case (2 fs n follow cur c cs)
  show ?case
  proof (cases "cs = []")
    case True
    with 2 show ?thesis by (auto split: if_splits)
  next
    case False
    with 2 show ?thesis
      by (auto split: if_splits option.splits node.splits Component.splits nat.splits)
  qed
qed simp

lemma path_trim_file:
  assumes "walk fs n follow [] p = Found q" and "map_of fs q \<noteq> Some NDir"
  shows "path_trim p = p"
proof -
  have "p = [] \<or> last p \<noteq> CurDir" using walk_curdir [OF assms(1), of q] assms(2) by auto
  then show ?thesis by (cases p rule: rev_cases) (auto simp: path_trim_def)
qed

section \<open>Changing the file system\<close>

lemma wf_fs_insert:
  assumes wf: "wf_fs fs" and dir: "map_of fs (butlast q) = Some NDir" and q: "q \<noteq> []" "valid_name (last q)"
    and old: "map_of fs q \<noteq> Some NDir"
  shows "wf_fs (hm_insert q nd fs)"
proof -
  have ne: "q \<noteq> butlast p" if "(p, n) \<in> set fs" "p \<noteq> []" for p n
    using that wf old by (auto simp: wf_fs_def)
  have qq: "butlast q \<noteq> q" using q(1) by (metis append_butlast_last_id not_Cons_self2 self_append_conv)
  have "map_of (hm_insert q nd fs) (butlast p) = Some NDir \<and> valid_name (last p)"
    if "(p, n) \<in> set (hm_insert q nd fs)" "p \<noteq> []" for p n
  proof -
    have "distinct (map fst (hm_insert q nd fs))"
      using wf by (simp add: wf_fs_def distinct_update)
    then have "map_of (hm_insert q nd fs) p = Some n" using that(1) by simp
    then consider "p = q" | "(p, n) \<in> set fs"
      by (auto simp: hm_simps dest: map_of_SomeD split: if_splits)
    then show ?thesis
    proof cases
      case 1
      then show ?thesis using dir q qq by (simp add: hm_simps)
    next
      case 2
      then show ?thesis using ne [OF 2 that(2)] that(2) wf by (auto simp: hm_simps wf_fs_def)
    qed
  qed
  with wf q(1) show ?thesis by (auto simp: wf_fs_def hm_simps distinct_update)
qed

end
