(* ===== verification/Filesystem.thy ===== *)
theory Filesystem
  imports Paths Domain
begin

text \<open>
  Confinement of remote-controlled paths: \<open>path_safety.rs\<close> and \<open>filesystem/root.rs\<close>.
  \<open>safe_join\<close> validates a path string, refuses symbolic links on the way and checks the
  canonical path against the root; \<open>SyncRoot\<close> reads, writes and scans below it. The
  theorems say that nothing outside the root is read or changed, that a write is read back, and
  that the scan lists exactly the regular files below the root, each of which can be read through
  \<open>safe_join\<close>. \<open>blake3\<close> and the clock are parameters.
\<close>

section \<open>safe join\<close>

datatype path_error =
    NullByte | AbsolutePath string | PathTraversal string | EmptyComponent string
  | SymlinkRejected path | RootMissing | RootNotDir | CannotResolve path | EscapesRoot string
  | PanicNoFileName

fun check_components :: "string \<Rightarrow> Component list \<Rightarrow> path_error + unit" where
  "check_components s [] = Inr ()"
| "check_components s (c # cs) =
     (case c of
        ParentDir \<Rightarrow> Inl (PathTraversal s)
      | Normal n \<Rightarrow> if n = [] then Inl (EmptyComponent s) else check_components s cs
      | CurDir \<Rightarrow> check_components s cs)"

text \<open>The first loop: every cursor from the joined path up to the root must not be a link.\<close>

function reject_links :: "fs \<Rightarrow> path \<Rightarrow> path \<Rightarrow> path_error + unit" where
  "reject_links fs root cursor =
     (if path_eq cursor root then Inr ()
      else if is_link (symlink_metadata fs cursor) then Inl (SymlinkRejected cursor)
      else case path_parent cursor of
        Some p \<Rightarrow> reject_links fs root p
      | None \<Rightarrow> Inr ())"
  by pat_completeness auto
termination
  by (relation "measure (\<lambda>(fs, root, p). length p)") (auto dest: path_parent_length)

declare reject_links.simps [simp del]

text \<open>The second loop: the nearest existing ancestor and the names below it.\<close>

function find_base :: "fs \<Rightarrow> path \<Rightarrow> string list \<Rightarrow> path_error + path \<times> string list" where
  "find_base fs cursor remaining =
     (if path_exists fs cursor then Inr (cursor, remaining)
      else case path_parent cursor of
        None \<Rightarrow> Inr (cursor, remaining)
      | Some p \<Rightarrow>
          (case path_file_name cursor of
             None \<Rightarrow> Inl PanicNoFileName
           | Some f \<Rightarrow> find_base fs p (remaining @ [f])))"
  by pat_completeness auto
termination
  by (relation "measure (\<lambda>(fs, p, r). length p)") (auto dest: path_parent_length)

declare find_base.simps [simp del]

definition resolve_joined :: "fs \<Rightarrow> path \<Rightarrow> path_error + abspath" where
  "resolve_joined fs joined =
     (if path_exists fs joined then
        (case canonicalize fs joined of
           None \<Rightarrow> Inl (CannotResolve joined)
         | Some q \<Rightarrow> Inr q)
      else res_bind (find_base fs joined []) (\<lambda>(cursor, remaining).
        case canonicalize fs cursor of
          None \<Rightarrow> Inl (CannotResolve cursor)
        | Some base \<Rightarrow> Inr (base @ rev remaining)))"

text \<open>\<open>path_safety::safe_join\<close>: the root is an absolute path, not necessarily canonical.\<close>

definition safe_join :: "fs \<Rightarrow> path \<Rightarrow> string \<Rightarrow> path_error + path" where
  "safe_join fs root untrusted =
     (if CHR 0x00 \<in> set untrusted then Inl NullByte
      else if is_absolute untrusted then Inl (AbsolutePath untrusted)
      else res_bind (check_components untrusted (path_components untrusted)) (\<lambda>_.
        let joined = root @ raw_path untrusted in
        res_bind (reject_links fs root joined) (\<lambda>_.
          case canonicalize fs root of
            None \<Rightarrow> Inl RootMissing
          | Some root_canonical \<Rightarrow>
              if map_of fs root_canonical \<noteq> Some NDir then Inl RootNotDir
              else res_bind (resolve_joined fs joined) (\<lambda>resolved.
                if \<not> prefix root_canonical resolved then Inl (EscapesRoot untrusted)
                else Inr joined))))"

record SyncRoot =
  sr_root :: abspath

definition sync_root_open :: "fs \<Rightarrow> path \<Rightarrow> path_error + SyncRoot" where
  "sync_root_open fs p =
     (case canonicalize fs p of
        None \<Rightarrow> Inl RootMissing
      | Some canonical \<Rightarrow>
          if map_of fs canonical \<noteq> Some NDir then Inl RootNotDir
          else Inr \<lparr>sr_root = canonical\<rparr>)"

definition root_safe_join :: "fs \<Rightarrow> SyncRoot \<Rightarrow> string \<Rightarrow> path_error + path" where
  "root_safe_join fs r untrusted =
     (if CHR 0x00 \<in> set untrusted then Inl NullByte
      else if is_absolute untrusted then Inl (AbsolutePath untrusted)
      else res_bind (check_components untrusted (path_components untrusted)) (\<lambda>_.
        let joined = lit (sr_root r) @ raw_path untrusted in
        res_bind (reject_links fs (lit (sr_root r)) joined) (\<lambda>_.
          res_bind (resolve_joined fs joined) (\<lambda>resolved.
            if \<not> prefix (sr_root r) resolved then Inl (EscapesRoot untrusted)
            else Inr joined))))"

section \<open>Operations below the root\<close>

datatype fs_error = PathErr path_error | ReadFailed | CreateDirsFailed | WriteFailed
  | RenameFailed | StatFailed

definition path_res :: "path_error + 'a \<Rightarrow> fs_error + 'a" where
  "path_res r = (case r of Inl e \<Rightarrow> Inl (PathErr e) | Inr x \<Rightarrow> Inr x)"

definition opt_res :: "fs_error \<Rightarrow> 'a option \<Rightarrow> fs_error + 'a" where
  "opt_res e r = (case r of None \<Rightarrow> Inl e | Some x \<Rightarrow> Inr x)"

definition root_read_file :: "fs \<Rightarrow> SyncRoot \<Rightarrow> string \<Rightarrow> fs_error + bytes" where
  "root_read_file fs r path =
     res_bind (path_res (root_safe_join fs r path)) (\<lambda>target. opt_res ReadFailed (fs_read fs target))"

definition create_parent :: "fs \<Rightarrow> path \<Rightarrow> fs_error + fs" where
  "create_parent fs target =
     (case path_parent target of
        None \<Rightarrow> Inr fs
      | Some parent \<Rightarrow> opt_res CreateDirsFailed (create_dir_all fs parent))"

definition root_write_file :: "i64 \<Rightarrow> fs \<Rightarrow> SyncRoot \<Rightarrow> string \<Rightarrow> bytes \<Rightarrow> fs_error + fs" where
  "root_write_file now fs r path data =
     res_bind (path_res (root_safe_join fs r path)) (\<lambda>target.
       res_bind (create_parent fs target) (\<lambda>fs1.
         opt_res WriteFailed (fs_write fs1 target data now)))"

definition root_create_dir_all :: "fs \<Rightarrow> SyncRoot \<Rightarrow> string \<Rightarrow> fs_error + fs" where
  "root_create_dir_all fs r path =
     res_bind (path_res (root_safe_join fs r path)) (\<lambda>target.
       opt_res CreateDirsFailed (create_dir_all fs target))"

definition root_rename :: "fs \<Rightarrow> SyncRoot \<Rightarrow> string \<Rightarrow> string \<Rightarrow> fs_error + fs" where
  "root_rename fs r from to =
     res_bind (path_res (root_safe_join fs r from)) (\<lambda>from_path.
       res_bind (path_res (root_safe_join fs r to)) (\<lambda>to_path.
         opt_res RenameFailed (fs_rename fs from_path to_path)))"

definition root_metadata :: "fs \<Rightarrow> SyncRoot \<Rightarrow> string \<Rightarrow> fs_error + node" where
  "root_metadata fs r path =
     res_bind (path_res (root_safe_join fs r path)) (\<lambda>target.
       opt_res StatFailed (fs_metadata fs target))"

section \<open>Scanning\<close>

text \<open>A modification time before 1970 counts as 0 (\<open>unwrap_or_default\<close>).
  \<open>read_dir\<close> yields the names in a directory in an order of its own, here the order of
  the file-system list.\<close>

definition read_dir :: "fs \<Rightarrow> abspath \<Rightarrow> (string \<times> node) list" where
  "read_dir fs dir = [(last p, n). (p, n) \<leftarrow> fs, p \<noteq> [] \<and> butlast p = dir]"

definition scan_file ::
  "(bytes \<Rightarrow> bytes) \<Rightarrow> abspath \<Rightarrow> abspath \<Rightarrow> bytes \<Rightarrow> i64 \<Rightarrow> SnapshotEntry list" where
  "scan_file blake3 root p data mtime =
     (if last p = ''metadata.db'' then []
      else [\<lparr>se_path = join_slash (drop (length root) p), se_kind = File,
             se_size = word_of_nat (length data), se_hash = file_hash_from_bytes blake3 data,
             se_version = version_new, se_mtime = max 0 mtime\<rparr>])"

function scan_dir :: "(bytes \<Rightarrow> bytes) \<Rightarrow> fs \<Rightarrow> abspath \<Rightarrow> abspath \<Rightarrow> SnapshotEntry list" where
  "scan_dir blake3 fs root dir =
     concat (map (\<lambda>(s, n). case n of
        NLink _ \<Rightarrow> []
      | NDir \<Rightarrow> scan_dir blake3 fs root (dir @ [s])
      | NFile d m \<Rightarrow> scan_file blake3 root (dir @ [s]) d m) (read_dir fs dir))"
  by pat_completeness auto

definition max_depth :: "fs \<Rightarrow> nat" where
  "max_depth fs = Max (insert 0 (length ` fst ` set fs))"

lemma length_le_max_depth: "(p, n) \<in> set fs \<Longrightarrow> length p \<le> max_depth fs"
  unfolding max_depth_def by (rule Max_ge) (force simp: image_iff)+

lemma set_read_dir: "(s, n) \<in> set (read_dir fs dir) \<longleftrightarrow> (dir @ [s], n) \<in> set fs"
  by (force simp: read_dir_def)

termination scan_dir
proof (relation "measure (\<lambda>(b, fs, root, dir). Suc (max_depth fs) - length dir)")
  fix blake3 :: "bytes \<Rightarrow> bytes" and fs :: fs and root dir :: abspath and z :: "string \<times> node" and s n
  assume "z \<in> set (read_dir fs dir)" "(s, n) = z" "n = NDir"
  then have "(dir @ [s], NDir) \<in> set fs" using set_read_dir by auto
  from length_le_max_depth [OF this]
  show "((blake3, fs, root, dir @ [s]), blake3, fs, root, dir) \<in>
      measure (\<lambda>(b, fs, root, dir). Suc (max_depth fs) - length dir)"
    by simp
qed auto

declare scan_dir.simps [simp del]

definition scan :: "(bytes \<Rightarrow> bytes) \<Rightarrow> fs \<Rightarrow> SyncRoot \<Rightarrow> FolderId \<Rightarrow> u64 \<Rightarrow> Snapshot" where
  "scan blake3 fs r folder_id generation =
     \<lparr>snap_folder_id = folder_id, snap_generation = generation,
      snap_entries = scan_dir blake3 fs (sr_root r) (sr_root r)\<rparr>"

section \<open>Paths without links\<close>

definition no_links :: "fs \<Rightarrow> abspath \<Rightarrow> bool" where
  "no_links fs p \<longleftrightarrow> (\<forall>q. prefix q p \<longrightarrow> \<not> is_link (map_of fs q))"

definition root_ok :: "fs \<Rightarrow> SyncRoot \<Rightarrow> bool" where
  "root_ok fs r \<longleftrightarrow> wf_fs fs \<and> map_of fs (sr_root r) = Some NDir"

lemma no_links_prefix: "no_links fs p \<Longrightarrow> prefix q p \<Longrightarrow> no_links fs q"
  by (auto simp: no_links_def intro: prefix_order.trans)

lemma dir_no_links:
  assumes "wf_fs fs" and "map_of fs p = Some n" and "\<not> is_link (Some n)"
  shows "no_links fs p"
  unfolding no_links_def
proof (intro allI impI)
  fix q assume "prefix q p"
  then obtain z where p: "p = q @ z" by (auto elim: prefixE)
  show "\<not> is_link (map_of fs q)"
    using wf_fs_prefix [OF assms(1), of q z n] assms(2,3) p by (cases "z = []") auto
qed

lemma walk_no_links:
  "no_links fs p \<Longrightarrow> walk fs n follow [] (lit p) \<in> {Found p, Missing p, ENoEnt, ENotDir}"
  using walk_nolinks [of p fs "[]" n follow] by (simp add: no_links_def)

lemma no_links_mono:
  assumes "no_links fs p" and "\<And>q. prefix q p \<Longrightarrow> is_link (map_of fs' q) \<Longrightarrow> is_link (map_of fs q)"
  shows "no_links fs' p"
  using assms by (auto simp: no_links_def)

lemma canonicalize_lit:
  "wf_fs fs \<Longrightarrow> map_of fs p = Some n \<Longrightarrow> \<not> is_link (Some n) \<Longrightarrow> canonicalize fs (lit p) = Some p"
  using walk_lit_found [of fs "[]" p n True] by (simp add: canonicalize_def)

lemma canonicalize_no_links:
  "no_links fs p \<Longrightarrow> canonicalize fs (lit p) = Some q \<Longrightarrow> q = p"
  using walk_no_links [of fs p MAXSYMLINKS True]
  by (auto simp: canonicalize_def split: walk_result.splits)

lemma canonicalize_exists: "wf_fs fs \<Longrightarrow> canonicalize fs p = Some q \<Longrightarrow> map_of fs q \<noteq> None"
  using walk_found_exists [of fs MAXSYMLINKS True "[]" p q]
  by (auto simp: canonicalize_def split: walk_result.splits)

lemma symlink_metadata_lit:
  "wf_fs fs \<Longrightarrow> map_of fs p = Some n \<Longrightarrow> symlink_metadata fs (lit p) = Some n"
  using walk_lit_found [of fs "[]" p n False] by (simp add: symlink_metadata_def)

lemma symlink_metadata_no_links:
  "no_links fs p \<Longrightarrow> \<not> is_link (symlink_metadata fs (lit p))"
  using walk_no_links [of fs p MAXSYMLINKS False] prefix_order.refl [of p]
  by (auto simp: symlink_metadata_def no_links_def split: walk_result.splits)

section \<open>Facts about safe join\<close>

lemma check_components_ok:
  "check_components s cs = Inr () \<longleftrightarrow> ParentDir \<notin> set cs \<and> Normal [] \<notin> set cs"
  by (induction s cs rule: check_components.induct) (auto split: Component.splits)

lemma components_not_empty: "Normal [] \<notin> set (path_components s)"
  by (auto simp: path_components_def raw_comp_def split: if_splits)

lemma path_eq_lit: "path_eq (lit p) (lit q) \<longleftrightarrow> p = q"
  using inj_map_eq_map [of Normal] by (simp add: path_eq_def inj_def)

lemma path_eq_lit_cur: "path_eq (lit p @ [CurDir]) (lit q) \<longleftrightarrow> p = q"
  using inj_map_eq_map [of Normal] by (simp add: path_eq_def inj_def)

lemma reject_links_lit:
  assumes "wf_fs fs" and "map_of fs root = Some NDir"
  shows "reject_links fs (lit root) (lit (root @ ns)) = Inr () \<longleftrightarrow> no_links fs (root @ ns)"
proof (induction ns rule: rev_induct)
  case Nil
  then show ?case
    using dir_no_links [OF assms] by (subst reject_links.simps) (simp add: path_eq_lit)
next
  case (snoc x ns)
  have par: "path_parent (lit (root @ ns @ [x])) = Some (lit (root @ ns))"
    using path_parent_lit(1) [of "root @ ns" x] by simp
  have "is_link (symlink_metadata fs (lit (root @ ns @ [x])))"
    if "is_link (map_of fs (root @ ns @ [x]))"
    using that symlink_metadata_lit [OF assms(1), of "root @ ns @ [x]"]
    by (cases "map_of fs (root @ ns @ [x])") auto
  moreover have "no_links fs (root @ ns @ [x]) \<longleftrightarrow>
      no_links fs (root @ ns) \<and> \<not> is_link (map_of fs (root @ ns @ [x]))"
    using prefix_snoc [of _ "root @ ns" x] by (auto simp: no_links_def)
  ultimately show ?case
    using snoc symlink_metadata_no_links [of fs "root @ ns @ [x]"]
    by (subst reject_links.simps) (auto simp: path_eq_lit par simp del: map_append)
qed

lemma reject_links_step:
  assumes "wf_fs fs" and "map_of fs root = Some NDir" and "ns \<noteq> []"
    and "reject_links fs (lit root) (lit (root @ ns) @ [CurDir]) = Inr ()"
  shows "no_links fs (root @ butlast ns)"
proof -
  from assms(3) obtain ms x where ns: "ns = ms @ [x]" by (cases ns rule: rev_cases) auto
  have "path_parent (lit (root @ ns) @ [CurDir]) = Some (lit (root @ ms))"
    using path_parent_lit(2) [of "root @ ms" x] by (simp add: ns)
  moreover have "\<not> path_eq (lit (root @ ns) @ [CurDir]) (lit root)"
    using assms(3) by (simp only: path_eq_lit_cur) simp
  ultimately have "reject_links fs (lit root) (lit (root @ ms)) = Inr ()"
    using assms(4) by (subst (asm) reject_links.simps) (auto split: if_splits)
  then show ?thesis using reject_links_lit [OF assms(1,2)] by (simp add: ns)
qed

lemma safe_join_shape:
  assumes "root_ok fs r" and "root_safe_join fs r s = Inr j"
  obtains ns tr where "j = lit (sr_root r @ ns) @ tr" and "raw_path s = lit ns @ tr"
    and "tr = [] \<or> tr = [CurDir]" and "\<forall>n \<in> set ns. valid_name n" and "tr = [] \<Longrightarrow> ns \<noteq> []"
    and "tr = [] \<Longrightarrow> no_links fs (sr_root r @ ns)" and "no_links fs (sr_root r @ butlast ns)"
    and "\<exists>q. resolve_joined fs j = Inr q \<and> prefix (sr_root r) q"
proof -
  have wf: "wf_fs fs" and dir: "map_of fs (sr_root r) = Some NDir"
    using assms(1) by (auto simp: root_ok_def)
  from assms(2) have nul: "CHR 0x00 \<notin> set s" and comps: "ParentDir \<notin> set (path_components s)"
    and j: "j = lit (sr_root r) @ raw_path s"
    and rej: "reject_links fs (lit (sr_root r)) j = Inr ()"
    and res: "\<exists>q. resolve_joined fs j = Inr q \<and> prefix (sr_root r) q"
    by (auto simp: root_safe_join_def Let_def result_simps check_components_ok split: if_splits)
  from nul comps obtain ns tr where raw: "raw_path s = lit ns @ tr" and tr: "tr = [] \<or> tr = [CurDir]"
    and names: "\<forall>n \<in> set ns. valid_name n" and ne: "tr = [] \<Longrightarrow> ns \<noteq> []"
    by (rule raw_path_shape, blast)
  have jj: "j = lit (sr_root r @ ns) @ tr" using j raw by simp
  have nl: "no_links fs (sr_root r @ ns)" if "tr = []"
    using rej reject_links_lit [OF wf dir, of ns] that jj by simp
  have "no_links fs (sr_root r @ butlast ns)"
  proof (cases "tr = []")
    case True
    have "prefix (butlast ns) ns" by (rule prefixeq_butlast)
    then show ?thesis by (intro no_links_prefix [OF nl [OF True]]) simp
  next
    case False
    with tr have "tr = [CurDir]" by simp
    then show ?thesis
      using rej reject_links_step [OF wf dir, of ns] jj dir_no_links [OF wf dir]
      by (cases "ns = []") auto
  qed
  with that [of ns tr] jj raw tr names ne nl res show thesis by blast
qed

lemma safe_join_string:
  "root_safe_join fs r s = Inr j \<Longrightarrow>
     CHR 0x00 \<notin> set s \<and> \<not> is_absolute s \<and> ParentDir \<notin> set (path_components s)"
  by (auto simp: root_safe_join_def result_simps check_components_ok split: if_splits)

lemma safe_join_lit:
  assumes "root_ok fs r" and "root_safe_join fs r s = Inr j" and "raw_path s = lit ns"
  shows "j = lit (sr_root r @ ns) \<and> no_links fs (sr_root r @ ns) \<and> ns \<noteq> [] \<and>
    (\<forall>n \<in> set ns. valid_name n)"
proof -
  obtain ms tr where sh: "j = lit (sr_root r @ ms) @ tr" "raw_path s = lit ms @ tr"
    "tr = [] \<or> tr = [CurDir]" "\<forall>n \<in> set ms. valid_name n" "tr = [] \<Longrightarrow> ms \<noteq> []"
    "tr = [] \<Longrightarrow> no_links fs (sr_root r @ ms)"
    using safe_join_shape [OF assms(1,2)] by metis
  have "CurDir \<notin> set (lit ms @ tr)" using assms(3) sh(2) by auto
  then have tr: "tr = []" using sh(3) by auto
  then have "ms = ns" using sh(2) assms(3) inj_map_eq_map [of Normal ms ns] by (simp add: inj_def)
  then show ?thesis using sh tr by auto
qed

lemma safe_join_ok:
  assumes "root_ok fs r" and "CHR 0x00 \<notin> set s" and "\<not> is_absolute s"
    and "ParentDir \<notin> set (path_components s)" and "raw_path s = lit ns"
    and "map_of fs (sr_root r @ ns) = Some n" and "\<not> is_link (Some n)"
  shows "root_safe_join fs r s = Inr (lit (sr_root r @ ns))"
proof -
  have wf: "wf_fs fs" and dir: "map_of fs (sr_root r) = Some NDir"
    using assms(1) by (auto simp: root_ok_def)
  have can: "canonicalize fs (lit (sr_root r @ ns)) = Some (sr_root r @ ns)"
    by (rule canonicalize_lit [OF wf assms(6,7)])
  then have "resolve_joined fs (lit (sr_root r @ ns)) = Inr (sr_root r @ ns)"
    by (simp add: resolve_joined_def path_exists_def)
  moreover have "reject_links fs (lit (sr_root r)) (lit (sr_root r @ ns)) = Inr ()"
    using reject_links_lit [OF wf dir] dir_no_links [OF wf assms(6,7)] by blast
  moreover have "check_components s (path_components s) = Inr ()"
    using assms(4) components_not_empty check_components_ok by blast
  ultimately show ?thesis
    using assms(2,3,5) by (simp add: root_safe_join_def Let_def)
qed

lemma root_read_back:
  assumes "root_ok fs r" and "CHR 0x00 \<notin> set s" and "\<not> is_absolute s"
    and "ParentDir \<notin> set (path_components s)" and "raw_path s = lit ns"
    and "map_of fs (sr_root r @ ns) = Some (NFile d m)"
  shows "root_read_file fs r s = Inr d"
proof -
  have "canonicalize fs (lit (sr_root r @ ns)) = Some (sr_root r @ ns)"
    using assms(1) by (intro canonicalize_lit [OF _ assms(6)]) (auto simp: root_ok_def)
  with safe_join_ok [OF assms] show ?thesis
    by (simp add: root_read_file_def path_res_def opt_res_def fs_read_def fs_metadata_def assms(6))
qed

section \<open>Creating directories\<close>

text \<open>What \<open>create_dir_all\<close> may do below a path without links: add directories on it.\<close>

definition adds_dirs :: "abspath \<Rightarrow> fs \<Rightarrow> fs \<Rightarrow> bool" where
  "adds_dirs p fs fs' \<longleftrightarrow>
     (\<forall>q. map_of fs' q = map_of fs q \<or>
        map_of fs q = None \<and> map_of fs' q = Some NDir \<and> prefix q p)"

lemma adds_dirs_refl [simp]: "adds_dirs p fs fs"
  by (simp add: adds_dirs_def)

lemma adds_dirs_link: "adds_dirs p fs fs' \<Longrightarrow> is_link (map_of fs' q) \<Longrightarrow> is_link (map_of fs q)"
  unfolding adds_dirs_def by (metis is_link.simps(4))

lemma is_dir_no_links: "no_links fs p \<Longrightarrow> is_dir fs (lit p) \<Longrightarrow> map_of fs p = Some NDir"
  using canonicalize_no_links [of fs p]
  by (auto simp: is_dir_def fs_metadata_def split: option.splits)

lemma mkdir_no_links:
  assumes "wf_fs fs" and "no_links fs p" and "\<forall>n \<in> set p. valid_name n" and "mkdir fs (lit p) = MkOk fs'"
  shows "wf_fs fs' \<and> map_of fs' p = Some NDir \<and> adds_dirs p fs fs'"
proof -
  have w: "walk fs MAXSYMLINKS False [] (lit p) = Missing p" and fs': "fs' = hm_insert p NDir fs"
    using assms(4) walk_no_links [OF assms(2), of MAXSYMLINKS False]
    by (auto simp: mkdir_def split: walk_result.splits)
  note m = walk_missingD [OF w]
  have "wf_fs fs'"
    unfolding fs' by (rule wf_fs_insert) (use assms(1,3) m in auto)
  then show ?thesis using m by (auto simp: fs' adds_dirs_def hm_simps)
qed

lemma create_dir_all_no_links:
  assumes "wf_fs fs"
  shows "no_links fs p \<Longrightarrow> \<forall>n \<in> set p. valid_name n \<Longrightarrow> create_dir_all fs (lit p) = Some fs' \<Longrightarrow>
    wf_fs fs' \<and> map_of fs' p = Some NDir \<and> adds_dirs p fs fs'"
proof (induction p arbitrary: fs' rule: rev_induct)
  case Nil
  then show ?case using assms
    by (subst (asm) create_dir_all.simps)
      (auto simp: mkdir_def path_trim_def split: if_splits)
next
  case (snoc x p)
  show ?case
  proof (cases "mkdir fs (lit (p @ [x]))")
    case (MkOk fs1)
    with snoc.prems have "fs' = fs1" by (subst (asm) create_dir_all.simps) simp
    with mkdir_no_links [OF assms snoc.prems(1,2) MkOk] show ?thesis by simp
  next
    case MkOther
    with snoc.prems have "fs' = fs" "is_dir fs (lit (p @ [x]))"
      by (subst (asm) create_dir_all.simps; auto split: if_splits)+
    with assms is_dir_no_links [OF snoc.prems(1)] show ?thesis by simp
  next
    case MkNotFound
    have "create_dir_all fs (lit (p @ [x])) =
        (case create_dir_all fs (lit p) of None \<Rightarrow> None
         | Some fs1 \<Rightarrow> (case mkdir fs1 (lit (p @ [x])) of MkOk fs2 \<Rightarrow> Some fs2
             | _ \<Rightarrow> if is_dir fs1 (lit (p @ [x])) then Some fs1 else None))"
      by (subst create_dir_all.simps) (simp only: MkNotFound mkdir_result.case path_parent_lit option.case)
    with snoc.prems(3) obtain fs1 where fs1: "create_dir_all fs (lit p) = Some fs1"
      and fs': "(case mkdir fs1 (lit (p @ [x])) of MkOk fs2 \<Rightarrow> Some fs2
             | _ \<Rightarrow> if is_dir fs1 (lit (p @ [x])) then Some fs1 else None) = Some fs'"
      by (auto split: option.splits simp del: map_append)
    have "no_links fs p" using snoc.prems(1) by (rule no_links_prefix) simp
    from snoc.IH [OF this _ fs1] snoc.prems(2)
    have 1: "wf_fs fs1" "map_of fs1 p = Some NDir" "adds_dirs p fs fs1" by auto
    have nl: "no_links fs1 (p @ [x])"
      by (rule no_links_mono [OF snoc.prems(1)]) (rule adds_dirs_link [OF 1(3)])
    have "wf_fs fs' \<and> map_of fs' (p @ [x]) = Some NDir \<and> adds_dirs (p @ [x]) fs1 fs'"
    proof (cases "mkdir fs1 (lit (p @ [x]))")
      case (MkOk fs2)
      with fs' mkdir_no_links [OF 1(1) nl snoc.prems(2) MkOk] show ?thesis by simp
    qed (use fs' is_dir_no_links [OF nl] 1 in \<open>auto split: if_splits simp del: map_append\<close>)
    with 1(3) show ?thesis unfolding adds_dirs_def by (metis prefix_snoc)
  qed
qed

section \<open>Writing\<close>

lemma fs_write_lit:
  assumes "wf_fs fs" and "no_links fs p" and "p \<noteq> []" and "valid_name (last p)"
    and "fs_write fs (lit p) d now = Some fs'"
  shows "fs' = hm_insert p (NFile d now) fs \<and> map_of fs p \<noteq> Some NDir \<and> wf_fs fs'"
proof -
  consider (found) "walk fs MAXSYMLINKS True [] (lit p) = Found p"
    | (missing) "walk fs MAXSYMLINKS True [] (lit p) = Missing p"
    using walk_no_links [OF assms(2), of MAXSYMLINKS True] assms(5) by (auto simp: fs_write_def)
  then have *: "fs' = hm_insert p (NFile d now) fs \<and> map_of fs p \<noteq> Some NDir \<and>
      map_of fs (butlast p) = Some NDir"
  proof cases
    case found
    with assms(5) obtain d' m where "map_of fs p = Some (NFile d' m)" "fs' = hm_insert p (NFile d now) fs"
      by (auto simp: fs_write_def split: option.splits node.splits)
    with wf_fs_snoc(1) [OF assms(1), of "butlast p" "last p"] assms(3) show ?thesis by simp
  next
    case missing
    with assms(5) walk_missingD [OF missing] show ?thesis by (simp add: fs_write_def)
  qed
  then show ?thesis using wf_fs_insert [OF assms(1) _ assms(3,4)] by blast
qed

lemma fs_write_curdir: "fs_write fs (p @ [CurDir]) d now = None"
  using walk_curdir [of fs MAXSYMLINKS True "[]" "p @ [CurDir]"]
  by (auto simp: fs_write_def split: walk_result.splits option.splits node.splits)

lemma create_parent_lit:
  assumes "wf_fs fs" and "no_links fs p" and "\<forall>n \<in> set p. valid_name n"
    and "create_parent fs (lit (p @ [x])) = Inr fs'"
  shows "wf_fs fs' \<and> map_of fs' p = Some NDir \<and> adds_dirs p fs fs'"
proof -
  have "create_dir_all fs (lit p) = Some fs'"
    using assms(4) by (simp add: create_parent_def path_parent_lit opt_res_def split: option.splits
        del: map_append)
  from create_dir_all_no_links [OF assms(1-3) this] show ?thesis .
qed

text \<open>The write as a whole: directories on the way, then the file.\<close>

lemma root_write_effect:
  assumes ok: "root_ok fs r" and "\<forall>n \<in> set (sr_root r). valid_name n"
    and "root_write_file now fs r s data = Inr fs'"
  obtains ns fs1 where "raw_path s = lit ns" and "ns \<noteq> []" and "\<forall>n \<in> set ns. valid_name n"
    and "root_safe_join fs r s = Inr (lit (sr_root r @ ns))"
    and "adds_dirs (sr_root r @ butlast ns) fs fs1" and "map_of fs1 (sr_root r @ ns) \<noteq> Some NDir"
    and "fs' = hm_insert (sr_root r @ ns) (NFile data now) fs1" and "wf_fs fs1" and "wf_fs fs'"
proof -
  from assms(3) obtain j fs1 where j: "root_safe_join fs r s = Inr j"
    and fs1: "create_parent fs j = Inr fs1" and fs': "fs_write fs1 j data now = Some fs'"
    by (auto simp: root_write_file_def path_res_def opt_res_def result_simps
        split: sum.splits option.splits)
  from safe_join_shape [OF ok j] obtain ns tr where jj: "j = lit (sr_root r @ ns) @ tr"
    and raw: "raw_path s = lit ns @ tr" and tr: "tr = [] \<or> tr = [CurDir]"
    and names: "\<forall>n \<in> set ns. valid_name n" and ne: "tr = [] \<Longrightarrow> ns \<noteq> []"
    and nl: "tr = [] \<Longrightarrow> no_links fs (sr_root r @ ns)"
    and nlb: "no_links fs (sr_root r @ butlast ns)"
    by metis
  have tr0: "tr = []"
    using tr fs' fs_write_curdir [of fs1 "lit (sr_root r @ ns)" data now] jj by auto
  have wf: "wf_fs fs" using ok by (simp add: root_ok_def)
  from ne [OF tr0] obtain ms x where ns: "ns = ms @ [x]" by (cases ns rule: rev_cases) auto
  have par: "wf_fs fs1 \<and> map_of fs1 (sr_root r @ ms) = Some NDir \<and> adds_dirs (sr_root r @ ms) fs fs1"
    using create_parent_lit [OF wf, of "sr_root r @ ms" x fs1] nlb assms(2) names fs1
    by (auto simp: jj tr0 ns simp del: map_append)
  have nl1: "no_links fs1 (sr_root r @ ns)"
    using adds_dirs_link par by (intro no_links_mono [OF nl [OF tr0]]) blast
  have "sr_root r @ ns \<noteq> []" "valid_name (last (sr_root r @ ns))" using names ns by auto
  note w = fs_write_lit [OF conjunct1 [OF par] nl1 this fs' [unfolded jj tr0 append_Nil2]]
  show thesis
    by (rule that [of ns fs1]) (use w par ns names raw tr0 j jj in auto)
qed

section \<open>Facts about the scan\<close>

lemma distinct_read_dir:
  assumes "wf_fs fs"
  shows "distinct (map fst (read_dir fs dir))"
proof -
  have "distinct (map fst (filter (\<lambda>(p, n). p \<noteq> [] \<and> butlast p = dir) fs))"
    using assms by (simp add: wf_fs_def distinct_map_filter)
  moreover have "inj_on last (set (map fst (filter (\<lambda>(p, n). p \<noteq> [] \<and> butlast p = dir) fs)))"
    by (rule inj_onI) (auto, metis append_butlast_last_id)
  ultimately have "distinct (map last (map fst (filter (\<lambda>(p, n). p \<noteq> [] \<and> butlast p = dir) fs)))"
    unfolding distinct_map [of last] by blast
  moreover have "map fst (read_dir fs dir) =
      map last (map fst (filter (\<lambda>(p, n). p \<noteq> [] \<and> butlast p = dir) fs))"
    unfolding read_dir_def by (induction fs) (auto split: if_splits)
  ultimately show ?thesis by simp
qed

definition scan_entry :: "(bytes \<Rightarrow> bytes) \<Rightarrow> string list \<Rightarrow> bytes \<Rightarrow> i64 \<Rightarrow> SnapshotEntry" where
  "scan_entry blake3 rel d m =
     \<lparr>se_path = join_slash rel, se_kind = File, se_size = word_of_nat (length d),
      se_hash = file_hash_from_bytes blake3 d, se_version = version_new, se_mtime = max 0 m\<rparr>"

lemma set_scan_dir:
  assumes "wf_fs fs"
  shows "e \<in> set (scan_dir blake3 fs root dir) \<longleftrightarrow>
    (\<exists>ns d m. ns \<noteq> [] \<and> map_of fs (dir @ ns) = Some (NFile d m) \<and> last ns \<noteq> ''metadata.db'' \<and>
       e = scan_entry blake3 (drop (length root) (dir @ ns)) d m)"
  using assms
proof (induction blake3 fs root dir rule: scan_dir.induct)
  case (1 blake3 fs root dir)
  define hit where "hit p d m \<longleftrightarrow> map_of fs p = Some (NFile d m) \<and> last p \<noteq> ''metadata.db'' \<and>
      e = scan_entry blake3 (drop (length root) p) d m" for p d m
  have entry: "map_of fs (dir @ [s]) = Some n \<longleftrightarrow> (s, n) \<in> set (read_dir fs dir)" for s n
    using "1.prems" by (simp add: set_read_dir wf_fs_def)
  have sub: "e \<in> set (scan_dir blake3 fs root (dir @ [s])) \<longleftrightarrow>
      (\<exists>ns d m. ns \<noteq> [] \<and> hit (dir @ s # ns) d m)" if "(s, NDir) \<in> set (read_dir fs dir)" for s
    using "1.IH" [OF that refl refl "1.prems"] by (auto simp: hit_def)
  have fil: "e \<in> set (scan_file blake3 root (dir @ [s]) d m) \<longleftrightarrow> hit (dir @ [s]) d m"
    if "(s, NFile d m) \<in> set (read_dir fs dir)" for s d m
    using that by (auto simp: hit_def scan_file_def scan_entry_def entry)
  have each: "e \<in> set (case n of NLink _ \<Rightarrow> [] | NDir \<Rightarrow> scan_dir blake3 fs root (dir @ [s])
        | NFile d m \<Rightarrow> scan_file blake3 root (dir @ [s]) d m) \<longleftrightarrow> (\<exists>ns d m. hit (dir @ s # ns) d m)"
    if n: "(s, n) \<in> set (read_dir fs dir)" for s n
  proof -
    have at: "map_of fs (dir @ [s]) = Some n" using n by (simp add: entry)
    have below: "n = NDir" if "hit (dir @ s # ns) d m" "ns \<noteq> []" for ns d m
      using wf_fs_prefix [OF "1.prems", of "dir @ [s]" ns "NFile d m"] that at by (simp add: hit_def)
    have here: "n = NFile d m" if "hit (dir @ [s]) d m" for d m
      using that at by (simp add: hit_def)
    show ?thesis
    proof (cases n)
      case (NFile d m)
      have "ns = [] \<and> d' = d \<and> m' = m" if "hit (dir @ s # ns) d' m'" for ns d' m'
        using below [OF that] here [of d' m'] that NFile by (cases "ns = []") auto
      then have "(\<exists>ns d m. hit (dir @ s # ns) d m) \<longleftrightarrow> hit (dir @ [s]) d m" by blast
      with fil [of s d m] n NFile show ?thesis by (simp only: node.case)
    next
      case NDir
      have "ns \<noteq> []" if "hit (dir @ s # ns) d m" for ns d m
        using here [of d m] that NDir by (cases "ns = []") auto
      then have "(\<exists>ns d m. hit (dir @ s # ns) d m) \<longleftrightarrow>
          (\<exists>ns d m. ns \<noteq> [] \<and> hit (dir @ s # ns) d m)" by blast
      with sub [of s] n NDir show ?thesis by (simp only: node.case)
    next
      case (NLink t)
      have "\<not> hit (dir @ s # ns) d m" for ns d m
        using below [of ns d m] here [of d m] NLink by (cases "ns = []") auto
      with NLink show ?thesis by simp
    qed
  qed
  have "e \<in> set (scan_dir blake3 fs root dir) \<longleftrightarrow> (\<exists>(s, n) \<in> set (read_dir fs dir).
      e \<in> set (case n of NLink _ \<Rightarrow> [] | NDir \<Rightarrow> scan_dir blake3 fs root (dir @ [s])
        | NFile d m \<Rightarrow> scan_file blake3 root (dir @ [s]) d m))"
    by (subst scan_dir.simps) auto
  also have "\<dots> \<longleftrightarrow> (\<exists>(s, n) \<in> set (read_dir fs dir). \<exists>ns d m. hit (dir @ s # ns) d m)"
    by (rule bex_cong [OF refl]) (simp only: split_paired_all prod.case each)
  also have "\<dots> \<longleftrightarrow> (\<exists>s ns d m. hit (dir @ s # ns) d m)"
  proof -
    have "\<exists>n. (s, n) \<in> set (read_dir fs dir)" if "hit (dir @ s # ns) d m" for s ns d m
      using wf_fs_prefix [OF "1.prems", of "dir @ [s]" ns "NFile d m"] that
      by (cases "ns = []") (auto simp: hit_def simp flip: entry)
    then show ?thesis by blast
  qed
  also have "\<dots> \<longleftrightarrow> (\<exists>ns d m. ns \<noteq> [] \<and> hit (dir @ ns) d m)"
    by (metis list.distinct(1) list.exhaust)
  finally show ?case by (auto simp: hit_def)
qed

lemma join_slash_inj:
  assumes "a \<noteq> []" "b \<noteq> []" "\<forall>n \<in> set a. valid_name n" "\<forall>n \<in> set b. valid_name n"
    and "join_slash a = join_slash b"
  shows "a = b"
  using split_join [OF assms(1,3)] split_join [OF assms(2,4)] assms(5) by metis

lemma wf_fs_names:
  assumes "wf_fs fs"
  shows "map_of fs (p @ ns) = Some n \<Longrightarrow> \<forall>x \<in> set ns. valid_name x"
proof (induction ns arbitrary: n rule: rev_induct)
  case (snoc x ns)
  from snoc.prems have at: "map_of fs ((p @ ns) @ [x]) = Some n" by simp
  from snoc.IH [OF wf_fs_snoc(1) [OF assms at]] wf_fs_snoc(2) [OF assms at] show ?case by simp
qed simp

lemma distinct_scan_dir:
  assumes "wf_fs fs" and "prefix root dir"
  shows "distinct (map se_path (scan_dir blake3 fs root dir))"
  using assms
proof (induction blake3 fs root dir rule: scan_dir.induct)
  case (1 blake3 fs root dir)
  define sub where "sub = (\<lambda>(s, n). case n of NLink _ \<Rightarrow> []
      | NDir \<Rightarrow> scan_dir blake3 fs root (dir @ [s])
      | NFile d m \<Rightarrow> scan_file blake3 root (dir @ [s]) d m)"
  from "1.prems" obtain rel where dir: "dir = root @ rel" by (auto elim: prefixE)
  have path: "\<exists>ns. se_path e = join_slash (rel @ s # ns) \<and> (\<forall>x \<in> set (rel @ s # ns). valid_name x)"
    if "e \<in> set (sub (s, n))" "(s, n) \<in> set (read_dir fs dir)" for e s n
  proof (cases n)
    case (NFile d m)
    have "map_of fs (root @ rel @ [s]) = Some n"
      using that(2) "1.prems" by (simp add: set_read_dir wf_fs_def dir)
    from wf_fs_names [OF "1.prems"(1) this] that NFile show ?thesis
      by (intro exI [of _ "[]"]) (auto simp: sub_def scan_file_def dir split: if_splits)
  next
    case NDir
    with that obtain ns d m where "map_of fs (root @ rel @ s # ns) = Some (NFile d m)"
      "e = scan_entry blake3 (rel @ s # ns) d m"
      by (auto simp: sub_def set_scan_dir [OF "1.prems"(1)] dir)
    with wf_fs_names [OF "1.prems"(1) this(1)] show ?thesis by (auto simp: scan_entry_def)
  qed (use that in \<open>simp add: sub_def\<close>)
  have own: "distinct (map se_path (sub x))" if "x \<in> set (read_dir fs dir)" for x
    using "1.IH" [OF that] "1.prems" by (cases x; cases "snd x") (auto simp: sub_def scan_file_def)
  have cross: "s = s'" if "(s, n) \<in> set (read_dir fs dir)" "(s', n') \<in> set (read_dir fs dir)"
    "e \<in> set (sub (s, n))" "e' \<in> set (sub (s', n'))" "se_path e = se_path e'" for s n s' n' e e'
  proof -
    from path [OF that(3,1)] path [OF that(4,2)] that(5) obtain ns ns' where
      "join_slash (rel @ s # ns) = join_slash (rel @ s' # ns')"
      "\<forall>x \<in> set (rel @ s # ns). valid_name x" "\<forall>x \<in> set (rel @ s' # ns'). valid_name x" by metis
    with join_slash_inj [of "rel @ s # ns" "rel @ s' # ns'"] show ?thesis by simp
  qed
  have "distinct (map se_path (concat (map sub xs)))"
    if "set xs \<subseteq> set (read_dir fs dir)" "distinct (map fst xs)" for xs
    using that
  proof (induction xs)
    case (Cons x xs)
    have "se_path e \<noteq> se_path e'" if e: "e \<in> set (sub x)" "e' \<in> set (concat (map sub xs))" for e e'
    proof
      assume eq: "se_path e = se_path e'"
      from e(2) obtain y where y: "y \<in> set xs" "e' \<in> set (sub y)" by auto
      then have "fst x = fst y"
        using cross [of "fst x" "snd x" "fst y" "snd y" e e'] Cons.prems(1) e(1) eq by auto
      then show False using Cons.prems(2) y(1) by auto
    qed
    then show ?case using Cons own [of x] by auto
  qed simp
  from this [OF subset_refl distinct_read_dir [OF "1.prems"(1)]] show ?case
    by (subst scan_dir.simps) (simp add: sub_def)
qed

section \<open>Properties\<close>


text \<open>C31. A successful write below the root stores the data at the named path, the same path
  string then reads it back, the file system stays well-formed, and every other path keeps its
  contents except that missing directories between the root and the file are created; in
  particular nothing outside the root changes.\<close>

theorem root_write_confined:
  assumes "root_ok fs r" and "root_write_file now fs r s data = Inr fs'"
  shows "root_read_file fs' r s = Inr data \<and> root_ok fs' r \<and>
    (\<exists>ns. ns \<noteq> [] \<and> raw_path s = lit ns \<and>
      map_of fs' (sr_root r @ ns) = Some (NFile data now) \<and>
      (\<forall>q. q \<noteq> sr_root r @ ns \<longrightarrow> map_of fs' q = map_of fs q \<or>
        map_of fs q = None \<and> map_of fs' q = Some NDir \<and> strict_prefix q (sr_root r @ ns) \<and>
        strict_prefix (sr_root r) q))"
proof -
  have wf: "wf_fs fs" and dir: "map_of fs (sr_root r) = Some NDir"
    using assms(1) by (auto simp: root_ok_def)
  have "\<forall>n \<in> set (sr_root r). valid_name n"
    using wf_fs_names [OF wf, of "[]" "sr_root r"] dir by simp
  from root_write_effect [OF assms(1) this assms(2)] obtain ns fs1 where
    raw: "raw_path s = lit ns" and ns: "ns \<noteq> []" and join: "root_safe_join fs r s = Inr (lit (sr_root r @ ns))"
    and dirs: "adds_dirs (sr_root r @ butlast ns) fs fs1"
    and fs': "fs' = hm_insert (sr_root r @ ns) (NFile data now) fs1" and wf': "wf_fs fs'"
    by metis
  have at: "map_of fs' (sr_root r @ ns) = Some (NFile data now)" by (simp add: fs' hm_simps)
  have dir': "map_of fs' (sr_root r) = Some NDir"
    using dirs dir ns unfolding fs' adds_dirs_def by (auto simp: hm_simps) (metis option.distinct(1))
  then have ok: "root_ok fs' r" using wf' by (simp add: root_ok_def)
  have "root_read_file fs' r s = Inr data"
    using safe_join_string [OF join] by (intro root_read_back [OF ok _ _ _ raw at]) auto
  moreover have "map_of fs' q = map_of fs q \<or> map_of fs q = None \<and> map_of fs' q = Some NDir \<and>
      strict_prefix q (sr_root r @ ns) \<and> strict_prefix (sr_root r) q" if "q \<noteq> sr_root r @ ns" for q
  proof (cases "map_of fs' q = map_of fs q")
    case False
    then have new: "map_of fs q = None" "map_of fs' q = Some NDir" "prefix q (sr_root r @ butlast ns)"
      using dirs that by (auto simp: fs' adds_dirs_def hm_simps)
    have "prefix q (sr_root r @ ns)"
      by (rule prefix_order.trans [OF new(3)]) (simp add: prefixeq_butlast)
    moreover have "strict_prefix (sr_root r) q"
    proof -
      have "\<not> prefix q (sr_root r)"
      proof
        assume "prefix q (sr_root r)"
        then obtain z where z: "sr_root r = q @ z" by (auto elim: prefixE)
        with wf_fs_prefix [OF wf, of q z NDir] new(1) dir show False by (cases "z = []") auto
      qed
      with new(3) show ?thesis
        by (metis prefix_order.less_le_not_le prefix_same_cases prefixI)
    qed
    ultimately show ?thesis using new that by (auto simp: strict_prefix_def)
  qed simp
  ultimately show ?thesis using ok raw ns at by blast
qed


text \<open>A file system with a sync folder, a link inside it and a file outside.\<close>

definition example_fs :: fs where
  "example_fs =
     [([], NDir), ([''etc''], NDir), ([''etc'', ''passwd''], NFile [1, 2] 5),
      ([''sync''], NDir), ([''sync'', ''docs''], NDir), ([''sync'', ''docs'', ''a''], NFile [7] 9),
      ([''sync'', ''out''], NLink ''/etc''), ([''sync'', ''in''], NLink ''docs''),
      ([''sync'', ''metadata.db''], NFile [] 0)]"

definition example_root :: SyncRoot where
  "example_root = \<lparr>sr_root = [''sync'']\<rparr>"

lemma example_root_ok: "root_ok example_fs example_root"
  by code_simp


theorem root_write_confined_witness:
  "\<exists>fs'. root_write_file 11 example_fs example_root ''new/dir/b'' [3, 4] = Inr fs' \<and>
     root_read_file fs' example_root ''new/dir/b'' = Inr [3, 4]"
proof -
  have "is_ok (root_write_file 11 example_fs example_root ''new/dir/b'' [3, 4])"
    by code_simp
  then obtain fs' where w: "root_write_file 11 example_fs example_root ''new/dir/b'' [3, 4] = Inr fs'"
    by (auto simp: is_ok_iff)
  from root_write_confined [OF example_root_ok w] w show ?thesis by blast
qed


text \<open>Two documented rejections do not happen. A path with an empty component is accepted
  (\<open>components\<close> drops empty segments before the check sees them), and a path that ends in a
  separator after a symbolic link is accepted when the link leads to a directory inside the root,
  because the final separator makes \<open>symlink_metadata\<close> follow the link; without the final
  separator, and for a link that leaves the root, the path is refused.\<close>

theorem safe_join_accepts_empty_and_trailing:
  "root_safe_join example_fs example_root ''docs//a'' = Inr (lit [''sync'', ''docs'', ''a'']) \<and>
   safe_join example_fs (lit [''sync'']) ''docs//a'' = Inr (lit [''sync'', ''docs'', ''a'']) \<and>
   map_of example_fs [''sync'', ''in''] = Some (NLink ''docs'') \<and>
   root_safe_join example_fs example_root ''in/'' = Inr (lit [''sync'', ''in''] @ [CurDir]) \<and>
   root_safe_join example_fs example_root ''in'' = Inl (SymlinkRejected (lit [''sync'', ''in''])) \<and>
   root_safe_join example_fs example_root ''out/'' = Inl (EscapesRoot ''out/'')"
  by (intro conjI; code_simp)

end
