(* ===== verification/File_Transfer.thy ===== *)
theory File_Transfer
  imports Filesystem
begin

text \<open>
  The transfer manager (\<open>transfer/manager.rs\<close>): reading files for upload and writing
  downloads through a temporary file that is renamed into place. The sender and the receiver
  (\<open>transfer/traits.rs\<close>) are parameters: a sender answers whether it sent a file, a receiver
  returns the data of a path. A write returns the file system it leaves, also when it fails.
\<close>

section \<open>The model\<close>

record TransferManager =
  tm_root :: SyncRoot
  tm_temp_dir :: path

definition tm_read_file :: "fs \<Rightarrow> TransferManager \<Rightarrow> FilePath \<Rightarrow> fs_error + bytes" where
  "tm_read_file fs tm path =
     res_bind (path_res (root_safe_join fs (tm_root tm) path)) (\<lambda>full.
       opt_res ReadFailed (fs_read fs full))"

text \<open>The process id is printed into the name of the temporary file.\<close>

definition temp_name :: "string \<Rightarrow> FilePath \<Rightarrow> string" where
  "temp_name pid path =
     ''.ferrisync-tmp-'' @ map (\<lambda>c. if c = CHR ''/'' then CHR ''_'' else c) path @ ''-'' @ pid"

definition replace_file ::
  "i64 \<Rightarrow> fs \<Rightarrow> path \<Rightarrow> path \<Rightarrow> bytes \<Rightarrow> fs \<times> (fs_error + unit)" where
  "replace_file now fs temp_path target data =
     (case fs_write fs temp_path data now of
        None \<Rightarrow> (fs, Inl WriteFailed)
      | Some fs1 \<Rightarrow>
          (case fs_rename fs1 temp_path target of
             Some fs2 \<Rightarrow> (fs2, Inr ())
           | None \<Rightarrow> (case fs_remove_file fs1 temp_path of
                 Some fs2 \<Rightarrow> (fs2, Inl RenameFailed)
               | None \<Rightarrow> (fs1, Inl RenameFailed))))"

definition write_atomic ::
  "string \<Rightarrow> i64 \<Rightarrow> fs \<Rightarrow> TransferManager \<Rightarrow> FilePath \<Rightarrow> bytes \<Rightarrow> fs \<times> (fs_error + unit)" where
  "write_atomic pid now fs tm path data =
     (case root_safe_join fs (tm_root tm) path of
        Inl e \<Rightarrow> (fs, Inl (PathErr e))
      | Inr target \<Rightarrow>
          (case create_parent fs target of
             Inl e \<Rightarrow> (fs, Inl e)
           | Inr fs1 \<Rightarrow>
               replace_file now fs1 (tm_temp_dir tm @ [Normal (temp_name pid path)]) target data))"

type_synonym 's sender = "'s \<Rightarrow> FilePath \<Rightarrow> bytes \<Rightarrow> FileVersion \<Rightarrow> 's \<times> bool"

definition upload_one ::
  "'s sender \<Rightarrow> fs \<Rightarrow> TransferManager \<Rightarrow> 's \<Rightarrow> FilePath \<Rightarrow> FileVersion \<Rightarrow> 's \<times> bool" where
  "upload_one send fs tm s path version =
     (case tm_read_file fs tm path of
        Inl e \<Rightarrow> (s, False)
      | Inr data \<Rightarrow> send s path data version)"

fun execute_uploads ::
  "'s sender \<Rightarrow> fs \<Rightarrow> TransferManager \<Rightarrow> 's \<Rightarrow> SyncOperation list \<Rightarrow> 's \<times> FilePath list" where
  "execute_uploads send fs tm s [] = (s, [])"
| "execute_uploads send fs tm s (op # ops) =
     (case op of
        Upload path version _ \<Rightarrow>
          (let (s1, ok) = upload_one send fs tm s path version;
               (s2, sent) = execute_uploads send fs tm s1 ops
           in (s2, if ok then path # sent else sent))
      | _ \<Rightarrow> execute_uploads send fs tm s ops)"

type_synonym receiver = "FilePath \<Rightarrow> bytes option"

definition download_one ::
  "receiver \<Rightarrow> string \<Rightarrow> i64 \<Rightarrow> fs \<Rightarrow> TransferManager \<Rightarrow> FilePath \<Rightarrow> fs \<times> bool" where
  "download_one recv pid now fs tm path =
     (case recv path of
        None \<Rightarrow> (fs, False)
      | Some data \<Rightarrow>
          (case write_atomic pid now fs tm path data of
             (fs', Inr ()) \<Rightarrow> (fs', True)
           | (fs', Inl e) \<Rightarrow> (fs', False)))"

fun execute_downloads ::
  "receiver \<Rightarrow> string \<Rightarrow> i64 \<Rightarrow> fs \<Rightarrow> TransferManager \<Rightarrow> SyncOperation list \<Rightarrow> fs \<times> FilePath list" where
  "execute_downloads recv pid now fs tm [] = (fs, [])"
| "execute_downloads recv pid now fs tm (op # ops) =
     (case op of
        Download path _ _ \<Rightarrow>
          (let (fs1, ok) = download_one recv pid now fs tm path;
               (fs2, received) = execute_downloads recv pid now fs1 tm ops
           in (fs2, if ok then path # received else received))
      | _ \<Rightarrow> execute_downloads recv pid now fs tm ops)"

section \<open>Renaming a file\<close>

lemma file_no_children:
  assumes "wf_fs fs" and "map_of fs a = Some n" and "n \<noteq> NDir" and "prefix a p" and "map_of fs p \<noteq> None"
  shows "p = a"
proof -
  from assms(4) obtain z where p: "p = a @ z" by (auto elim: prefixE)
  with wf_fs_prefix [OF assms(1), of a z] assms(2,3,5) show ?thesis by (cases "z = []") auto
qed

lemma map_of_rename_key:
  assumes "a \<noteq> b"
  shows "map_of (map (\<lambda>(p, n). (if p = a then b else p, n)) (filter (\<lambda>(p, n). p \<noteq> b) xs)) q =
    (if q = b then map_of xs a else if q = a then None else map_of xs q)"
proof (induction xs)
  case (Cons x xs)
  obtain p n where x: "x = (p, n)" by fastforce
  show ?case
    by (cases "p = b"; cases "p = a"; cases "q = p")
      (use assms Cons.IH in \<open>simp_all add: x\<close>)
qed simp

lemma map_of_move_file:
  assumes "wf_fs fs" and "map_of fs a = Some n" and "n \<noteq> NDir" and "a \<noteq> b"
  shows "map_of (fs_move a b fs) q =
    (if q = b then Some n else if q = a then None else map_of fs q)"
proof -
  have "fs_move a b fs = map (\<lambda>(p, n). (if p = a then b else p, n)) (filter (\<lambda>(p, n). p \<noteq> b) fs)"
    unfolding fs_move_def
  proof (rule map_cong [OF refl])
    fix x assume "x \<in> set (filter (\<lambda>(p, n). p \<noteq> b) fs)"
    then have "map_of fs (fst x) \<noteq> None" by (auto simp: map_of_eq_None_iff image_iff)
    with file_no_children [OF assms(1-3)] have "prefix a (fst x) \<longleftrightarrow> fst x = a" by auto
    then show "(case x of (p, n) \<Rightarrow> (if prefix a p then b @ drop (length a) p else p, n)) =
        (case x of (p, n) \<Rightarrow> (if p = a then b else p, n))" by (cases x) auto
  qed
  then show ?thesis
    using map_of_rename_key [OF assms(4), of fs q] assms(2) by simp
qed

lemma wf_fs_move_file:
  assumes wf: "wf_fs fs" and a: "map_of fs a = Some n" "n \<noteq> NDir" and ne: "a \<noteq> b"
    and b: "b \<noteq> []" "map_of fs (butlast b) = Some NDir" "valid_name (last b)" "map_of fs b \<noteq> Some NDir"
  shows "wf_fs (fs_move a b fs)"
proof -
  note m = map_of_move_file [OF wf a ne]
  have a0: "a \<noteq> []" using a wf by auto
  have keys: "map fst (fs_move a b fs) =
      map (\<lambda>p. if prefix a p then b @ drop (length a) p else p) (filter (\<lambda>p. p \<noteq> b) (map fst fs))"
    by (simp add: fs_move_def filter_map comp_def split_def)
  have "inj_on (\<lambda>p. if prefix a p then b @ drop (length a) p else p) (set (filter (\<lambda>p. p \<noteq> b) (map fst fs)))"
  proof (rule inj_onI)
    fix p q assume "p \<in> set (filter (\<lambda>p. p \<noteq> b) (map fst fs))" "q \<in> set (filter (\<lambda>p. p \<noteq> b) (map fst fs))"
      and eq: "(if prefix a p then b @ drop (length a) p else p) = (if prefix a q then b @ drop (length a) q else q)"
    then have "map_of fs p \<noteq> None" "map_of fs q \<noteq> None" "p \<noteq> b" "q \<noteq> b"
      by (auto simp: map_of_eq_None_iff)
    with file_no_children [OF wf a, of p] file_no_children [OF wf a, of q] eq show "p = q"
      by (cases "prefix a p"; cases "prefix a q") auto
  qed
  then have "distinct (map fst (fs_move a b fs))"
    unfolding keys distinct_map using wf by (simp add: wf_fs_def)
  moreover have "map_of (fs_move a b fs) (butlast p) = Some NDir \<and> valid_name (last p)"
    if "(p, k) \<in> set (fs_move a b fs)" "p \<noteq> []" for p k
  proof -
    have "map_of (fs_move a b fs) p = Some k"
      using that(1) \<open>distinct (map fst (fs_move a b fs))\<close> by simp
    then have "p = b \<or> p \<noteq> a \<and> map_of fs p = Some k" by (auto simp: m split: if_splits)
    then have par: "map_of fs (butlast p) = Some NDir \<and> valid_name (last p)"
      using b wf_fs_snoc [OF wf, of "butlast p" "last p"] that(2) by auto
    then show ?thesis using a b(4) by (auto simp: m)
  qed
  ultimately show ?thesis using a0 b(1) wf by (auto simp: wf_fs_def [of "fs_move a b fs"] m)
qed

section \<open>Replacing a file\<close>

text \<open>Where the temporary file may stand: a name in a real directory, neither a link nor a
  directory itself.\<close>

definition temp_ok :: "fs \<Rightarrow> abspath \<Rightarrow> bool" where
  "temp_ok fs t \<longleftrightarrow> t \<noteq> [] \<and> map_of fs (butlast t) = Some NDir \<and> valid_name (last t) \<and>
     \<not> is_link (map_of fs t) \<and> map_of fs t \<noteq> Some NDir"

lemma temp_ok_no_links: "wf_fs fs \<Longrightarrow> temp_ok fs t \<Longrightarrow> no_links fs t"
proof -
  assume wf: "wf_fs fs" and t: "temp_ok fs t"
  then have "no_links fs (butlast t)" using dir_no_links [OF wf] by (simp add: temp_ok_def)
  moreover have "prefix q t \<longleftrightarrow> q = t \<or> prefix q (butlast t)" for q
    using t by (cases t rule: rev_cases) (auto simp: temp_ok_def)
  ultimately show ?thesis using t by (auto simp: no_links_def temp_ok_def)
qed

lemma fs_write_temp:
  assumes "wf_fs fs" and "temp_ok fs t"
  shows "fs_write fs (lit t) d now = Some (hm_insert t (NFile d now) fs)"
    "wf_fs (hm_insert t (NFile d now) fs)"
proof -
  have dir: "map_of fs (butlast t) = Some NDir" and t: "t \<noteq> []" using assms(2) by (auto simp: temp_ok_def)
  show "wf_fs (hm_insert t (NFile d now) fs)"
    using assms by (intro wf_fs_insert) (auto simp: temp_ok_def)
  show "fs_write fs (lit t) d now = Some (hm_insert t (NFile d now) fs)"
  proof (cases "map_of fs t")
    case None
    have "walk fs MAXSYMLINKS True [] (lit (butlast t) @ [Normal (last t)]) = Missing t"
      using walk_lit_append [OF assms(1), of "[]" "butlast t" MAXSYMLINKS True "[Normal (last t)]"] dir t None
      by simp
    moreover have "lit (butlast t) @ [Normal (last t)] = lit t"
      using t by (metis append_butlast_last_id list.simps(8,9) map_append)
    ultimately show ?thesis by (simp add: fs_write_def)
  next
    case (Some n)
    with assms obtain d' m where "map_of fs t = Some (NFile d' m)"
      by (cases n) (auto simp: temp_ok_def)
    with walk_lit_found [OF assms(1), of "[]" t] show ?thesis by (simp add: fs_write_def)
  qed
qed

lemma wf_fs_remove:
  assumes "wf_fs fs" and "map_of fs t = Some n" and "n \<noteq> NDir"
  shows "wf_fs (hm_remove t fs)"
proof -
  have "t \<noteq> []" using assms by auto
  moreover have "butlast p \<noteq> t" if "(p, k) \<in> set fs" "p \<noteq> []" for p k
    using that assms by (auto simp: wf_fs_def)
  moreover have "set (hm_remove t fs) \<subseteq> set fs" by (auto simp: AList.delete_eq)
  ultimately have "map_of (hm_remove t fs) (butlast p) = Some NDir \<and> valid_name (last p)"
    if "(p, k) \<in> set (hm_remove t fs)" "p \<noteq> []" for p k
    using that assms(1) by (force simp: wf_fs_def hm_simps)
  with \<open>t \<noteq> []\<close> assms(1) show ?thesis
    unfolding wf_fs_def by (auto simp: hm_simps distinct_delete)
qed

lemma walk_file_name:
  assumes "wf_fs fs" and "p \<noteq> []" and "map_of fs (butlast p) = Some NDir"
  shows "walk fs n False [] (lit p) = (if map_of fs p = None then Missing p else Found p)"
proof (cases "map_of fs p")
  case None
  have "walk fs n False [] (lit (butlast p) @ [Normal (last p)]) = Missing p"
    using walk_lit_append [OF assms(1), of "[]" "butlast p" n False "[Normal (last p)]"] assms None by simp
  moreover have "lit (butlast p) @ [Normal (last p)] = lit p"
    using assms(2) by (metis append_butlast_last_id list.simps(8,9) map_append)
  ultimately show ?thesis using None by simp
qed (use walk_lit_found [OF assms(1), of "[]" p] in auto)

text \<open>Replacing the file at a link-free path \<open>p\<close>: on success the target holds the data and the
  temporary file is gone, on failure the target is as before; nothing else changes.\<close>

lemma replace_file_effect:
  assumes wf: "wf_fs fs" and t: "temp_ok fs t" and p: "no_links fs p" "p \<noteq> []" "valid_name (last p)"
    and ne: "t \<noteq> p" and run: "replace_file now fs (lit t) (lit p) data = (fs', res)"
  shows "wf_fs fs' \<and> (\<forall>q. q \<noteq> p \<longrightarrow> q \<noteq> t \<longrightarrow> map_of fs' q = map_of fs q) \<and>
    (if is_ok res then map_of fs' p = Some (NFile data now) \<and> map_of fs' t = None
     else map_of fs' p = map_of fs p) \<and>
    (map_of fs (butlast p) = Some NDir \<and> map_of fs p \<noteq> Some NDir \<longrightarrow> res = Inr ())"
proof -
  define fs1 where "fs1 = hm_insert t (NFile data now) fs"
  have w: "fs_write fs (lit t) data now = Some fs1" and wf1: "wf_fs fs1"
    using fs_write_temp [OF wf t] by (auto simp: fs1_def)
  have at: "map_of fs1 t = Some (NFile data now)" by (simp add: fs1_def hm_simps)
  have other: "map_of fs1 q = map_of fs q" if "q \<noteq> t" for q using that by (simp add: fs1_def hm_simps)
  have src: "walk fs1 MAXSYMLINKS False [] (lit t) = Found t"
    using walk_lit_found [OF wf1, of "[]" t "NFile data now" False] at by simp
  have nl1: "no_links fs1 p"
    by (rule no_links_mono [OF p(1)]) (auto simp: fs1_def hm_simps split: if_splits)
  have rm: "fs_remove_file fs1 (lit t) = Some (hm_remove t fs1)"
    using src at by (simp add: fs_remove_file_def)
  have ren: "fs_rename fs1 (lit t) (lit p) = (case walk fs1 MAXSYMLINKS False [] (lit p) of
      Found q \<Rightarrow> if map_of fs1 p = Some NDir then None else Some (fs_move t p fs1)
    | Missing q \<Rightarrow> Some (fs_move t p fs1) | _ \<Rightarrow> None)"
    using walk_no_links [OF nl1, of MAXSYMLINKS False] ne
    by (auto simp: fs_rename_def src at)
  show ?thesis
  proof (cases "fs_rename fs1 (lit t) (lit p)")
    case None
    then have res: "fs' = hm_remove t fs1" "res = Inl RenameFailed"
      using run w rm by (auto simp: replace_file_def)
    have "\<not> (map_of fs (butlast p) = Some NDir \<and> map_of fs p \<noteq> Some NDir)"
    proof
      assume *: "map_of fs (butlast p) = Some NDir \<and> map_of fs p \<noteq> Some NDir"
      with t have "butlast p \<noteq> t" by (auto simp: temp_ok_def)
      with * have "walk fs1 MAXSYMLINKS False [] (lit p) \<in> {Found p, Missing p}"
        using walk_file_name [OF wf1 p(2)] other by simp
      with None * ne other show False by (auto simp: ren)
    qed
    then show ?thesis
      using wf_fs_remove [OF wf1 at] ne res by (auto simp: hm_simps other)
  next
    case (Some fs2)
    then have fs2: "fs' = fs_move t p fs1" "res = Inr ()"
      using run w by (auto simp: replace_file_def ren split: walk_result.splits if_splits)
    have par: "map_of fs1 (butlast p) = Some NDir \<and> map_of fs1 p \<noteq> Some NDir"
    proof (cases "walk fs1 MAXSYMLINKS False [] (lit p)")
      case (Found q)
      then have "q = p" using walk_no_links [OF nl1, of MAXSYMLINKS False] by auto
      with Found walk_found_exists [OF Found] wf1 obtain n where "map_of fs1 (butlast p @ [last p]) = Some n"
        using p(2) by fastforce
      with wf_fs_snoc(1) [OF wf1 this] Found Some show ?thesis by (auto simp: ren split: if_splits)
    next
      case (Missing q)
      then have "q = p" using walk_no_links [OF nl1, of MAXSYMLINKS False] by auto
      with walk_missingD [OF Missing] show ?thesis by simp
    qed (use Some ren in auto)
    have "wf_fs fs'"
      unfolding fs2(1) by (rule wf_fs_move_file [OF wf1 at _ ne p(2)]) (use par p(3) in auto)
    with ne fs2 show ?thesis
      by (auto simp: map_of_move_file [OF wf1 at] other)
  qed
qed

section \<open>Properties\<close>

lemma valid_temp_name:
  assumes "CHR 0x00 \<notin> set path" and "CHR 0x00 \<notin> set pid" and "CHR ''/'' \<notin> set pid"
  shows "valid_name (temp_name pid path)"
  using assms by (auto simp: valid_name_def temp_name_def)

lemma tm_read_eq: "tm_read_file fs tm path = root_read_file fs (tm_root tm) path"
  by (simp add: tm_read_file_def root_read_file_def)

text \<open>What the preparation of an atomic write establishes, once the path is joined and the parent
  directory exists: the target is link-free, its parent is a directory, and nothing but directories on
  the way to it was added.\<close>

lemma write_atomic_prepared:
  assumes ok: "root_ok fs r" and path: "raw_path path = lit ns"
    and join: "root_safe_join fs r path = Inr j" and parent: "create_parent fs j = Inr fs1"
  shows "j = lit (sr_root r @ ns) \<and> ns \<noteq> [] \<and> (\<forall>n \<in> set ns. valid_name n) \<and>
    wf_fs fs1 \<and> no_links fs1 (sr_root r @ ns) \<and> adds_dirs (sr_root r @ butlast ns) fs fs1 \<and>
    map_of fs1 (sr_root r @ ns) = map_of fs (sr_root r @ ns)"
proof -
  have wf: "wf_fs fs" and dir: "map_of fs (sr_root r) = Some NDir"
    using ok by (auto simp: root_ok_def)
  from safe_join_lit [OF ok join path] have j: "j = lit (sr_root r @ ns)" and nl: "no_links fs (sr_root r @ ns)"
    and ns: "ns \<noteq> []" and names: "\<forall>n \<in> set ns. valid_name n" by auto
  have Rnames: "\<forall>n \<in> set (sr_root r). valid_name n" using wf_fs_names [OF wf, of "[]" "sr_root r"] dir by simp
  have split: "sr_root r @ ns = (sr_root r @ butlast ns) @ [last ns]" using ns by simp
  have par: "wf_fs fs1" "adds_dirs (sr_root r @ butlast ns) fs fs1"
    using create_parent_lit [OF wf, of "sr_root r @ butlast ns" "last ns" fs1] parent names Rnames
      no_links_prefix [OF nl, of "sr_root r @ butlast ns"] prefixeq_butlast [of ns]
    unfolding j split [symmetric] by (auto dest: in_set_butlastD)
  have "no_links fs1 (sr_root r @ ns)"
    by (rule no_links_mono [OF nl]) (rule adds_dirs_link [OF par(2)])
  moreover have "\<not> prefix (sr_root r @ ns) (sr_root r @ butlast ns)"
    using ns prefix_length_le [of "sr_root r @ ns" "sr_root r @ butlast ns"] by (cases ns rule: rev_cases) auto
  then have "map_of fs1 (sr_root r @ ns) = map_of fs (sr_root r @ ns)"
    using par(2) by (auto simp: adds_dirs_def)
  ultimately show ?thesis using j ns names par by blast
qed

text \<open>Directories added on the way to a target elsewhere leave the temporary file's place as it was.\<close>

lemma temp_ok_adds_dirs:
  assumes "adds_dirs (R @ butlast ns) fs fs1" and "map_of fs T = Some NDir" and "valid_name n"
    and "\<not> is_link (map_of fs (T @ [n]))" and "map_of fs (T @ [n]) \<noteq> Some NDir" and "\<not> prefix (T @ [n]) (R @ ns)"
  shows "temp_ok fs1 (T @ [n])"
proof -
  have "\<not> prefix (T @ [n]) (R @ butlast ns)"
    using assms(6) prefix_order.trans [of "T @ [n]" "R @ butlast ns" "R @ ns"] prefixeq_butlast [of ns] by auto
  with assms(1) have "map_of fs1 (T @ [n]) = map_of fs (T @ [n])" by (auto simp: adds_dirs_def)
  moreover have "map_of fs1 T = Some NDir"
    using assms(1,2) unfolding adds_dirs_def by (metis option.distinct(1))
  ultimately show ?thesis using assms(3-5) by (simp add: temp_ok_def)
qed

lemma read_back_replaced:
  assumes ok: "root_ok fs r" and join: "root_safe_join fs r path = Inr j" and path: "raw_path path = lit ns"
    and wf: "wf_fs fs'" and ns: "ns \<noteq> []" and at: "map_of fs' (sr_root r @ ns) = Some (NFile data m)"
  shows "root_read_file fs' r path = Inr data"
proof -
  have "map_of fs' (sr_root r) = Some NDir" using wf_fs_prefix [OF wf at ns] .
  then have "root_ok fs' r" using ok wf by (simp add: root_ok_def)
  from root_read_back [OF this _ _ _ path at] safe_join_string [OF join] show ?thesis by simp
qed


definition example_tm :: TransferManager where
  "example_tm = \<lparr>tm_root = example_root, tm_temp_dir = lit [''etc'']\<rparr>"


end
