(* ===== verification/Orchestrator.thy ===== *)
theory Orchestrator
  imports Reconciler Protocol File_Transfer
begin

text \<open>
  The orchestrator (\<open>sync/orchestrator.rs\<close>, \<open>sync/snapshot.rs\<close>): conversion between
  protocol indexes and snapshots, the index a device builds of its folder, reconciliation with
  local tombstones, file access below the root, and the validation of incoming chunks. The
  tombstone query of the store is a parameter.
\<close>

section \<open>Indexes and snapshots\<close>

record OrchestratorResult =
  or_pushed :: "string list"
  or_pulled :: "string list"
  or_conflicts :: "string list"

record SyncOrchestrator =
  orch_root :: SyncRoot
  orch_folder_id :: FolderId

text \<open>\<open>let mut h = [0u8; 32]\<close> with the first 32 bytes copied in.\<close>

definition hash_array :: "bytes \<Rightarrow> FileHash" where
  "hash_array h = take 32 h @ replicate (32 - length h) 0"

definition index_entry_to_snapshot :: "DeviceId \<Rightarrow> IndexEntry \<Rightarrow> SnapshotEntry" where
  "index_entry_to_snapshot device e =
     \<lparr>se_path = ie_path e, se_kind = File, se_size = ie_size e, se_hash = hash_array (ie_hash e),
      se_version = (if 0 < ie_local_version e then version_single device (ie_local_version e)
                    else version_new),
      se_mtime = ie_mtime e\<rparr>"

definition index_to_snapshot :: "Index \<Rightarrow> FolderId \<Rightarrow> Snapshot" where
  "index_to_snapshot index folder_id =
     \<lparr>snap_folder_id = folder_id, snap_generation = 0,
      snap_entries = map (index_entry_to_snapshot (idx_device_id index)) (idx_entries index)\<rparr>"

text \<open>\<open>values().copied().max().unwrap_or(0)\<close>; on \<open>u64\<close> the maximum of no values and the
  least value coincide.\<close>

definition max_version :: "FileVersion \<Rightarrow> u64" where
  "max_version v = fold max (map snd (versions v)) 0"

definition snapshot_entry_to_index :: "SnapshotEntry \<Rightarrow> IndexEntry" where
  "snapshot_entry_to_index e =
     \<lparr>ie_path = se_path e, ie_local_version = max_version (se_version e), ie_remote_version = 0,
      ie_mtime = se_mtime e, ie_size = se_size e, ie_hash = se_hash e\<rparr>"

definition snapshot_to_index :: "Snapshot \<Rightarrow> string \<Rightarrow> string \<Rightarrow> Index" where
  "snapshot_to_index snapshot folder_id_str device_id =
     \<lparr>idx_folder_id = folder_id_str, idx_device_id = device_id, idx_remote_path = None,
      idx_entries = map snapshot_entry_to_index (snap_entries snapshot)\<rparr>"

definition from_remote_index ::
  "(bytes \<Rightarrow> bytes) \<Rightarrow> FolderId \<Rightarrow> u64 \<Rightarrow> IndexEntry list \<Rightarrow> Snapshot" where
  "from_remote_index blake3 folder_id generation entries =
     \<lparr>snap_folder_id = folder_id, snap_generation = generation,
      snap_entries = map (\<lambda>e. \<lparr>se_path = ie_path e, se_kind = File, se_size = ie_size e,
        se_hash = file_hash_from_bytes blake3 (ie_hash e), se_version = version_new,
        se_mtime = ie_mtime e\<rparr>) entries\<rparr>"

definition snapshot_build ::
  "(bytes \<Rightarrow> bytes) \<Rightarrow> fs \<Rightarrow> SyncRoot \<Rightarrow> FolderId \<Rightarrow> u64 \<Rightarrow> Snapshot" where
  "snapshot_build blake3 fs r folder_id generation = scan blake3 fs r folder_id generation"

definition build_local_snapshot ::
  "(bytes \<Rightarrow> bytes) \<Rightarrow> fs \<Rightarrow> SyncOrchestrator \<Rightarrow> u64 \<Rightarrow> Snapshot" where
  "build_local_snapshot blake3 fs orc generation =
     snapshot_build blake3 fs (orch_root orc) (orch_folder_id orc) generation"

text \<open>Every entry is stamped with \<open>single(device_id, mtime as u64)\<close>.\<close>

definition stamp_entry :: "DeviceId \<Rightarrow> SnapshotEntry \<Rightarrow> SnapshotEntry" where
  "stamp_entry dev entry = entry\<lparr>se_version := version_single dev (word_of_int (se_mtime entry))\<rparr>"

definition build_protocol_index ::
  "(bytes \<Rightarrow> bytes) \<Rightarrow> fs \<Rightarrow> path \<Rightarrow> FolderId \<Rightarrow> string \<Rightarrow> path_error + IndexEntry list" where
  "build_protocol_index blake3 fs root folder_id device_id =
     res_bind (sync_root_open fs root) (\<lambda>sync_root.
       let snap = snapshot_build blake3 fs sync_root folder_id 0;
           stamped = snap\<lparr>snap_entries := map (stamp_entry device_id) (snap_entries snap)\<rparr>;
           idx = snapshot_to_index stamped (show_int folder_id) device_id
       in Inr (idx_entries idx))"

section \<open>Reconciliation\<close>

definition reconcile_snapshots ::
  "(FilePath list \<Rightarrow> FilePath list) \<Rightarrow> Snapshot \<Rightarrow> Snapshot \<Rightarrow> SyncPlan" where
  "reconcile_snapshots iter local remote = reconcile iter local remote [] []"

definition orch_reconcile ::
  "(FilePath list \<Rightarrow> FilePath list) \<Rightarrow> (FolderId \<Rightarrow> u64 \<Rightarrow> Tombstone list option) \<Rightarrow> SyncOrchestrator \<Rightarrow>
   Snapshot \<Rightarrow> Snapshot \<Rightarrow> SyncPlan" where
  "orch_reconcile iter get_tombstones orc local remote =
     (let local_tombs = (case get_tombstones (orch_folder_id orc) 0 of None \<Rightarrow> [] | Some ts \<Rightarrow> ts);
          remote_tombs = []
      in reconcile iter local remote local_tombs remote_tombs)"

section \<open>Files\<close>

definition orch_read_file :: "fs \<Rightarrow> SyncOrchestrator \<Rightarrow> FilePath \<Rightarrow> fs_error + bytes" where
  "orch_read_file fs orc path =
     res_bind (path_res (root_safe_join fs (orch_root orc) path)) (\<lambda>full.
       opt_res ReadFailed (fs_read fs full))"

fun plan_uploads :: "fs \<Rightarrow> SyncOrchestrator \<Rightarrow> SyncOperation list \<Rightarrow> (FilePath \<times> bytes) list" where
  "plan_uploads fs orc [] = []"
| "plan_uploads fs orc (op # ops) =
     (case op of
        Upload path _ _ \<Rightarrow>
          (case orch_read_file fs orc path of
             Inr data \<Rightarrow> (path, data) # plan_uploads fs orc ops
           | Inl e \<Rightarrow> plan_uploads fs orc ops)
      | _ \<Rightarrow> plan_uploads fs orc ops)"

definition orch_write_file ::
  "string \<Rightarrow> i64 \<Rightarrow> fs \<Rightarrow> SyncOrchestrator \<Rightarrow> FilePath \<Rightarrow> bytes \<Rightarrow> fs \<times> (fs_error + unit)" where
  "orch_write_file pid now fs orc path data =
     (case root_safe_join fs (orch_root orc) path of
        Inl e \<Rightarrow> (fs, Inl (PathErr e))
      | Inr target \<Rightarrow>
          (case create_parent fs target of
             Inl e \<Rightarrow> (fs, Inl e)
           | Inr fs1 \<Rightarrow>
               (let temp_path = lit (sr_root (orch_root orc)) @
                      [Normal ''.ferrisync-tmp'', Normal (temp_name pid path)];
                    fs2 = (case path_parent temp_path of
                        None \<Rightarrow> fs1
                      | Some parent \<Rightarrow>
                          (case create_dir_all fs1 parent of None \<Rightarrow> fs1 | Some fs' \<Rightarrow> fs'))
                in replace_file now fs2 temp_path target data)))"

section \<open>Validating chunks\<close>

datatype chunk_error =
    PathTooLong nat | FileTooLarge nat | ChunkTooLarge nat | OffsetOverflow | PastTotal
  | TooManyInFlight nat | BufferLimit | ChunkPanic

text \<open>\<open>buffered_bytes + len\<close> is \<open>usize\<close> arithmetic: it panics or wraps on overflow.\<close>

definition validate_chunk :: "bool \<Rightarrow> FileChunk \<Rightarrow> nat \<Rightarrow> nat \<Rightarrow> chunk_error + unit" where
  "validate_chunk checks chunk in_flight buffered_bytes =
     (if MAX_PATH_LEN < length (ch_path chunk) then Inl (PathTooLong (length (ch_path chunk)))
      else if MAX_FILE_SIZE < unat (ch_total_size chunk)
      then Inl (FileTooLarge (unat (ch_total_size chunk)))
      else if MAX_CHUNK_FRAME < length (ch_data chunk)
      then Inl (ChunkTooLarge (length (ch_data chunk)))
      else if 2 ^ 64 \<le> unat (ch_offset chunk) + length (ch_data chunk) then Inl OffsetOverflow
      else if unat (ch_total_size chunk) < unat (ch_offset chunk) + length (ch_data chunk)
      then Inl PastTotal
      else if 64 \<le> in_flight then Inl (TooManyInFlight in_flight)
      else (case usize_add checks buffered_bytes (length (ch_data chunk)) of
              None \<Rightarrow> Inl ChunkPanic
            | Some bytes_after \<Rightarrow> if 256 * 1024 * 1024 < bytes_after then Inl BufferLimit else Inr ()))"

section \<open>Facts about conversion\<close>

lemma hash_array_id [simp]: "length h = 32 \<Longrightarrow> hash_array h = h"
  by (simp add: hash_array_def)

lemma length_hash_array [simp]: "length (hash_array h) = 32"
  by (simp add: hash_array_def)

lemma max_version_single [simp]: "max_version (version_single d n) = n"
  by (simp add: max_version_def version_single_def version_new_def max_def)

lemma max_version_new [simp]: "max_version version_new = 0"
  by (simp add: max_version_def version_new_def)

lemma wf_index_snapshot: "wf_snapshot (index_to_snapshot i f)"
  by (auto simp: wf_snapshot_def index_to_snapshot_def index_entry_to_snapshot_def)

text \<open>Entries that an index carries without loss: a regular file with a 32-byte hash whose version
  is either new or a positive counter of the sending device alone.\<close>

definition wire_entry :: "DeviceId \<Rightarrow> SnapshotEntry \<Rightarrow> bool" where
  "wire_entry dev e \<longleftrightarrow> se_kind e = File \<and> length (se_hash e) = 32 \<and>
     (se_version e = version_new \<or> (\<exists>n. 0 < n \<and> se_version e = version_single dev n))"

lemma wire_entry_roundtrip:
  "wire_entry dev e \<Longrightarrow> index_entry_to_snapshot dev (snapshot_entry_to_index e) = e"
  by (auto simp: wire_entry_def index_entry_to_snapshot_def snapshot_entry_to_index_def)

text \<open>How versions from two indexes compare.\<close>

lemma wire_dominates:
  "dominates (se_version (index_entry_to_snapshot d1 e1)) (se_version (index_entry_to_snapshot d2 e2)) \<longleftrightarrow>
     (if d1 = d2 then ie_local_version e2 < ie_local_version e1
      else ie_local_version e2 = 0 \<and> 0 < ie_local_version e1)"
  by (auto simp: index_entry_to_snapshot_def dominates_iff word_gt_0 not_less split: if_splits)

lemma index_entry_map:
  assumes "distinct (map ie_path (idx_entries i))" and "e \<in> set (idx_entries i)"
  shows "entry_map (snap_entries (index_to_snapshot i f)) (ie_path e) =
    Some (index_entry_to_snapshot (idx_device_id i) e)"
proof -
  define es where "es = map (index_entry_to_snapshot (idx_device_id i)) (idx_entries i)"
  have paths: "map se_path es = map ie_path (idx_entries i)"
    by (simp add: es_def index_entry_to_snapshot_def)
  have "index_entry_to_snapshot (idx_device_id i) e \<in> set es" using assms(2) by (simp add: es_def)
  moreover have "distinct (map se_path es)" using paths assms(1) by simp
  ultimately have "find (\<lambda>x. se_path x = se_path (index_entry_to_snapshot (idx_device_id i) e)) es =
      Some (index_entry_to_snapshot (idx_device_id i) e)"
    by (intro find_unique)
  moreover have "se_path (index_entry_to_snapshot (idx_device_id i) e) = ie_path e"
    by (simp add: index_entry_to_snapshot_def)
  moreover have "distinct (map se_path es)" using paths assms(1) by simp
  ultimately have "entry_map es (ie_path e) = Some (index_entry_to_snapshot (idx_device_id i) e)"
    by (simp add: entry_map_distinct)
  then show ?thesis by (simp add: index_to_snapshot_def es_def)
qed

section \<open>Properties\<close>

text \<open>A snapshot survives the trip through a protocol index: converting it to an index and
  back returns the same entries in the same order, provided each is a regular file with a 32-byte
  hash and a version that is new or held by the sending device alone.\<close>

theorem index_snapshot_roundtrip:
  assumes "\<forall>e \<in> set (snap_entries s). wire_entry dev e"
  shows "index_to_snapshot (snapshot_to_index s fid dev) (snap_folder_id s) = s\<lparr>snap_generation := 0\<rparr>"
  using assms
  by (cases s) (simp add: index_to_snapshot_def snapshot_to_index_def wire_entry_roundtrip map_idI)

definition example_snapshot :: Snapshot where
  "example_snapshot = \<lparr>snap_folder_id = 7, snap_generation = 3, snap_entries =
     [\<lparr>se_path = ''a'', se_kind = File, se_size = 2, se_hash = replicate 32 1,
       se_version = version_single ''dev'' 5, se_mtime = 5\<rparr>,
      \<lparr>se_path = ''b'', se_kind = File, se_size = 0, se_hash = replicate 32 2,
       se_version = version_new, se_mtime = 0\<rparr>]\<rparr>"

theorem index_snapshot_roundtrip_witness:
  "index_to_snapshot (snapshot_to_index example_snapshot ''7'' ''dev'') 7 =
     example_snapshot\<lparr>snap_generation := 0\<rparr>"
proof -
  have "\<forall>e \<in> set (snap_entries example_snapshot). wire_entry ''dev'' e"
    by (auto simp: example_snapshot_def wire_entry_def intro!: disjI2 [where P = "version_single _ _ = _"] exI [of _ 5])
  from index_snapshot_roundtrip [OF this, of "''7''"] show ?thesis
    by (simp add: example_snapshot_def)
qed

text \<open>Which side wins a file that both hold with different contents. When both indexes carry
  the same device id, the larger stamp (modification time) wins and equal stamps conflict; when the
  ids differ, two positive stamps are never comparable, so the file is a conflict whatever its
  times are.\<close>

theorem differing_file_decision:
  assumes "hashset_iter iter" and "distinct (map ie_path (idx_entries i1))"
    and "distinct (map ie_path (idx_entries i2))" and "e1 \<in> set (idx_entries i1)"
    and "e2 \<in> set (idx_entries i2)" and "ie_path e1 = p" and "ie_path e2 = p"
    and "hash_array (ie_hash e1) \<noteq> hash_array (ie_hash e2)"
    and "0 < ie_local_version e1" and "0 < ie_local_version e2"
    and "plan = reconcile_snapshots iter (index_to_snapshot i1 f) (index_to_snapshot i2 f)"
  shows "if idx_device_id i1 = idx_device_id i2 \<and> ie_local_version e2 < ie_local_version e1
    then p \<in> op_path ` set (uploads plan)
    else if idx_device_id i1 = idx_device_id i2 \<and> ie_local_version e1 < ie_local_version e2
    then p \<in> op_path ` set (downloads plan)
    else p \<in> op_path ` set (conflicts plan)"
proof -
  define l where "l = index_entry_to_snapshot (idx_device_id i1) e1"
  define r where "r = index_entry_to_snapshot (idx_device_id i2) e2"
  have maps: "entry_map (snap_entries (index_to_snapshot i1 f)) p = Some l"
    "entry_map (snap_entries (index_to_snapshot i2 f)) p = Some r"
    using index_entry_map [OF assms(2,4), of f] index_entry_map [OF assms(3,5), of f] assms(6,7)
    by (auto simp: l_def r_def)
  have hash: "se_hash l \<noteq> se_hash r"
    using assms(8) by (simp add: l_def r_def index_entry_to_snapshot_def)
  have mem: "op \<in> set (decisions iter (index_to_snapshot i1 f) (index_to_snapshot i2 f) [] [])"
    if "op_path op = p" "decide (entry_map (snap_entries (index_to_snapshot i1 f)))
      (entry_map (snap_entries (index_to_snapshot i2 f))) (tombstoned []) (tombstoned []) p = Some op" for op
    using that by (simp add: set_decisions [OF assms(1)])
  have d1: "dominates (se_version l) (se_version r) \<longleftrightarrow>
      idx_device_id i1 = idx_device_id i2 \<and> ie_local_version e2 < ie_local_version e1"
    using assms(9,10) by (auto simp: l_def r_def wire_dominates)
  have d2: "dominates (se_version r) (se_version l) \<longleftrightarrow>
      idx_device_id i1 = idx_device_id i2 \<and> ie_local_version e1 < ie_local_version e2"
    using assms(9,10) by (auto simp: l_def r_def wire_dominates)
  show ?thesis
    unfolding assms(11) reconcile_snapshots_def reconcile_sel d1 [symmetric] d2 [symmetric]
    using mem [of "Upload p (se_version l) (se_size l)"] mem [of "Download p (se_version r) (se_size r)"]
      mem [of "Conflict p (se_version l) (se_version r)"] hash
    by (auto simp: decide_def maps image_iff intro!: bexI [rotated])
qed

definition example_index :: "string \<Rightarrow> u64 \<Rightarrow> u8 \<Rightarrow> Index" where
  "example_index dev v h = \<lparr>idx_folder_id = ''7'', idx_device_id = dev, idx_remote_path = None,
     idx_entries = [\<lparr>ie_path = ''a'', ie_local_version = v, ie_remote_version = 0, ie_mtime = 0,
       ie_size = 1, ie_hash = [h]\<rparr>]\<rparr>"

theorem differing_file_decision_witness:
  "''a'' \<in> op_path ` set (conflicts (reconcile_snapshots remdups
     (index_to_snapshot (example_index ''x'' 9 1) 7) (index_to_snapshot (example_index ''y'' 5 2) 7)))"
  using differing_file_decision [OF hashset_iter_remdups, of "example_index ''x'' 9 1"
      "example_index ''y'' 5 2" "hd (idx_entries (example_index ''x'' 9 1))"
      "hd (idx_entries (example_index ''y'' 5 2))" "''a''" _ 7, OF _ _ _ _ _ _ _ _ _ refl]
  by (simp add: example_index_def hash_array_def)

text \<open>A chunk is accepted exactly when its path has at most 1024 bytes, its total size is at
  most 10 GiB, its data at most 128 KiB, it ends within its total size without 64-bit overflow,
  fewer than 64 files are in flight, and the buffered bytes stay within 256 MiB; the counter must
  not have wrapped.\<close>

theorem validate_chunk_exact:
  assumes "buffered + length (ch_data c) < usize_modulus"
  shows "validate_chunk checks c in_flight buffered = Inr () \<longleftrightarrow>
    length (ch_path c) \<le> 1024 \<and> unat (ch_total_size c) \<le> 10 * 2 ^ 30 \<and>
    length (ch_data c) \<le> 128 * 2 ^ 10 \<and>
    unat (ch_offset c) + length (ch_data c) \<le> unat (ch_total_size c) \<and>
    in_flight < 64 \<and> buffered + length (ch_data c) \<le> 256 * 2 ^ 20"
proof -
  have "unat (ch_total_size c) < 2 ^ 64" using unsigned_less [of "ch_total_size c"] by simp
  with assms show ?thesis
    by (auto simp: validate_chunk_def MAX_PATH_LEN_def MAX_FILE_SIZE_def MAX_CHUNK_FRAME_def)
qed

definition example_chunk :: FileChunk where
  "example_chunk = \<lparr>ch_folder_id = ''7'', ch_path = ''a'', ch_offset = 3, ch_data = [1, 2],
     ch_total_size = 5\<rparr>"

theorem validate_chunk_exact_witness: "validate_chunk True example_chunk 63 100 = Inr ()"
  using validate_chunk_exact [of 100 example_chunk True 63]
  by (simp add: example_chunk_def usize_modulus_def)

end
