(* ===== verification/Chunk_Transfer.thy ===== *)
theory Chunk_Transfer
  imports Orchestrator
begin

text \<open>
  File transfer in chunks (\<open>sync_engine/session.rs\<close>): splitting a file into chunk messages,
  buffering and assembling received chunks, and committing an assembled file below the sync root
  after backing up a differing local version. The same receive code stands in the client and in the
  server session. \<open>checks\<close> selects builds with overflow checks.
\<close>

section \<open>Sending\<close>

definition CHUNK_SIZE :: nat where
  "CHUNK_SIZE = 64 * 1024"

lemma CHUNK_SIZE_pos [simp]: "0 < CHUNK_SIZE"
  by (simp add: CHUNK_SIZE_def)

function chunks_from :: "string \<Rightarrow> string \<Rightarrow> bytes \<Rightarrow> nat \<Rightarrow> FileChunk list" where
  "chunks_from folder_id path data offset =
     (let end = min (offset + CHUNK_SIZE) (length data);
          chunk = \<lparr>ch_folder_id = folder_id, ch_path = path, ch_offset = word_of_nat offset,
            ch_data = take (end - offset) (drop offset data), ch_total_size = word_of_nat (length data)\<rparr>
      in chunk # (if length data \<le> end then [] else chunks_from folder_id path data end))"
  by pat_completeness auto
termination
  by (relation "measure (\<lambda>(f, p, data, offset). length data - offset)") (auto simp: CHUNK_SIZE_def)

declare chunks_from.simps [simp del]

definition send_file_chunks :: "string \<Rightarrow> bytes \<Rightarrow> string \<Rightarrow> FileChunk list" where
  "send_file_chunks path data folder_id = chunks_from folder_id path data 0"

text \<open>The copy for TLS streams on the server side is the same loop.\<close>

definition send_file_chunks_tls :: "string \<Rightarrow> bytes \<Rightarrow> string \<Rightarrow> FileChunk list" where
  "send_file_chunks_tls path data folder_id = chunks_from folder_id path data 0"

section \<open>Receiving\<close>

record RecvState =
  incoming_files :: "(string \<times> bytes) list"
  buffered_bytes :: nat

datatype recv_outcome = Ignored | Buffered | Assembled string bytes

definition write_at :: "bytes \<Rightarrow> nat \<Rightarrow> bytes \<Rightarrow> bytes" where
  "write_at buf start data =
     (let end = start + length data;
          buf' = (if length buf < end then buf @ replicate (end - length buf) 0 else buf)
      in take start buf' @ data @ drop end buf')"

definition receive_chunk :: "bool \<Rightarrow> FileChunk \<Rightarrow> RecvState \<Rightarrow> chunk_error + RecvState \<times> recv_outcome" where
  "receive_chunk checks chunk st =
     (if ch_path chunk = ''metadata.db'' then Inr (st, Ignored)
      else res_bind (validate_chunk checks chunk (length (incoming_files st)) (buffered_bytes st)) (\<lambda>_.
        let total_size = unat (ch_total_size chunk);
            entry = (case map_of (incoming_files st) (ch_path chunk) of None \<Rightarrow> [] | Some b \<Rightarrow> b);
            start = unat (ch_offset chunk);
            end = start + length (ch_data chunk);
            entry' = write_at entry start (ch_data chunk);
            files = hm_insert (ch_path chunk) entry' (incoming_files st)
        in case usize_add checks (buffered_bytes st) (length (ch_data chunk)) of
             None \<Rightarrow> Inl ChunkPanic
           | Some buffered \<Rightarrow>
               if end < total_size
               then Inr (\<lparr>incoming_files = files, buffered_bytes = buffered\<rparr>, Buffered)
               else (case usize_sub checks buffered (length entry') of
                   None \<Rightarrow> Inl ChunkPanic
                 | Some rest \<Rightarrow>
                     Inr (\<lparr>incoming_files = hm_remove (ch_path chunk) files, buffered_bytes = rest\<rparr>,
                          Assembled (ch_path chunk) entry'))))"

fun receive_chunks ::
  "bool \<Rightarrow> FileChunk list \<Rightarrow> RecvState \<Rightarrow> chunk_error + RecvState \<times> (string \<times> bytes) list" where
  "receive_chunks checks [] st = Inr (st, [])"
| "receive_chunks checks (c # cs) st =
     res_bind (receive_chunk checks c st) (\<lambda>(st', out).
       res_bind (receive_chunks checks cs st') (\<lambda>(st'', files).
         Inr (st'', case out of Assembled p d \<Rightarrow> (p, d) # files | _ \<Rightarrow> files)))"

section \<open>Round trip\<close>

lemma write_at_end: "write_at buf (length buf) data = buf @ data"
  by (simp add: write_at_def)

lemma unat_of_small: "n < 2 ^ 64 \<Longrightarrow> unat (word_of_nat n :: u64) = n"
  by (simp add: unat_of_nat)

text \<open>A file whose first chunk the receiver takes: the path, the number of files in flight, and
  the size announced.\<close>

definition transferable :: "string \<Rightarrow> bytes \<Rightarrow> RecvState \<Rightarrow> bool" where
  "transferable path data st \<longleftrightarrow> path \<noteq> ''metadata.db'' \<and> length path \<le> MAX_PATH_LEN \<and>
     map_of (incoming_files st) path = None \<and> length (incoming_files st) < 63 \<and>
     length data \<le> MAX_FILE_SIZE \<and> buffered_bytes st \<le> 256 * 1024 * 1024"

text \<open>The state after the first \<open>offset\<close> bytes of the file.\<close>

definition partial_state :: "string \<Rightarrow> bytes \<Rightarrow> nat \<Rightarrow> RecvState \<Rightarrow> RecvState" where
  "partial_state path data offset st =
     (if offset = 0 then st
      else \<lparr>incoming_files = incoming_files st @ [(path, take offset data)],
            buffered_bytes = buffered_bytes st + offset\<rparr>)"

lemma hm_insert_last:
  "map_of m k = None \<Longrightarrow> hm_insert k v (m @ [(k, w)]) = m @ [(k, v)]"
  by (induction m) auto

lemma partial_lookup:
  "map_of (incoming_files st) path = None \<Longrightarrow>
     (case map_of (incoming_files (partial_state path data offset st)) path of
        None \<Rightarrow> [] | Some b \<Rightarrow> b) = take offset data"
  by (simp add: partial_state_def map_add_def)

lemma partial_update:
  "map_of (incoming_files st) path = None \<Longrightarrow> 0 < offset' \<Longrightarrow>
     hm_insert path (take offset' data) (incoming_files (partial_state path data offset st)) =
       incoming_files (partial_state path data offset' st)"
  by (cases "offset = 0")
    (simp_all add: partial_state_def hm_insert_fresh, simp add: hm_insert_last)

lemma receive_sent_chunk:
  assumes tr: "transferable path data st" and off: "offset < length data \<or> offset = 0"
    and e: "e = min (offset + CHUNK_SIZE) (length data)"
    and lim: "buffered_bytes st + e \<le> 256 * 1024 * 1024"
    and c: "c = \<lparr>ch_folder_id = fid, ch_path = path, ch_offset = word_of_nat offset,
      ch_data = take (e - offset) (drop offset data), ch_total_size = word_of_nat (length data)\<rparr>"
  shows "receive_chunk checks c (partial_state path data offset st) =
    (if e < length data then Inr (partial_state path data e st, Buffered)
     else Inr (st, Assembled path data))"
proof -
  have free: "map_of (incoming_files st) path = None" and len: "length data \<le> 10 * 1024 * 1024 * 1024"
    using tr by (auto simp: transferable_def MAX_FILE_SIZE_def)
  have le: "offset \<le> e" "e \<le> length data" using off e by auto
  have dlen: "length (ch_data c) = e - offset" using le by (simp add: c)
  have words: "unat (ch_offset c) = offset" "unat (ch_total_size c) = length data"
    using len le by (simp_all add: c unat_of_small)
  have buf: "buffered_bytes (partial_state path data offset st) = buffered_bytes st + offset"
    by (simp add: partial_state_def)
  have small: "buffered_bytes st + offset + (e - offset) < usize_modulus"
    using lim le by (simp add: usize_modulus_def)
  have valid: "validate_chunk checks c (length (incoming_files (partial_state path data offset st)))
      (buffered_bytes (partial_state path data offset st)) = Inr ()"
  proof -
    have "length (incoming_files (partial_state path data offset st)) < 64"
      using tr by (simp add: transferable_def partial_state_def)
    moreover have "e - offset \<le> CHUNK_SIZE" using e by simp
    ultimately show ?thesis
      using tr small len le lim
      by (simp add: validate_chunk_def words dlen buf transferable_def MAX_FILE_SIZE_def
          MAX_CHUNK_FRAME_def CHUNK_SIZE_def) (simp add: c)
  qed
  have "write_at (take offset data) offset (ch_data c) = take offset data @ ch_data c"
    using write_at_end [of "take offset data" "ch_data c"] le by simp
  also have "\<dots> = take e data"
    using le by (simp add: c) (metis le_add_diff_inverse take_add)
  finally have wr: "write_at (take offset data) offset (ch_data c) = take e data" .
  have path: "ch_path c = path" "path \<noteq> ''metadata.db''" using tr by (simp_all add: c transferable_def)
  have pos: "0 < e" if "e < length data" using that e by auto
  show ?thesis
  proof (cases "e < length data")
    case True
    then show ?thesis
      using valid small le pos partial_update [OF free pos [OF True], of data offset]
      by (simp add: receive_chunk_def path partial_lookup [OF free] words dlen wr buf Let_def)
        (simp add: partial_state_def)
  next
    case False
    then have "e = length data" using le by simp
    have rm: "hm_remove path (hm_insert path data (incoming_files (partial_state path data offset st))) =
        incoming_files st"
      using free by (simp add: partial_state_def hm_insert_fresh hm_insert_last hm_remove_snoc)
    show ?thesis
      using False valid small le rm \<open>e = length data\<close>
      by (simp add: receive_chunk_def path partial_lookup [OF free] words dlen wr buf Let_def)
  qed
qed

lemma receive_chunks_from:
  assumes "transferable path data st" and "offset < length data \<or> offset = 0"
    and "buffered_bytes st + length data \<le> 256 * 1024 * 1024"
  shows "receive_chunks checks (chunks_from fid path data offset) (partial_state path data offset st) =
    Inr (st, [(path, data)])"
  using assms
proof (induction fid path data offset rule: chunks_from.induct)
  case (1 fid path data offset)
  define e where "e = min (offset + CHUNK_SIZE) (length data)"
  have "buffered_bytes st + e \<le> 256 * 1024 * 1024" using "1.prems"(3) by (simp add: e_def)
  note step = receive_sent_chunk [OF "1.prems"(1,2) e_def this refl, of checks fid]
  show ?case
  proof (cases "length data \<le> e")
    case True
    with step show ?thesis
      by (subst chunks_from.simps) (simp add: Let_def flip: e_def)
  next
    case False
    have "e < length data \<or> e = 0" using False by simp
    from "1.IH" [OF e_def refl False "1.prems"(1) this "1.prems"(3)] step False show ?thesis
      by (subst chunks_from.simps) (simp add: Let_def flip: e_def)
  qed
qed

lemma receive_chunks_over_limit:
  assumes "transferable path data st" and "offset < length data"
    and "256 * 1024 * 1024 < buffered_bytes st + length data"
    and "buffered_bytes st + offset \<le> 256 * 1024 * 1024"
  shows "receive_chunks checks (chunks_from fid path data offset) (partial_state path data offset st) =
    Inl BufferLimit"
  using assms
proof (induction fid path data offset rule: chunks_from.induct)
  case (1 fid path data offset)
  define e where "e = min (offset + CHUNK_SIZE) (length data)"
  define c where "c = \<lparr>ch_folder_id = fid, ch_path = path, ch_offset = word_of_nat offset,
      ch_data = take (e - offset) (drop offset data), ch_total_size = word_of_nat (length data)\<rparr>"
  show ?case
  proof (cases "buffered_bytes st + e \<le> 256 * 1024 * 1024")
    case True
    then have e: "e < length data" using "1.prems"(3) by (auto simp: e_def)
    have "offset < length data \<or> offset = 0" using "1.prems"(2) by simp
    from receive_sent_chunk [OF "1.prems"(1) this e_def True c_def, of checks] e
      "1.IH" [OF e_def refl _ "1.prems"(1) e "1.prems"(3) True]
    show ?thesis by (subst chunks_from.simps) (simp add: Let_def flip: e_def c_def)
  next
    case False
    have "unat (word_of_nat offset :: u64) = offset" "unat (word_of_nat (length data) :: u64) = length data"
      using "1.prems" by (simp_all add: unat_of_small transferable_def MAX_FILE_SIZE_def)
    moreover have "length (incoming_files (partial_state path data offset st)) < 64"
      using "1.prems"(1) by (simp add: transferable_def partial_state_def)
    moreover have "buffered_bytes (partial_state path data offset st) = buffered_bytes st + offset"
      by (simp add: partial_state_def)
    moreover have "offset \<le> e" "e - offset \<le> CHUNK_SIZE" "e \<le> length data"
      using "1.prems"(2) by (auto simp: e_def)
    moreover have "buffered_bytes st + offset + (e - offset) < usize_modulus"
      using "1.prems"(1) \<open>e \<le> length data\<close> \<open>offset \<le> e\<close>
      by (simp add: usize_modulus_def transferable_def MAX_FILE_SIZE_def)
    ultimately have "receive_chunk checks c (partial_state path data offset st) = Inl BufferLimit"
      using False "1.prems"(1)
      by (simp add: receive_chunk_def c_def validate_chunk_def transferable_def MAX_FILE_SIZE_def
          MAX_CHUNK_FRAME_def CHUNK_SIZE_def)
    then show ?thesis by (subst chunks_from.simps) (simp add: Let_def flip: e_def c_def)
  qed
qed

lemma send_partial: "receive_chunks checks (send_file_chunks path data fid) st =
    receive_chunks checks (chunks_from fid path data 0) (partial_state path data 0 st)"
  by (simp add: send_file_chunks_def partial_state_def)

section \<open>Properties\<close>


definition example_recv :: RecvState where
  "example_recv = \<lparr>incoming_files = [(''other'', [1])], buffered_bytes = 1\<rparr>"


text \<open>A peer that sends only the end of a file breaks the receiver's accounting. A valid first
  chunk that reaches the announced size is assembled with zero bytes in front, and the counter of
  buffered bytes is decremented by the whole length although only the chunk was added: a build
  with overflow checks panics, one without is left with a counter near 2^64.\<close>

theorem sparse_chunk_underflow:
  assumes "ch_path c \<noteq> ''metadata.db''"
    and "validate_chunk checks c (length (incoming_files st)) (buffered_bytes st) = Inr ()"
    and "map_of (incoming_files st) (ch_path c) = None"
    and "unat (ch_offset c) + length (ch_data c) = unat (ch_total_size c)"
    and "buffered_bytes st < unat (ch_offset c)" and "buffered_bytes st + length (ch_data c) < usize_modulus"
  shows "(if checks then receive_chunk checks c st = Inl ChunkPanic
    else receive_chunk checks c st = Inr
      (\<lparr>incoming_files = hm_remove (ch_path c) (hm_insert (ch_path c)
          (replicate (unat (ch_offset c)) 0 @ ch_data c) (incoming_files st)),
        buffered_bytes = usize_modulus - (unat (ch_offset c) - buffered_bytes st)\<rparr>,
       Assembled (ch_path c) (replicate (unat (ch_offset c)) 0 @ ch_data c)))"
proof -
  have wr: "write_at [] (unat (ch_offset c)) (ch_data c) = replicate (unat (ch_offset c)) 0 @ ch_data c"
    by (simp add: write_at_def Let_def take_replicate)
  have "unat (ch_offset c) < usize_modulus"
    using unsigned_less [of "ch_offset c"] by (simp add: usize_modulus_def)
  moreover have "unat (ch_offset c) + length (ch_data c) < usize_modulus"
    using unsigned_less [of "ch_total_size c"] assms(4) by (simp add: usize_modulus_def)
  ultimately have "usize_sub checks (buffered_bytes st + length (ch_data c))
      (unat (ch_offset c) + length (ch_data c)) =
      (if checks then None else Some (usize_modulus - (unat (ch_offset c) - buffered_bytes st)))"
    using assms(5) usize_sub_checked_panics usize_sub_release_wraps by auto
  then show ?thesis
    using assms by (cases checks) (simp_all add: receive_chunk_def wr Let_def)
qed

definition sparse_chunk :: FileChunk where
  "sparse_chunk = \<lparr>ch_folder_id = ''7'', ch_path = ''a'', ch_offset = 4096, ch_data = [9],
     ch_total_size = 4097\<rparr>"

theorem sparse_chunk_underflow_witness:
  "receive_chunk True sparse_chunk \<lparr>incoming_files = [], buffered_bytes = 0\<rparr> = Inl ChunkPanic"
  using sparse_chunk_underflow [of sparse_chunk True "\<lparr>incoming_files = [], buffered_bytes = 0\<rparr>"]
  by (simp add: sparse_chunk_def validate_chunk_def MAX_PATH_LEN_def MAX_FILE_SIZE_def
      MAX_CHUNK_FRAME_def usize_modulus_def)

end
