(* ===== verification/Storage.thy ===== *)
theory Storage
  imports Domain "HOL-Library.List_Lexorder" "HOL-Library.Char_ord"
begin

text \<open>
  The metadata database of \<open>storage/mod.rs\<close>. A table is the list of its rows in row-id order;
  an \<open>AUTOINCREMENT\<close> table has a counter that never goes back. An operation returns the
  database it leaves and its result: a transaction that fails leaves the database as it was, a
  sequence of plain statements keeps what succeeded. \<open>fk\<close> says whether SQLite enforces
  foreign keys (the default of the bundled build; the schema does not set it); enforcement is
  checked after every statement. \<open>now\<close> is \<open>unixepoch()\<close>; ids minted by hashing are
  parameters. Sorting by a key is stable.
\<close>

section \<open>Identities\<close>

text \<open>\<open>crypto::cert_to_device_id\<close>: the first 16 bytes of the hash with the UUID version and
  variant bits set; printing the UUID is a parameter (\<open>uuid\<close> crate).\<close>

definition cert_uuid_bytes :: "(bytes \<Rightarrow> bytes) \<Rightarrow> bytes \<Rightarrow> bytes" where
  "cert_uuid_bytes blake3 cert =
     (let b = take 16 (blake3 cert);
          b1 = b[6 := word_of_nat (unat (b ! 6) mod 16 + 80)]
      in b1[8 := word_of_nat (unat (b1 ! 8) mod 64 + 128)])"

definition cert_to_device_id :: "(bytes \<Rightarrow> bytes) \<Rightarrow> (bytes \<Rightarrow> string) \<Rightarrow> bytes \<Rightarrow> string" where
  "cert_to_device_id blake3 uuid cert = uuid (cert_uuid_bytes blake3 cert)"

section \<open>Tables\<close>

record device_row =
  d_id :: string
  d_name :: string
  d_cert :: "bytes option"
  d_last_seen :: "i64 option"
  d_last_addr :: "string option"

record folder_row =
  sf_id :: i64
  sf_local_path :: string
  sf_name :: "string option"
  sf_device_id :: string
  sf_active :: bool
  sf_direction :: string
  sf_last_sync_at :: "i64 option"
  sf_guid :: "string option"

record pair_row =
  fd_folder_id :: i64
  fd_device_id :: string
  fd_mode :: string
  fd_remote_path :: "string option"
  fd_enabled :: bool

record meta_row =
  m_path :: string
  m_folder_id :: i64
  m_mtime :: i64
  m_size :: i64
  m_hash :: bytes
  m_device_id :: string
  m_version :: i64
  m_local_version :: i64
  m_remote_version :: i64
  m_local_mtime :: i64
  m_remote_mtime :: i64

record hist_row =
  h_id :: i64
  h_folder_id :: i64
  h_path :: string
  h_device_id :: string
  h_action :: string
  h_version :: i64
  h_mtime :: i64
  h_hash :: bytes
  h_size :: i64
  h_recorded_at :: i64

record sess_row =
  ss_id :: i64
  ss_ts :: i64
  ss_direction :: string
  ss_peer_device :: string
  ss_addr :: string
  ss_folder_path :: string
  ss_pushed_count :: nat
  ss_pulled_count :: nat
  ss_conflicts_count :: nat
  ss_pushed_bytes :: u64
  ss_pulled_bytes :: u64

record share_row =
  sh_id :: i64
  sh_guid :: string
  sh_device_id :: string
  sh_name :: string
  sh_local_path :: string
  sh_discoverable :: bool
  sh_enabled :: bool
  sh_permissions :: string

record db =
  t_devices :: "device_row list"
  t_folders :: "folder_row list"
  t_pairs :: "pair_row list"
  t_meta :: "meta_row list"
  t_history :: "hist_row list"
  t_sessions :: "sess_row list"
  t_shared :: "share_row list"
  seq_folders :: i64
  seq_history :: i64
  seq_sessions :: i64
  seq_shared :: i64

definition db_empty :: db where
  "db_empty = \<lparr>t_devices = [], t_folders = [], t_pairs = [], t_meta = [], t_history = [],
     t_sessions = [], t_shared = [], seq_folders = 0, seq_history = 0, seq_sessions = 0,
     seq_shared = 0\<rparr>"

section \<open>Statements\<close>

datatype db_error = FkViolation | UniqueViolation | NoRows

type_synonym 'a dbres = "db \<times> (db_error + 'a)"

definition device_ids :: "db \<Rightarrow> string set" where
  "device_ids db = d_id ` set (t_devices db)"

definition folder_ids :: "db \<Rightarrow> i64 set" where
  "folder_ids db = sf_id ` set (t_folders db)"

definition fk_ok :: "db \<Rightarrow> bool" where
  "fk_ok db \<longleftrightarrow>
     (\<forall>f \<in> set (t_folders db). sf_device_id f \<in> device_ids db) \<and>
     (\<forall>p \<in> set (t_pairs db). fd_folder_id p \<in> folder_ids db \<and> fd_device_id p \<in> device_ids db) \<and>
     (\<forall>m \<in> set (t_meta db). m_folder_id m \<in> folder_ids db) \<and>
     (\<forall>h \<in> set (t_history db). h_folder_id h \<in> folder_ids db) \<and>
     (\<forall>s \<in> set (t_shared db). sh_device_id s \<in> device_ids db)"

definition unique_ok :: "db \<Rightarrow> bool" where
  "unique_ok db \<longleftrightarrow>
     distinct (map d_id (t_devices db)) \<and> distinct (map sf_id (t_folders db)) \<and>
     distinct (map (\<lambda>p. (fd_folder_id p, fd_device_id p)) (t_pairs db)) \<and>
     distinct (map (\<lambda>m. (m_folder_id m, m_path m)) (t_meta db)) \<and>
     distinct (map h_id (t_history db)) \<and> distinct (map ss_id (t_sessions db)) \<and>
     distinct (map sh_id (t_shared db)) \<and>
     distinct (map (\<lambda>s. (sh_guid s, sh_device_id s)) (t_shared db))"

text \<open>One statement: the constraints are checked on the database it would leave.\<close>

definition stmt :: "bool \<Rightarrow> db \<Rightarrow> db \<Rightarrow> unit dbres" where
  "stmt fk db db' =
     (if \<not> unique_ok db' then (db, Inl UniqueViolation)
      else if fk \<and> \<not> fk_ok db' then (db, Inl FkViolation)
      else (db', Inr ()))"

definition db_bind :: "'a dbres \<Rightarrow> (db \<Rightarrow> 'a \<Rightarrow> 'b dbres) \<Rightarrow> 'b dbres" where
  "db_bind r f = (case r of (db, Inl e) \<Rightarrow> (db, Inl e) | (db, Inr x) \<Rightarrow> f db x)"

text \<open>A transaction that fails is rolled back.\<close>

definition transaction :: "db \<Rightarrow> 'a dbres \<Rightarrow> 'a dbres" where
  "transaction db r = (case r of (_, Inl e) \<Rightarrow> (db, Inl e) | ok \<Rightarrow> ok)"

section \<open>Devices\<close>

definition device_by_id :: "db \<Rightarrow> string \<Rightarrow> device_row option" where
  "device_by_id db did = find (\<lambda>d. d_id d = did) (t_devices db)"

text \<open>\<open>INSERT .. ON CONFLICT(id) DO UPDATE\<close>: \<open>upd\<close> changes the existing row.\<close>

definition upsert_row :: "device_row \<Rightarrow> (device_row \<Rightarrow> device_row) \<Rightarrow> db \<Rightarrow> db" where
  "upsert_row new upd db =
     (if d_id new \<in> device_ids db
      then db\<lparr>t_devices := map (\<lambda>d. if d_id d = d_id new then upd d else d) (t_devices db)\<rparr>
      else db\<lparr>t_devices := t_devices db @ [new]\<rparr>)"

definition coalesce :: "'a option \<Rightarrow> 'a option \<Rightarrow> 'a option" where
  "coalesce a b = (case a of Some x \<Rightarrow> Some x | None \<Rightarrow> b)"

definition upsert_device ::
  "bool \<Rightarrow> i64 \<Rightarrow> string \<Rightarrow> string \<Rightarrow> bytes option \<Rightarrow> string option \<Rightarrow> db \<Rightarrow> unit dbres" where
  "upsert_device fk now did name cert addr db =
     stmt fk db (upsert_row
       \<lparr>d_id = did, d_name = name, d_cert = cert, d_last_seen = Some now, d_last_addr = addr\<rparr>
       (\<lambda>d. d\<lparr>d_name := name, d_cert := coalesce cert (d_cert d), d_last_seen := Some now,
              d_last_addr := coalesce addr (d_last_addr d)\<rparr>) db)"

definition get_device_name :: "db \<Rightarrow> string \<Rightarrow> string option" where
  "get_device_name db did = map_option d_name (device_by_id db did)"

definition ensure_self_row :: "bool \<Rightarrow> i64 \<Rightarrow> string \<Rightarrow> bytes \<Rightarrow> string \<Rightarrow> db \<Rightarrow> unit dbres" where
  "ensure_self_row fk now did cert name db =
     stmt fk db (upsert_row
       \<lparr>d_id = did, d_name = name, d_cert = Some cert, d_last_seen = Some now, d_last_addr = None\<rparr>
       (\<lambda>d. d\<lparr>d_name := (if name = [] then d_name d else name), d_cert := Some cert,
              d_last_seen := Some now\<rparr>) db)"

definition device_last_addr :: "db \<Rightarrow> string \<Rightarrow> string option" where
  "device_last_addr db did = Option.bind (device_by_id db did) d_last_addr"

definition set_device_last_addr :: "bool \<Rightarrow> string \<Rightarrow> string \<Rightarrow> db \<Rightarrow> unit dbres" where
  "set_device_last_addr fk did addr db =
     stmt fk db (db\<lparr>t_devices :=
       map (\<lambda>d. if d_id d = did then d\<lparr>d_last_addr := Some addr\<rparr> else d) (t_devices db)\<rparr>)"

definition get_device_cert :: "db \<Rightarrow> string \<Rightarrow> bytes option" where
  "get_device_cert db did = Option.bind (device_by_id db did) d_cert"

definition get_device_by_cert_fingerprint :: "(bytes \<Rightarrow> bytes) \<Rightarrow> db \<Rightarrow> bytes \<Rightarrow> string option" where
  "get_device_by_cert_fingerprint blake3 db fp =
     map_option d_id (find (\<lambda>d. case d_cert d of None \<Rightarrow> False | Some der \<Rightarrow> blake3 der = fp) (t_devices db))"

definition set_device_cert :: "bool \<Rightarrow> i64 \<Rightarrow> string \<Rightarrow> bytes \<Rightarrow> db \<Rightarrow> unit dbres" where
  "set_device_cert fk now did cert db =
     stmt fk db (upsert_row
       \<lparr>d_id = did, d_name = did, d_cert = Some cert, d_last_seen = Some now, d_last_addr = None\<rparr>
       (\<lambda>d. d\<lparr>d_cert := Some cert\<rparr>) db)"

text \<open>\<open>ORDER BY last_seen DESC\<close>: rows never seen come last.\<close>

definition list_devices :: "db \<Rightarrow> (string \<times> string \<times> i64 option) list" where
  "list_devices db =
     map (\<lambda>d. (d_id d, d_name d, d_last_seen d))
       (sort_key (\<lambda>d. - the (d_last_seen d)) (filter (\<lambda>d. d_last_seen d \<noteq> None) (t_devices db)) @
        filter (\<lambda>d. d_last_seen d = None) (t_devices db))"

definition list_trusted_device_addrs :: "db \<Rightarrow> (string \<times> string) list" where
  "list_trusted_device_addrs db =
     List.map_filter (\<lambda>d. case d_last_addr d of
         Some a \<Rightarrow> if a \<noteq> [] \<and> d_cert d \<noteq> None then Some (d_id d, a) else None
       | None \<Rightarrow> None) (t_devices db)"

section \<open>Folder labels and ids\<close>

definition is_sep :: "char \<Rightarrow> bool" where
  "is_sep c \<longleftrightarrow> c = CHR ''/'' \<or> c = CHR 0x5C"

fun split_sep :: "string \<Rightarrow> string list" where
  "split_sep [] = [[]]"
| "split_sep (c # cs) =
     (if is_sep c then [] # split_sep cs else (c # hd (split_sep cs)) # tl (split_sep cs))"

definition trim_end_sep :: "string \<Rightarrow> string" where
  "trim_end_sep s = rev (dropWhile is_sep (rev s))"

definition path_label :: "string \<Rightarrow> string" where
  "path_label local_path =
     (let parts = filter (\<lambda>x. x \<noteq> []) (split_sep (trim_end_sep local_path)) in
      if parts = [] then local_path else last parts)"

definition le_bytes :: "nat \<Rightarrow> int \<Rightarrow> bytes" where
  "le_bytes k n = map (\<lambda>i. word_of_int (n div 256 ^ i)) [0..<k]"

definition new_folder_guid :: "(bytes \<Rightarrow> bytes) \<Rightarrow> int \<Rightarrow> i64 \<Rightarrow> string" where
  "new_folder_guid blake3 pid folder_id =
     ''f-'' @ concat (map hex_byte (blake3
       (map (\<lambda>c. word_of_nat (of_char c)) ''ferrisync-folder-guid-v1'' @
        le_bytes 8 folder_id @ le_bytes 4 pid)))"

definition is_blank :: "string \<Rightarrow> bool" where
  "is_blank s \<longleftrightarrow> (\<forall>c \<in> set s. c \<in> {CHR '' '', CHR 0x09, CHR 0x0A, CHR 0x0B, CHR 0x0C, CHR 0x0D})"

section \<open>Folders and pairs\<close>

definition update_folder :: "i64 \<Rightarrow> (folder_row \<Rightarrow> folder_row) \<Rightarrow> db \<Rightarrow> db" where
  "update_folder fid upd db =
     db\<lparr>t_folders := map (\<lambda>f. if sf_id f = fid then upd f else f) (t_folders db)\<rparr>"

text \<open>\<open>INSERT INTO sync_folders (local_path, name, device_id, direction, folder_guid)\<close>.\<close>

definition insert_folder ::
  "string \<Rightarrow> string \<Rightarrow> string \<Rightarrow> string \<Rightarrow> string \<Rightarrow> db \<Rightarrow> db" where
  "insert_folder local_path name device_id direction guid db =
     db\<lparr>t_folders := t_folders db @
          [\<lparr>sf_id = seq_folders db + 1, sf_local_path = local_path, sf_name = Some name,
            sf_device_id = device_id, sf_active = True, sf_direction = direction,
            sf_last_sync_at = None, sf_guid = Some guid\<rparr>],
        seq_folders := seq_folders db + 1\<rparr>"

definition has_pair :: "db \<Rightarrow> i64 \<Rightarrow> string \<Rightarrow> bool" where
  "has_pair db fid did \<longleftrightarrow> (\<exists>p \<in> set (t_pairs db). fd_folder_id p = fid \<and> fd_device_id p = did)"

definition upsert_pair :: "i64 \<Rightarrow> string \<Rightarrow> string \<Rightarrow> string option \<Rightarrow> db \<Rightarrow> db" where
  "upsert_pair fid did mode remote_path db =
     (if has_pair db fid did
      then db\<lparr>t_pairs := map (\<lambda>p. if fd_folder_id p = fid \<and> fd_device_id p = did
             then p\<lparr>fd_mode := mode, fd_remote_path := coalesce remote_path (fd_remote_path p),
                    fd_enabled := True\<rparr> else p) (t_pairs db)\<rparr>
      else db\<lparr>t_pairs := t_pairs db @ [\<lparr>fd_folder_id = fid, fd_device_id = did, fd_mode = mode,
             fd_remote_path = remote_path, fd_enabled = True\<rparr>]\<rparr>)"

definition backfill_pairs :: "db \<Rightarrow> db" where
  "backfill_pairs db =
     db\<lparr>t_pairs := fold (\<lambda>f ps. if \<exists>p \<in> set ps. fd_folder_id p = sf_id f \<and> fd_device_id p = sf_device_id f
          then ps
          else ps @ [\<lparr>fd_folder_id = sf_id f, fd_device_id = sf_device_id f, fd_mode = sf_direction f,
            fd_remote_path = None, fd_enabled = sf_active f\<rparr>]) (t_folders db) (t_pairs db)\<rparr>"

text \<open>\<open>initialize_schema\<close> on an existing database: missing pairs, guids and names are filled in;
  a failing backfill is ignored.\<close>

definition initialize_schema :: "bool \<Rightarrow> (i64 \<Rightarrow> string) \<Rightarrow> db \<Rightarrow> db" where
  "initialize_schema fk mint db =
     (let db1 = fst (stmt fk db (backfill_pairs db));
          db2 = db1\<lparr>t_folders := map (\<lambda>f. if sf_guid f = None \<or> sf_guid f = Some []
            then f\<lparr>sf_guid := Some (mint (sf_id f))\<rparr> else f) (t_folders db1)\<rparr>
      in db2\<lparr>t_folders := map (\<lambda>f. if sf_name f = None \<or> sf_name f = Some []
            then f\<lparr>sf_name := Some (path_label (sf_local_path f))\<rparr> else f) (t_folders db2)\<rparr>)"

definition list_sync_folders :: "db \<Rightarrow> (i64 \<times> string \<times> string \<times> string \<times> i64 option) list" where
  "list_sync_folders db =
     sort_key (\<lambda>r. fst r) (sort_key (\<lambda>r. fst (snd (snd r)))
       [(sf_id f, sf_local_path f, fd_device_id p, fd_mode p, sf_last_sync_at f).
          f \<leftarrow> t_folders db, p \<leftarrow> t_pairs db, fd_folder_id p = sf_id f \<and> fd_enabled p])"

definition folder_by_path :: "db \<Rightarrow> string \<Rightarrow> folder_row option" where
  "folder_by_path db local_path = find (\<lambda>f. sf_local_path f = local_path) (t_folders db)"

definition folder_by_guid :: "db \<Rightarrow> string \<Rightarrow> folder_row option" where
  "folder_by_guid db guid = find (\<lambda>f. sf_guid f = Some guid) (t_folders db)"

definition folder_by_id :: "db \<Rightarrow> i64 \<Rightarrow> folder_row option" where
  "folder_by_id db fid = find (\<lambda>f. sf_id f = fid) (t_folders db)"

definition max_folder_id :: "db \<Rightarrow> i64" where
  "max_folder_id db = fold max (map sf_id (t_folders db)) 0"

definition add_sync_folder ::
  "bool \<Rightarrow> (i64 \<Rightarrow> string) \<Rightarrow> string \<Rightarrow> string \<Rightarrow> string \<Rightarrow> db \<Rightarrow> i64 dbres" where
  "add_sync_folder fk mint local_path device_id direction db =
     transaction db
       (db_bind
         (case folder_by_path db local_path of
            Some f \<Rightarrow> (db, Inr (sf_id f))
          | None \<Rightarrow>
              let guid = mint (max_folder_id db + 1);
                  db1 = insert_folder local_path (path_label local_path) device_id direction guid db
              in db_bind (stmt fk db db1) (\<lambda>db' _. (db', Inr (seq_folders db'))))
         (\<lambda>db1 folder_id.
           db_bind (stmt fk db1 (upsert_pair folder_id device_id direction None db1))
             (\<lambda>db2 _. (db2, Inr folder_id))))"

definition add_folder_device ::
  "bool \<Rightarrow> i64 \<Rightarrow> string \<Rightarrow> string \<Rightarrow> string option \<Rightarrow> db \<Rightarrow> unit dbres" where
  "add_folder_device fk folder_id device_id mode remote_path db =
     stmt fk db (upsert_pair folder_id device_id mode remote_path db)"

definition folder_pairs :: "db \<Rightarrow> i64 \<Rightarrow> (string \<times> string \<times> string option \<times> bool) list" where
  "folder_pairs db folder_id =
     sort_key fst [(fd_device_id p, fd_mode p, fd_remote_path p, fd_enabled p).
       p \<leftarrow> t_pairs db, fd_folder_id p = folder_id]"

text \<open>The label of a pair: its remote path, else the device's name, else its id.\<close>

definition pair_label :: "db \<Rightarrow> pair_row \<Rightarrow> string" where
  "pair_label db p =
     (case fd_remote_path p of
        Some r \<Rightarrow> r
      | None \<Rightarrow> (case get_device_name db (fd_device_id p) of Some n \<Rightarrow> n | None \<Rightarrow> fd_device_id p))"

definition folder_remote_labels :: "db \<Rightarrow> string \<Rightarrow> (i64 \<times> string) list" where
  "folder_remote_labels db own =
     (let rows = sort_key fd_folder_id (sort_key fd_device_id (filter fd_enabled (t_pairs db)));
          peers = fold (\<lambda>p out. if fd_device_id p = own \<or> map_of out (fd_folder_id p) \<noteq> None then out
            else hm_insert (fd_folder_id p) (pair_label db p) out) rows []
      in fold (\<lambda>p out. if fd_device_id p = own \<and> map_of out (fd_folder_id p) = None
            then hm_insert (fd_folder_id p) ''this device'' out else out) rows peers)"

definition folder_name :: "db \<Rightarrow> i64 \<Rightarrow> db_error + string" where
  "folder_name db folder_id =
     (case folder_by_id db folder_id of
        None \<Rightarrow> Inl NoRows
      | Some f \<Rightarrow> Inr (case sf_name f of
            Some n \<Rightarrow> if is_blank n then path_label (sf_local_path f) else n
          | None \<Rightarrow> path_label (sf_local_path f)))"

definition folder_path :: "db \<Rightarrow> i64 \<Rightarrow> string option" where
  "folder_path db folder_id = map_option sf_local_path (folder_by_id db folder_id)"

definition set_folder_name :: "bool \<Rightarrow> i64 \<Rightarrow> string \<Rightarrow> db \<Rightarrow> unit dbres" where
  "set_folder_name fk folder_id name db =
     stmt fk db (update_folder folder_id (\<lambda>f. f\<lparr>sf_name := Some name\<rparr>) db)"

definition set_folder_last_sync :: "bool \<Rightarrow> i64 \<Rightarrow> i64 \<Rightarrow> db \<Rightarrow> unit dbres" where
  "set_folder_last_sync fk folder_id ts db =
     stmt fk db (update_folder folder_id (\<lambda>f. f\<lparr>sf_last_sync_at := Some ts\<rparr>) db)"

definition folder_guid :: "db \<Rightarrow> i64 \<Rightarrow> string option" where
  "folder_guid db folder_id = Option.bind (folder_by_id db folder_id) sf_guid"

definition folder_id_for_guid :: "db \<Rightarrow> string \<Rightarrow> i64 option" where
  "folder_id_for_guid db guid = map_option sf_id (folder_by_guid db guid)"

definition ensure_folder_by_guid ::
  "bool \<Rightarrow> string \<Rightarrow> string \<Rightarrow> string \<Rightarrow> string \<Rightarrow> db \<Rightarrow> i64 dbres" where
  "ensure_folder_by_guid fk guid local_path name device_id db =
     (case folder_by_guid db guid of
        Some f \<Rightarrow> (db, Inr (sf_id f))
      | None \<Rightarrow>
          db_bind (stmt fk db (insert_folder local_path name device_id ''bidirectional'' guid db))
            (\<lambda>db' _. (db', Inr (seq_folders db'))))"

definition wire_folder_pair ::
  "bool \<Rightarrow> string \<Rightarrow> string \<Rightarrow> string \<Rightarrow> string \<Rightarrow> string \<Rightarrow> string option \<Rightarrow> db \<Rightarrow> i64 dbres" where
  "wire_folder_pair fk guid local_path name own_device_id peer_device_id peer_path db =
     db_bind
       (transaction db
         (case folder_by_path db local_path of
            Some f \<Rightarrow>
              db_bind (stmt fk db (update_folder (sf_id f) (\<lambda>g. g\<lparr>sf_guid := Some guid\<rparr>) db)) (\<lambda>db1 _.
                case sf_guid f of
                  None \<Rightarrow> (db1, Inr (sf_id f))
                | Some old_guid \<Rightarrow>
                    db_bind (stmt fk db1 (db1\<lparr>t_shared := map (\<lambda>s.
                        if sh_device_id s = own_device_id \<and> sh_guid s = old_guid
                        then s\<lparr>sh_guid := guid\<rparr> else s) (t_shared db1)\<rparr>))
                      (\<lambda>db2 _. (db2, Inr (sf_id f))))
          | None \<Rightarrow>
              (case folder_by_guid db guid of
                 Some f \<Rightarrow> (db, Inr (sf_id f))
               | None \<Rightarrow>
                   let name' = (if is_blank name then path_label local_path else name) in
                   db_bind (stmt fk db (insert_folder local_path name' own_device_id ''bidirectional'' guid db))
                     (\<lambda>db1 _. db_bind (stmt fk db1 (db1\<lparr>t_pairs := t_pairs db1 @
                         [\<lparr>fd_folder_id = seq_folders db1, fd_device_id = own_device_id,
                           fd_mode = ''bidirectional'', fd_remote_path = None, fd_enabled = True\<rparr>]\<rparr>))
                       (\<lambda>db2 _. (db2, Inr (seq_folders db1)))))))
       (\<lambda>db1 folder_id.
         db_bind (add_folder_device fk folder_id peer_device_id ''bidirectional'' peer_path db1)
           (\<lambda>db2 _. (db2, Inr folder_id)))"

definition set_folder_local_path :: "bool \<Rightarrow> i64 \<Rightarrow> string \<Rightarrow> db \<Rightarrow> unit dbres" where
  "set_folder_local_path fk folder_id new_path db =
     stmt fk db (update_folder folder_id (\<lambda>f. f\<lparr>sf_local_path := new_path\<rparr>) db)"

definition folder_pair_remote_path :: "db \<Rightarrow> i64 \<Rightarrow> string \<Rightarrow> string option" where
  "folder_pair_remote_path db folder_id device_id =
     Option.bind (find (\<lambda>p. fd_folder_id p = folder_id \<and> fd_device_id p = device_id) (t_pairs db))
       fd_remote_path"

definition set_folder_device :: "bool \<Rightarrow> i64 \<Rightarrow> string \<Rightarrow> db \<Rightarrow> unit dbres" where
  "set_folder_device fk folder_id new_device_id db =
     transaction db
       (case find (\<lambda>p. fd_folder_id p = folder_id) (t_pairs db) of
          None \<Rightarrow> (db, Inr ())
        | Some p \<Rightarrow>
            if fd_device_id p = new_device_id then (db, Inr ())
            else
              (let db0 = (if new_device_id \<in> device_ids db then db
                     else db\<lparr>t_devices := t_devices db @ [\<lparr>d_id = new_device_id, d_name = new_device_id,
                       d_cert = None, d_last_seen = None, d_last_addr = None\<rparr>]\<rparr>)
               in db_bind (stmt fk db db0) (\<lambda>db1 _.
                 stmt fk db1 (db1\<lparr>t_pairs := map (\<lambda>q.
                   if fd_folder_id q = folder_id \<and> fd_device_id q = fd_device_id p
                   then q\<lparr>fd_device_id := new_device_id\<rparr> else q) (t_pairs db1)\<rparr>))))"

section \<open>Sessions\<close>

definition MAX_SESSION_HISTORY :: nat where
  "MAX_SESSION_HISTORY = 100"

text \<open>Rows are appended with growing ids, so the newest rows are the last ones.\<close>

definition keep_newest :: "nat \<Rightarrow> sess_row list \<Rightarrow> sess_row list" where
  "keep_newest n rows = filter (\<lambda>r. ss_id r \<in> set (take n (rev (sort (map ss_id rows))))) rows"

definition record_session ::
  "bool \<Rightarrow> i64 \<Rightarrow> string \<Rightarrow> string \<Rightarrow> string \<Rightarrow> string \<Rightarrow> nat \<Rightarrow> nat \<Rightarrow> nat \<Rightarrow> u64 \<Rightarrow> u64 \<Rightarrow> db \<Rightarrow> unit dbres" where
  "record_session fk now direction peer addr path pushed pulled nconflicts pushed_bytes pulled_bytes db =
     db_bind (stmt fk db (db\<lparr>t_sessions := t_sessions db @
         [\<lparr>ss_id = seq_sessions db + 1, ss_ts = now, ss_direction = direction, ss_peer_device = peer,
           ss_addr = addr, ss_folder_path = path, ss_pushed_count = pushed,
           ss_pulled_count = pulled, ss_conflicts_count = nconflicts, ss_pushed_bytes = pushed_bytes,
           ss_pulled_bytes = pulled_bytes\<rparr>],
         seq_sessions := seq_sessions db + 1\<rparr>))
       (\<lambda>db1 _. stmt fk db1 (db1\<lparr>t_sessions := keep_newest MAX_SESSION_HISTORY (t_sessions db1)\<rparr>))"

definition list_recent_sessions :: "db \<Rightarrow> nat \<Rightarrow> sess_row list" where
  "list_recent_sessions db limit = take limit (rev (sort_key ss_id (t_sessions db)))"

definition list_sessions_for_device :: "db \<Rightarrow> string \<Rightarrow> nat \<Rightarrow> sess_row list" where
  "list_sessions_for_device db device_id limit =
     take limit (rev (sort_key ss_id (filter (\<lambda>r. ss_peer_device r = device_id) (t_sessions db))))"

section \<open>Removal\<close>

text \<open>Deleting a folder header cascades to its pairs when foreign keys are enforced.\<close>

definition delete_folders :: "bool \<Rightarrow> (folder_row \<Rightarrow> bool) \<Rightarrow> db \<Rightarrow> db" where
  "delete_folders fk P db =
     db\<lparr>t_folders := filter (\<lambda>f. \<not> P f) (t_folders db),
        t_pairs := (if fk then filter (\<lambda>p. \<not> (\<exists>f \<in> set (t_folders db). P f \<and> sf_id f = fd_folder_id p)) (t_pairs db)
                    else t_pairs db)\<rparr>"

definition delete_pairs :: "(pair_row \<Rightarrow> bool) \<Rightarrow> db \<Rightarrow> db" where
  "delete_pairs P db = db\<lparr>t_pairs := filter (\<lambda>p. \<not> P p) (t_pairs db)\<rparr>"

definition pairs_left :: "db \<Rightarrow> i64 \<Rightarrow> bool" where
  "pairs_left db fid \<longleftrightarrow> (\<exists>p \<in> set (t_pairs db). fd_folder_id p = fid)"

fun remove_pairs_of :: "bool \<Rightarrow> string option \<Rightarrow> i64 list \<Rightarrow> nat \<Rightarrow> db \<Rightarrow> nat dbres" where
  "remove_pairs_of fk dev [] deleted db = (db, Inr deleted)"
| "remove_pairs_of fk dev (fid # fids) deleted db =
     (let hit = (\<lambda>p. fd_folder_id p = fid \<and> (dev = None \<or> dev = Some (fd_device_id p)));
          n = length (filter hit (t_pairs db))
      in db_bind (stmt fk db (delete_pairs hit db)) (\<lambda>db1 _.
        db_bind (if pairs_left db1 fid then (db1, Inr ())
                 else stmt fk db1 (delete_folders fk (\<lambda>f. sf_id f = fid) db1))
          (\<lambda>db2 _. remove_pairs_of fk dev fids (deleted + n) db2)))"

definition remove_sync_folders :: "bool \<Rightarrow> string \<Rightarrow> string option \<Rightarrow> db \<Rightarrow> nat dbres" where
  "remove_sync_folders fk local_path dev db =
     transaction db (remove_pairs_of fk dev
       (map sf_id (filter (\<lambda>f. sf_local_path f = local_path) (t_folders db))) 0 db)"

definition remove_sync_folder_by_id :: "bool \<Rightarrow> i64 \<Rightarrow> db \<Rightarrow> unit dbres" where
  "remove_sync_folder_by_id fk folder_id db =
     db_bind (stmt fk db (delete_pairs (\<lambda>p. fd_folder_id p = folder_id) db)) (\<lambda>db1 _.
       stmt fk db1 (delete_folders fk (\<lambda>f. sf_id f = folder_id) db1))"

definition remove_folder_device :: "bool \<Rightarrow> i64 \<Rightarrow> string \<Rightarrow> db \<Rightarrow> bool dbres" where
  "remove_folder_device fk folder_id device_id db =
     transaction db
       (let hit = (\<lambda>p. fd_folder_id p = folder_id \<and> fd_device_id p = device_id) in
        db_bind (stmt fk db (delete_pairs hit db)) (\<lambda>db1 _.
          if \<not> has_pair db folder_id device_id then (db1, Inr False)
          else db_bind (if pairs_left db1 folder_id then (db1, Inr ())
                 else stmt fk db1 (delete_folders fk (\<lambda>f. sf_id f = folder_id) db1))
            (\<lambda>db2 _. (db2, Inr True))))"

definition clear_all_sync_state :: "bool \<Rightarrow> db \<Rightarrow> (nat \<times> nat) dbres" where
  "clear_all_sync_state fk db =
     transaction db
       (db_bind (stmt fk db (db\<lparr>t_history := []\<rparr>)) (\<lambda>db1 _.
        db_bind (stmt fk db1 (db1\<lparr>t_meta := []\<rparr>)) (\<lambda>db2 _.
        db_bind (stmt fk db2 (db2\<lparr>t_pairs := []\<rparr>)) (\<lambda>db3 _.
        db_bind (stmt fk db3 (db3\<lparr>t_folders := []\<rparr>)) (\<lambda>db4 _.
        db_bind (stmt fk db4 (db4\<lparr>t_devices := []\<rparr>)) (\<lambda>db5 _.
          (db5, Inr (length (t_folders db), length (t_devices db)))))))))"

record DeviceCleanup =
  sessions_removed :: nat
  history_removed :: nat
  metadata_removed :: nat
  folders_removed :: nat
  device_removed :: nat

definition paired_with :: "db \<Rightarrow> string \<Rightarrow> i64 \<Rightarrow> bool" where
  "paired_with db dev fid \<longleftrightarrow> has_pair db fid dev"

definition remove_device :: "bool \<Rightarrow> string \<Rightarrow> db \<Rightarrow> DeviceCleanup dbres" where
  "remove_device fk dev db =
     (let hs = (\<lambda>h. h_device_id h = dev \<or> paired_with db dev (h_folder_id h));
          ms = (\<lambda>m. paired_with db dev (m_folder_id m));
          ss = (\<lambda>r. ss_peer_device r = dev)
      in transaction db
       (db_bind (stmt fk db (db\<lparr>t_sessions := filter (\<lambda>r. \<not> ss r) (t_sessions db)\<rparr>)) (\<lambda>db1 _.
        db_bind (stmt fk db1 (db1\<lparr>t_history := filter (\<lambda>h. \<not> hs h) (t_history db1)\<rparr>)) (\<lambda>db2 _.
        db_bind (stmt fk db2 (db2\<lparr>t_meta := filter (\<lambda>m. \<not> ms m) (t_meta db2)\<rparr>)) (\<lambda>db3 _.
        db_bind (stmt fk db3 (delete_pairs (\<lambda>p. fd_device_id p = dev) db3)) (\<lambda>db4 _.
        db_bind (stmt fk db4 (delete_folders fk (\<lambda>f. \<not> pairs_left db4 (sf_id f)) db4)) (\<lambda>db5 _.
        db_bind (stmt fk db5 (db5\<lparr>t_devices := filter (\<lambda>d. d_id d \<noteq> dev) (t_devices db5)\<rparr>)) (\<lambda>db6 _.
          (db6, Inr \<lparr>sessions_removed = length (filter ss (t_sessions db)),
            history_removed = length (filter hs (t_history db)),
            metadata_removed = length (filter ms (t_meta db)),
            folders_removed = length (t_folders db) - length (t_folders db5),
            device_removed = length (filter (\<lambda>d. d_id d = dev) (t_devices db5))\<rparr>)))))))))"

section \<open>File metadata and history\<close>

definition get_file_metadata :: "db \<Rightarrow> i64 \<Rightarrow> string \<Rightarrow> meta_row option" where
  "get_file_metadata db folder_id path =
     find (\<lambda>m. m_folder_id m = folder_id \<and> m_path m = path) (t_meta db)"

definition upsert_file_metadata ::
  "bool \<Rightarrow> i64 \<Rightarrow> string \<Rightarrow> i64 \<Rightarrow> i64 \<Rightarrow> bytes \<Rightarrow> string \<Rightarrow> db \<Rightarrow> unit dbres" where
  "upsert_file_metadata fk folder_id path mtime sz hash device_id db =
     stmt fk db
       (if get_file_metadata db folder_id path \<noteq> None
        then db\<lparr>t_meta := map (\<lambda>m. if m_folder_id m = folder_id \<and> m_path m = path
          then m\<lparr>m_mtime := mtime, m_size := sz, m_hash := hash, m_device_id := device_id\<rparr> else m)
          (t_meta db)\<rparr>
        else db\<lparr>t_meta := t_meta db @ [\<lparr>m_path = path, m_folder_id = folder_id, m_mtime = mtime,
          m_size = sz, m_hash = hash, m_device_id = device_id, m_version = 0, m_local_version = 0,
          m_remote_version = 0, m_local_mtime = 0, m_remote_mtime = 0\<rparr>]\<rparr>)"

record HistoryRecord =
  hr_folder_id :: i64
  hr_path :: string
  hr_device_id :: string
  hr_action :: string
  hr_version :: i64
  hr_mtime :: i64
  hr_hash :: bytes
  hr_size :: i64

definition record_history :: "bool \<Rightarrow> i64 \<Rightarrow> HistoryRecord \<Rightarrow> db \<Rightarrow> unit dbres" where
  "record_history fk now rec db =
     stmt fk db (db\<lparr>t_history := t_history db @
       [\<lparr>h_id = seq_history db + 1, h_folder_id = hr_folder_id rec, h_path = hr_path rec,
         h_device_id = hr_device_id rec, h_action = hr_action rec, h_version = hr_version rec,
         h_mtime = hr_mtime rec, h_hash = hr_hash rec, h_size = hr_size rec, h_recorded_at = now\<rparr>],
       seq_history := seq_history db + 1\<rparr>)"

definition list_file_history :: "db \<Rightarrow> i64 option \<Rightarrow> nat \<Rightarrow> hist_row list" where
  "list_file_history db folder_id limit =
     take limit (rev (sort_key h_id
       (filter (\<lambda>h. folder_id = None \<or> folder_id = Some (h_folder_id h)) (t_history db))))"

section \<open>Shared folders\<close>

definition share_folder :: "bool \<Rightarrow> string \<Rightarrow> string \<Rightarrow> string \<Rightarrow> string \<Rightarrow> db \<Rightarrow> unit dbres" where
  "share_folder fk guid device_id name local_path db =
     stmt fk db
       (if \<exists>s \<in> set (t_shared db). sh_guid s = guid \<and> sh_device_id s = device_id then db
        else db\<lparr>t_shared := t_shared db @ [\<lparr>sh_id = seq_shared db + 1, sh_guid = guid,
            sh_device_id = device_id, sh_name = name, sh_local_path = local_path,
            sh_discoverable = True, sh_enabled = True, sh_permissions = ''read_write''\<rparr>],
          seq_shared := seq_shared db + 1\<rparr>)"

definition list_shared_folders :: "db \<Rightarrow> string \<Rightarrow> share_row list" where
  "list_shared_folders db device_id =
     rev (sort_key sh_id (filter (\<lambda>s. sh_device_id s = device_id) (t_shared db)))"

definition shared_folder_by_guid :: "db \<Rightarrow> string \<Rightarrow> string \<Rightarrow> share_row option" where
  "shared_folder_by_guid db device_id guid =
     find (\<lambda>s. sh_device_id s = device_id \<and> sh_guid s = guid) (rev (t_shared db))"

definition set_shared_discoverable :: "bool \<Rightarrow> i64 \<Rightarrow> bool \<Rightarrow> db \<Rightarrow> unit dbres" where
  "set_shared_discoverable fk sid discoverable db =
     stmt fk db (db\<lparr>t_shared := map (\<lambda>s. if sh_id s = sid then s\<lparr>sh_discoverable := discoverable\<rparr> else s)
       (t_shared db)\<rparr>)"

definition unshare_folder :: "bool \<Rightarrow> i64 \<Rightarrow> db \<Rightarrow> unit dbres" where
  "unshare_folder fk sid db =
     stmt fk db (db\<lparr>t_shared := filter (\<lambda>s. sh_id s \<noteq> sid) (t_shared db)\<rparr>)"

section \<open>Merging device identities\<close>

text \<open>The map from old to canonical ids that \<open>reconcile_devices_by_cert\<close> builds from the
  rows; \<open>canon\<close> is the cert-derived id. The hash map is iterated in the order of the
  list.\<close>

definition remap_legacy :: "string option \<Rightarrow> string \<Rightarrow> (string \<times> string) list" where
  "remap_legacy legacy own = (case legacy of None \<Rightarrow> [] | Some l \<Rightarrow> [(l, own)])"

definition remap_certs :: "(bytes \<Rightarrow> string) \<Rightarrow> device_row list \<Rightarrow> (string \<times> string) list \<Rightarrow> (string \<times> string) list" where
  "remap_certs canon rows m =
     fold (\<lambda>d m. case d_cert d of
         None \<Rightarrow> m
       | Some c \<Rightarrow> if canon c \<noteq> d_id d then hm_insert (d_id d) (canon c) m else m) rows m"

definition remap_own :: "(bytes \<Rightarrow> string) \<Rightarrow> string \<Rightarrow> device_row list \<Rightarrow> (string \<times> string) list \<Rightarrow> (string \<times> string) list" where
  "remap_own canon own rows m =
     fold (\<lambda>d m. case d_cert d of
         None \<Rightarrow> m
       | Some c \<Rightarrow> if canon c = own \<and> d_id d \<noteq> own then hm_insert (d_id d) own m else m) rows m"

definition certs_of_name :: "device_row list \<Rightarrow> string \<Rightarrow> bytes list" where
  "certs_of_name rows name =
     List.map_filter (\<lambda>d. if d_name d = name then d_cert d else None) rows"

definition remap_stubs :: "(bytes \<Rightarrow> string) \<Rightarrow> string \<Rightarrow> device_row list \<Rightarrow> (string \<times> string) list \<Rightarrow> (string \<times> string) list" where
  "remap_stubs canon own rows m =
     fold (\<lambda>d m.
       if d_cert d \<noteq> None \<or> map_of m (d_id d) \<noteq> None then m
       else case certs_of_name rows (d_name d) of
           [c] \<Rightarrow> if canon c = own then m else hm_insert (d_id d) (canon c) m
         | _ \<Rightarrow> m) rows m"

definition device_remap ::
  "(bytes \<Rightarrow> string) \<Rightarrow> string \<Rightarrow> string option \<Rightarrow> device_row list \<Rightarrow> (string \<times> string) list" where
  "device_remap canon own legacy rows =
     remap_stubs canon own rows
       (remap_own canon own rows
         (hm_remove own (remap_certs canon rows (remap_legacy legacy own))))"

definition ren :: "string \<Rightarrow> string \<Rightarrow> string \<Rightarrow> string" where
  "ren old new x = (if x = old then new else x)"

text \<open>The five tables whose references are rewritten, in the source's order.\<close>

definition repoint :: "(string \<Rightarrow> string \<Rightarrow> db \<Rightarrow> db) list" where
  "repoint =
     [\<lambda>old new db. db\<lparr>t_pairs := map (\<lambda>p. p\<lparr>fd_device_id := ren old new (fd_device_id p)\<rparr>) (t_pairs db)\<rparr>,
      \<lambda>old new db. db\<lparr>t_folders := map (\<lambda>f. f\<lparr>sf_device_id := ren old new (sf_device_id f)\<rparr>) (t_folders db)\<rparr>,
      \<lambda>old new db. db\<lparr>t_shared := map (\<lambda>s. s\<lparr>sh_device_id := ren old new (sh_device_id s)\<rparr>) (t_shared db)\<rparr>,
      \<lambda>old new db. db\<lparr>t_history := map (\<lambda>h. h\<lparr>h_device_id := ren old new (h_device_id h)\<rparr>) (t_history db)\<rparr>,
      \<lambda>old new db. db\<lparr>t_sessions := map (\<lambda>r. r\<lparr>ss_peer_device := ren old new (ss_peer_device r)\<rparr>) (t_sessions db)\<rparr>]"

fun run_stmts :: "bool \<Rightarrow> (db \<Rightarrow> db) list \<Rightarrow> db \<Rightarrow> unit dbres" where
  "run_stmts fk [] db = (db, Inr ())"
| "run_stmts fk (f # fs) db = db_bind (stmt fk db (f db)) (\<lambda>db1 _. run_stmts fk fs db1)"

definition reconcile_devices_by_cert ::
  "bool \<Rightarrow> i64 \<Rightarrow> (bytes \<Rightarrow> string) \<Rightarrow> bytes \<Rightarrow> string option \<Rightarrow> string \<Rightarrow> db \<Rightarrow> unit dbres" where
  "reconcile_devices_by_cert fk now canon cert legacy own_name db =
     (let own = canon cert;
          remap = device_remap canon own legacy (t_devices db)
      in db_bind (run_stmts fk [upd old new. upd \<leftarrow> repoint, (old, new) \<leftarrow> remap] db) (\<lambda>db1 _.
         db_bind (run_stmts fk [\<lambda>d. d\<lparr>t_devices := filter (\<lambda>r. d_id r \<noteq> old) (t_devices d)\<rparr>.
             (old, new) \<leftarrow> remap] db1) (\<lambda>db2 _.
           ensure_self_row fk now own cert own_name db2)))"

end
