(* ===== verification/Storage_Props.thy ===== *)
theory Storage_Props
  imports Storage
begin

text \<open>
  Properties of the metadata database: every reachable database satisfies its key and reference
  constraints, pairing a device and pinning its certificate, registering folders, the bound on the
  session log, and what removing a device leaves behind; and three defects, proved on the model:
  a folder with history cannot be removed while foreign keys are enforced, a removed folder's guid
  is minted again while its share is still published, and merging identities drops peers.
\<close>

section \<open>Invariant\<close>

definition seq_ok :: "db \<Rightarrow> bool" where
  "seq_ok db \<longleftrightarrow> 0 \<le> seq_folders db \<and>
     (\<forall>f \<in> set (t_folders db). 0 < sf_id f \<and> sf_id f \<le> seq_folders db) \<and>
     (\<forall>h \<in> set (t_history db). h_id h \<le> seq_history db) \<and>
     (\<forall>s \<in> set (t_sessions db). ss_id s \<le> seq_sessions db) \<and>
     (\<forall>s \<in> set (t_shared db). sh_id s \<le> seq_shared db)"

definition good :: "bool \<Rightarrow> db \<Rightarrow> bool" where
  "good fk db \<longleftrightarrow> unique_ok db \<and> seq_ok db \<and> (fk \<longrightarrow> fk_ok db)"

lemma good_empty: "good fk db_empty"
  by (simp add: good_def db_empty_def unique_ok_def seq_ok_def fk_ok_def)

lemma good_stmt: "good fk db \<Longrightarrow> seq_ok db' \<Longrightarrow> good fk (fst (stmt fk db db'))"
  by (auto simp: stmt_def good_def)

lemma good_bind:
  "good fk (fst r) \<Longrightarrow> (\<And>db x. r = (db, Inr x) \<Longrightarrow> good fk db \<Longrightarrow> good fk (fst (f db x))) \<Longrightarrow>
     good fk (fst (db_bind r f))"
  by (cases r) (auto simp: db_bind_def split: sum.splits)

lemma good_transaction: "good fk db \<Longrightarrow> good fk (fst r) \<Longrightarrow> good fk (fst (transaction db r))"
  by (cases r) (auto simp: transaction_def split: sum.splits)

lemma goodD: "good fk db \<Longrightarrow> seq_ok db"
  by (simp add: good_def)

lemma seq_ok_upsert_row: "seq_ok db \<Longrightarrow> seq_ok (upsert_row new upd db)"
  by (simp add: seq_ok_def upsert_row_def)

lemma seq_ok_upsert_pair: "seq_ok db \<Longrightarrow> seq_ok (upsert_pair fid did mode rp db)"
  by (simp add: seq_ok_def upsert_pair_def)

lemma seq_ok_insert_folder: "seq_ok db \<Longrightarrow> seq_ok (insert_folder lp n d dir g db)"
  by (auto simp: seq_ok_def insert_folder_def)

lemma seq_ok_update_folder:
  "seq_ok db \<Longrightarrow> (\<And>f. sf_id (upd f) = sf_id f) \<Longrightarrow> seq_ok (update_folder fid upd db)"
  by (auto simp: seq_ok_def update_folder_def)

lemma seq_ok_delete: "seq_ok db \<Longrightarrow> seq_ok (delete_folders fk P db)" "seq_ok db \<Longrightarrow> seq_ok (delete_pairs Q db)"
  by (auto simp: seq_ok_def delete_folders_def delete_pairs_def)

lemma seq_ok_raw [simp]:
  "seq_ok (db\<lparr>t_pairs := ps\<rparr>) = seq_ok db" "seq_ok (db\<lparr>t_devices := ds\<rparr>) = seq_ok db"
  "seq_ok (db\<lparr>t_meta := ms\<rparr>) = seq_ok db"
  by (simp_all add: seq_ok_def)

lemma seq_ok_shared: "seq_ok db \<Longrightarrow> (\<And>s. sh_id (g s) = sh_id s) \<Longrightarrow> seq_ok (db\<lparr>t_shared := map g (t_shared db)\<rparr>)"
  by (auto simp: seq_ok_def)

lemma seq_ok_filter:
  "seq_ok db \<Longrightarrow> seq_ok (db\<lparr>t_sessions := filter P (t_sessions db)\<rparr>)"
  "seq_ok db \<Longrightarrow> seq_ok (db\<lparr>t_history := filter Q (t_history db)\<rparr>)"
  by (auto simp: seq_ok_def)

lemmas seq_ok_intros = seq_ok_upsert_row seq_ok_upsert_pair seq_ok_insert_folder seq_ok_update_folder
  seq_ok_delete seq_ok_shared seq_ok_filter

text \<open>The operations that change the database, one rule each.\<close>

inductive db_step :: "bool \<Rightarrow> db \<Rightarrow> db \<Rightarrow> bool" for fk where
  "db_step fk db (initialize_schema fk mint db)"
| "db_step fk db (fst (upsert_device fk now did name cert addr db))"
| "db_step fk db (fst (ensure_self_row fk now did der name db))"
| "db_step fk db (fst (set_device_last_addr fk did a db))"
| "db_step fk db (fst (set_device_cert fk now did der db))"
| "db_step fk db (fst (add_sync_folder fk mint lp did dir db))"
| "db_step fk db (fst (add_folder_device fk fid did mode rp db))"
| "db_step fk db (fst (set_folder_name fk fid name db))"
| "db_step fk db (fst (set_folder_last_sync fk fid ts db))"
| "db_step fk db (fst (ensure_folder_by_guid fk guid lp name did db))"
| "db_step fk db (fst (wire_folder_pair fk guid lp name own peer rp db))"
| "db_step fk db (fst (set_folder_local_path fk fid lp db))"
| "db_step fk db (fst (set_folder_device fk fid did db))"
| "db_step fk db (fst (record_session fk now dir peer a lp n1 n2 n3 b1 b2 db))"
| "db_step fk db (fst (remove_sync_folders fk lp dev db))"
| "db_step fk db (fst (remove_sync_folder_by_id fk fid db))"
| "db_step fk db (fst (remove_folder_device fk fid did db))"
| "db_step fk db (fst (clear_all_sync_state fk db))"
| "db_step fk db (fst (remove_device fk did db))"
| "db_step fk db (fst (upsert_file_metadata fk fid p mt sz h did db))"
| "db_step fk db (fst (record_history fk now rec db))"
| "db_step fk db (fst (share_folder fk guid did name lp db))"
| "db_step fk db (fst (set_shared_discoverable fk sid b db))"
| "db_step fk db (fst (unshare_folder fk sid db))"
| "db_step fk db (fst (reconcile_devices_by_cert fk now canon der legacy name db))"

inductive db_reach :: "bool \<Rightarrow> db \<Rightarrow> bool" for fk where
  init: "db_reach fk db_empty"
| step: "db_reach fk db \<Longrightarrow> db_step fk db db' \<Longrightarrow> db_reach fk db'"

lemma good_remove_pairs_of: "good fk db \<Longrightarrow> good fk (fst (remove_pairs_of fk dev fids n db))"
proof (induction fids arbitrary: n db)
  case (Cons fid fids)
  show ?case
    unfolding remove_pairs_of.simps Let_def
    by (intro good_bind good_stmt Cons.prems seq_ok_delete goodD [OF Cons.prems])
      (auto intro!: good_stmt seq_ok_delete Cons.IH dest: goodD)
qed simp

lemma good_run_stmts:
  "(\<And>f db. f \<in> set fs \<Longrightarrow> seq_ok db \<Longrightarrow> seq_ok (f db)) \<Longrightarrow> good fk db \<Longrightarrow> good fk (fst (run_stmts fk fs db))"
proof (induction fk fs db rule: run_stmts.induct)
  case (2 fk f fs db)
  have "good fk (fst (stmt fk db (f db)))"
    using 2 by (intro good_stmt) (auto dest: goodD)
  then show ?case
    unfolding run_stmts.simps by (rule good_bind) (use 2 in auto)
qed simp

lemma seq_ok_initialize: "good fk db \<Longrightarrow> good fk (initialize_schema fk mint db)"
proof -
  assume g: "good fk db"
  have "good fk (fst (stmt fk db (backfill_pairs db)))"
    by (rule good_stmt [OF g]) (use goodD [OF g] in \<open>simp add: backfill_pairs_def seq_ok_def\<close>)
  moreover have "good fk (d\<lparr>t_folders := map g (t_folders d)\<rparr>)"
    if "good fk d" "\<And>f. sf_id (g f) = sf_id f \<and> sf_device_id (g f) = sf_device_id f" for d g
    using that by (auto simp: good_def unique_ok_def seq_ok_def fk_ok_def device_ids_def folder_ids_def
        comp_def image_image)
  ultimately show ?thesis
    unfolding initialize_schema_def Let_def by simp
qed

lemma good_reconcile:
  assumes "good fk db"
  shows "good fk (fst (reconcile_devices_by_cert fk now canon der legacy name db))"
  unfolding reconcile_devices_by_cert_def Let_def
proof (intro good_bind)
  show "good fk (fst (run_stmts fk [upd old new. upd \<leftarrow> repoint,
      (old, new) \<leftarrow> device_remap canon (canon der) legacy (t_devices db)] db))"
    by (rule good_run_stmts [OF _ assms]) (auto simp: repoint_def seq_ok_def)
next
  fix db1 :: db
  assume g: "good fk db1"
  show "good fk (fst (run_stmts fk [\<lambda>d. d\<lparr>t_devices := filter (\<lambda>r. d_id r \<noteq> old) (t_devices d)\<rparr>.
      (old, new) \<leftarrow> device_remap canon (canon der) legacy (t_devices db)] db1))"
    by (rule good_run_stmts [OF _ g]) (auto simp: seq_ok_def)
next
  fix db2 :: db
  assume "good fk db2"
  then show "good fk (fst (ensure_self_row fk now (canon der) der name db2))"
    unfolding ensure_self_row_def by (intro good_stmt seq_ok_upsert_row) (auto dest: goodD)
qed

lemmas good_intros = good_stmt good_bind good_transaction seq_ok_intros

lemma good_simple_ops:
  assumes "good fk db"
  shows "good fk (fst (upsert_device fk now did name cert addr db))"
    "good fk (fst (ensure_self_row fk now did der name db))"
    "good fk (fst (set_device_last_addr fk did a db))"
    "good fk (fst (set_device_cert fk now did der db))"
    "good fk (fst (add_folder_device fk fid did mode rp db))"
    "good fk (fst (set_folder_name fk fid name db))"
    "good fk (fst (set_folder_last_sync fk fid ts db))"
    "good fk (fst (set_folder_local_path fk fid lp db))"
    "good fk (fst (upsert_file_metadata fk fid p mt sz h did db))"
    "good fk (fst (record_history fk now rec db))"
    "good fk (fst (share_folder fk guid did name lp db))"
    "good fk (fst (set_shared_discoverable fk sid b db))"
    "good fk (fst (unshare_folder fk sid db))"
  unfolding upsert_device_def ensure_self_row_def set_device_last_addr_def set_device_cert_def
    add_folder_device_def set_folder_name_def set_folder_last_sync_def set_folder_local_path_def
    upsert_file_metadata_def record_history_def share_folder_def set_shared_discoverable_def
    unshare_folder_def
  by (rule good_stmt [OF assms], use goodD [OF assms] in
      \<open>auto simp: seq_ok_def upsert_row_def upsert_pair_def update_folder_def\<close>)+

lemma good_folder_ops:
  assumes "good fk db"
  shows "good fk (fst (add_sync_folder fk mint lp did dir db))"
    "good fk (fst (ensure_folder_by_guid fk guid lp name did db))"
    "good fk (fst (wire_folder_pair fk guid lp name own peer rp db))"
    "good fk (fst (set_folder_device fk fid did db))"
    "good fk (fst (record_session fk now dir pd a lp n1 n2 n3 b1 b2 db))"
proof -
  note g = assms goodD [OF assms]
  show "good fk (fst (add_sync_folder fk mint lp did dir db))"
    unfolding add_sync_folder_def Let_def
    by (intro good_transaction good_bind g)
      (use g in \<open>auto intro!: good_intros split: option.splits dest: goodD\<close>)
  show "good fk (fst (ensure_folder_by_guid fk guid lp name did db))"
    unfolding ensure_folder_by_guid_def
    using g by (auto intro!: good_intros split: option.splits dest: goodD)
  show "good fk (fst (wire_folder_pair fk guid lp name own peer rp db))"
    unfolding wire_folder_pair_def add_folder_device_def Let_def
    by (intro good_bind good_transaction g)
      (use g in \<open>auto intro!: good_intros split: option.splits dest: goodD\<close>)
  show "good fk (fst (set_folder_device fk fid did db))"
    unfolding set_folder_device_def Let_def
    by (intro good_transaction g)
      (use g in \<open>auto intro!: good_intros split: option.splits dest: goodD\<close>)
  have "good fk (fst (stmt fk db (db\<lparr>t_sessions := t_sessions db @ [r], seq_sessions := seq_sessions db + 1\<rparr>)))"
    if "ss_id r = seq_sessions db + 1" for r
    by (rule good_stmt [OF assms]) (use g(2) that in \<open>auto simp: seq_ok_def\<close>)
  then show "good fk (fst (record_session fk now dir pd a lp n1 n2 n3 b1 b2 db))"
    unfolding record_session_def keep_newest_def
    by (intro good_bind) (auto intro!: good_stmt seq_ok_filter dest: goodD)
qed

lemma good_removals:
  assumes "good fk db"
  shows "good fk (fst (remove_sync_folders fk lp dev db))"
    "good fk (fst (remove_sync_folder_by_id fk fid db))"
    "good fk (fst (remove_folder_device fk fid did db))"
    "good fk (fst (clear_all_sync_state fk db))"
    "good fk (fst (remove_device fk did db))"
proof -
  note g = assms goodD [OF assms]
  have nil: "seq_ok (d\<lparr>t_history := []\<rparr>)" "seq_ok (d\<lparr>t_folders := []\<rparr>)" if "seq_ok d" for d
    using that by (auto simp: seq_ok_def)
  show "good fk (fst (remove_sync_folders fk lp dev db))"
    unfolding remove_sync_folders_def by (intro good_transaction good_remove_pairs_of g)
  show "good fk (fst (remove_sync_folder_by_id fk fid db))"
    unfolding remove_sync_folder_by_id_def by (auto intro!: good_intros g dest: goodD)
  show "good fk (fst (remove_folder_device fk fid did db))"
    unfolding remove_folder_device_def Let_def by (auto intro!: good_intros g dest: goodD)
  show "good fk (fst (clear_all_sync_state fk db))"
    unfolding clear_all_sync_state_def by (auto intro!: good_intros g nil dest: goodD)
  show "good fk (fst (remove_device fk did db))"
    unfolding remove_device_def Let_def by (auto intro!: good_intros g dest: goodD)
qed

lemma good_db_step: "db_step fk db db' \<Longrightarrow> good fk db \<Longrightarrow> good fk db'"
  by (induction rule: db_step.induct)
    (simp_all only: good_simple_ops good_folder_ops good_removals seq_ok_initialize good_reconcile)

lemma good_reach: "db_reach fk db \<Longrightarrow> good fk db"
  by (induction rule: db_reach.induct) (auto intro: good_empty good_db_step)

section \<open>The certificate store interface\<close>

text \<open>What pinning certificates relies on: reading back what was stored, per device.\<close>

locale cert_store =
  fixes invar :: "'s \<Rightarrow> bool"
    and get :: "'s \<Rightarrow> string \<Rightarrow> bytes option"
    and put :: "'s \<Rightarrow> string \<Rightarrow> bytes \<Rightarrow> 's"
  assumes put_invar: "invar s \<Longrightarrow> invar (put s i c)"
    and get_put: "invar s \<Longrightarrow> get (put s i c) j = (if j = i then Some c else get s j)"
begin

lemma puts_invar: "invar s \<Longrightarrow> invar (fold (\<lambda>(i, c) s. put s i c) xs s)"
  by (induction xs arbitrary: s) (auto simp: put_invar)

lemma get_puts:
  "invar s \<Longrightarrow> get (fold (\<lambda>(i, c) s. put s i c) xs s) j =
     (case map_of (rev xs) j of Some c \<Rightarrow> Some c | None \<Rightarrow> get s j)"
  by (induction xs arbitrary: s) (auto simp: put_invar get_put map_add_def split: option.splits)

lemma put_commute: "invar s \<Longrightarrow> i \<noteq> j \<Longrightarrow> get (put (put s i c) j d) = get (put (put s j d) i c)"
  by (rule ext) (simp add: put_invar get_put)

end

section \<open>Facts about devices\<close>

lemma find_map_upd:
  "(\<And>x. k (upd x) = k x) \<Longrightarrow>
     find (\<lambda>x. k x = j) (map (\<lambda>x. if k x = i then upd x else x) xs) =
       (if j = i then map_option upd (find (\<lambda>x. k x = i) xs) else find (\<lambda>x. k x = j) xs)"
  by (induction xs) auto

lemma find_snoc: "find P (xs @ [x]) = (case find P xs of None \<Rightarrow> if P x then Some x else None | y \<Rightarrow> y)"
  by (induction xs) auto

lemma device_by_id_None: "device_by_id db did = None \<longleftrightarrow> did \<notin> device_ids db"
  by (auto simp: device_by_id_def device_ids_def find_None_iff)

lemma upsert_row_ok:
  assumes "good fk db" and "\<And>d. d_id (upd d) = d_id d"
  shows "stmt fk db (upsert_row new upd db) = (upsert_row new upd db, Inr ())"
proof -
  have ids: "map d_id (t_devices (upsert_row new upd db)) =
      map d_id (t_devices db) @ (if d_id new \<in> device_ids db then [] else [d_id new])"
    using assms(2) by (simp add: upsert_row_def)
  have sub: "device_ids db \<subseteq> device_ids (upsert_row new upd db)"
    using arg_cong [OF ids, of set] by (auto simp: device_ids_def)
  have rest: "t_folders (upsert_row new upd db) = t_folders db" "t_pairs (upsert_row new upd db) = t_pairs db"
    "t_meta (upsert_row new upd db) = t_meta db" "t_history (upsert_row new upd db) = t_history db"
    "t_sessions (upsert_row new upd db) = t_sessions db" "t_shared (upsert_row new upd db) = t_shared db"
    by (simp_all add: upsert_row_def)
  have "unique_ok (upsert_row new upd db)"
    using assms(1) by (auto simp: good_def unique_ok_def ids rest device_ids_def)
  moreover have "fk_ok (upsert_row new upd db)" if "fk_ok db"
    using that sub by (auto simp: fk_ok_def rest folder_ids_def)
  ultimately show ?thesis using assms(1) by (auto simp: stmt_def good_def)
qed

lemma device_by_id_upsert:
  assumes "\<And>d. d_id (upd d) = d_id d"
  shows "device_by_id (upsert_row new upd db) j =
    (if j = d_id new then Some (case device_by_id db j of Some d \<Rightarrow> upd d | None \<Rightarrow> new)
     else device_by_id db j)"
proof (cases "d_id new \<in> device_ids db")
  case True
  with device_by_id_None [of db "d_id new"] obtain d where "device_by_id db (d_id new) = Some d" by auto
  with True assms show ?thesis
    by (auto simp: upsert_row_def device_by_id_def find_map_upd [where k = d_id])
next
  case False
  with device_by_id_None [of db "d_id new"] have "device_by_id db (d_id new) = None" by simp
  with False show ?thesis
    by (auto simp: upsert_row_def device_by_id_def find_snoc split: option.splits)
qed

interpretation storage_certs: cert_store "good fk" get_device_cert
  "\<lambda>db i c. fst (set_device_cert fk now i c db)" for fk now
proof
  show "good fk (fst (set_device_cert fk now i c db))" if "good fk db" for db i c
    by (rule good_simple_ops(4) [OF that])
  show "get_device_cert (fst (set_device_cert fk now i c db)) j =
      (if j = i then Some c else get_device_cert db j)" if "good fk db" for db i c j
    unfolding set_device_cert_def
    by (subst upsert_row_ok [OF that])
      (auto simp: get_device_cert_def device_by_id_upsert split: option.splits)
qed

section \<open>Facts about folders and sessions\<close>

lemma folder_ids_insert: "folder_ids (insert_folder lp n d dir g db) = insert (seq_folders db + 1) (folder_ids db)"
  by (auto simp: folder_ids_def insert_folder_def)

lemma insert_folder_ok:
  assumes "good fk db" and "\<not> fk \<or> did \<in> device_ids db"
  shows "stmt fk db (insert_folder lp n did dir g db) = (insert_folder lp n did dir g db, Inr ())"
proof -
  have "seq_folders db + 1 \<notin> folder_ids db"
    using assms(1) by (fastforce simp: good_def seq_ok_def folder_ids_def)
  then have "unique_ok (insert_folder lp n did dir g db)"
    using assms(1) by (auto simp: good_def unique_ok_def insert_folder_def folder_ids_def)
  moreover have "fk_ok (insert_folder lp n did dir g db)" if fk
    using assms that folder_ids_insert [of lp n did dir g db]
    by (auto simp: good_def fk_ok_def device_ids_def insert_folder_def folder_ids_def)
  ultimately show ?thesis by (auto simp: stmt_def)
qed

lemma pair_keys_upsert:
  "map (\<lambda>p. (fd_folder_id p, fd_device_id p)) (t_pairs (upsert_pair fid did mode rp db)) =
     map (\<lambda>p. (fd_folder_id p, fd_device_id p)) (t_pairs db) @
       (if has_pair db fid did then [] else [(fid, did)])"
  by (simp add: upsert_pair_def)

lemma has_pair_iff:
  "has_pair db fid did \<longleftrightarrow> (fid, did) \<in> set (map (\<lambda>p. (fd_folder_id p, fd_device_id p)) (t_pairs db))"
  by (auto simp: has_pair_def)

lemma has_pair_upsert: "has_pair (upsert_pair fid did mode rp db) fid did"
  unfolding has_pair_iff pair_keys_upsert by (auto simp: has_pair_def)

lemma upsert_pair_row:
  assumes "p \<in> set (t_pairs (upsert_pair fid did mode rp db))" "fd_folder_id p = fid" "fd_device_id p = did"
  shows "fd_mode p = mode \<and> fd_enabled p"
proof (cases "has_pair db fid did")
  case True
  define f where "f = (\<lambda>q :: pair_row. if fd_folder_id q = fid \<and> fd_device_id q = did
    then q\<lparr>fd_mode := mode, fd_remote_path := coalesce rp (fd_remote_path q), fd_enabled := True\<rparr> else q)"
  have "p \<in> f ` set (t_pairs db)" using assms(1) True by (simp add: upsert_pair_def f_def)
  then obtain q where p: "p = f q" by blast
  show ?thesis
  proof (cases "fd_folder_id q = fid \<and> fd_device_id q = did")
    case True
    then show ?thesis by (simp add: p f_def)
  next
    case False
    then have "p = q" unfolding p f_def by (rule if_not_P)
    with False assms(2,3) show ?thesis by simp
  qed
next
  case False
  then have "p \<in> set (t_pairs db) \<or> fd_mode p = mode \<and> fd_enabled p"
    using assms(1) by (auto simp: upsert_pair_def)
  with False assms(2,3) show ?thesis by (auto simp: has_pair_def)
qed

lemma upsert_pair_ok:
  assumes "good fk db" and "\<not> fk \<or> did \<in> device_ids db \<and> fid \<in> folder_ids db"
  shows "stmt fk db (upsert_pair fid did mode rp db) = (upsert_pair fid did mode rp db, Inr ())"
proof -
  have rest: "t_folders (upsert_pair fid did mode rp db) = t_folders db"
    "t_devices (upsert_pair fid did mode rp db) = t_devices db"
    "t_meta (upsert_pair fid did mode rp db) = t_meta db" "t_history (upsert_pair fid did mode rp db) = t_history db"
    "t_sessions (upsert_pair fid did mode rp db) = t_sessions db" "t_shared (upsert_pair fid did mode rp db) = t_shared db"
    by (simp_all add: upsert_pair_def)
  have "unique_ok (upsert_pair fid did mode rp db)"
    using assms(1) by (auto simp: good_def unique_ok_def rest pair_keys_upsert has_pair_def image_iff)
  moreover have "fk_ok (upsert_pair fid did mode rp db)" if "fk"
    using assms that by (auto simp: good_def fk_ok_def rest folder_ids_def device_ids_def upsert_pair_def)
  ultimately show ?thesis by (auto simp: stmt_def)
qed

lemma upsert_pair_idem: "upsert_pair fid did mode None (upsert_pair fid did mode None db) = upsert_pair fid did mode None db"
proof -
  define d where "d = upsert_pair fid did mode None db"
  have "map (\<lambda>p. if fd_folder_id p = fid \<and> fd_device_id p = did
      then p\<lparr>fd_mode := mode, fd_remote_path := coalesce None (fd_remote_path p), fd_enabled := True\<rparr> else p)
      (t_pairs d) = t_pairs d"
    by (rule map_idI) (use upsert_pair_row [of _ fid did mode None db] in \<open>auto simp: coalesce_def simp flip: d_def\<close>)
  moreover have "has_pair d fid did" unfolding d_def by (rule has_pair_upsert)
  ultimately have "upsert_pair fid did mode None d = d" by (simp add: upsert_pair_def [of _ _ _ _ d])
  then show ?thesis by (simp add: d_def)
qed

lemma unique_insert_folder: "good fk db \<Longrightarrow> unique_ok (insert_folder lp n did dir g db)"
  using insert_folder_ok [of False db did lp n dir g] by (simp add: good_def stmt_def split: if_splits)

lemma unique_upsert_pair: "good fk db \<Longrightarrow> unique_ok (upsert_pair fid did mode rp db)"
  using upsert_pair_ok [of False db did fid mode rp] by (simp add: good_def stmt_def split: if_splits)

text \<open>Registering a path that has a folder already.\<close>

lemma add_known_folder:
  assumes "good fk db" and "folder_by_path db lp = Some f" and "\<not> fk \<or> did \<in> device_ids db"
  shows "add_sync_folder fk mint lp did dir db = (upsert_pair (sf_id f) did dir None db, Inr (sf_id f))"
proof -
  have "sf_id f \<in> folder_ids db"
    using assms(2) by (auto simp: folder_by_path_def folder_ids_def dest: find_SomeD)
  then show ?thesis
    using assms upsert_pair_ok [OF assms(1), of did "sf_id f" dir None]
    by (simp add: add_sync_folder_def db_bind_def transaction_def)
qed

lemma add_new_folder:
  assumes "good fk db" and "folder_by_path db lp = None" and "\<not> fk \<or> did \<in> device_ids db"
    and "db1 = insert_folder lp (path_label lp) did dir (mint (max_folder_id db + 1)) db"
  shows "add_sync_folder fk mint lp did dir db = add_sync_folder fk mint lp did dir db1 \<and> good fk db1 \<and>
    (\<exists>f. folder_by_path db1 lp = Some f) \<and> device_ids db1 = device_ids db"
proof -
  have ins: "stmt fk db db1 = (db1, Inr ())"
    unfolding assms(4) by (rule insert_folder_ok [OF assms(1,3)])
  have g1: "good fk db1" using good_stmt [OF assms(1), of db1] ins assms(1,4) seq_ok_insert_folder
    by (auto simp: good_def)
  obtain f where f: "folder_by_path db1 lp = Some f" "sf_id f = seq_folders db1"
    using assms(2) by (simp add: assms(4) insert_folder_def folder_by_path_def find_snoc)
  have dev: "device_ids db1 = device_ids db" by (simp add: assms(4) insert_folder_def device_ids_def)
  have "sf_id f \<in> folder_ids db1"
    using f(1) by (auto simp: folder_by_path_def folder_ids_def dest: find_SomeD)
  with upsert_pair_ok [OF g1, of did "sf_id f" dir None] assms(3) dev
  have "stmt fk db1 (upsert_pair (seq_folders db1) did dir None db1) =
      (upsert_pair (seq_folders db1) did dir None db1, Inr ())" by (simp add: f(2))
  then have "add_sync_folder fk mint lp did dir db =
      (upsert_pair (sf_id f) did dir None db1, Inr (sf_id f))"
    using assms(2) ins
    by (simp add: add_sync_folder_def db_bind_def transaction_def Let_def f(2) flip: assms(4))
  with add_known_folder [OF g1 f(1)] assms(3) g1 f dev show ?thesis by auto
qed

lemma add_unknown_device:
  assumes "good True db" and "did \<notin> device_ids db"
  shows "add_sync_folder True mint lp did dir db = (db, Inl FkViolation)"
proof (cases "folder_by_path db lp")
  case None
  have "\<not> fk_ok (insert_folder lp n did dir g db)" for n g
    using assms(2) by (simp add: fk_ok_def insert_folder_def device_ids_def)
  with None unique_insert_folder [OF assms(1)] show ?thesis
    by (simp add: add_sync_folder_def transaction_def db_bind_def Let_def stmt_def)
next
  case (Some f)
  have "\<not> has_pair db (sf_id f) did"
    using assms by (auto simp: good_def fk_ok_def has_pair_def)
  then have "\<not> fk_ok (upsert_pair (sf_id f) did dir None db)"
    using assms(2) by (simp add: fk_ok_def upsert_pair_def device_ids_def)
  with Some unique_upsert_pair [OF assms(1)] show ?thesis
    by (simp add: add_sync_folder_def transaction_def db_bind_def stmt_def)
qed

lemma sort_snoc_max:
  fixes x :: "'a::linorder"
  assumes "\<forall>y \<in> set ys. y \<le> x" and "xs = ys @ [x]"
  shows "sort xs = sort ys @ [x]"
proof (rule properties_for_sort)
  show "mset (sort ys @ [x]) = mset xs" using assms(2) by simp
  show "sorted (sort ys @ [x])" using assms(1) by (simp add: sorted_append)
qed

lemma fk_ok_sessions [simp]: "fk_ok (db\<lparr>t_sessions := x\<rparr>) = fk_ok db" "fk_ok (db\<lparr>seq_sessions := n\<rparr>) = fk_ok db"
  by (simp_all add: fk_ok_def device_ids_def folder_ids_def)

lemma unique_ok_sessions:
  "unique_ok db \<Longrightarrow> distinct (map ss_id x) \<Longrightarrow> unique_ok (db\<lparr>t_sessions := x\<rparr>)"
  "unique_ok db \<Longrightarrow> unique_ok (db\<lparr>seq_sessions := n\<rparr>)"
  by (simp_all add: unique_ok_def)

lemma length_keep_newest:
  assumes "distinct (map ss_id rows)"
  shows "length (keep_newest n rows) \<le> n"
proof -
  let ?ids = "take n (rev (sort (map ss_id rows)))"
  have "distinct (map ss_id (keep_newest n rows))"
    using assms by (simp add: keep_newest_def distinct_map_filter)
  then have "length (keep_newest n rows) = card (set (map ss_id (keep_newest n rows)))"
    by (metis distinct_card length_map)
  also have "\<dots> \<le> card (set ?ids)"
    by (rule card_mono) (auto simp: keep_newest_def)
  also have "\<dots> \<le> length ?ids" by (rule card_length)
  finally show ?thesis by simp
qed

section \<open>Removing a device\<close>

lemma remove_device_rollback:
  "r = Inl e \<Longrightarrow> remove_device fk dev db = (db', r) \<Longrightarrow> db' = db"
  by (auto simp: remove_device_def Let_def transaction_def split: prod.splits sum.splits)

lemma bind_stmt_unique: "unique_ok db' \<Longrightarrow> db_bind (stmt False db db') f = f db' ()"
  by (simp add: stmt_def db_bind_def)

lemma remove_device_total: "unique_ok db \<Longrightarrow> \<exists>db' c. remove_device False dev db = (db', Inr c)"
  by (simp add: remove_device_def Let_def bind_stmt_unique unique_ok_def delete_pairs_def delete_folders_def
    distinct_map_filter transaction_def)

lemma stmt_ok: "stmt fk db db' = (db1, Inr u) \<Longrightarrow> db1 = db'"
  by (auto simp: stmt_def split: if_splits)

lemma db_bind_ok: "db_bind r f = (db', Inr y) \<longleftrightarrow> (\<exists>db1 x. r = (db1, Inr x) \<and> f db1 x = (db', Inr y))"
  by (cases r) (auto simp: db_bind_def split: sum.splits)

lemma transaction_ok: "transaction db r = (db', Inr y) \<longleftrightarrow> r = (db', Inr y)"
  by (auto simp: transaction_def split: prod.splits sum.splits)

lemma folders_after_cascade:
  "t_pairs (delete_folders fk (\<lambda>f. \<not> pairs_left db (sf_id f)) db) = t_pairs db"
  by (auto simp: delete_folders_def pairs_left_def filter_id_conv)

lemma remove_device_result:
  assumes "remove_device fk dev db = (db', Inr c)"
  shows "t_devices db' = filter (\<lambda>d. d_id d \<noteq> dev) (t_devices db) \<and>
        t_sessions db' = filter (\<lambda>r. ss_peer_device r \<noteq> dev) (t_sessions db) \<and>
        set (t_pairs db') = {p \<in> set (t_pairs db). fd_device_id p \<noteq> dev} \<and>
        set (t_folders db') = {f \<in> set (t_folders db). \<exists>p \<in> set (t_pairs db'). fd_folder_id p = sf_id f} \<and>
        set (t_history db') = {h \<in> set (t_history db). h_device_id h \<noteq> dev \<and> \<not> has_pair db (h_folder_id h) dev} \<and>
        folders_removed c + length (t_folders db') = length (t_folders db)"
proof -
  define db4 where "db4 = delete_pairs (\<lambda>p. fd_device_id p = dev)
    (db\<lparr>t_sessions := filter (\<lambda>r. ss_peer_device r \<noteq> dev) (t_sessions db),
        t_history := filter (\<lambda>h. \<not> (h_device_id h = dev \<or> paired_with db dev (h_folder_id h))) (t_history db),
        t_meta := filter (\<lambda>m. \<not> paired_with db dev (m_folder_id m)) (t_meta db)\<rparr>)"
  define db5 where "db5 = delete_folders fk (\<lambda>f. \<not> pairs_left db4 (sf_id f)) db4"
  have db': "db' = db5\<lparr>t_devices := filter (\<lambda>d. d_id d \<noteq> dev) (t_devices db5)\<rparr> \<and>
      folders_removed c = length (t_folders db) - length (t_folders db5)"
    using assms by (auto simp: remove_device_def Let_def transaction_ok db_bind_ok db5_def db4_def dest!: stmt_ok)
  have pairs: "t_pairs db5 = t_pairs db4" unfolding db5_def by (rule folders_after_cascade)
  have "length (t_folders db5) \<le> length (t_folders db)"
    by (simp add: db5_def delete_folders_def db4_def delete_pairs_def)
  moreover have "set (t_folders db5) = {f \<in> set (t_folders db). \<exists>p \<in> set (t_pairs db4). fd_folder_id p = sf_id f}"
    by (auto simp: db5_def delete_folders_def db4_def delete_pairs_def pairs_left_def)
  moreover have "t_devices db5 = t_devices db" "t_sessions db5 = t_sessions db4" "t_history db5 = t_history db4"
    by (simp_all add: db5_def delete_folders_def db4_def delete_pairs_def)
  ultimately show ?thesis using db' pairs
    by (auto simp: db4_def delete_pairs_def paired_with_def)
qed

section \<open>Properties\<close>



text \<open>Recording a device never unpins it: upserting a known device without a certificate or
  address keeps the stored ones, upserting with a certificate replaces it, the name is always the
  new one, and no other device is touched.\<close>

theorem upsert_device_keeps_pin:
  assumes "db_reach fk db"
  shows "\<exists>db'. upsert_device fk now did name cert addr db = (db', Inr ()) \<and>
    get_device_name db' did = Some name \<and>
    get_device_cert db' did = coalesce cert (get_device_cert db did) \<and>
    device_last_addr db' did = coalesce addr (device_last_addr db did) \<and>
    (\<forall>j. j \<noteq> did \<longrightarrow> device_by_id db' j = device_by_id db j)"
  unfolding upsert_device_def
  by (subst upsert_row_ok [OF good_reach [OF assms]])
    (auto simp: get_device_name_def get_device_cert_def device_last_addr_def device_by_id_upsert
      coalesce_def split: option.splits)

theorem upsert_device_keeps_pin_witness:
  "\<exists>db'. upsert_device True 5 ''phone'' ''Phone'' (Some [1]) None db_empty = (db', Inr ()) \<and>
     get_device_cert db' ''phone'' = Some [1]"
  using upsert_device_keeps_pin [OF db_reach.init, of True 5 "''phone''" "''Phone''" "Some [1]" None]
  by (auto simp: coalesce_def)

text \<open>The certificate of a device after any sequence of pins is the last one pinned for it, or
  the one it had before; pinning one device never affects another.\<close>

theorem last_pin_wins:
  assumes "db_reach fk db"
  shows "get_device_cert (fold (\<lambda>(i, c) s. fst (set_device_cert fk now i c s)) pins db) did =
    (case map_of (rev pins) did of Some c \<Rightarrow> Some c | None \<Rightarrow> get_device_cert db did)"
  by (rule storage_certs.get_puts [OF good_reach [OF assms]])

theorem last_pin_wins_witness:
  "get_device_cert (fold (\<lambda>(i, c) s. fst (set_device_cert True 5 i c s))
     [(''a'', [1]), (''b'', [2]), (''a'', [3])] db_empty) ''a'' = Some [3]"
  using last_pin_wins [OF db_reach.init, of True 5 "[(''a'', [1]), (''b'', [2]), (''a'', [3])]" "''a''"]
  by simp

text \<open>Registering a folder for a device succeeds exactly when foreign keys are off or the
  device is known, and then is idempotent: it yields a folder with that path and an enabled pair
  with the requested mode, and repeating the call returns the same id and changes nothing.
  Otherwise nothing is stored.\<close>

theorem add_sync_folder_idempotent:
  assumes "db_reach fk db"
  shows "if fk \<and> did \<notin> device_ids db
    then add_sync_folder fk mint lp did dir db = (db, Inl FkViolation)
    else \<exists>db' fid. add_sync_folder fk mint lp did dir db = (db', Inr fid) \<and>
      map_option sf_id (folder_by_path db' lp) = Some fid \<and>
      (\<exists>p \<in> set (t_pairs db'). fd_folder_id p = fid \<and> fd_device_id p = did \<and> fd_mode p = dir \<and> fd_enabled p) \<and>
      add_sync_folder fk mint lp did dir db' = (db', Inr fid)"
proof -
  have g: "good fk db" by (rule good_reach [OF assms])
  have pair: "\<exists>p \<in> set (t_pairs (upsert_pair fid did dir None d)). fd_folder_id p = fid \<and>
      fd_device_id p = did \<and> fd_mode p = dir \<and> fd_enabled p" for fid d
    using has_pair_upsert [of fid did dir None d] upsert_pair_row [of _ fid did dir None d]
    by (auto simp: has_pair_def)
  have path: "folder_by_path (upsert_pair fid did dir None d) lp = folder_by_path d lp" for fid d
    by (simp add: folder_by_path_def upsert_pair_def)
  have known: "\<exists>db' fid. add_sync_folder fk mint lp did dir d = (db', Inr fid) \<and>
      map_option sf_id (folder_by_path db' lp) = Some fid \<and>
      (\<exists>p \<in> set (t_pairs db'). fd_folder_id p = fid \<and> fd_device_id p = did \<and> fd_mode p = dir \<and> fd_enabled p) \<and>
      add_sync_folder fk mint lp did dir db' = (db', Inr fid)"
    if d: "good fk d" "folder_by_path d lp = Some f" "\<not> fk \<or> did \<in> device_ids d" for d f
  proof -
    let ?d' = "upsert_pair (sf_id f) did dir None d"
    have run: "add_sync_folder fk mint lp did dir d = (?d', Inr (sf_id f))"
      by (rule add_known_folder [OF d])
    have "good fk ?d'" using good_folder_ops(1) [OF d(1), of mint lp did dir] run by simp
    moreover have "device_ids ?d' = device_ids d" by (simp add: upsert_pair_def device_ids_def)
    ultimately have "add_sync_folder fk mint lp did dir ?d' = (?d', Inr (sf_id f))"
      using add_known_folder [of fk ?d' lp f did mint dir] d by (simp add: path upsert_pair_idem)
    with run pair [of "sf_id f" d] d(2) show ?thesis by (intro exI conjI) (auto simp: path)
  qed
  show ?thesis
  proof (cases "fk \<and> did \<notin> device_ids db")
    case True
    then show ?thesis using add_unknown_device [of db did] g by auto
  next
    case False
    then have ok: "\<not> fk \<or> did \<in> device_ids db" by blast
    show ?thesis
    proof (cases "folder_by_path db lp")
      case None
      from add_new_folder [OF g None ok refl, of mint dir] known False show ?thesis by metis
    next
      case (Some f)
      from known [OF g Some ok] False show ?thesis by metis
    qed
  qed
qed

theorem add_sync_folder_idempotent_witness:
  "add_sync_folder True (\<lambda>n. ''g'') ''/home/docs'' ''phone'' ''push'' db_empty = (db_empty, Inl FkViolation)"
  using add_sync_folder_idempotent [OF db_reach.init, of True "''phone''" "\<lambda>n. ''g''" "''/home/docs''" "''push''"]
  by (simp add: device_ids_def db_empty_def)

text \<open>The session log is bounded: after recording a session it holds at most 100 rows, and the
  session just recorded is among them.\<close>

theorem session_log_bounded:
  assumes "db_reach fk db"
  shows "\<exists>db'. record_session fk now dir peer a lp n1 n2 n3 b1 b2 db = (db', Inr ()) \<and>
    length (t_sessions db') \<le> MAX_SESSION_HISTORY \<and>
    (\<exists>r \<in> set (t_sessions db'). ss_id r = seq_sessions db + 1 \<and> ss_peer_device r = peer \<and> ss_pushed_count r = n1)"
proof -
  have g: "good fk db" by (rule good_reach [OF assms])
  define r where "r = \<lparr>ss_id = seq_sessions db + 1, ss_ts = now, ss_direction = dir, ss_peer_device = peer,
    ss_addr = a, ss_folder_path = lp, ss_pushed_count = n1, ss_pulled_count = n2,
    ss_conflicts_count = n3, ss_pushed_bytes = b1, ss_pulled_bytes = b2\<rparr>"
  define db1 where "db1 = db\<lparr>t_sessions := t_sessions db @ [r], seq_sessions := seq_sessions db + 1\<rparr>"
  have fresh: "\<forall>x \<in> set (t_sessions db). ss_id x < seq_sessions db + 1"
    using g by (auto simp: good_def seq_ok_def)
  have u1: "unique_ok db1"
    unfolding db1_def
    by (intro unique_ok_sessions) (use g fresh in \<open>auto simp: r_def good_def unique_ok_def\<close>)
  have f1: "fk_ok db1" if fk using g that by (simp add: db1_def good_def)
  have s1: "stmt fk db db1 = (db1, Inr ())" using u1 f1 by (auto simp: stmt_def)
  define db2 where "db2 = db1\<lparr>t_sessions := keep_newest MAX_SESSION_HISTORY (t_sessions db1)\<rparr>"
  have "unique_ok db2"
    unfolding db2_def
    by (intro unique_ok_sessions u1) (use u1 in \<open>simp add: keep_newest_def distinct_map_filter unique_ok_def\<close>)
  then have s2: "stmt fk db1 db2 = (db2, Inr ())"
    using f1 by (auto simp: stmt_def db2_def)
  have ids: "distinct (map ss_id (t_sessions db1))" using u1 by (simp add: unique_ok_def)
  have "sort (map ss_id (t_sessions db1)) = sort (map ss_id (t_sessions db)) @ [seq_sessions db + 1]"
    using fresh by (intro sort_snoc_max) (auto simp: db1_def r_def)
  then have "seq_sessions db + 1 \<in> set (take MAX_SESSION_HISTORY (rev (sort (map ss_id (t_sessions db1)))))"
    by (simp add: MAX_SESSION_HISTORY_def)
  then have "r \<in> set (t_sessions db2)"
    by (simp add: db2_def keep_newest_def db1_def r_def)
  moreover have "length (t_sessions db2) \<le> MAX_SESSION_HISTORY"
    using length_keep_newest [OF ids] by (simp add: db2_def)
  moreover have "record_session fk now dir peer a lp n1 n2 n3 b1 b2 db = (db2, Inr ())"
    using s1 s2 by (simp add: record_session_def db_bind_def flip: r_def db1_def db2_def)
  moreover have "ss_id r = seq_sessions db + 1 \<and> ss_peer_device r = peer \<and> ss_pushed_count r = n1"
    by (simp add: r_def)
  ultimately show ?thesis by blast
qed

theorem session_log_bounded_witness:
  "\<exists>db'. record_session True 5 ''outgoing'' ''p'' ''a'' ''/f'' 1 2 0 10 20 db_empty = (db', Inr ()) \<and>
     length (t_sessions db') \<le> MAX_SESSION_HISTORY"
  using session_log_bounded [OF db_reach.init, of True 5 "''outgoing''" "''p''" "''a''" "''/f''" 1 2 0 10 20]
  by blast

text \<open>Removing a device either fails as a whole, leaving the database as it was, which happens
  only while foreign keys are enforced; or it leaves no row of the device in the device, pair,
  session and history tables, keeps every pair of the other devices, and keeps exactly the folders
  that still have a pair.\<close>

theorem remove_device_all_or_nothing:
  assumes "db_reach fk db"
  shows "case remove_device fk dev db of
      (db', Inl e) \<Rightarrow> fk \<and> db' = db
    | (db', Inr c) \<Rightarrow>
        t_devices db' = filter (\<lambda>d. d_id d \<noteq> dev) (t_devices db) \<and>
        t_sessions db' = filter (\<lambda>r. ss_peer_device r \<noteq> dev) (t_sessions db) \<and>
        set (t_pairs db') = {p \<in> set (t_pairs db). fd_device_id p \<noteq> dev} \<and>
        set (t_folders db') = {f \<in> set (t_folders db). \<exists>p \<in> set (t_pairs db'). fd_folder_id p = sf_id f} \<and>
        set (t_history db') = {h \<in> set (t_history db). h_device_id h \<noteq> dev \<and> \<not> has_pair db (h_folder_id h) dev} \<and>
        folders_removed c + length (t_folders db') = length (t_folders db)"
proof -
  have g: "good fk db" by (rule good_reach [OF assms])
  then have u: "unique_ok db" by (simp add: good_def)
  show ?thesis
  proof (cases "remove_device fk dev db")
    case (Pair db' r)
    show ?thesis
    proof (cases r)
      case (Inl e)
      then have "db' = db" using Pair by (rule remove_device_rollback)
      moreover have fk
      proof (rule ccontr)
        assume "\<not> fk"
        then have "\<exists>db' c. remove_device fk dev db = (db', Inr c)" using remove_device_total [OF u] by simp
        with Pair Inl show False by simp
      qed
      ultimately show ?thesis using Pair Inl by simp
    next
      case (Inr c)
      with Pair remove_device_result [of fk dev db db' c] show ?thesis by simp
    qed
  qed
qed

theorem remove_device_all_or_nothing_witness:
  "case remove_device True ''x'' db_empty of
      (db', Inl e) \<Rightarrow> db' = db_empty
    | (db', Inr c) \<Rightarrow> t_devices db' = [] \<and> folders_removed c = 0"
  using remove_device_all_or_nothing [OF db_reach.init, of True "''x''"]
  by (auto simp: db_empty_def split: prod.splits sum.splits)

text \<open>With foreign keys enforced a device is not removable while a folder it registered is
  paired with another device: the folder header keeps naming it. Here the first of two devices
  paired with a folder is removed, and the removal fails.\<close>

theorem shared_folder_blocks_removal:
  "let db1 = fst (upsert_device True 1 ''laptop'' ''laptop'' None None db_empty);
       db2 = fst (upsert_device True 2 ''phone'' ''phone'' None None db1);
       db3 = fst (add_sync_folder True (\<lambda>n. ''g'') ''/docs'' ''laptop'' ''both'' db2);
       db4 = fst (add_sync_folder True (\<lambda>n. ''g'') ''/docs'' ''phone'' ''both'' db3)
   in length (t_pairs db4) = 2 \<and>
      remove_device True ''laptop'' db4 = (db4, Inl FkViolation) \<and>
      (case snd (remove_device False ''laptop'' db4) of Inr c \<Rightarrow> device_removed c = 1 | Inl e \<Rightarrow> False)"
  by code_simp

text \<open>Removing a folder by id is not one transaction: with foreign keys enforced and a history
  row of the folder present, its pairs are deleted, the folder header stays, and the call fails.\<close>

theorem remove_folder_partial:
  assumes "db_reach True db" and "f \<in> set (t_folders db)"
    and "\<exists>h \<in> set (t_history db). h_folder_id h = sf_id f"
  shows "remove_sync_folder_by_id True (sf_id f) db =
    (delete_pairs (\<lambda>p. fd_folder_id p = sf_id f) db, Inl FkViolation)"
proof -
  have g: "good True db" by (rule good_reach [OF assms(1)])
  let ?db1 = "delete_pairs (\<lambda>p. fd_folder_id p = sf_id f) db"
  let ?db2 = "delete_folders True (\<lambda>f'. sf_id f' = sf_id f) ?db1"
  have "unique_ok ?db1" "fk_ok ?db1"
    using g by (auto simp: good_def unique_ok_def fk_ok_def delete_pairs_def folder_ids_def device_ids_def distinct_map_filter)
  then have s1: "stmt True db ?db1 = (?db1, Inr ())" by (simp add: stmt_def)
  have "unique_ok ?db2"
    using \<open>unique_ok ?db1\<close> by (simp add: unique_ok_def delete_folders_def distinct_map_filter)
  moreover obtain h where h: "h \<in> set (t_history db)" "h_folder_id h = sf_id f" using assms(3) by blast
  then have "\<not> fk_ok ?db2"
    by (auto simp: fk_ok_def delete_folders_def delete_pairs_def folder_ids_def intro!: bexI [of _ h])
  ultimately have "stmt True ?db1 ?db2 = (?db1, Inl FkViolation)" by (simp add: stmt_def)
  with s1 show ?thesis by (simp add: remove_sync_folder_by_id_def db_bind_def)
qed

theorem remove_folder_partial_witness:
  "let rec = \<lparr>hr_folder_id = 1, hr_path = ''a'', hr_device_id = ''p'', hr_action = ''pushed'', hr_version = 1,
         hr_mtime = 0, hr_hash = [], hr_size = 0\<rparr>;
       db1 = fst (upsert_device True 1 ''p'' ''p'' None None db_empty);
       db2 = fst (add_sync_folder True (\<lambda>n. ''g'') ''/d'' ''p'' ''both'' db1);
       db3 = fst (record_history True 5 rec db2)
   in remove_sync_folder_by_id True 1 db3 = (delete_pairs (\<lambda>p. fd_folder_id p = 1) db3, Inl FkViolation)"
proof -
  define rec where "rec = \<lparr>hr_folder_id = 1, hr_path = ''a'', hr_device_id = ''p'', hr_action = ''pushed'',
    hr_version = 1, hr_mtime = 0, hr_hash = [], hr_size = 0\<rparr>"
  define db1 where "db1 = fst (upsert_device True 1 ''p'' ''p'' None None db_empty)"
  define db2 where "db2 = fst (add_sync_folder True (\<lambda>n. ''g'') ''/d'' ''p'' ''both'' db1)"
  define db3 where "db3 = fst (record_history True 5 rec db2)"
  have "db_reach True db3"
    unfolding db3_def db2_def db1_def
    by (rule db_reach.step [OF db_reach.step [OF db_reach.step [OF db_reach.init]]]; rule db_step.intros)
  moreover have "let rec = \<lparr>hr_folder_id = 1, hr_path = ''a'', hr_device_id = ''p'', hr_action = ''pushed'',
         hr_version = 1, hr_mtime = 0, hr_hash = [], hr_size = 0\<rparr>;
       db1 = fst (upsert_device True 1 ''p'' ''p'' None None db_empty);
       db2 = fst (add_sync_folder True (\<lambda>n. ''g'') ''/d'' ''p'' ''both'' db1);
       db3 = fst (record_history True 5 rec db2)
    in map sf_id (t_folders db3) = [1] \<and> map h_folder_id (t_history db3) = [1]"
    by code_simp
  then have "map sf_id (t_folders db3) = [1] \<and> map h_folder_id (t_history db3) = [1]"
    unfolding Let_def db3_def db2_def db1_def rec_def .
  then obtain f h where "t_folders db3 = [f]" "sf_id f = 1" "t_history db3 = [h]" "h_folder_id h = 1"
    by (auto simp: map_eq_Cons_conv)
  ultimately have "remove_sync_folder_by_id True 1 db3 = (delete_pairs (\<lambda>p. fd_folder_id p = 1) db3, Inl FkViolation)"
    using remove_folder_partial [of db3 f] by simp
  then show ?thesis unfolding Let_def db3_def db2_def db1_def rec_def .
qed

text \<open>The guid of a removed folder is minted again: it is derived from the largest id left plus
  one, while its share stays published. Here the share of the removed folder \<open>/b\<close> ends up naming
  the guid of the new folder \<open>/c\<close>, for every guid function.\<close>

theorem removed_guid_reused:
  "let db1 = fst (upsert_device True 1 ''me'' ''me'' None None db_empty);
       db2 = fst (add_sync_folder True mint ''/a'' ''me'' ''both'' db1);
       db3 = fst (add_sync_folder True mint ''/b'' ''me'' ''both'' db2);
       db4 = fst (share_folder True (mint 2) ''me'' ''b'' ''/b'' db3);
       db5 = fst (remove_sync_folder_by_id True 2 db4);
       db6 = fst (add_sync_folder True mint ''/c'' ''me'' ''both'' db5)
   in map sf_local_path (t_folders db6) = [''/a'', ''/c''] \<and>
      map sf_guid (t_folders db6) = [Some (mint 1), Some (mint 2)] \<and>
      map_option sh_local_path (shared_folder_by_guid db6 ''me'' (mint 2)) = Some ''/b''"
  by code_simp

text \<open>Merging identities forgets a peer: its row under an id that is not the one of its certificate is
  deleted, but no row takes its place.\<close>

theorem merging_forgets_peer:
  "let db = db_empty\<lparr>t_devices := [\<lparr>d_id = ''old'', d_name = ''phone'', d_cert = Some [7], d_last_seen = Some 3, d_last_addr = None\<rparr>]\<rparr>;
       (db', r) = reconcile_devices_by_cert True 5 (\<lambda>c. if c = [7] then ''new'' else ''me'') [1] None ''desk'' db
   in r = Inr () \<and> map d_id (t_devices db') = [''me'']"
  by code_simp

end
