(* ===== verification/Pairing.thy ===== *)
theory Pairing
  imports Protocol Storage_Props
begin

text \<open>
  The pairing gate of a folder server, \<open>sync_engine/server.rs\<close>: device pairing requests held for
  the operator, folder pairing requests held for the owner, and the operator's decisions. The gate
  keeps its own state (\<open>PairGateInner\<close>) and writes to the metadata database. \<open>blake3\<close>, the clock
  \<open>now\<close> and the guid function are parameters; \<open>fk\<close> says whether the database enforces foreign
  keys. Events sent to the user interface are returned as lists.
\<close>

section \<open>Types\<close>

datatype PairPolicy = AutoAccept | Confirm

definition PENDING_REASON :: string where
  "PENDING_REASON = ''pending confirmation''"

definition DENIED_REASON :: string where
  "DENIED_REASON = ''pairing denied by host''"

datatype SyncEvent =
    Syncing string
  | Idle
  | EventError string
  | PairRequested string string
  | FolderPairRequested string string string
  | DevicePaired string string
  | FilePulled string string
  | FilePushed string string
  | ConflictEvent string string string
  | Progress string string u64 u64 u64 u64

record PendingPairing =
  pp_device_id :: string
  pp_device_name :: string
  pp_cert_der :: "bytes option"

record PairGateInner =
  pending :: "PendingPairing list"
  denied :: "string set"
  folder_pending :: "RemoteFolderPairRequest list"
  folder_approved :: "string \<times> string \<Rightarrow> RemoteFolderPair option"
  folder_denied :: "(string \<times> string) set"

definition gate_new :: PairGateInner where
  "gate_new = \<lparr>pending = [], denied = {}, folder_pending = [], folder_approved = (\<lambda>_. None),
     folder_denied = {}\<rparr>"

datatype Admission = Accept | Hold | Deny

datatype FolderPairOutcome = FPending | FApproved RemoteFolderPair | FRejected

datatype gate_error = NoGate | GateDb db_error | BindFailed

section \<open>Device pairing\<close>

definition known_cert :: "(bytes \<Rightarrow> bytes) \<Rightarrow> db \<Rightarrow> bytes option \<Rightarrow> bool" where
  "known_cert blake3 db cert =
     (case cert of
        None \<Rightarrow> False
      | Some c \<Rightarrow> get_device_by_cert_fingerprint blake3 db (blake3 c) \<noteq> None)"

definition admit ::
  "(bytes \<Rightarrow> bytes) \<Rightarrow> PairPolicy \<Rightarrow> string \<Rightarrow> string \<Rightarrow> bytes option \<Rightarrow> db \<Rightarrow> PairGateInner \<Rightarrow>
     PairGateInner \<times> SyncEvent list \<times> Admission" where
  "admit blake3 policy device_id device_name cert_der db inner =
     (if known_cert blake3 db cert_der \<or> policy = AutoAccept then (inner, [], Accept)
      else if device_id \<in> denied inner then (inner, [], Deny)
      else if \<not> (\<exists>p \<in> set (pending inner). pp_device_id p = device_id)
        then (inner\<lparr>pending := pending inner @
                [\<lparr>pp_device_id = device_id, pp_device_name = device_name, pp_cert_der = cert_der\<rparr>]\<rparr>,
              [PairRequested device_name device_id], Hold)
      else (inner, [], Hold))"

definition paired :: "string \<Rightarrow> string \<Rightarrow> SyncEvent list" where
  "paired name did = [DevicePaired name did]"

text \<open>A running server; its gate is absent when it runs without one.\<close>

record ServeHandle =
  srv_folder :: string
  srv_port :: nat
  srv_owner_id :: string
  srv_gate :: "PairGateInner option"

definition require_gate :: "ServeHandle \<Rightarrow> gate_error + PairGateInner" where
  "require_gate h = (case srv_gate h of None \<Rightarrow> Inl NoGate | Some g \<Rightarrow> Inr g)"

definition pending_pairings :: "ServeHandle \<Rightarrow> gate_error + (string \<times> string) list" where
  "pending_pairings h =
     (case require_gate h of
        Inl e \<Rightarrow> Inl e
      | Inr g \<Rightarrow> Inr (map (\<lambda>p. (pp_device_name p, pp_device_id p)) (pending g)))"

definition held_cert :: "string \<Rightarrow> PairGateInner \<Rightarrow> bytes option" where
  "held_cert device_id inner =
     Option.bind (find (\<lambda>p. pp_device_id p = device_id) (pending inner)) pp_cert_der"

definition approve_pairing ::
  "bool \<Rightarrow> i64 \<Rightarrow> string \<Rightarrow> string \<Rightarrow> ServeHandle \<Rightarrow> db \<Rightarrow> ServeHandle \<times> db \<times> (gate_error + unit)" where
  "approve_pairing fk now device_id device_name h db =
     (case require_gate h of
        Inl e \<Rightarrow> (h, db, Inl e)
      | Inr inner \<Rightarrow>
          (case upsert_device fk now device_id device_name (held_cert device_id inner) None db of
             (db', Inl e) \<Rightarrow> (h, db', Inl (GateDb e))
           | (db', Inr _) \<Rightarrow>
               (h\<lparr>srv_gate := Some (inner\<lparr>pending := filter (\<lambda>p. pp_device_id p \<noteq> device_id) (pending inner)\<rparr>)\<rparr>,
                db', Inr ())))"

definition deny_pairing :: "string \<Rightarrow> ServeHandle \<Rightarrow> ServeHandle \<times> (gate_error + unit)" where
  "deny_pairing device_id h =
     (case require_gate h of
        Inl e \<Rightarrow> (h, Inl e)
      | Inr inner \<Rightarrow>
          (h\<lparr>srv_gate := Some (inner\<lparr>pending := filter (\<lambda>p. pp_device_id p \<noteq> device_id) (pending inner),
              denied := insert device_id (denied inner)\<rparr>)\<rparr>, Inr ()))"

section \<open>Folder pairing\<close>

definition drop_request :: "string \<Rightarrow> string \<Rightarrow> PairGateInner \<Rightarrow> PairGateInner" where
  "drop_request device_id guid inner =
     inner\<lparr>folder_pending := filter (\<lambda>p. rfr_device_id p \<noteq> device_id \<or> rfr_folder_guid p \<noteq> guid)
       (folder_pending inner)\<rparr>"

text \<open>The grant is recorded first; then the database is written, with three statements that are
  not one transaction.\<close>

definition approve_folder_pair ::
  "bool \<Rightarrow> i64 \<Rightarrow> string \<Rightarrow> string \<Rightarrow> string \<Rightarrow> string \<Rightarrow> string \<Rightarrow> string option \<Rightarrow>
     db \<Rightarrow> PairGateInner \<Rightarrow> db \<times> PairGateInner \<times> (db_error + RemoteFolderPair)" where
  "approve_folder_pair fk now owner_id device_id guid name local_path remote_path db inner =
     (let grant = \<lparr>rfp_folder_guid = guid, rfp_name = name, rfp_mode = ''bidirectional'',
            rfp_remote_path = remote_path\<rparr>;
          inner1 = drop_request device_id guid inner;
          inner2 = inner1\<lparr>folder_approved := (folder_approved inner1)((device_id, guid) \<mapsto> grant)\<rparr>;
          (db', r) = db_bind (upsert_device fk now device_id name None None db) (\<lambda>db1 _.
            db_bind (ensure_folder_by_guid fk guid local_path name owner_id db1) (\<lambda>db2 folder_id.
              db_bind (add_folder_device fk folder_id device_id ''bidirectional'' remote_path db2)
                (\<lambda>db3 _. (db3, Inr grant))))
      in (db', inner2, r))"

definition request_folder_pair ::
  "bool \<Rightarrow> i64 \<Rightarrow> RemoteFolderPairRequest \<Rightarrow> string \<Rightarrow> string \<Rightarrow> db \<Rightarrow> PairGateInner \<Rightarrow>
     db \<times> PairGateInner \<times> FolderPairOutcome" where
  "request_folder_pair fk now req owner_id local_path db inner =
     (let key = (rfr_device_id req, rfr_folder_guid req) in
      case folder_approved inner key of
        Some grant \<Rightarrow> (db, inner, FApproved grant)
      | None \<Rightarrow>
          if key \<in> folder_denied inner then (db, inner, FRejected)
          else if get_device_cert db (rfr_device_id req) \<noteq> None
          then (case approve_folder_pair fk now owner_id (rfr_device_id req) (rfr_folder_guid req)
                       (rfr_name req) local_path (Some local_path) db inner of
                  (db', inner', Inr grant) \<Rightarrow> (db', inner', FApproved grant)
                | (db', inner', Inl e) \<Rightarrow>
                    (db', inner'\<lparr>folder_pending := folder_pending inner' @ [req]\<rparr>, FPending))
          else if \<not> (\<exists>p \<in> set (folder_pending inner).
                     rfr_device_id p = rfr_device_id req \<and> rfr_folder_guid p = rfr_folder_guid req)
          then (db, inner\<lparr>folder_pending := folder_pending inner @ [req]\<rparr>, FPending)
          else (db, inner, FPending))"

definition deny_folder_pair :: "string \<Rightarrow> string \<Rightarrow> PairGateInner \<Rightarrow> PairGateInner" where
  "deny_folder_pair device_id guid inner =
     (let inner1 = drop_request device_id guid inner in
      inner1\<lparr>folder_denied := insert (device_id, guid) (folder_denied inner1)\<rparr>)"

definition pending_folder_pairings :: "ServeHandle \<Rightarrow> gate_error + RemoteFolderPairRequest list" where
  "pending_folder_pairings h =
     (case require_gate h of Inl e \<Rightarrow> Inl e | Inr g \<Rightarrow> Inr (folder_pending g))"

definition approve_folder_pairing ::
  "bool \<Rightarrow> i64 \<Rightarrow> string \<Rightarrow> string \<Rightarrow> string \<Rightarrow> string \<Rightarrow> string option \<Rightarrow> ServeHandle \<Rightarrow> db \<Rightarrow>
     ServeHandle \<times> db \<times> (gate_error + RemoteFolderPair)" where
  "approve_folder_pairing fk now device_id guid name local_path remote_path h db =
     (case require_gate h of
        Inl e \<Rightarrow> (h, db, Inl e)
      | Inr inner \<Rightarrow>
          (case approve_folder_pair fk now (srv_owner_id h) device_id guid name local_path remote_path db inner of
             (db', inner', r) \<Rightarrow>
               (h\<lparr>srv_gate := Some inner'\<rparr>, db',
                case r of Inl e \<Rightarrow> Inl (GateDb e) | Inr grant \<Rightarrow> Inr grant)))"

definition deny_folder_pairing :: "string \<Rightarrow> string \<Rightarrow> ServeHandle \<Rightarrow> ServeHandle \<times> (gate_error + unit)" where
  "deny_folder_pairing device_id guid h =
     (case require_gate h of
        Inl e \<Rightarrow> (h, Inl e)
      | Inr inner \<Rightarrow> (h\<lparr>srv_gate := Some (deny_folder_pair device_id guid inner)\<rparr>, Inr ()))"

section \<open>Starting a server\<close>

definition register_folder ::
  "bool \<Rightarrow> (i64 \<Rightarrow> string) \<Rightarrow> i64 \<Rightarrow> string \<Rightarrow> DeviceInfo \<Rightarrow> db \<Rightarrow> i64 dbres" where
  "register_folder fk mint now folder device_info db =
     (case find (\<lambda>(fid, path, _). path = folder) (list_sync_folders db) of
        Some (fid, _) \<Rightarrow> (db, Inr fid)
      | None \<Rightarrow>
          db_bind (upsert_device fk now (di_id device_info) (di_name device_info) None None db)
            (\<lambda>db1 _. add_sync_folder fk mint folder (di_id device_info) ''bidirectional'' db1))"

text \<open>\<open>bind6\<close> and \<open>bind4\<close> are the results of binding the two listener addresses: the port bound.\<close>

definition serve_folder ::
  "bool \<Rightarrow> (i64 \<Rightarrow> string) \<Rightarrow> i64 \<Rightarrow> DeviceInfo \<Rightarrow> string \<Rightarrow> nat option \<Rightarrow> nat option \<Rightarrow> db \<Rightarrow>
     db \<times> (gate_error + ServeHandle \<times> i64)" where
  "serve_folder fk mint now device_info folder bind6 bind4 db =
     (case register_folder fk mint now folder device_info db of
        (db', Inl e) \<Rightarrow> (db', Inl (GateDb e))
      | (db', Inr folder_id) \<Rightarrow>
          (case (case bind6 of Some p \<Rightarrow> Some p | None \<Rightarrow> bind4) of
             None \<Rightarrow> (db', Inl BindFailed)
           | Some p \<Rightarrow> (db', Inr (\<lparr>srv_folder = folder, srv_port = p, srv_owner_id = di_id device_info,
               srv_gate = Some gate_new\<rparr>, folder_id))))"

section \<open>Invariant of the gate\<close>

abbreviation req_key :: "RemoteFolderPairRequest \<Rightarrow> string \<times> string" where
  "req_key r \<equiv> (rfr_device_id r, rfr_folder_guid r)"

definition gate_wf :: "PairGateInner \<Rightarrow> bool" where
  "gate_wf inner \<longleftrightarrow>
     distinct (map pp_device_id (pending inner)) \<and> pp_device_id ` set (pending inner) \<inter> denied inner = {} \<and>
     distinct (map req_key (folder_pending inner)) \<and> req_key ` set (folder_pending inner) \<inter> folder_denied inner = {}"

lemma gate_wf_new: "gate_wf gate_new"
  by (simp add: gate_wf_def gate_new_def)

lemma gate_wf_admit: "gate_wf inner \<Longrightarrow> gate_wf (fst (admit blake3 policy did name cert db inner))"
  by (auto simp: admit_def gate_wf_def)

lemma gate_wf_unpend: "gate_wf inner \<Longrightarrow> gate_wf (inner\<lparr>pending := filter P (pending inner)\<rparr>)"
  by (auto simp: gate_wf_def distinct_map_filter)

lemma gate_wf_deny:
  "gate_wf inner \<Longrightarrow> gate_wf (inner\<lparr>pending := filter (\<lambda>p. pp_device_id p \<noteq> did) (pending inner),
     denied := insert did (denied inner)\<rparr>)"
  by (auto simp: gate_wf_def distinct_map_filter)

lemma drop_request_simps [simp]:
  "pending (drop_request did guid inner) = pending inner"
  "denied (drop_request did guid inner) = denied inner"
  "folder_approved (drop_request did guid inner) = folder_approved inner"
  "folder_denied (drop_request did guid inner) = folder_denied inner"
  "set (folder_pending (drop_request did guid inner)) = {r \<in> set (folder_pending inner). req_key r \<noteq> (did, guid)}"
  by (auto simp: drop_request_def)

lemma gate_wf_drop: "gate_wf inner \<Longrightarrow> gate_wf (drop_request did guid inner)"
  by (auto simp: gate_wf_def drop_request_def distinct_map_filter)

lemma gate_wf_approved [simp]: "gate_wf (inner\<lparr>folder_approved := m\<rparr>) = gate_wf inner"
  by (simp add: gate_wf_def)

lemma gate_wf_deny_folder: "gate_wf inner \<Longrightarrow> gate_wf (deny_folder_pair did guid inner)"
  using gate_wf_drop [of inner did guid]
  by (auto simp: deny_folder_pair_def Let_def gate_wf_def)

lemma approve_folder_inner:
  "fst (snd (approve_folder_pair fk now owner did guid name lp rp db inner)) =
     (drop_request did guid inner)\<lparr>folder_approved := (folder_approved inner)((did, guid) \<mapsto>
       \<lparr>rfp_folder_guid = guid, rfp_name = name, rfp_mode = ''bidirectional'', rfp_remote_path = rp\<rparr>)\<rparr>"
  by (simp add: approve_folder_pair_def Let_def split: prod.split)

lemma gate_wf_approve_folder:
  "gate_wf inner \<Longrightarrow> gate_wf (fst (snd (approve_folder_pair fk now owner did guid name lp rp db inner)))"
  by (simp add: approve_folder_inner gate_wf_drop)

lemma gate_wf_push:
  "gate_wf inner \<Longrightarrow> req_key r \<notin> req_key ` set (folder_pending inner) \<Longrightarrow> req_key r \<notin> folder_denied inner \<Longrightarrow>
     gate_wf (inner\<lparr>folder_pending := folder_pending inner @ [r]\<rparr>)"
  by (auto simp: gate_wf_def)

lemma gate_wf_request:
  assumes "gate_wf inner"
  shows "gate_wf (fst (snd (request_folder_pair fk now req owner lp db inner)))"
proof -
  let ?ap = "approve_folder_pair fk now owner (rfr_device_id req) (rfr_folder_guid req) (rfr_name req) lp (Some lp) db inner"
  obtain db' inner' r where ap: "?ap = (db', inner', r)" by (cases ?ap)
  have inner': "inner' = (drop_request (rfr_device_id req) (rfr_folder_guid req) inner)\<lparr>folder_approved :=
      (folder_approved inner)(req_key req \<mapsto> \<lparr>rfp_folder_guid = rfr_folder_guid req, rfp_name = rfr_name req,
        rfp_mode = ''bidirectional'', rfp_remote_path = Some lp\<rparr>)\<rparr>"
    using approve_folder_inner [of fk now owner "rfr_device_id req" "rfr_folder_guid req" "rfr_name req" lp "Some lp" db inner] ap
    by simp
  have wf': "gate_wf inner'" using assms by (simp add: inner' gate_wf_drop)
  have "gate_wf (inner'\<lparr>folder_pending := folder_pending inner' @ [req]\<rparr>)" if "req_key req \<notin> folder_denied inner"
    using that by (intro gate_wf_push wf') (auto simp: inner')
  moreover have "gate_wf (inner\<lparr>folder_pending := folder_pending inner @ [req]\<rparr>)"
    if "req_key req \<notin> folder_denied inner" "\<not> (\<exists>p \<in> set (folder_pending inner).
        rfr_device_id p = rfr_device_id req \<and> rfr_folder_guid p = rfr_folder_guid req)"
    using that by (intro gate_wf_push assms) auto
  ultimately show ?thesis
    using assms wf' by (simp add: request_folder_pair_def Let_def ap split: option.split sum.split)
qed

section \<open>Certificates in the device table\<close>

definition pinned :: "db \<Rightarrow> bytes set" where
  "pinned db = {c. \<exists>d \<in> set (t_devices db). d_cert d = Some c}"

lemma known_cert_iff: "known_cert blake3 db (Some c) \<longleftrightarrow> (\<exists>c' \<in> pinned db. blake3 c' = blake3 c)"
proof -
  have "known_cert blake3 db (Some c) \<longleftrightarrow>
      (\<exists>d \<in> set (t_devices db). case d_cert d of None \<Rightarrow> False | Some der \<Rightarrow> blake3 der = blake3 c)"
    by (auto simp: known_cert_def get_device_by_cert_fingerprint_def find_None_iff)
  also have "\<dots> \<longleftrightarrow> (\<exists>d \<in> set (t_devices db). \<exists>der. d_cert d = Some der \<and> blake3 der = blake3 c)"
    by (intro bex_cong) (auto split: option.splits)
  finally show ?thesis unfolding pinned_def by blast
qed

lemma known_cert_None [simp]: "\<not> known_cert blake3 db None"
  by (simp add: known_cert_def)

lemma pinned_cong: "t_devices db' = t_devices db \<Longrightarrow> pinned db' = pinned db"
  by (simp add: pinned_def)

lemma stmt_fst: "fst (stmt fk db db') = db \<or> fst (stmt fk db db') = db'"
  by (simp add: stmt_def)

lemma pinned_stmt: "fst (stmt fk db db') = x \<Longrightarrow> pinned x \<subseteq> pinned db \<union> pinned db'"
  by (auto simp: stmt_def split: if_splits)

lemma pinned_upsert:
  "pinned (fst (upsert_device fk now did name cert addr db)) \<subseteq> pinned db \<union> set_option cert"
proof -
  let ?new = "\<lparr>d_id = did, d_name = name, d_cert = cert, d_last_seen = Some now, d_last_addr = addr\<rparr>"
  let ?upd = "\<lambda>d. d\<lparr>d_name := name, d_cert := coalesce cert (d_cert d), d_last_seen := Some now,
    d_last_addr := coalesce addr (d_last_addr d)\<rparr>"
  have "pinned (upsert_row ?new ?upd db) \<subseteq> pinned db \<union> set_option cert"
    by (auto simp: pinned_def upsert_row_def coalesce_def split: if_splits option.splits)
  then show ?thesis
    unfolding upsert_device_def using stmt_fst [of fk db "upsert_row ?new ?upd db"] by auto
qed

lemma upsert_device_ok:
  assumes "good fk db"
  obtains db' where "upsert_device fk now did name cert addr db = (db', Inr ())"
    and "get_device_cert db' did = coalesce cert (get_device_cert db did)"
    and "set_option cert \<subseteq> pinned db'" and "pinned db' \<subseteq> pinned db \<union> set_option cert"
proof -
  let ?new = "\<lparr>d_id = did, d_name = name, d_cert = cert, d_last_seen = Some now, d_last_addr = addr\<rparr>"
  let ?upd = "\<lambda>d. d\<lparr>d_name := name, d_cert := coalesce cert (d_cert d), d_last_seen := Some now,
    d_last_addr := coalesce addr (d_last_addr d)\<rparr>"
  let ?db = "upsert_row ?new ?upd db"
  have ok: "upsert_device fk now did name cert addr db = (?db, Inr ())"
    unfolding upsert_device_def by (rule upsert_row_ok [OF assms]) simp
  have cert: "get_device_cert ?db did = coalesce cert (get_device_cert db did)"
    by (auto simp: get_device_cert_def device_by_id_upsert coalesce_def split: option.splits)
  have "x \<in> pinned ?db" if "cert = Some x" for x
  proof -
    have "get_device_cert ?db did = Some x" unfolding cert by (simp add: coalesce_def that)
    then obtain d where "device_by_id ?db did = Some d" "d_cert d = Some x"
      unfolding get_device_cert_def bind_eq_Some_conv by blast
    then show ?thesis unfolding pinned_def device_by_id_def by (auto dest: find_SomeD)
  qed
  moreover have "pinned ?db \<subseteq> pinned db \<union> set_option cert"
    using pinned_upsert [of fk now did name cert addr db] ok by simp
  ultimately show ?thesis using that [OF ok cert] by auto
qed

section \<open>Properties\<close>

text \<open>A held device is let in by the operator's approval: when a request of a new device with an
  unknown certificate is held, approving it succeeds, empties its place in the queue, and the
  device's next request with that certificate is accepted.\<close>

theorem approval_admits:
  assumes reach: "db_reach fk db" and gate: "srv_gate h = Some inner"
    and new: "did \<notin> pp_device_id ` set (pending inner)"
    and hold: "admit blake3 Confirm did name (Some c) db inner = (inner1, ev, Hold)"
  shows "ev = [PairRequested name did] \<and>
    (\<exists>h2 db2. approve_pairing fk now did name (h\<lparr>srv_gate := Some inner1\<rparr>) db = (h2, db2, Inr ()) \<and>
      srv_gate h2 = Some inner \<and>
      admit blake3 Confirm did name (Some c) db2 inner = (inner, [], Accept))"
proof -
  have g: "good fk db" by (rule good_reach [OF reach])
  have inner1: "inner1 = inner\<lparr>pending := pending inner @
      [\<lparr>pp_device_id = did, pp_device_name = name, pp_cert_der = Some c\<rparr>]\<rparr>" and ev: "ev = [PairRequested name did]"
    using hold new by (auto simp: admit_def split: if_splits)
  have "find (\<lambda>p. pp_device_id p = did) (pending inner) = None"
    using new by (auto simp: find_None_iff)
  then have held: "held_cert did inner1 = Some c"
    by (simp add: held_cert_def inner1 find_snoc)
  obtain db2 where up: "upsert_device fk now did name (Some c) None db = (db2, Inr ())"
    and pin: "c \<in> pinned db2"
    by (rule upsert_device_ok [OF g, of now did name "Some c" None]) auto
  have "filter (\<lambda>p. pp_device_id p \<noteq> did) (pending inner1) = pending inner"
    using new by (auto simp: inner1 filter_id_conv)
  then have restored: "inner1\<lparr>pending := filter (\<lambda>p. pp_device_id p \<noteq> did) (pending inner1)\<rparr> = inner"
    by (simp add: inner1)
  have "known_cert blake3 db2 (Some c)" using pin by (auto simp: known_cert_iff)
  with up restored ev held show ?thesis
    by (simp add: approve_pairing_def require_gate_def admit_def)
qed

definition example_handle :: ServeHandle where
  "example_handle = \<lparr>srv_folder = ''/d'', srv_port = 1, srv_owner_id = ''me'', srv_gate = Some gate_new\<rparr>"

theorem approval_admits_witness:
  "let inner1 = fst (admit id Confirm ''p'' ''Phone'' (Some [7]) db_empty gate_new)
   in \<exists>h2 db2. approve_pairing True 5 ''p'' ''Phone'' (example_handle\<lparr>srv_gate := Some inner1\<rparr>) db_empty = (h2, db2, Inr ()) \<and>
      admit id Confirm ''p'' ''Phone'' (Some [7]) db2 gate_new = (gate_new, [], Accept)"
proof -
  let ?inner1 = "gate_new\<lparr>pending := [\<lparr>pp_device_id = ''p'', pp_device_name = ''Phone'', pp_cert_der = Some [7]\<rparr>]\<rparr>"
  have hold: "admit id Confirm ''p'' ''Phone'' (Some [7]) db_empty gate_new = (?inner1, [PairRequested ''Phone'' ''p''], Hold)"
    by (simp add: gate_new_def admit_def known_cert_iff pinned_def db_empty_def)
  have "srv_gate example_handle = Some gate_new" "''p'' \<notin> pp_device_id ` set (pending gate_new)"
    by (simp_all add: example_handle_def gate_new_def)
  from approval_admits [OF db_reach.init this hold, of True 5] hold show ?thesis by (auto simp: Let_def)
qed

text \<open>A denial outlives a later approval: approving a denied device succeeds but stores no
  certificate and does not lift the denial, so the device's next request is denied again.\<close>

theorem denial_outlives_approval:
  assumes reach: "db_reach fk db" and gate: "srv_gate h = Some inner"
    and unknown: "\<not> known_cert blake3 db (Some c)"
  shows "case approve_pairing fk now did name (fst (deny_pairing did h)) db of (h2, db2, r) \<Rightarrow>
    r = Inr () \<and> admit blake3 Confirm did name (Some c) db2 (the (srv_gate h2)) = (the (srv_gate h2), [], Deny)"
proof -
  have g: "good fk db" by (rule good_reach [OF reach])
  define inner1 where "inner1 = inner\<lparr>pending := filter (\<lambda>p. pp_device_id p \<noteq> did) (pending inner),
    denied := insert did (denied inner)\<rparr>"
  have "held_cert did inner1 = None"
    by (auto simp: held_cert_def inner1_def bind_eq_None_conv find_None_iff)
  moreover obtain db2 where "upsert_device fk now did name None None db = (db2, Inr ())"
    and "pinned db2 \<subseteq> pinned db"
    by (rule upsert_device_ok [OF g, of now did name None None]) auto
  moreover from this unknown have "\<not> known_cert blake3 db2 (Some c)" by (auto simp: known_cert_iff)
  ultimately show ?thesis
    by (simp add: deny_pairing_def approve_pairing_def require_gate_def gate admit_def inner1_def)
qed

theorem denial_outlives_approval_witness:
  "\<not> known_cert id db_empty (Some [7]) \<and>
   (case approve_pairing True 5 ''p'' ''Phone'' (fst (deny_pairing ''p'' example_handle)) db_empty of (h2, db2, r) \<Rightarrow>
    r = Inr () \<and> admit id Confirm ''p'' ''Phone'' (Some [7]) db2 (the (srv_gate h2)) = (the (srv_gate h2), [], Deny))"
proof -
  have "\<not> known_cert id db_empty (Some [7])" "srv_gate example_handle = Some gate_new"
    by (simp_all add: known_cert_iff pinned_def db_empty_def example_handle_def)
  with denial_outlives_approval [OF db_reach.init this(2,1), where fk = True and now = 5 and did = "''p''" and name = "''Phone''"] show ?thesis by simp
qed

text \<open>A grant that was recorded is never taken back: a request that the gate tried and failed to
  approve automatically is answered as pending, but the next request collects the grant, although
  the database was not written again; and denying a folder pairing after its approval has no effect.\<close>

theorem folder_grant_irrevocable:
  assumes trusted: "get_device_cert db (rfr_device_id req) \<noteq> None"
    and free: "req_key req \<notin> folder_denied inner"
    and run: "request_folder_pair fk now req owner lp db inner = (db1, inner1, res)"
  shows "\<exists>grant. request_folder_pair fk now2 req owner2 lp2 db1 inner1 = (db1, inner1, FApproved grant) \<and>
    snd (snd (request_folder_pair fk now2 req owner2 lp2 db1
      (deny_folder_pair (rfr_device_id req) (rfr_folder_guid req) inner1))) = FApproved grant"
proof -
  have "\<exists>grant. folder_approved inner1 (req_key req) = Some grant"
  proof (cases "folder_approved inner (req_key req)")
    case None
    obtain db' inner' r where ap: "approve_folder_pair fk now owner (rfr_device_id req) (rfr_folder_guid req)
        (rfr_name req) lp (Some lp) db inner = (db', inner', r)" by (metis prod_cases3)
    have "folder_approved inner' (req_key req) \<noteq> None"
      using approve_folder_inner [of fk now owner "rfr_device_id req" "rfr_folder_guid req" "rfr_name req" lp "Some lp" db inner] ap
      by simp
    moreover have "folder_approved inner1 = folder_approved inner'"
      using run None trusted free ap by (auto simp: request_folder_pair_def Let_def split: sum.splits)
    ultimately show ?thesis by auto
  next
    case (Some grant)
    with run show ?thesis by (auto simp: request_folder_pair_def Let_def)
  qed
  then show ?thesis by (auto simp: request_folder_pair_def deny_folder_pair_def Let_def)
qed

theorem folder_grant_irrevocable_witness:
  "let db = fst (upsert_device True 1 ''peer'' ''Peer'' (Some [7]) None db_empty);
       req = \<lparr>rfr_device_id = ''peer'', rfr_device_name = ''Peer'', rfr_folder_guid = ''g'', rfr_name = ''Docs'',
         rfr_mode = ''bidirectional''\<rparr>;
       r = request_folder_pair True 2 req ''owner'' ''/docs'' db gate_new
   in snd (snd r) = FPending \<and> t_folders (fst r) = [] \<and>
      (\<exists>grant. snd (snd (request_folder_pair True 3 req ''owner'' ''/docs'' (fst r) (fst (snd r)))) = FApproved grant)"
proof -
  define db where "db = fst (upsert_device True 1 ''peer'' ''Peer'' (Some [7]) None db_empty)"
  define req where "req = \<lparr>rfr_device_id = ''peer'', rfr_device_name = ''Peer'', rfr_folder_guid = ''g'',
    rfr_name = ''Docs'', rfr_mode = ''bidirectional''\<rparr>"
  obtain db1 inner1 res where run: "request_folder_pair True 2 req ''owner'' ''/docs'' db gate_new = (db1, inner1, res)"
    by (metis prod_cases3)
  have db: "db = db_empty\<lparr>t_devices := [\<lparr>d_id = ''peer'', d_name = ''Peer'', d_cert = Some [7], d_last_seen = Some 1,
      d_last_addr = None\<rparr>]\<rparr>"
    by (simp add: db_def upsert_device_def upsert_row_def stmt_def unique_ok_def fk_ok_def device_ids_def db_empty_def)
  have trusted: "get_device_cert db (rfr_device_id req) \<noteq> None"
    by (simp add: db req_def get_device_cert_def device_by_id_def)
  have free: "req_key req \<notin> folder_denied gate_new" by (simp add: gate_new_def)
  have "res = FPending \<and> t_folders db1 = []"
    using run by (simp add: db req_def request_folder_pair_def approve_folder_pair_def gate_new_def get_device_cert_def
      device_by_id_def upsert_device_def upsert_row_def stmt_def unique_ok_def fk_ok_def device_ids_def folder_ids_def
      db_empty_def db_bind_def ensure_folder_by_guid_def folder_by_guid_def folder_by_path_def insert_folder_def coalesce_def)
      auto
  with folder_grant_irrevocable [OF trusted free run, of 3 "''owner''" "''/docs''"] run show ?thesis
    unfolding Let_def db_def [symmetric] req_def [symmetric] by auto
qed

end
