(* ===== verification/Session.thy ===== *)
theory Session
  imports Chunk_Transfer Pairing
begin

text \<open>
  A sync session, \<open>sync_engine/session.rs\<close>: the initiating side (\<open>run_sync_session\<close>) and the
  serving side (\<open>handle_server_session\<close>). A session works on the file system, the database and
  the connection. The connection is a list of messages still to come, in the order the peer sent
  them (the frames themselves are in the theory Protocol), and the messages written so far; the
  list ends where the source sees a closed connection or a timeout. A step returns the state it
  leaves also when it fails, so that failing sessions are covered. Messages to the user interface
  are collected in \<open>c_events\<close>.
\<close>

section \<open>State\<close>

text \<open>What a session takes from its surroundings: the hash function, printing of uuids,
  the iteration order of hash sets, the build's overflow checks, foreign key enforcement, the clock,
  and bincode's encoder.\<close>

record env =
  e_blake3 :: "bytes \<Rightarrow> bytes"
  e_show_uuid :: "bytes \<Rightarrow> string"
  e_set_iter :: "FilePath list \<Rightarrow> FilePath list"
  e_checks :: bool
  e_fk :: bool
  e_clock :: i64
  e_encode :: "SyncMessage \<Rightarrow> bytes option"

datatype session_error =
    SPath path_error | SFs fs_error | SChunk chunk_error | SFrame frame_error | SDb db_error
  | SelfSync | TofuMismatch | ExpectedHello | BadHello HelloError | IdentityMismatch string string
  | IndexTooLarge nat | ExpectedIndex | ReadError | BackupFailed | SizePanic

record session =
  c_fs :: fs
  c_db :: db
  c_out :: "SyncMessage list"
  c_events :: "SyncEvent list"
  c_recv :: RecvState
  c_done_files :: u64
  c_done_bytes :: u64
  c_pulled :: "string list"
  c_pushed :: "string list"
  c_conflicts :: "string list"
  c_pulled_bytes :: u64
  c_pushed_bytes :: u64
  c_acked :: "string set"
  c_served :: "string list"
  c_eof :: bool

definition session_start :: "fs \<Rightarrow> db \<Rightarrow> session" where
  "session_start fs db = \<lparr>c_fs = fs, c_db = db, c_out = [], c_events = [],
     c_recv = \<lparr>incoming_files = [], buffered_bytes = 0\<rparr>, c_done_files = 0, c_done_bytes = 0,
     c_pulled = [], c_pushed = [], c_conflicts = [], c_pulled_bytes = 0, c_pushed_bytes = 0,
     c_acked = {}, c_served = [], c_eof = False\<rparr>"

type_synonym 'a sess = "session \<Rightarrow> session \<times> (session_error + 'a)"

text \<open>\<open>sbind\<close> is the \<open>?\<close> operator followed by the rest of the function.\<close>

definition sbind :: "'a sess \<Rightarrow> ('a \<Rightarrow> 'b sess) \<Rightarrow> 'b sess" where
  "sbind m f = (\<lambda>s. case m s of (s', Inl e) \<Rightarrow> (s', Inl e) | (s', Inr x) \<Rightarrow> f x s')"

definition sreturn :: "'a \<Rightarrow> 'a sess" where
  "sreturn x = (\<lambda>s. (s, Inr x))"

definition sfail :: "session_error \<Rightarrow> 'a sess" where
  "sfail e = (\<lambda>s. (s, Inl e))"

definition slift :: "('e \<Rightarrow> session_error) \<Rightarrow> 'e + 'a \<Rightarrow> 'a sess" where
  "slift err r = (\<lambda>s. (s, case r of Inl e \<Rightarrow> Inl (err e) | Inr x \<Rightarrow> Inr x))"

definition supdate :: "(session \<Rightarrow> session) \<Rightarrow> unit sess" where
  "supdate f = (\<lambda>s. (f s, Inr ()))"

fun sfor :: "('x \<Rightarrow> unit sess) \<Rightarrow> 'x list \<Rightarrow> unit sess" where
  "sfor body [] = sreturn ()"
| "sfor body (x # xs) = sbind (body x) (\<lambda>_. sfor body xs)"

section \<open>Helpers\<close>

definition emit :: "SyncEvent \<Rightarrow> unit sess" where
  "emit ev = supdate (\<lambda>s. s\<lparr>c_events := c_events s @ [ev]\<rparr>)"

definition emit_progress :: "env \<Rightarrow> i64 \<Rightarrow> string \<Rightarrow> u64 \<Rightarrow> u64 \<Rightarrow> u64 \<Rightarrow> u64 \<Rightarrow> unit sess" where
  "emit_progress e folder_id stage files_done files_total bytes_done bytes_total =
     emit (Progress (show_int folder_id) stage files_done files_total bytes_done bytes_total)"

definition write_msg :: "env \<Rightarrow> SyncMessage \<Rightarrow> unit sess" where
  "write_msg e msg =
     sbind (slift SFrame (frame_message (e_encode e) msg)) (\<lambda>_.
       supdate (\<lambda>s. s\<lparr>c_out := c_out s @ [msg]\<rparr>))"

definition send_chunks :: "env \<Rightarrow> string \<Rightarrow> bytes \<Rightarrow> i64 \<Rightarrow> unit sess" where
  "send_chunks e path data folder_id =
     sfor (\<lambda>c. write_msg e (MFileChunk c)) (send_file_chunks path data (show_int folder_id))"

definition ack :: "string \<Rightarrow> bool \<Rightarrow> string option \<Rightarrow> SyncMessage" where
  "ack path ok err = MAck \<lparr>ack_path = path, ack_success = ok, ack_error = err\<rparr>"

definition record_history_row ::
  "env \<Rightarrow> i64 \<Rightarrow> string \<Rightarrow> string \<Rightarrow> string \<Rightarrow> i64 \<Rightarrow> i64 \<Rightarrow> bytes \<Rightarrow> unit sess" where
  "record_history_row e folder_id path device_id action mtime sz hash =
     supdate (\<lambda>s. s\<lparr>c_db := fst (record_history (e_fk e) (e_clock e)
       \<lparr>hr_folder_id = folder_id, hr_path = path, hr_device_id = device_id, hr_action = action,
        hr_version = 0, hr_mtime = mtime, hr_hash = hash, hr_size = sz\<rparr> (c_db s))\<rparr>)"

definition file_mtime_secs :: "fs \<Rightarrow> path \<Rightarrow> i64" where
  "file_mtime_secs fs p = (case fs_metadata fs p of Some (NFile d m) \<Rightarrow> max 0 m | _ \<Rightarrow> 0)"

text \<open>\<open>Path::with_extension\<close>: the stem of a name ends before its last dot, unless the name only
  starts with a dot.\<close>

definition file_stem :: "string \<Rightarrow> string" where
  "file_stem name =
     (let before = rev (tl (dropWhile (\<lambda>c. c \<noteq> CHR ''.'') (rev name))) in
      if CHR ''.'' \<notin> set name \<or> before = [] then name else before)"

definition with_extension :: "path \<Rightarrow> string \<Rightarrow> path" where
  "with_extension p ext =
     (case path_file_name p of
        None \<Rightarrow> p
      | Some name \<Rightarrow> butlast (path_trim p) @
          [Normal (file_stem name @ (if ext = [] then [] else CHR ''.'' # ext))])"

definition TEMP_EXTENSION :: string where
  "TEMP_EXTENSION = ''.ferrisync-tmp''"

text \<open>The name of a backup: text appended to the printed path of a file, so to its last name.\<close>

definition append_name :: "path \<Rightarrow> string \<Rightarrow> path" where
  "append_name p sfx =
     (case path_file_name p of
        None \<Rightarrow> p @ [Normal sfx]
      | Some name \<Rightarrow> butlast (path_trim p) @ [Normal (name @ sfx)])"

definition CONFLICT_TAG :: string where
  "CONFLICT_TAG = ''.ferrisync-conflict-''"

definition backup_suffix :: "env \<Rightarrow> string \<Rightarrow> bytes \<Rightarrow> string" where
  "backup_suffix e loser_label data =
     CONFLICT_TAG @ show_int (max 0 (e_clock e)) @ ''-'' @ loser_label @ ''-'' @
       take 8 (concat (map hex_byte (e_blake3 e data)))"

definition loser_of :: "string \<Rightarrow> string" where
  "loser_of winner_label = (if winner_label = ''remote'' then ''local'' else ''remote'')"

definition backup_on_conflict :: "env \<Rightarrow> string \<Rightarrow> string \<Rightarrow> bytes \<Rightarrow> string \<Rightarrow> bool sess" where
  "backup_on_conflict e local_path path incoming_data winner_label = (\<lambda>s.
     (sbind (slift SPath (sync_root_open (c_fs s) (raw_path local_path))) (\<lambda>root.
      sbind (slift SPath (root_safe_join (c_fs s) root path)) (\<lambda>target.
        if \<not> path_exists (c_fs s) target then sreturn False
        else case fs_read (c_fs s) target of
            None \<Rightarrow> sfail BackupFailed
          | Some existing \<Rightarrow>
              if existing = incoming_data then sreturn False
              else case fs_rename (c_fs s) target
                     (append_name target (backup_suffix e (loser_of winner_label) incoming_data)) of
                  None \<Rightarrow> sfail BackupFailed
                | Some fs' \<Rightarrow>
                    sbind (supdate (\<lambda>s. s\<lparr>c_fs := fs'\<rparr>)) (\<lambda>_.
                    sbind (emit (ConflictEvent path winner_label (loser_of winner_label))) (\<lambda>_.
                      sreturn True))))) s)"

text \<open>The write of a received file: parents, backup of a differing version, temporary file and
  rename.\<close>

definition commit_file :: "env \<Rightarrow> SyncRoot \<Rightarrow> string \<Rightarrow> string \<Rightarrow> bytes \<Rightarrow> string \<Rightarrow> (bool \<times> path) sess" where
  "commit_file e root local_path path data winner_label = (\<lambda>s.
     (sbind (slift SPath (root_safe_join (c_fs s) root path)) (\<lambda>target.
      sbind (slift SFs (create_parent (c_fs s) target)) (\<lambda>fs1.
      sbind (supdate (\<lambda>s. s\<lparr>c_fs := fs1\<rparr>)) (\<lambda>_.
      sbind (backup_on_conflict e local_path path data winner_label) (\<lambda>conflicted s1.
        case replace_file (e_clock e) (c_fs s1) (with_extension target TEMP_EXTENSION) target data of
          (fs2, Inl err) \<Rightarrow> (s1\<lparr>c_fs := fs2\<rparr>, Inl (SFs err))
        | (fs2, Inr _) \<Rightarrow> (s1\<lparr>c_fs := fs2\<rparr>, Inr (conflicted, target))))))) s)"

section \<open>The plan of a session\<close>

definition entries_of :: "IndexEntry list \<Rightarrow> FilePath list \<Rightarrow> IndexEntry list" where
  "entries_of entries paths = List.map_filter (\<lambda>p. find (\<lambda>e. ie_path e = p) entries) paths"

definition upload_paths :: "SyncPlan \<Rightarrow> FilePath list" where
  "upload_paths plan = List.map_filter (\<lambda>op. case op of Upload p _ _ \<Rightarrow> Some p | _ \<Rightarrow> None) (uploads plan)"

definition download_paths :: "SyncPlan \<Rightarrow> FilePath list" where
  "download_paths plan = List.map_filter (\<lambda>op. case op of Download p _ _ \<Rightarrow> Some p | _ \<Rightarrow> None) (downloads plan)"

definition session_plan :: "env \<Rightarrow> i64 \<Rightarrow> Index \<Rightarrow> Index \<Rightarrow> SyncPlan" where
  "session_plan e folder_id local_index remote_index =
     reconcile_snapshots (e_set_iter e) (index_to_snapshot local_index folder_id)
       (index_to_snapshot remote_index folder_id)"

text \<open>The initiating side: uploads are pushed, downloads and then conflicts are pulled.\<close>

definition client_to_push :: "SyncPlan \<Rightarrow> IndexEntry list \<Rightarrow> IndexEntry list" where
  "client_to_push plan local_entries = entries_of local_entries (upload_paths plan)"

definition client_to_pull :: "SyncPlan \<Rightarrow> IndexEntry list \<Rightarrow> IndexEntry list" where
  "client_to_pull plan remote_entries =
     entries_of remote_entries (download_paths plan) @ entries_of remote_entries (map op_path (conflicts plan))"

text \<open>The serving side: uploads and conflicts are pushed, downloads are what the peer pushes.\<close>

definition server_to_push :: "SyncPlan \<Rightarrow> IndexEntry list \<Rightarrow> IndexEntry list" where
  "server_to_push plan local_entries =
     entries_of local_entries (upload_paths plan) @ entries_of local_entries (map op_path (conflicts plan))"

definition server_expects :: "SyncPlan \<Rightarrow> IndexEntry list \<Rightarrow> IndexEntry list" where
  "server_expects plan remote_entries = entries_of remote_entries (download_paths plan)"

text \<open>\<open>sum()\<close> of sizes that the peer announced: it panics with overflow checks and wraps without.\<close>

definition sum_u64 :: "bool \<Rightarrow> u64 list \<Rightarrow> u64 option" where
  "sum_u64 chk xs =
     (let n = sum_list (map unat xs) in
      if n < 2 ^ 64 \<or> \<not> chk then Some (word_of_nat n) else None)"

definition expected_hashes :: "IndexEntry list \<Rightarrow> (string \<times> bytes) list" where
  "expected_hashes entries = fold (\<lambda>e m. hm_insert (ie_path e) (ie_hash e) m) entries []"

definition sizes_total :: "env \<Rightarrow> IndexEntry list \<Rightarrow> u64 sess" where
  "sizes_total e entries =
     (case sum_u64 (e_checks e) (map ie_size entries) of None \<Rightarrow> sfail SizePanic | Some n \<Rightarrow> sreturn n)"

section \<open>Pushing and serving files\<close>

text \<open>One file of the push loop; an unreadable file is skipped.\<close>

definition push_file ::
  "env \<Rightarrow> SyncRoot \<Rightarrow> i64 \<Rightarrow> string \<Rightarrow> string \<Rightarrow> u64 \<Rightarrow> u64 \<Rightarrow> IndexEntry \<Rightarrow> unit sess" where
  "push_file e root folder_id device_id event_device total_files total_bytes entry = (\<lambda>s.
     (sbind (slift SPath (root_safe_join (c_fs s) root (ie_path entry))) (\<lambda>file_path.
      case fs_read (c_fs s) file_path of
        None \<Rightarrow> sreturn ()
      | Some data \<Rightarrow>
          sbind (send_chunks e (ie_path entry) data folder_id) (\<lambda>_.
          sbind (supdate (\<lambda>s. s\<lparr>c_pushed := c_pushed s @ [ie_path entry],
              c_pushed_bytes := c_pushed_bytes s + word_of_nat (length data),
              c_done_files := c_done_files s + 1,
              c_done_bytes := c_done_bytes s + word_of_nat (length data)\<rparr>)) (\<lambda>_ s1.
          (sbind (emit_progress e folder_id ''uploading'' (c_done_files s1) (c_done_bytes s1) total_files total_bytes) (\<lambda>_.
           sbind (record_history_row e folder_id (ie_path entry) device_id ''push'' (ie_mtime entry)
              (sint (ie_size entry)) (ie_hash entry)) (\<lambda>_.
             emit (FilePushed (ie_path entry) event_device))) s1))))) s)"

text \<open>A path of a file request; \<open>log\<close> is where the serving side remembers it.\<close>

definition serve_path :: "env \<Rightarrow> SyncRoot \<Rightarrow> i64 \<Rightarrow> string \<Rightarrow> unit sess" where
  "serve_path e root folder_id path = (\<lambda>s.
     (if path = ''metadata.db'' \<or> MAX_PATH_LEN < length path then sreturn ()
      else sbind (slift SPath (root_safe_join (c_fs s) root path)) (\<lambda>file_path.
        case fs_read (c_fs s) file_path of
          None \<Rightarrow> sreturn ()
        | Some data \<Rightarrow>
            sbind (send_chunks e path data folder_id) (\<lambda>_.
              supdate (\<lambda>s. s\<lparr>c_served := c_served s @ [path],
                c_pushed_bytes := c_pushed_bytes s + word_of_nat (length data)\<rparr>)))) s)"

definition serve_request :: "env \<Rightarrow> SyncRoot \<Rightarrow> i64 \<Rightarrow> FileRequest \<Rightarrow> unit sess" where
  "serve_request e root folder_id req =
     (if MAX_FILE_REQUEST_PATHS < length (freq_paths req) then sreturn ()
      else sfor (serve_path e root folder_id) (freq_paths req))"

section \<open>Receiving files\<close>

text \<open>What both receive loops share: the chunk is buffered; an assembled file whose hash differs
  from the announced one is refused, any other is committed. The result tells whether the loop's
  \<open>continue\<close> was taken.\<close>

record recv_ctx =
  x_root :: SyncRoot
  x_local_path :: string
  x_folder_id :: i64
  x_device_id :: string
  x_winner :: string
  x_event_device :: string
  x_hashes :: "(string \<times> bytes) list"
  x_total_files :: u64
  x_total_bytes :: u64
  x_ack_first :: bool

definition book_file :: "env \<Rightarrow> recv_ctx \<Rightarrow> string \<Rightarrow> bytes \<Rightarrow> string \<Rightarrow> path \<Rightarrow> unit sess" where
  "book_file e x path data action target =
     sbind (supdate (\<lambda>s. s\<lparr>c_pulled := c_pulled s @ [path],
         c_pulled_bytes := c_pulled_bytes s + word_of_nat (length data),
         c_done_files := c_done_files s + 1,
         c_done_bytes := c_done_bytes s + word_of_nat (length data)\<rparr>)) (\<lambda>_ s1.
       (sbind (emit_progress e (x_folder_id x) ''downloading'' (c_done_files s1) (c_done_bytes s1)
            (x_total_files x) (x_total_bytes x)) (\<lambda>_.
          record_history_row e (x_folder_id x) path (x_device_id x) action
            (file_mtime_secs (c_fs s1) target) (int (length data)) (e_blake3 e data))) s1)"

definition take_file :: "env \<Rightarrow> recv_ctx \<Rightarrow> string \<Rightarrow> bytes \<Rightarrow> bool sess" where
  "take_file e x path data =
     (let actual_hash = e_blake3 e data in
      if (case map_of (x_hashes x) path of Some expected \<Rightarrow> actual_hash \<noteq> expected | None \<Rightarrow> False)
      then sbind (write_msg e (ack path False (Some ''hash mismatch''))) (\<lambda>_. sreturn True)
      else
        sbind (commit_file e (x_root x) (x_local_path x) path data (x_winner x)) (\<lambda>(conflicted, target).
        sbind (supdate (\<lambda>s. s\<lparr>c_conflicts := c_conflicts s @ (if conflicted then [path] else [])\<rparr>)) (\<lambda>_.
        sbind (if x_ack_first x then write_msg e (ack path True None) else sreturn ()) (\<lambda>_.
        sbind (book_file e x path data (if conflicted then ''conflict'' else ''pull'') target) (\<lambda>_.
        sbind (if x_ack_first x then sreturn () else write_msg e (ack path True None)) (\<lambda>_.
        sbind (emit (FilePulled path (x_event_device x))) (\<lambda>_. sreturn False)))))))"

definition take_chunk :: "env \<Rightarrow> recv_ctx \<Rightarrow> FileChunk \<Rightarrow> bool sess" where
  "take_chunk e x chunk = (\<lambda>s.
     case receive_chunk (e_checks e) chunk (c_recv s) of
       Inl err \<Rightarrow> (s, Inl (SChunk err))
     | Inr (recv, out) \<Rightarrow>
         (let s1 = s\<lparr>c_recv := recv\<rparr> in
          case out of
            Ignored \<Rightarrow> (s1, Inr True)
          | Buffered \<Rightarrow> (s1, Inr False)
          | Assembled path data \<Rightarrow> take_file e x path data s1))"

section \<open>The initiating side\<close>

definition client_message :: "env \<Rightarrow> recv_ctx \<Rightarrow> SyncMessage \<Rightarrow> unit sess" where
  "client_message e x msg =
     (case msg of
        MFileChunk chunk \<Rightarrow> sbind (take_chunk e x chunk) (\<lambda>_. sreturn ())
      | MAck a \<Rightarrow> supdate (\<lambda>s. if ack_path a \<noteq> [] \<and> ack_path a \<in> set (c_pushed s)
            then s\<lparr>c_acked := insert (ack_path a) (c_acked s)\<rparr> else s)
      | MFileRequest req \<Rightarrow> serve_request e (x_root x) (x_folder_id x) req
      | _ \<Rightarrow> sreturn ())"

definition client_finished :: "nat \<Rightarrow> nat \<Rightarrow> session \<Rightarrow> bool" where
  "client_finished expected_acks expected_pulls s \<longleftrightarrow>
     expected_acks \<le> card (c_acked s) \<and> expected_pulls \<le> length (c_pulled s) \<and> incoming_files (c_recv s) = []"

fun client_loop :: "env \<Rightarrow> recv_ctx \<Rightarrow> nat \<Rightarrow> nat \<Rightarrow> SyncMessage list \<Rightarrow> unit sess" where
  "client_loop e x expected_acks expected_pulls [] s = (s, Inr ())"
| "client_loop e x expected_acks expected_pulls (m # ms) s =
     (if client_finished expected_acks expected_pulls s then (s, Inr ())
      else sbind (client_message e x m) (\<lambda>_. client_loop e x expected_acks expected_pulls ms) s)"

text \<open>Refusing one's own certificate, and trust on first use.\<close>

definition client_authenticate :: "env \<Rightarrow> bytes \<Rightarrow> bytes option \<Rightarrow> string \<Rightarrow> unit sess" where
  "client_authenticate e own_cert peer_cert device_id = (\<lambda>s.
     case peer_cert of
       None \<Rightarrow> (s, Inr ())
     | Some peer \<Rightarrow>
         if peer = own_cert then (s, Inl SelfSync)
         else (case get_device_cert (c_db s) device_id of
             Some stored_der \<Rightarrow> if peer \<noteq> stored_der then (s, Inl TofuMismatch) else (s, Inr ())
           | None \<Rightarrow>
               (case set_device_cert (e_fk e) (e_clock e) device_id peer (c_db s) of
                  (db', Inl err) \<Rightarrow> (s\<lparr>c_db := db'\<rparr>, Inl (SDb err))
                | (db', Inr _) \<Rightarrow> (s\<lparr>c_db := db'\<rparr>, Inr ()))))"

definition listed_path :: "db \<Rightarrow> i64 \<Rightarrow> string" where
  "listed_path db folder_id =
     (case find (\<lambda>(fid, _). fid = folder_id) (list_sync_folders db) of
        None \<Rightarrow> [] | Some (_, path, _) \<Rightarrow> path)"

definition client_hello :: "env \<Rightarrow> bytes \<Rightarrow> i64 \<Rightarrow> db \<Rightarrow> Hello" where
  "client_hello e own_cert folder_id db =
     (let my_id = cert_to_device_id (e_blake3 e) (e_show_uuid e) own_cert in
      hello_from_device
        \<lparr>di_id = my_id, di_name = (case get_device_name db my_id of None \<Rightarrow> [] | Some n \<Rightarrow> n),
         di_cert_fingerprint = []\<rparr>
        (e_blake3 e own_cert)
        [\<lparr>hf_id = show_int folder_id, hf_name = listed_path db folder_id, hf_direction = ''both''\<rparr>])"

definition client_check_hello :: "env \<Rightarrow> bytes option \<Rightarrow> SyncMessage \<Rightarrow> unit sess" where
  "client_check_hello e peer_cert msg =
     (case msg of
        MHello h \<Rightarrow>
          sbind (slift BadHello (hello_validate h)) (\<lambda>_.
            case map_option (cert_to_device_id (e_blake3 e) (e_show_uuid e)) peer_cert of
              Some expected \<Rightarrow>
                if hello_device_id h \<noteq> expected then sfail (IdentityMismatch (hello_device_id h) expected)
                else sreturn ()
            | None \<Rightarrow> sreturn ())
      | _ \<Rightarrow> sfail ExpectedHello)"

definition client_index_message :: "SyncMessage \<Rightarrow> Index sess" where
  "client_index_message msg =
     (case msg of
        MIndex idx \<Rightarrow>
          if MAX_INDEX_ENTRIES < length (idx_entries idx)
          then sfail (IndexTooLarge (length (idx_entries idx))) else sreturn idx
      | _ \<Rightarrow> sfail ExpectedIndex)"

record SyncResult =
  res_pulled :: "string list"
  res_pushed :: "string list"
  res_conflicts :: "string list"
  res_pulled_bytes :: u64
  res_pushed_bytes :: u64

definition client_dry_run ::
  "env \<Rightarrow> i64 \<Rightarrow> SyncPlan \<Rightarrow> IndexEntry list \<Rightarrow> IndexEntry list \<Rightarrow> u64 \<Rightarrow> u64 \<Rightarrow> SyncResult sess" where
  "client_dry_run e folder_id plan to_push to_pull total_files total_bytes =
     sbind (sizes_total e to_push) (\<lambda>pushed_bytes.
     sbind (sizes_total e to_pull) (\<lambda>pulled_bytes.
     sbind (emit_progress e folder_id ''done'' total_files total_bytes total_files total_bytes) (\<lambda>_.
       sreturn \<lparr>res_pulled = map ie_path to_pull, res_pushed = map ie_path to_push,
         res_conflicts = map op_path (conflicts plan), res_pulled_bytes = pulled_bytes,
         res_pushed_bytes = pushed_bytes\<rparr>)))"

definition finish_session :: "env \<Rightarrow> string \<Rightarrow> string \<Rightarrow> string \<Rightarrow> string \<Rightarrow> i64 \<Rightarrow> nat \<Rightarrow> nat \<Rightarrow> unit sess" where
  "finish_session e direction peer addr local_path folder_id pushed_count pulled_count =
     supdate (\<lambda>s.
       let db1 = fst (set_folder_last_sync (e_fk e) folder_id (e_clock e) (c_db s)) in
       s\<lparr>c_db := fst (record_session (e_fk e) (e_clock e) direction peer addr local_path
         pushed_count pulled_count (length (c_conflicts s)) (c_pushed_bytes s) (c_pulled_bytes s) db1)\<rparr>)"

text \<open>Pushing, the sentinel, the receive loop and the bookkeeping of the initiating side.\<close>

definition client_transfer ::
  "env \<Rightarrow> SyncRoot \<Rightarrow> string \<Rightarrow> string \<Rightarrow> i64 \<Rightarrow> string \<Rightarrow> IndexEntry list \<Rightarrow> IndexEntry list \<Rightarrow> Index \<Rightarrow>
     u64 \<Rightarrow> u64 \<Rightarrow> SyncMessage list \<Rightarrow> SyncResult sess" where
  "client_transfer e root local_path addr folder_id device_id to_push to_pull remote_index total_files total_bytes msgs =
     sbind (sfor (push_file e root folder_id device_id device_id total_files total_bytes) to_push) (\<lambda>_.
     sbind (write_msg e (ack [] True None)) (\<lambda>_ s1.
     (sbind (client_loop e \<lparr>x_root = root, x_local_path = local_path, x_folder_id = folder_id,
          x_device_id = device_id, x_winner = device_id, x_event_device = device_id,
          x_hashes = expected_hashes (idx_entries remote_index), x_total_files = total_files,
          x_total_bytes = total_bytes, x_ack_first = True\<rparr> (length (c_pushed s1)) (length to_pull) msgs) (\<lambda>_ s2.
      (sbind (finish_session e ''outgoing'' device_id addr local_path folder_id
           (length (c_pushed s2)) (length (c_pulled s2))) (\<lambda>_.
         sreturn \<lparr>res_pulled = c_pulled s2, res_pushed = c_pushed s2, res_conflicts = c_conflicts s2,
           res_pulled_bytes = c_pulled_bytes s2, res_pushed_bytes = c_pushed_bytes s2\<rparr>)) s2)) s1))"

definition client_exchange ::
  "env \<Rightarrow> SyncRoot \<Rightarrow> string \<Rightarrow> string \<Rightarrow> i64 \<Rightarrow> string \<Rightarrow> bool \<Rightarrow> string option \<Rightarrow> SyncMessage list \<Rightarrow> SyncResult sess" where
  "client_exchange e root local_path addr folder_id device_id dry_run remote_path msgs = (\<lambda>s.
     (sbind (slift SPath (build_protocol_index (e_blake3 e) (c_fs s) (raw_path local_path) folder_id device_id)) (\<lambda>local_entries.
      let local_index = \<lparr>idx_folder_id = show_int folder_id, idx_device_id = device_id,
            idx_remote_path = remote_path, idx_entries = local_entries\<rparr> in
      sbind (write_msg e (MIndex local_index)) (\<lambda>_.
      case msgs of
        [] \<Rightarrow> sfail ReadError
      | m # ms \<Rightarrow>
          sbind (client_index_message m) (\<lambda>remote_index.
          let plan = session_plan e folder_id local_index remote_index;
              to_push = client_to_push plan local_entries;
              to_pull = client_to_pull plan (idx_entries remote_index);
              total_files = word_of_nat (length to_push + length to_pull)
          in
          sbind (sizes_total e (to_push @ to_pull)) (\<lambda>total_bytes.
          sbind (emit_progress e folder_id ''starting'' 0 0 total_files total_bytes) (\<lambda>_.
            if dry_run then client_dry_run e folder_id plan to_push to_pull total_files total_bytes
            else client_transfer e root local_path addr folder_id device_id to_push to_pull
              remote_index total_files total_bytes ms)))))) s)"

definition run_sync_session ::
  "env \<Rightarrow> bytes \<Rightarrow> bytes option \<Rightarrow> string \<Rightarrow> string \<Rightarrow> i64 \<Rightarrow> string \<Rightarrow> bool \<Rightarrow> string option \<Rightarrow>
     SyncMessage list \<Rightarrow> SyncResult sess" where
  "run_sync_session e own_cert peer_cert local_path addr folder_id device_id dry_run remote_path msgs = (\<lambda>s.
     (sbind (slift SPath (sync_root_open (c_fs s) (raw_path local_path))) (\<lambda>root.
      sbind (client_authenticate e own_cert peer_cert device_id) (\<lambda>_ s1.
      (sbind (write_msg e (MHello (client_hello e own_cert folder_id (c_db s1)))) (\<lambda>_.
       case msgs of
         [] \<Rightarrow> sfail ReadError
       | m # ms \<Rightarrow>
           sbind (client_check_hello e peer_cert m) (\<lambda>_.
             client_exchange e root local_path addr folder_id device_id dry_run remote_path ms)) s1)))) s)"

section \<open>The serving side\<close>

definition server_message :: "env \<Rightarrow> recv_ctx \<Rightarrow> SyncMessage \<Rightarrow> bool sess" where
  "server_message e x msg =
     (case msg of
        MFileChunk chunk \<Rightarrow> take_chunk e x chunk
      | MFileRequest req \<Rightarrow>
          sbind (serve_request e (x_root x) (x_folder_id x) req)
            (\<lambda>_. sreturn (MAX_FILE_REQUEST_PATHS < length (freq_paths req)))
      | MAck a \<Rightarrow>
          sbind (supdate (\<lambda>s. if ack_path a = [] then s\<lparr>c_eof := True\<rparr> else s)) (\<lambda>_. sreturn False)
      | _ \<Rightarrow> sreturn False)"

fun server_loop :: "env \<Rightarrow> recv_ctx \<Rightarrow> SyncMessage list \<Rightarrow> unit sess" where
  "server_loop e x [] s = (s, Inr ())"
| "server_loop e x (m # ms) s =
     sbind (server_message e x m) (\<lambda>continued s1.
       if \<not> continued \<and> c_eof s1 \<and> incoming_files (c_recv s1) = [] then (s1, Inr ())
       else server_loop e x ms s1) s"

text \<open>The serving root: a path named by the peer replaces the registered one, and is created.\<close>

definition served_root :: "string \<Rightarrow> Index \<Rightarrow> string sess" where
  "served_root local_path remote_index = (\<lambda>s.
     case idx_remote_path remote_index of
       Some rp \<Rightarrow>
         if is_blank rp then (s, Inr local_path)
         else (case create_dir_all (c_fs s) (raw_path rp) of
             None \<Rightarrow> (s, Inl (SFs CreateDirsFailed))
           | Some fs' \<Rightarrow> (s\<lparr>c_fs := fs'\<rparr>, Inr rp))
     | None \<Rightarrow> (s, Inr local_path))"

definition server_transfer ::
  "env \<Rightarrow> SyncRoot \<Rightarrow> string \<Rightarrow> string \<Rightarrow> i64 \<Rightarrow> Index \<Rightarrow> string \<Rightarrow> string \<Rightarrow> IndexEntry list \<Rightarrow> SyncMessage list \<Rightarrow> unit sess" where
  "server_transfer e root local_path served folder_id remote_index device_id peer_label local_entries msgs =
     (let local_index = \<lparr>idx_folder_id = show_int folder_id, idx_device_id = device_id,
            idx_remote_path = None, idx_entries = local_entries\<rparr>;
          plan = session_plan e folder_id local_index remote_index;
          to_push = server_to_push plan local_entries;
          expects = server_expects plan (idx_entries remote_index);
          total_files = word_of_nat (length to_push + length expects)
      in
      sbind (sizes_total e (to_push @ expects)) (\<lambda>total_bytes.
      sbind (emit_progress e folder_id ''starting'' 0 0 total_files total_bytes) (\<lambda>_.
      sbind (sfor (push_file e root folder_id device_id ''remote'' total_files total_bytes) to_push) (\<lambda>_.
      sbind (write_msg e (ack [] True None)) (\<lambda>_.
      sbind (server_loop e \<lparr>x_root = root, x_local_path = served, x_folder_id = folder_id,
          x_device_id = device_id, x_winner = ''remote'', x_event_device = ''remote'',
          x_hashes = expected_hashes (idx_entries remote_index), x_total_files = total_files,
          x_total_bytes = total_bytes, x_ack_first = False\<rparr> msgs) (\<lambda>_ s2.
        finish_session e ''incoming'' peer_label peer_label local_path folder_id
          (length (c_pulled s2)) (length to_push + length (c_served s2)) s2))))))"

definition handle_server_session ::
  "env \<Rightarrow> string \<Rightarrow> i64 \<Rightarrow> Index \<Rightarrow> string \<Rightarrow> string \<Rightarrow> SyncMessage list \<Rightarrow> unit sess" where
  "handle_server_session e local_path folder_id remote_index device_id peer_label msgs =
     (if MAX_INDEX_ENTRIES < length (idx_entries remote_index)
      then sfail (IndexTooLarge (length (idx_entries remote_index)))
      else sbind (served_root local_path remote_index) (\<lambda>served s1.
        (sbind (slift SPath (build_protocol_index (e_blake3 e) (c_fs s1) (raw_path served) folder_id device_id)) (\<lambda>local_entries.
         sbind (write_msg e (MIndex \<lparr>idx_folder_id = show_int folder_id, idx_device_id = device_id,
             idx_remote_path = None, idx_entries = local_entries\<rparr>)) (\<lambda>_.
         sbind (slift SPath (sync_root_open (c_fs s1) (raw_path served))) (\<lambda>root.
           server_transfer e root local_path served folder_id remote_index device_id peer_label local_entries msgs))) s1)))"

text \<open>The wrapper that reads the index itself, after an optional hello.\<close>

definition handle_server_session_with_read ::
  "env \<Rightarrow> bytes \<Rightarrow> string \<Rightarrow> i64 \<Rightarrow> string \<Rightarrow> string \<Rightarrow> SyncMessage list \<Rightarrow> unit sess" where
  "handle_server_session_with_read e own_cert local_path folder_id device_id peer_label msgs =
     (case msgs of
        [] \<Rightarrow> sfail ReadError
      | MHello h # ms \<Rightarrow>
          sbind (slift BadHello (hello_validate h)) (\<lambda>_ s1.
            let my_id = cert_to_device_id (e_blake3 e) (e_show_uuid e) own_cert;
                hello = MHello (hello_from_device
                  \<lparr>di_id = my_id, di_name = (case get_device_name (c_db s1) my_id of None \<Rightarrow> [] | Some n \<Rightarrow> n),
                   di_cert_fingerprint = []\<rparr> (e_blake3 e own_cert) []);
                s2 = fst (write_msg e hello s1)
            in (case ms of
                  MIndex idx # rest \<Rightarrow> handle_server_session e local_path folder_id idx device_id peer_label rest s2
                | [] \<Rightarrow> (s2, Inl ReadError)
                | _ \<Rightarrow> (s2, Inl ExpectedIndex)))
      | MIndex idx # rest \<Rightarrow> handle_server_session e local_path folder_id idx device_id peer_label rest
      | _ \<Rightarrow> sfail ExpectedHello)"

end
