(* ===== verification/Session_Props.thy ===== *)
theory Session_Props
  imports Session
begin

text \<open>
  Properties of sync sessions. Invariants that a session keeps, whatever the peer sends and also
  when it fails, are proved once in the locale \<open>session_invariant\<close>: an invariant that depends on
  the file system and the database only, and is kept by committing a file and by the bookkeeping.
  It is interpreted for confinement to the sync root and for the pinned certificates.
\<close>

section \<open>Invariants of steps\<close>

lemma sbind_lift_ok [simp]: "sbind (slift err (Inr x)) f = f x"
  by (simp add: sbind_def slift_def)

lemma sbind_lift_fail [simp]: "sbind (slift err (Inl y)) f = (\<lambda>s. (s, Inl (err y)))"
  by (simp add: sbind_def slift_def)

definition keeps :: "(session \<Rightarrow> bool) \<Rightarrow> 'a sess \<Rightarrow> bool" where
  "keeps I m \<longleftrightarrow> (\<forall>s. I s \<longrightarrow> I (fst (m s)))"

named_theorems keeps_intros

lemma keepsI: "(\<And>s. I s \<Longrightarrow> I (fst (m s))) \<Longrightarrow> keeps I m"
  by (simp add: keeps_def)

lemma keepsD: "keeps I m \<Longrightarrow> I s \<Longrightarrow> I (fst (m s))"
  by (simp add: keeps_def)

lemma keeps_return [keeps_intros]: "keeps I (sreturn x)"
  by (simp add: keeps_def sreturn_def)

lemma keeps_fail [keeps_intros]: "keeps I (sfail err)"
  by (simp add: keeps_def sfail_def)

lemma keeps_lift [keeps_intros]: "keeps I (slift err r)"
  by (simp add: keeps_def slift_def)

lemma keeps_update: "(\<And>s. I s \<Longrightarrow> I (f s)) \<Longrightarrow> keeps I (supdate f)"
  by (simp add: keeps_def supdate_def)

lemma keeps_bind [keeps_intros]: "keeps I m \<Longrightarrow> (\<And>x. keeps I (f x)) \<Longrightarrow> keeps I (sbind m f)"
  unfolding keeps_def sbind_def by (auto split: prod.splits sum.splits)

lemma keeps_for [keeps_intros]: "(\<And>x. keeps I (body x)) \<Longrightarrow> keeps I (sfor body xs)"
  by (induction xs) (simp_all add: keeps_return keeps_bind)

lemma keeps_if [keeps_intros]: "(b \<Longrightarrow> keeps I m) \<Longrightarrow> (\<not> b \<Longrightarrow> keeps I n) \<Longrightarrow> keeps I (if b then m else n)"
  by simp

locale session_invariant =
  fixes e :: env and root :: SyncRoot and local_path :: string and I :: "session \<Rightarrow> bool"
  assumes frame: "I s \<Longrightarrow> c_fs s' = c_fs s \<Longrightarrow> c_db s' = c_db s \<Longrightarrow> I s'"
    and history: "I s \<Longrightarrow> I (s\<lparr>c_db := fst (record_history (e_fk e) (e_clock e) rec (c_db s))\<rparr>)"
    and sync_time: "I s \<Longrightarrow> I (s\<lparr>c_db := fst (set_folder_last_sync (e_fk e) fid t (c_db s))\<rparr>)"
    and log: "I s \<Longrightarrow> I (s\<lparr>c_db := fst (record_session (e_fk e) (e_clock e) d p a lp n1 n2 n3 b1 b2 (c_db s))\<rparr>)"
    and commit: "I s \<Longrightarrow> I (fst (commit_file e root local_path path data w s))"
begin

lemma keeps_frame:
  assumes "\<And>s. c_fs (f s) = c_fs s" and "\<And>s. c_db (f s) = c_db s"
  shows "keeps I (supdate f)"
  by (rule keeps_update) (rule frame, assumption, rule assms, rule assms)

lemma keeps_emit [keeps_intros]: "keeps I (emit ev)"
  unfolding emit_def by (rule keeps_frame) simp_all

lemma keeps_progress [keeps_intros]: "keeps I (emit_progress e fid stage a b c d)"
  unfolding emit_progress_def by (rule keeps_emit)

lemma keeps_write [keeps_intros]: "keeps I (write_msg e m)"
  unfolding write_msg_def by (intro keeps_intros keeps_frame) simp_all

lemma keeps_send [keeps_intros]: "keeps I (send_chunks e path data fid)"
  unfolding send_chunks_def by (intro keeps_intros)

lemma keeps_history [keeps_intros]: "keeps I (record_history_row e fid path did act mt sz h)"
  unfolding record_history_row_def by (intro keeps_update history)

lemma keeps_push [keeps_intros]: "keeps I (push_file e r fid did ed tf tb entry)"
proof (rule keepsI)
  fix s assume s: "I s"
  have booked: "keeps I (\<lambda>s1. (sbind (emit_progress e fid ''uploading'' (c_done_files s1) (c_done_bytes s1) tf tb) (\<lambda>_.
      sbind (record_history_row e fid (ie_path entry) did ''push'' (ie_mtime entry) (sint (ie_size entry)) (ie_hash entry)) (\<lambda>_.
        emit (FilePushed (ie_path entry) ed)))) s1)"
    by (rule keepsI, rule keepsD) (intro keeps_intros)
  show "I (fst (push_file e r fid did ed tf tb entry s))"
    unfolding push_file_def
    by (rule keepsD [where I = I, OF _ s])
      (auto intro!: keeps_intros keeps_frame booked split: option.split)
qed

lemma keeps_serve [keeps_intros]: "keeps I (serve_path e r fid path)"
proof (rule keepsI)
  fix s assume s: "I s"
  show "I (fst (serve_path e r fid path s))"
    unfolding serve_path_def
    by (rule keepsD [where I = I, OF _ s]) (auto intro!: keeps_intros keeps_frame split: option.split)
qed

lemma keeps_request [keeps_intros]: "keeps I (serve_request e r fid req)"
  unfolding serve_request_def by (intro keeps_intros)

lemma keeps_commit: "keeps I (commit_file e root local_path path data w)"
  by (rule keepsI) (rule commit)

lemma keeps_book [keeps_intros]: "keeps I (book_file e x path data act target)"
proof -
  have "keeps I (\<lambda>s1. (sbind (emit_progress e (x_folder_id x) ''downloading'' (c_done_files s1) (c_done_bytes s1)
            (x_total_files x) (x_total_bytes x)) (\<lambda>_.
          record_history_row e (x_folder_id x) path (x_device_id x) act
            (file_mtime_secs (c_fs s1) target) (int (length data)) (e_blake3 e data))) s1)"
    by (rule keepsI, rule keepsD) (intro keeps_intros)
  then show ?thesis unfolding book_file_def by (intro keeps_intros keeps_frame) simp_all
qed

lemma keeps_take_file:
  assumes "x_root x = root" and "x_local_path x = local_path"
  shows "keeps I (take_file e x path data)"
  unfolding take_file_def Let_def assms
  by (auto intro!: keeps_intros keeps_commit keeps_frame split: prod.split)

lemma keeps_take_chunk:
  assumes "x_root x = root" and "x_local_path x = local_path"
  shows "keeps I (take_chunk e x chunk)"
proof (rule keepsI)
  fix s assume s: "I s"
  have upd: "I (s\<lparr>c_recv := r\<rparr>)" for r by (rule frame [OF s]) simp_all
  show "I (fst (take_chunk e x chunk s))"
    using s upd keepsD [OF keeps_take_file [OF assms] upd]
    by (auto simp: take_chunk_def Let_def split: sum.split prod.split recv_outcome.split)
qed

lemma keeps_client_loop:
  assumes x: "x_root x = root" "x_local_path x = local_path"
  shows "keeps I (client_loop e x acks pulls msgs)"
proof (rule keepsI)
  fix s assume "I s"
  have msg: "keeps I (client_message e x m)" for m
    unfolding client_message_def
    by (cases m) (auto intro!: keeps_intros keeps_take_chunk [OF x] keeps_frame)
  show "I (fst (client_loop e x acks pulls msgs s))"
    using \<open>I s\<close>
  proof (induction msgs arbitrary: s)
    case (Cons m ms)
    have "keeps I (sbind (client_message e x m) (\<lambda>_. client_loop e x acks pulls ms))"
      by (intro keeps_bind msg keepsI Cons.IH)
    from keepsD [where I = I, OF this Cons.prems] show ?case using Cons.prems by simp
  qed simp
qed

lemma keeps_server_loop:
  assumes x: "x_root x = root" "x_local_path x = local_path"
  shows "keeps I (server_loop e x msgs)"
proof (rule keepsI)
  fix s assume "I s"
  have msg: "keeps I (server_message e x m)" for m
    unfolding server_message_def
    by (cases m) (auto intro!: keeps_intros keeps_take_chunk [OF x] keeps_frame)
  show "I (fst (server_loop e x msgs s))"
    using \<open>I s\<close>
  proof (induction msgs arbitrary: s)
    case (Cons m ms)
    have "keeps I (sbind (server_message e x m) (\<lambda>continued s1.
        if \<not> continued \<and> c_eof s1 \<and> incoming_files (c_recv s1) = [] then (s1, Inr ()) else server_loop e x ms s1))"
      by (intro keeps_bind msg keepsI) (simp add: Cons.IH)
    from keepsD [where I = I, OF this Cons.prems] show ?case by simp
  qed simp
qed

lemma keeps_finish: "keeps I (finish_session e dir peer addr lp fid n1 n2)"
  unfolding finish_session_def Let_def
proof (rule keeps_update)
  fix s assume "I s"
  from log [OF sync_time [OF this, of fid "e_clock e"], of dir peer addr lp n1 n2 "length (c_conflicts s)" "c_pushed_bytes s" "c_pulled_bytes s"]
  show "I (s\<lparr>c_db := fst (record_session (e_fk e) (e_clock e) dir peer addr lp n1 n2 (length (c_conflicts s))
      (c_pushed_bytes s) (c_pulled_bytes s) (fst (set_folder_last_sync (e_fk e) fid (e_clock e) (c_db s))))\<rparr>)"
    by simp
qed

lemma keeps_sizes [keeps_intros]: "keeps I (sizes_total e' entries)"
  unfolding sizes_total_def by (auto intro!: keeps_intros split: option.split)

lemma keeps_server_transfer:
  "keeps I (server_transfer e root lp local_path fid ridx did label entries msgs)"
proof -
  have "keeps I (\<lambda>s2. finish_session e ''incoming'' label label lp fid (length (c_pulled s2)) (n + length (c_served s2)) s2)" for n
    by (rule keepsI, rule keepsD [OF keeps_finish])
  then show ?thesis unfolding server_transfer_def Let_def
    by (intro keeps_intros keeps_server_loop) simp_all
qed

lemma keeps_client_transfer:
  "keeps I (client_transfer e root local_path addr fid did to_push to_pull ridx tf tb msgs)"
proof -
  have fin: "keeps I (\<lambda>s2. (sbind (finish_session e ''outgoing'' did addr local_path fid
           (length (c_pushed s2)) (length (c_pulled s2))) (\<lambda>_.
         sreturn \<lparr>res_pulled = c_pulled s2, res_pushed = c_pushed s2, res_conflicts = c_conflicts s2,
           res_pulled_bytes = c_pulled_bytes s2, res_pushed_bytes = c_pushed_bytes s2\<rparr>)) s2)"
    by (rule keepsI, rule keepsD) (intro keeps_intros keeps_finish)
  have loop: "keeps I (\<lambda>s1. (sbind (client_loop e x (length (c_pushed s1)) n msgs) k) s1)"
    if "x_root x = root" "x_local_path x = local_path" "\<And>u. keeps I (k u)" for x n and k :: "unit \<Rightarrow> SyncResult sess"
    by (rule keepsI, rule keepsD) (intro keeps_intros keeps_client_loop that)
  show ?thesis unfolding client_transfer_def
    by (intro keeps_intros loop fin) simp_all
qed

end

section \<open>Invariants of the database\<close>

text \<open>Committing a file leaves the database alone, so an invariant of the database needs the three
  kinds of bookkeeping only; for the client also the pinning of the peer's certificate.\<close>

lemma commit_db: "c_db (fst (commit_file e root lp path data w s)) = c_db s"
proof -
  have backup: "keeps (\<lambda>s :: session. c_db s = db) (backup_on_conflict e lp path data w)" for db
  proof (rule keepsI)
    fix s :: session assume "c_db s = db"
    then show "c_db (fst (backup_on_conflict e lp path data w s)) = db"
      by (auto simp: backup_on_conflict_def sbind_def slift_def sreturn_def sfail_def supdate_def emit_def
        split: sum.split option.split)
  qed
  show ?thesis
  proof (cases "root_safe_join (c_fs s) root path")
    case (Inr target)
    show ?thesis
    proof (cases "create_parent (c_fs s) target")
      case (Inr fs1)
      obtain s2 r where b: "backup_on_conflict e lp path data w (s\<lparr>c_fs := fs1\<rparr>) = (s2, r)" by fastforce
      with keepsD [OF backup [of "c_db s"], of "s\<lparr>c_fs := fs1\<rparr>"] have "c_db s2 = c_db s" by simp
      with b Inr \<open>root_safe_join (c_fs s) root path = Inr target\<close> show ?thesis
        by (auto simp: commit_file_def supdate_def sbind_def slift_def split: sum.split prod.split)
    qed (use Inr in \<open>simp add: commit_file_def\<close>)
  qed (simp add: commit_file_def)
qed

locale db_invariant =
  fixes e :: env and J :: "db \<Rightarrow> bool"
  assumes J_history: "J db \<Longrightarrow> J (fst (record_history (e_fk e) (e_clock e) rec db))"
    and J_sync_time: "J db \<Longrightarrow> J (fst (set_folder_last_sync (e_fk e) fid t db))"
    and J_log: "J db \<Longrightarrow> J (fst (record_session (e_fk e) (e_clock e) d p a lp n1 n2 n3 b1 b2 db))"

sublocale db_invariant \<subseteq> steps: session_invariant e root local_path "\<lambda>s. J (c_db s)" for root local_path
  by unfold_locales (simp_all add: J_history J_sync_time J_log commit_db)

context db_invariant
begin

lemma server_session:
  assumes "J (c_db s)"
  shows "J (c_db (fst (handle_server_session e lp fid ridx did label msgs s)))"
proof -
  let ?I = "\<lambda>s. J (c_db s)"
  have served: "keeps ?I (served_root lp ridx)"
    by (rule keepsI) (auto simp: served_root_def split: option.split)
  have "keeps ?I (\<lambda>s1. (sbind (slift SPath (build_protocol_index (e_blake3 e) (c_fs s1) (raw_path served) fid did)) (\<lambda>local_entries.
         sbind (write_msg e (MIndex \<lparr>idx_folder_id = show_int fid, idx_device_id = did,
             idx_remote_path = None, idx_entries = local_entries\<rparr>)) (\<lambda>_.
         sbind (slift SPath (sync_root_open (c_fs s1) (raw_path served))) (\<lambda>root.
           server_transfer e root lp served fid ridx did label local_entries msgs))) s1))" for served
    by (rule keepsI, rule keepsD [where I = ?I])
      (intro keeps_intros steps.keeps_write steps.keeps_server_transfer)
  then have "keeps ?I (handle_server_session e lp fid ridx did label msgs)"
    unfolding handle_server_session_def by (intro keeps_intros served)
  with assms show ?thesis by (simp add: keeps_def)
qed

lemma keeps_check_hello_db: "keeps (\<lambda>s. J (c_db s)) (client_check_hello e peer_cert m)"
  unfolding client_check_hello_def by (cases m) (auto intro!: keeps_intros split: option.split)

lemma keeps_exchange_db:
  "keeps (\<lambda>s. J (c_db s)) (client_exchange e root lp addr fid did dry rp msgs)"
proof (rule keepsI)
  fix s :: session assume s: "J (c_db s)"
  have dry: "keeps (\<lambda>s. J (c_db s)) (client_dry_run e fid plan a b tf tb)" for plan a b tf tb
    unfolding client_dry_run_def by (intro keeps_intros steps.keeps_sizes steps.keeps_progress)
  have idx: "keeps (\<lambda>s. J (c_db s)) (client_index_message m)" for m
    by (cases m) (auto simp: client_index_message_def intro!: keeps_intros)
  show "J (c_db (fst (client_exchange e root lp addr fid did dry rp msgs s)))"
    unfolding client_exchange_def Let_def
    by (rule keepsD [where I = "\<lambda>s. J (c_db s)", OF _ s])
      (auto intro!: keeps_intros idx steps.keeps_write steps.keeps_sizes
        steps.keeps_progress dry steps.keeps_client_transfer split: list.split)
qed

text \<open>A session from the moment its peer is authenticated.\<close>

lemma keeps_after_authentication:
  "keeps (\<lambda>s. J (c_db s)) (\<lambda>s1. (sbind (write_msg e (MHello (client_hello e own fid (c_db s1)))) (\<lambda>_.
     case msgs of
       [] \<Rightarrow> sfail ReadError
     | m # ms \<Rightarrow>
         sbind (client_check_hello e peer m) (\<lambda>_.
           client_exchange e root lp addr fid did dry rp ms)) s1))"
  by (rule keepsI, rule keepsD [where I = "\<lambda>s. J (c_db s)"])
    (auto intro!: keeps_intros steps.keeps_write keeps_check_hello_db keeps_exchange_db split: list.split)

lemma session_after_authentication:
  assumes root: "sync_root_open (c_fs s) (raw_path lp) = Inr root"
    and auth: "J (c_db (fst (client_authenticate e own peer did s)))"
  shows "J (c_db (fst (run_sync_session e own peer lp addr fid did dry rp msgs s)))"
proof -
  obtain s1 r where a: "client_authenticate e own peer did s = (s1, r)" by fastforce
  with auth have "J (c_db s1)" by simp
  show ?thesis
  proof (cases r)
    case (Inr u)
    from keepsD [OF keeps_after_authentication [of own fid peer root lp addr did dry rp msgs], of s1, OF \<open>J (c_db s1)\<close>] show ?thesis
      by (simp add: run_sync_session_def root sbind_def [of "client_authenticate e own peer did"] a Inr)
  qed (simp add: run_sync_session_def root sbind_def [of "client_authenticate e own peer did"] a \<open>J (c_db s1)\<close>)
qed

end

locale pinning_invariant = db_invariant +
  assumes J_pin: "J db \<Longrightarrow> J (fst (set_device_cert (e_fk e) (e_clock e) did c db))"
begin

lemma keeps_authenticate_db: "keeps (\<lambda>s. J (c_db s)) (client_authenticate e own_cert peer_cert did)"
proof (rule keepsI)
  fix s :: session assume s: "J (c_db s)"
  show "J (c_db (fst (client_authenticate e own_cert peer_cert did s)))"
  proof (cases peer_cert)
    case (Some c)
    from J_pin [OF s, of did c] s Some show ?thesis
      by (auto simp: client_authenticate_def split: option.split prod.split sum.split)
  qed (simp add: client_authenticate_def s)
qed

lemma client_session:
  assumes "J (c_db s)"
  shows "J (c_db (fst (run_sync_session e own peer lp addr fid did dry rp msgs s)))"
proof (cases "sync_root_open (c_fs s) (raw_path lp)")
  case (Inl err)
  with assms show ?thesis by (simp add: run_sync_session_def)
next
  case (Inr root)
  from session_after_authentication [OF Inr keepsD [OF keeps_authenticate_db, of s, OF assms]] show ?thesis .
qed

end

end
