(* ===== verification/Session_Confinement.thy ===== *)
theory Session_Confinement
  imports Session_Props
begin

text \<open>
  Confinement of sync sessions: whatever a peer sends, a session changes nothing outside the sync
  root, provided no symbolic link lies below it. The proviso is needed: the temporary file of a
  received file is written without the link check of \<open>safe_join\<close>, and a link of that name leads the
  write out of the root.
\<close>

section \<open>The invariant\<close>

definition linkless :: "fs \<Rightarrow> abspath \<Rightarrow> bool" where
  "linkless fs R \<longleftrightarrow> wf_fs fs \<and> map_of fs R = Some NDir \<and> (\<forall>q. prefix R q \<longrightarrow> \<not> is_link (map_of fs q))"

definition confined :: "fs \<Rightarrow> abspath \<Rightarrow> fs \<Rightarrow> bool" where
  "confined fs0 R fs \<longleftrightarrow> linkless fs R \<and> (\<forall>q. \<not> prefix R q \<longrightarrow> map_of fs q = map_of fs0 q) \<and>
     (\<forall>q. map_of fs0 q = Some NDir \<longrightarrow> map_of fs q = Some NDir)"

lemma confined_refl: "linkless fs R \<Longrightarrow> confined fs R fs"
  by (simp add: confined_def)

lemma confined_root_ok: "confined fs0 (sr_root r) fs \<Longrightarrow> root_ok fs r"
  by (simp add: confined_def linkless_def root_ok_def)

lemma linkless_no_links: "linkless fs R \<Longrightarrow> no_links fs (R @ ns)"
proof -
  assume l: "linkless fs R"
  then have "no_links fs R" using dir_no_links [of fs R NDir] by (simp add: linkless_def)
  then show ?thesis using l unfolding no_links_def linkless_def prefix_append
    by (metis prefixI)
qed

lemma linkless_names: "linkless fs R \<Longrightarrow> \<forall>n \<in> set R. valid_name n"
  using wf_fs_names [of fs "[]" R NDir] by (simp add: linkless_def)

lemma confined_adds:
  assumes c: "confined fs0 R fs" and wf: "wf_fs fs'" and adds: "adds_dirs (R @ ms) fs fs'"
  shows "confined fs0 R fs'"
proof -
  have R: "map_of fs R = Some NDir" and wf0: "wf_fs fs" using c by (auto simp: confined_def linkless_def)
  have new: "map_of fs' q = map_of fs q \<or> map_of fs q = None \<and> map_of fs' q = Some NDir \<and> prefix R q" for q
  proof -
    have "prefix R q" if "prefix q (R @ ms)" "map_of fs q = None"
    proof (rule ccontr)
      assume "\<not> prefix R q"
      with that(1) have "strict_prefix q R" by (auto simp: prefix_append strict_prefix_def)
      then obtain z where "R = q @ z" "z \<noteq> []" by (auto elim: strict_prefixE')
      then have "map_of fs q = Some NDir" using wf_fs_prefix [OF wf0, of q z NDir] R by blast
      with that(2) show False by simp
    qed
    moreover have "map_of fs' q = map_of fs q \<or> map_of fs q = None \<and> map_of fs' q = Some NDir \<and> prefix q (R @ ms)"
      using adds by (simp add: adds_dirs_def)
    ultimately show ?thesis by argo
  qed
  have dirs: "map_of fs q = Some NDir \<Longrightarrow> map_of fs' q = Some NDir" for q using new [of q] by auto
  moreover have "\<not> is_link (map_of fs' q)" if "prefix R q" for q
    using new [of q] c that by (auto simp: confined_def linkless_def)
  moreover have "map_of fs' q = map_of fs0 q" if "\<not> prefix R q" for q
    using new [of q] c that by (auto simp: confined_def)
  ultimately show ?thesis using c wf R by (auto simp: confined_def linkless_def)
qed

text \<open>A change of one path below the root to a file or to nothing, the path not being a directory.\<close>

lemma confined_upd:
  assumes c: "confined fs0 R fs" and wf: "wf_fs fs'"
    and upd: "\<And>q. map_of fs' q = map_of fs q \<or> (prefix R q \<and> map_of fs q \<noteq> Some NDir \<and> \<not> is_link (map_of fs' q))"
  shows "confined fs0 R fs'"
proof -
  have dirs: "map_of fs q = Some NDir \<Longrightarrow> map_of fs' q = Some NDir" for q using upd [of q] by auto
  have out: "map_of fs' q = map_of fs0 q" if "\<not> prefix R q" for q
    using upd [of q] c that by (auto simp: confined_def)
  have "\<not> is_link (map_of fs' q)" if "prefix R q" for q
    using upd [of q] c that by (auto simp: confined_def linkless_def)
  with dirs out c wf show ?thesis by (auto simp: confined_def linkless_def)
qed

lemma confined_insert:
  assumes c: "confined fs0 R fs" and t: "prefix R t" "t \<noteq> []" "map_of fs (butlast t) = Some NDir" "valid_name (last t)"
    and old: "map_of fs t \<noteq> Some NDir"
  shows "confined fs0 R (hm_insert t (NFile d m) fs)"
proof (rule confined_upd [OF c])
  show "wf_fs (hm_insert t (NFile d m) fs)"
    using c t old by (intro wf_fs_insert) (auto simp: confined_def linkless_def)
qed (use t old in \<open>auto simp: hm_simps\<close>)

lemma confined_move:
  assumes c: "confined fs0 R fs" and a: "map_of fs a = Some (NFile d m)" "prefix R a" and ne: "a \<noteq> b"
    and b: "prefix R b" "b \<noteq> []" "map_of fs (butlast b) = Some NDir" "valid_name (last b)" "map_of fs b \<noteq> Some NDir"
  shows "confined fs0 R (fs_move a b fs)"
proof (rule confined_upd [OF c])
  have wf: "wf_fs fs" using c by (simp add: confined_def linkless_def)
  show "wf_fs (fs_move a b fs)" by (rule wf_fs_move_file [OF wf a(1) _ ne b(2-)]) simp
  show "map_of (fs_move a b fs) q = map_of fs q \<or>
      prefix R q \<and> map_of fs q \<noteq> Some NDir \<and> \<not> is_link (map_of (fs_move a b fs) q)" for q
    using map_of_move_file [OF wf a(1) _ ne, of q] a b by auto
qed

lemma confined_remove:
  assumes c: "confined fs0 R fs" and t: "map_of fs t = Some (NFile d m)" "prefix R t"
  shows "confined fs0 R (hm_remove t fs)"
proof (rule confined_upd [OF c])
  show "wf_fs (hm_remove t fs)"
    using c t by (intro wf_fs_remove) (auto simp: confined_def linkless_def)
qed (use t in \<open>auto simp: hm_simps\<close>)

lemma walk_stable:
  assumes "\<And>q. map_of fs q = Some NDir \<Longrightarrow> map_of fs' q = Some NDir"
    and "\<And>q t. map_of fs q = Some (NLink t) \<Longrightarrow> map_of fs' q = Some (NLink t)"
  shows "walk fs n follow cur cs = Found q \<Longrightarrow> map_of fs q = Some NDir \<Longrightarrow> walk fs' n follow cur cs = Found q"
  using assms
proof (induction fs n follow cur cs rule: walk.induct)
  case (2 fs n follow cur c cs)
  have cur: "map_of fs cur = Some NDir" "map_of fs' cur = Some NDir"
    using "2.prems" by (auto split: if_splits)
  show ?case
  proof (cases c)
    case (Normal s)
    show ?thesis
    proof (cases "map_of fs (cur @ [s])")
      case None
      with 2 Normal cur show ?thesis by (simp split: if_splits)
    next
      case (Some nd)
      show ?thesis
      proof (cases nd)
        case (NFile d m)
        with "2.prems" Normal Some cur show ?thesis by (cases cs) auto
      next
        case NDir
        with Some have "map_of fs' (cur @ [s]) = Some NDir" using "2.prems" by blast
        with 2 Normal Some NDir cur show ?thesis by simp
      next
        case (NLink t)
        with Some have link: "map_of fs' (cur @ [s]) = Some (NLink t)" using "2.prems" by blast
        show ?thesis
        proof (cases "cs = [] \<and> \<not> follow")
          case True
          with "2.prems" Normal Some NLink cur show ?thesis by auto
        next
          case False
          with 2 Normal Some NLink cur link show ?thesis by (cases n) (auto split: if_splits)
        qed
      qed
    qed
  qed (use 2 cur in auto)
qed simp

lemma confined_open:
  assumes "confined fs0 R fs" and l0: "linkless fs0 R" and "sync_root_open fs0 p = Inr r" and "sr_root r = R"
  shows "sync_root_open fs p = Inr r"
proof -
  have found: "walk fs0 MAXSYMLINKS True [] p = Found R" and R: "map_of fs0 R = Some NDir"
    using assms(3,4) by (auto simp: sync_root_open_def canonicalize_def split: walk_result.splits if_splits)
  have "map_of fs q = Some (NLink t)" if "map_of fs0 q = Some (NLink t)" for q t
    using assms(1) l0 that unfolding confined_def linkless_def by (metis is_link.simps(1))
  moreover have "map_of fs q = Some NDir" if "map_of fs0 q = Some NDir" for q
    using assms(1) that by (simp add: confined_def)
  ultimately have "walk fs MAXSYMLINKS True [] p = Found R" "map_of fs R = Some NDir"
    using walk_stable [of fs0 fs] found R by auto
  with assms(3,4) show ?thesis by (auto simp: sync_root_open_def canonicalize_def split: walk_result.splits if_splits)
qed

section \<open>Committing a file\<close>

text \<open>A rename of a file below the root to a name below the root.\<close>

lemma walk_below:
  assumes l: "linkless fs R" and tr: "tr = [] \<or> tr = [CurDir]"
  shows "walk fs n follow [] (lit (R @ ns) @ tr) = Found q \<Longrightarrow> tr = [] \<and> q = R @ ns \<or> map_of fs q = Some NDir"
    and "walk fs n follow [] (lit (R @ ns) @ tr) = Missing q \<Longrightarrow> tr = [] \<and> q = R @ ns"
proof -
  have nl: "tr = [] \<Longrightarrow> walk fs n follow [] (lit (R @ ns) @ tr) \<in> {Found (R @ ns), Missing (R @ ns), ENoEnt, ENotDir}"
    using walk_no_links [OF linkless_no_links [OF l, of ns], of n follow] by simp
  have cur: "tr = [CurDir] \<Longrightarrow> walk fs n follow [] (lit (R @ ns) @ tr) = w \<Longrightarrow>
      w \<noteq> Missing q \<and> (w = Found q \<longrightarrow> map_of fs q = Some NDir)" for w
    by (rule walk_curdir) auto
  show "walk fs n follow [] (lit (R @ ns) @ tr) = Found q \<Longrightarrow> tr = [] \<and> q = R @ ns \<or> map_of fs q = Some NDir"
    using nl cur tr by auto
  show "walk fs n follow [] (lit (R @ ns) @ tr) = Missing q \<Longrightarrow> tr = [] \<and> q = R @ ns"
    using nl cur tr by auto
qed

lemma confined_rename:
  assumes c: "confined fs0 R fs" and a: "map_of fs a = Some (NFile d m)" "prefix R a"
    and from_a: "walk fs MAXSYMLINKS False [] from = Found a"
    and to: "to = lit (R @ ns) @ tr" "tr = [] \<or> tr = [CurDir]" "ns \<noteq> []" "valid_name (last ns)"
    and run: "fs_rename fs from to = Some fs'"
  shows "confined fs0 R fs'"
proof -
  have l: "linkless fs R" using c by (simp add: confined_def)
  then have wf: "wf_fs fs" by (simp add: linkless_def)
  have move: "confined fs0 R (fs_move a (R @ ns) fs)"
    if "a \<noteq> R @ ns" "map_of fs (R @ ns) \<noteq> Some NDir" "map_of fs (butlast (R @ ns)) = Some NDir"
    using that to(3,4) by (intro confined_move [OF c a]) auto
  have "path_trim from = from" by (rule path_trim_file [OF from_a]) (simp add: a(1))
  note from_a = from_a this
  consider (found) b where "walk fs MAXSYMLINKS False [] to = Found b"
    | (missing) b where "walk fs MAXSYMLINKS False [] to = Missing b"
    using run a(1) from_a by (auto simp: fs_rename_def split: walk_result.splits)
  then show ?thesis
  proof cases
    case found
    with run a(1) from_a have cs: "a = b \<and> fs' = fs \<or> a \<noteq> b \<and> map_of fs b \<noteq> Some NDir \<and> fs' = fs_move a b fs"
      by (auto simp: fs_rename_def split: if_splits)
    then show ?thesis
    proof
      assume ab: "a \<noteq> b \<and> map_of fs b \<noteq> Some NDir \<and> fs' = fs_move a b fs"
      then have b: "b = R @ ns" using walk_below(1) [OF l to(2)] found to(1) by blast
      obtain nd where "map_of fs b = Some nd" using walk_found_exists [OF found] wf by auto
      moreover have "b = butlast b @ [last b]" using b to(3) by (metis append_butlast_last_id append_is_Nil_conv)
      ultimately have "map_of fs (butlast b @ [last b]) = Some nd" by simp
      then have "map_of fs (butlast b) = Some NDir" by (rule wf_fs_snoc(1) [OF wf])
      with ab b move show ?thesis by auto
    qed (use c in simp)
  next
    case missing
    then have b: "b = R @ ns" using walk_below(2) [OF l to(2)] to(1) by blast
    have "fs' = fs_move a b fs" using run a(1) from_a missing by (auto simp: fs_rename_def split: if_splits)
    moreover have "map_of fs b = None" "map_of fs (butlast b) = Some NDir" using walk_missingD [OF missing] by auto
    moreover from this have "a \<noteq> b" using a(1) by auto
    ultimately show ?thesis using move b by simp
  qed
qed

lemma confined_replace:
  assumes c: "confined fs0 R fs" and t: "ts \<noteq> []" "valid_name (last ts)" "map_of fs (butlast (R @ ts)) = Some NDir"
    and to: "to = lit (R @ ns) @ tr" "tr = [] \<or> tr = [CurDir]" "ns \<noteq> []" "valid_name (last ns)"
    and run: "replace_file now fs (lit (R @ ts)) to data = (fs', res)"
  shows "confined fs0 R fs'"
proof (cases "fs_write fs (lit (R @ ts)) data now")
  case None
  with run c show ?thesis by (simp add: replace_file_def)
next
  case (Some fs1)
  have l: "linkless fs R" using c by (simp add: confined_def)
  then have wf: "wf_fs fs" by (simp add: linkless_def)
  have fs1: "fs1 = hm_insert (R @ ts) (NFile data now) fs" and old: "map_of fs (R @ ts) \<noteq> Some NDir"
    using fs_write_lit [OF wf linkless_no_links [OF l, of ts] _ _ Some] t by auto
  have c1: "confined fs0 R fs1" unfolding fs1 using t old by (intro confined_insert [OF c]) auto
  then have l1: "linkless fs1 R" and wf1: "wf_fs fs1" by (auto simp: confined_def linkless_def)
  have a: "map_of fs1 (R @ ts) = Some (NFile data now)" by (simp add: fs1 hm_simps)
  have w: "walk fs1 MAXSYMLINKS False [] (lit (R @ ts)) = Found (R @ ts)"
    using walk_lit_found [OF wf1, of "[]" "R @ ts"] a by simp
  show ?thesis
  proof (cases "fs_rename fs1 (lit (R @ ts)) to")
    case None
    with run Some a w confined_remove [OF c1 a] c1 show ?thesis
      by (auto simp: replace_file_def fs_remove_file_def split: option.splits)
  next
    case (Some fs2)
    with run \<open>fs_write fs (lit (R @ ts)) data now = Some fs1\<close> have "fs' = fs2" by (simp add: replace_file_def)
    with confined_rename [OF c1 a _ w to Some] show ?thesis by simp
  qed
qed

lemma confined_trans: "confined fs0 R fs1 \<Longrightarrow> confined fs1 R fs2 \<Longrightarrow> confined fs0 R fs2"
  by (simp add: confined_def)

lemma safe_join_eq: "root_safe_join fs r s = Inr j \<Longrightarrow> j = lit (sr_root r) @ raw_path s"
  by (auto simp: root_safe_join_def Let_def result_simps split: if_splits)

lemma valid_name_append:
  "valid_name n \<Longrightarrow> CHR ''/'' \<notin> set x \<Longrightarrow> CHR 0x00 \<notin> set x \<Longrightarrow> 2 < length x \<Longrightarrow> valid_name (n @ x)"
  by (auto simp: valid_name_def append_eq_Cons_conv)

lemma path_file_name_lit:
  "path_file_name (lit (p @ [x])) = Some x" "path_file_name (lit (p @ [x]) @ [CurDir]) = Some x"
  by (simp_all only: path_file_name_def path_trim_lit Let_def) simp_all

lemma append_name_lit: "append_name (lit (p @ [x])) sfx = lit (p @ [x @ sfx])"
  by (simp only: append_name_def path_file_name_lit path_trim_lit option.case) simp

lemma with_extension_lit:
  "tr = [] \<or> tr = [CurDir] \<Longrightarrow>
     with_extension (lit (p @ [x]) @ tr) TEMP_EXTENSION = lit (p @ [file_stem x @ CHR ''.'' # TEMP_EXTENSION])"
  by (elim disjE; simp only: with_extension_def append_Nil2 path_file_name_lit path_trim_lit option.case)
    (simp_all add: TEMP_EXTENSION_def)

lemma set_file_stem: "set (file_stem x) \<subseteq> set x"
proof -
  have "set (tl (dropWhile P (rev x))) \<subseteq> set x" for P
  proof
    fix c assume "c \<in> set (tl (dropWhile P (rev x)))"
    then have "c \<in> set (dropWhile P (rev x))" by (cases "dropWhile P (rev x)") auto
    then show "c \<in> set x" using set_dropWhileD [of c P "rev x"] by simp
  qed
  then show ?thesis by (auto simp: file_stem_def Let_def)
qed

lemma valid_temp: "valid_name x \<Longrightarrow> valid_name (file_stem x @ CHR ''.'' # TEMP_EXTENSION)"
  using set_file_stem [of x] by (auto simp: valid_name_def TEMP_EXTENSION_def append_eq_Cons_conv)

lemma hex_digit_in: "hex_digit n \<in> set ''0123456789abcdef''"
  unfolding hex_digit_def by (rule nth_mem) simp

lemma hex_bytes_chars: "c \<in> {CHR ''/'', CHR 0x00} \<Longrightarrow> c \<notin> set (take n (concat (map hex_byte bs)))"
proof
  assume c: "c \<in> {CHR ''/'', CHR 0x00}" and "c \<in> set (take n (concat (map hex_byte bs)))"
  then have "c \<in> set (concat (map hex_byte bs))" by (rule_tac in_set_takeD)
  then obtain k where "c = hex_digit k" by (auto simp: hex_byte_def)
  with hex_digit_in [of k] c show False by auto
qed

lemma backup_suffix_ok:
  assumes "l \<in> {''local'', ''remote''}"
  shows "CHR ''/'' \<notin> set (backup_suffix e l d) \<and> CHR 0x00 \<notin> set (backup_suffix e l d) \<and> 2 < length (backup_suffix e l d)"
proof -
  have "c \<notin> set (backup_suffix e l d)" if "c \<in> {CHR ''/'', CHR 0x00}" for c
    using that assms hex_bytes_chars [OF that] show_int_chars [OF that]
    by (auto simp: backup_suffix_def CONFLICT_TAG_def)
  then show ?thesis by (auto simp: backup_suffix_def CONFLICT_TAG_def)
qed

lemma backup_confined:
  assumes l: "linkless (c_fs s) R" and opened: "sync_root_open (c_fs s) (raw_path lp) = Inr root" "sr_root root = R"
    and raw: "raw_path path = lit ns @ tr" "tr = [] \<or> tr = [CurDir]" "tr = [] \<Longrightarrow> ns \<noteq> []" "\<forall>n \<in> set ns. valid_name n"
    and run: "backup_on_conflict e lp path data w s = (s', res)"
  shows "confined (c_fs s) R (c_fs s') \<and> (is_ok res \<longrightarrow> ns \<noteq> [])"
proof (cases "root_safe_join (c_fs s) root path")
  case (Inl err)
  with run opened l show ?thesis
    by (auto simp: backup_on_conflict_def sbind_def slift_def confined_refl)
next
  case (Inr target)
  have target: "target = lit (R @ ns) @ tr" using safe_join_eq [OF Inr] raw(1) opened(2) by simp
  have wf: "wf_fs (c_fs s)" and R: "map_of (c_fs s) R = Some NDir" using l by (auto simp: linkless_def)
  have root_dir: "canonicalize (c_fs s) target = Some R \<and> fs_read (c_fs s) target = None" if "ns = []"
  proof -
    have "tr = [CurDir]" using raw that by auto
    then have "walk (c_fs s) MAXSYMLINKS True [] target = Found R"
      using walk_lit_append [OF wf, of "[]" R MAXSYMLINKS True "[CurDir]"] R by (simp add: target that)
    then show ?thesis using R by (simp add: canonicalize_def fs_read_def fs_metadata_def)
  qed
  show ?thesis
  proof (cases "fs_read (c_fs s) target")
    case None
    then have "s' = s \<and> (is_ok res \<longrightarrow> \<not> path_exists (c_fs s) target)"
      using run Inr opened
      by (auto simp: backup_on_conflict_def sbind_def slift_def sreturn_def sfail_def split: if_splits)
    with l root_dir show ?thesis by (auto simp: confined_refl path_exists_def)
  next
    case (Some existing)
    then have ns: "ns \<noteq> []" using root_dir by auto
    from Some obtain q m where can: "canonicalize (c_fs s) target = Some q" and node: "map_of (c_fs s) q = Some (NFile existing m)"
      by (auto simp: fs_read_def fs_metadata_def split: option.splits node.splits)
    then have "walk (c_fs s) MAXSYMLINKS True [] target = Found q"
      by (auto simp: canonicalize_def split: walk_result.splits)
    from walk_below(1) [OF l raw(2) this [unfolded target]] node have q: "tr = []" "q = R @ ns" by auto
    obtain ms x where ms: "ns = ms @ [x]" using ns by (cases ns rule: rev_cases) auto
    define bak where "bak = append_name target (backup_suffix e (loser_of w) data)"
    have sfx: "loser_of w \<in> {''local'', ''remote''}" by (simp add: loser_of_def)
    have bak: "bak = lit (R @ ms @ [x @ backup_suffix e (loser_of w) data])"
      using append_name_lit [of "R @ ms" x] by (simp add: bak_def target q ms)
    have w_target: "walk (c_fs s) MAXSYMLINKS False [] target = Found (R @ ns)"
      using walk_lit_found [OF wf, of "[]" "R @ ns"] node q by (simp add: target)
    have "confined (c_fs s) R fs'" if "fs_rename (c_fs s) target bak = Some fs'" for fs'
      using valid_name_append [of x "backup_suffix e (loser_of w) data"] backup_suffix_ok [OF sfx, of e data] raw(4)
      by (intro confined_rename [OF confined_refl [OF l] node _ _ _ _ _ _ that, of "ms @ [x @ backup_suffix e (loser_of w) data]" "[]"])
        (auto simp: q w_target [unfolded q] bak ms)
    with run Inr opened Some l ns show ?thesis
      by (auto simp: backup_on_conflict_def sbind_def slift_def sreturn_def sfail_def supdate_def emit_def confined_refl
        bak_def split: if_splits option.splits)
  qed
qed

lemma create_parent_confined:
  assumes l: "linkless fs R" and ns: "\<forall>n \<in> set ns. valid_name n" and tr: "tr = [] \<or> tr = [CurDir]" "tr = [] \<Longrightarrow> ns \<noteq> []"
    and run: "create_parent fs (lit (R @ ns) @ tr) = Inr fs1"
  shows "confined fs R fs1 \<and> (ns \<noteq> [] \<longrightarrow> map_of fs1 (R @ butlast ns) = Some NDir)"
proof -
  have wf: "wf_fs fs" using l by (simp add: linkless_def)
  have mk: "wf_fs fs1 \<and> map_of fs1 p = Some NDir \<and> adds_dirs p fs fs1"
    if "create_dir_all fs (lit p) = Some fs1" "prefix p (R @ ns)" for p
  proof (rule create_dir_all_no_links [OF wf _ _ that(1)])
    show "no_links fs p" by (rule no_links_prefix [OF linkless_no_links [OF l] that(2)])
    show "\<forall>n \<in> set p. valid_name n"
      using that(2) ns linkless_names [OF l] by (auto simp: prefix_def) (metis Un_iff set_append)
  qed
  have up: "adds_dirs (R @ ms) fs fs1" if "adds_dirs p fs fs1" "prefix p (R @ ms)" for p ms
    using that unfolding adds_dirs_def by (meson prefix_order.trans)
  show ?thesis
  proof (cases ns rule: rev_cases)
    case (snoc ms x)
    then have "path_parent (lit (R @ ns) @ tr) = Some (lit (R @ ms))"
      using path_parent_lit [of "R @ ms" x] tr(1) by (elim disjE) simp_all
    then have "create_dir_all fs (lit (R @ ms)) = Some fs1"
      using run by (simp add: create_parent_def opt_res_def split: option.splits)
    from mk [OF this] snoc have m: "wf_fs fs1" "map_of fs1 (R @ ms) = Some NDir" "adds_dirs (R @ ms) fs fs1" by auto
    from confined_adds [OF confined_refl [OF l] m(1,3)] m(2) show ?thesis by (simp add: snoc)
  next
    case Nil
    with tr have tr': "tr = [CurDir]" by auto
    show ?thesis
    proof (cases R rule: rev_cases)
      case Nil
      then have "fs1 = fs" using run by (simp add: \<open>ns = []\<close> tr' create_parent_def)
      then show ?thesis using confined_refl [OF l] by (simp add: \<open>ns = []\<close>)
    next
      case (snoc R' x)
      then have "create_dir_all fs (lit R') = Some fs1"
        using run path_parent_lit(2) [of R' x]
        by (simp add: \<open>ns = []\<close> tr' create_parent_def opt_res_def split: option.splits)
      from mk [OF this] snoc have m: "wf_fs fs1" "adds_dirs R' fs fs1" by auto
      have "adds_dirs (R @ []) fs fs1" by (rule up [OF m(2)]) (simp add: snoc)
      from confined_adds [OF confined_refl [OF l] m(1) this] show ?thesis by (simp add: \<open>ns = []\<close>)
    qed
  qed
qed

lemma commit_confined:
  assumes l: "linkless (c_fs s) R" and opened: "sync_root_open (c_fs s) (raw_path lp) = Inr root" "sr_root root = R"
  shows "confined (c_fs s) R (c_fs (fst (commit_file e root lp path data w s)))"
proof (cases "root_safe_join (c_fs s) root path")
  case (Inl err)
  then show ?thesis using confined_refl [OF l] by (simp add: commit_file_def sbind_def slift_def)
next
  case (Inr target)
  have rok: "root_ok (c_fs s) root" using confined_root_ok [of "c_fs s" root] confined_refl [OF l] opened(2) by simp
  obtain ns tr where target: "target = lit (R @ ns) @ tr" and raw: "raw_path path = lit ns @ tr" "tr = [] \<or> tr = [CurDir]"
      "tr = [] \<Longrightarrow> ns \<noteq> []" "\<forall>n \<in> set ns. valid_name n"
    by (rule safe_join_shape [OF rok Inr]) (use opened(2) in blast)
  show ?thesis
  proof (cases "create_parent (c_fs s) target")
    case (Inl err)
    then show ?thesis using confined_refl [OF l] Inr by (simp add: commit_file_def sbind_def slift_def)
  next
    case (Inr fs1)
    have c1: "confined (c_fs s) R fs1" and dir: "ns \<noteq> [] \<longrightarrow> map_of fs1 (R @ butlast ns) = Some NDir"
      using create_parent_confined [OF l raw(4,2,3), of fs1] Inr by (simp_all add: target)
    define s1 where "s1 = s\<lparr>c_fs := fs1\<rparr>"
    have l1: "linkless (c_fs s1) R" using c1 by (simp add: s1_def confined_def)
    have opened1: "sync_root_open (c_fs s1) (raw_path lp) = Inr root"
      using confined_open [OF c1 l opened] by (simp add: s1_def)
    obtain s2 res where b: "backup_on_conflict e lp path data w s1 = (s2, res)" by fastforce
    from backup_confined [OF l1 opened1 opened(2) raw b] have c2: "confined fs1 R (c_fs s2)"
      and ne: "is_ok res \<Longrightarrow> ns \<noteq> []" by (auto simp: s1_def)
    have c12: "confined (c_fs s) R (c_fs s2)" by (rule confined_trans [OF c1 c2])
    show ?thesis
    proof (cases res)
      case (Inl err)
      then show ?thesis using c12 b \<open>root_safe_join (c_fs s) root path = Inr target\<close> Inr
        by (simp add: commit_file_def sbind_def slift_def supdate_def s1_def)
    next
      case ok: (Inr conflicted)
      then obtain ms x where ms: "ns = ms @ [x]" using ne by (cases ns rule: rev_cases) auto
      define tmp where "tmp = ms @ [file_stem x @ CHR ''.'' # TEMP_EXTENSION]"
      have t: "with_extension target TEMP_EXTENSION = lit (R @ tmp)"
        using with_extension_lit [OF raw(2), of "R @ ms" x] by (simp add: target ms tmp_def)
      obtain fs2 r where rep: "replace_file (e_clock e) (c_fs s2) (lit (R @ tmp)) target data = (fs2, r)" by fastforce
      have dir2: "map_of (c_fs s2) (butlast (R @ tmp)) = Some NDir"
        using c2 dir by (simp add: tmp_def ms butlast_append confined_def)
      have "confined (c_fs s) R fs2"
        by (rule confined_replace [OF c12 _ _ dir2 target raw(2) _ _ rep])
          (use raw(4) valid_temp [of x] in \<open>auto simp: ms tmp_def\<close>)
      then show ?thesis using b ok \<open>root_safe_join (c_fs s) root path = Inr target\<close> Inr rep
        by (simp add: commit_file_def sbind_def slift_def supdate_def s1_def t split: sum.split)
    qed
  qed
qed

section \<open>Sessions\<close>

definition below_root :: "fs \<Rightarrow> SyncRoot \<Rightarrow> string \<Rightarrow> session \<Rightarrow> bool" where
  "below_root fs0 root lp s \<longleftrightarrow> linkless fs0 (sr_root root) \<and> sync_root_open fs0 (raw_path lp) = Inr root \<and>
     confined fs0 (sr_root root) (c_fs s)"

lemma below_root_fs: "below_root fs0 root lp s \<Longrightarrow> c_fs s' = c_fs s \<Longrightarrow> below_root fs0 root lp s'"
  by (simp add: below_root_def)

interpretation confinement: session_invariant e root lp "below_root fs0 root lp" for e root lp fs0
proof
  fix s path data w
  assume b: "below_root fs0 root lp s"
  then have c: "confined fs0 (sr_root root) (c_fs s)" and l0: "linkless fs0 (sr_root root)"
    and o0: "sync_root_open fs0 (raw_path lp) = Inr root" by (auto simp: below_root_def)
  have "linkless (c_fs s) (sr_root root)" using c by (simp add: confined_def)
  from commit_confined [OF this confined_open [OF c l0 o0 refl] refl] confined_trans [OF c]
  show "below_root fs0 root lp (fst (commit_file e root lp path data w s))"
    using l0 o0 by (simp add: below_root_def)
qed (auto simp: below_root_def)

lemma keeps_authenticate: "keeps (below_root fs0 root lp) (client_authenticate e own peer did)"
  by (rule keepsI) (auto simp: client_authenticate_def below_root_def split: option.split prod.split sum.split)

lemma keeps_check_hello: "keeps I (client_check_hello e peer m)"
  unfolding client_check_hello_def by (cases m) (auto intro!: keeps_intros split: option.split)

lemma keeps_index_message: "keeps I (client_index_message m)"
  unfolding client_index_message_def by (cases m) (auto intro!: keeps_intros)

lemma keeps_dry_run: "keeps (below_root fs0 root lp) (client_dry_run e fid plan a b tf tb)"
  unfolding client_dry_run_def by (intro keeps_intros confinement.keeps_sizes confinement.keeps_progress)

lemma keeps_exchange:
  "keeps (below_root fs0 root lp) (client_exchange e root lp addr fid did dry rp msgs)"
proof (rule keepsI)
  fix s assume s: "below_root fs0 root lp s"
  show "below_root fs0 root lp (fst (client_exchange e root lp addr fid did dry rp msgs s))"
    unfolding client_exchange_def Let_def
    by (rule keepsD [where I = "below_root fs0 root lp", OF _ s])
      (auto intro!: keeps_intros confinement.keeps_write keeps_index_message confinement.keeps_sizes
        confinement.keeps_progress keeps_dry_run confinement.keeps_client_transfer split: list.split)
qed

lemma client_below_root:
  assumes b: "below_root fs0 root lp s"
  shows "below_root fs0 root lp (fst (run_sync_session e own peer lp addr fid did dry rp msgs s))"
proof -
  have "sync_root_open (c_fs s) (raw_path lp) = Inr root"
    using b confined_open [of fs0 "sr_root root" "c_fs s" "raw_path lp" root] by (simp add: below_root_def)
  moreover have "keeps (below_root fs0 root lp) (sbind (client_authenticate e own peer did) (\<lambda>_ s1.
      (sbind (write_msg e (MHello (client_hello e own fid (c_db s1)))) (\<lambda>_.
       case msgs of
         [] \<Rightarrow> sfail ReadError
       | m # ms \<Rightarrow>
           sbind (client_check_hello e peer m) (\<lambda>_.
             client_exchange e root lp addr fid did dry rp ms)) s1)))"
  proof (intro keeps_bind keeps_authenticate keepsI)
    fix s1 assume s1: "below_root fs0 root lp s1"
    show "below_root fs0 root lp (fst (sbind (write_msg e (MHello (client_hello e own fid (c_db s1)))) (\<lambda>_.
       case msgs of
         [] \<Rightarrow> sfail ReadError
       | m # ms \<Rightarrow>
           sbind (client_check_hello e peer m) (\<lambda>_.
             client_exchange e root lp addr fid did dry rp ms)) s1))"
      by (rule keepsD [where I = "below_root fs0 root lp", OF _ s1])
        (auto intro!: keeps_intros confinement.keeps_write keeps_check_hello keeps_exchange split: list.split)
  qed
  note keepsD [OF this b]
  ultimately show ?thesis by (simp add: run_sync_session_def)
qed

lemma server_below_root:
  assumes b: "below_root fs0 root lp s" and rp: "\<forall>rp. idx_remote_path ridx = Some rp \<longrightarrow> is_blank rp"
  shows "below_root fs0 root lp (fst (handle_server_session e lp fid ridx did label msgs s))"
proof -
  have opened: "sync_root_open (c_fs s) (raw_path lp) = Inr root"
    using b confined_open [of fs0 "sr_root root" "c_fs s" "raw_path lp" root] by (simp add: below_root_def)
  have served: "served_root lp ridx s = (s, Inr lp)"
    using rp by (auto simp: served_root_def split: option.split)
  have "keeps (below_root fs0 root lp)
     (sbind (slift SPath (build_protocol_index (e_blake3 e) (c_fs s) (raw_path lp) fid did)) (\<lambda>local_entries.
         sbind (write_msg e (MIndex \<lparr>idx_folder_id = show_int fid, idx_device_id = did,
             idx_remote_path = None, idx_entries = local_entries\<rparr>)) (\<lambda>_.
         sbind (slift SPath (sync_root_open (c_fs s) (raw_path lp))) (\<lambda>root'.
           server_transfer e root' lp lp fid ridx did label local_entries msgs))))"
    unfolding opened
    by (intro keeps_bind keeps_lift confinement.keeps_write keepsI)
      (auto simp: sbind_def slift_def intro: keepsD [OF confinement.keeps_server_transfer])
  from keepsD [OF this b] b served show ?thesis
    by (simp add: handle_server_session_def sbind_def [of "served_root lp ridx"] sfail_def)
qed

text \<open>What a session shows: the file system, the messages written and its result.\<close>

definition visible :: "session \<times> (session_error + 'a) \<Rightarrow> fs \<times> SyncMessage list \<times> (session_error + 'a)" where
  "visible r = (c_fs (fst r), c_out (fst r), snd r)"

lemma visible_bind:
  "(\<And>x s. visible (f x s) = visible (g x s)) \<Longrightarrow> visible (sbind m f s) = visible (sbind m g s)"
  by (cases "m s") (auto simp: sbind_def visible_def split: sum.split)

lemma visible_finish: "visible (finish_session e d p a lp fid n1 n2 s) = (c_fs s, c_out s, Inr ())"
  by (simp add: finish_session_def supdate_def visible_def Let_def)

lemma visible_transfer:
  "visible (server_transfer e root lp served fid ridx did label entries msgs s) =
   visible (server_transfer e root lp' served fid ridx did label entries msgs s)"
  unfolding server_transfer_def Let_def by (intro visible_bind) (simp add: visible_finish)

section \<open>Properties\<close>


definition example_env :: env where
  "example_env = \<lparr>e_blake3 = (\<lambda>d. d), e_show_uuid = (\<lambda>d. ''u''), e_set_iter = (\<lambda>x. x), e_checks = True,
     e_fk = False, e_clock = 5, e_encode = (\<lambda>m. Some [])\<rparr>"

definition plain_fs :: fs where
  "plain_fs = [([], NDir), ([''sync''], NDir), ([''etc''], NDir), ([''etc'', ''x''], NFile [1] 0)]"

definition example_push :: "string \<Rightarrow> bytes \<Rightarrow> SyncMessage list" where
  "example_push path data =
     [MFileChunk \<lparr>ch_folder_id = ''1'', ch_path = path, ch_offset = 0, ch_data = data,
        ch_total_size = word_of_nat (length data)\<rparr>, ack [] True None]"

definition empty_index :: "string option \<Rightarrow> Index" where
  "empty_index rp = \<lparr>idx_folder_id = ''1'', idx_device_id = ''peer'', idx_remote_path = rp, idx_entries = []\<rparr>"


text \<open>C33. The peer chooses the serving root: a session whose index names an existing directory as
  remote path changes the file system and answers the peer exactly as if that directory were the
  folder the server registered.\<close>

theorem peer_chooses_root:
  assumes rp: "idx_remote_path ridx = Some rp" "\<not> is_blank rp"
    and dir: "create_dir_all (c_fs s) (raw_path rp) = Some (c_fs s)"
  shows "visible (handle_server_session e lp fid ridx did label msgs s) =
    visible (handle_server_session e rp fid (ridx\<lparr>idx_remote_path := None\<rparr>) did label msgs s)"
proof -
  let ?ridx = "ridx\<lparr>idx_remote_path := None\<rparr>"
  have served: "served_root lp ridx s = (s, Inr rp)" "served_root rp ?ridx s = (s, Inr rp)"
    using rp dir by (simp_all add: served_root_def)
  have snap: "index_to_snapshot ?ridx fid = index_to_snapshot ridx fid"
    by (simp add: index_to_snapshot_def)
  have tr: "server_transfer e root rp rp fid ?ridx did label entries msgs =
      server_transfer e root rp rp fid ridx did label entries msgs" for root entries
    by (simp add: server_transfer_def session_plan_def snap)
  show ?thesis
  proof (cases "MAX_INDEX_ENTRIES < length (idx_entries ridx)")
    case True
    then show ?thesis by (simp add: handle_server_session_def)
  next
    case False
    then show ?thesis
      unfolding handle_server_session_def
      by (simp add: sbind_def [of "served_root _ _"] served tr cong: if_cong)
        (intro visible_bind visible_transfer)
  qed
qed

theorem peer_chooses_root_witness:
  "visible (handle_server_session example_env ''/sync'' 1 (empty_index (Some ''/etc'')) ''me'' ''peer''
      (example_push ''b'' [7]) (session_start plain_fs db_empty)) =
   visible (handle_server_session example_env ''/etc'' 1 (empty_index None) ''me'' ''peer''
      (example_push ''b'' [7]) (session_start plain_fs db_empty))"
proof -
  have "idx_remote_path (empty_index (Some ''/etc'')) = Some ''/etc''" "\<not> is_blank ''/etc''"
    by (simp_all add: empty_index_def is_blank_def)
  moreover have "create_dir_all (c_fs (session_start plain_fs db_empty)) (raw_path ''/etc'') = Some (c_fs (session_start plain_fs db_empty))"
    by code_simp
  ultimately show ?thesis
    using peer_chooses_root [of "empty_index (Some ''/etc'')" "''/etc''" "session_start plain_fs db_empty" example_env "''/sync''" 1 "''me''" "''peer''" "example_push ''b'' [7]"]
    by (simp add: empty_index_def)
qed

text \<open>The proviso on links is needed as well: the temporary file of a received file is not passed
  through \<open>safe_join\<close>, so a link that bears its name leads the write out of the root.\<close>

theorem temp_link_escapes:
  "map_of (c_fs (fst (commit_file example_env \<lparr>sr_root = [''sync'']\<rparr> ''/sync'' ''a'' [7] ''remote''
     (session_start (([''sync'', ''a..ferrisync-tmp''], NLink ''/etc/x'') # plain_fs) db_empty))))
     [''etc'', ''x''] = Some (NFile [7] 5)"
  by code_simp

end
