(* ===== verification/Listener.thy ===== *)
theory Listener
  imports Session_Confinement
begin

text \<open>
  The listener of a folder server (\<open>listen_for_sync\<close> in \<open>sync_engine/session.rs\<close>): what one
  incoming connection does, from the hello to the session, and the runs of a server, in which
  connections interleave with the operator's decisions. A connection is given by the certificate
  the peer presented, the address it came from and the messages it sends. The TLS handshake, the
  limit on concurrent connections and the accept loop itself are not modelled; connections are
  taken one after the other.
\<close>

section \<open>One connection\<close>

record server_cfg =
  v_env :: env
  v_policy :: PairPolicy
  v_device :: DeviceInfo
  v_own_cert :: bytes
  v_local_path :: string
  v_folder_id :: i64

record server =
  v_fs :: fs
  v_db :: db
  v_gate :: PairGateInner
  v_out :: "SyncMessage list"
  v_events :: "SyncEvent list"

definition DEFAULT_PORT :: nat where
  "DEFAULT_PORT = 9847"

text \<open>An answer is written when it can be framed; write errors are ignored.\<close>

definition reply :: "env \<Rightarrow> SyncMessage \<Rightarrow> server \<Rightarrow> server" where
  "reply e m sv = (case frame_message (e_encode e) m of Inl _ \<Rightarrow> sv | Inr _ \<Rightarrow> sv\<lparr>v_out := v_out sv @ [m]\<rparr>)"

definition derived_id :: "env \<Rightarrow> bytes \<Rightarrow> string" where
  "derived_id e cert = cert_to_device_id (e_blake3 e) (e_show_uuid e) cert"

definition on_pair_request :: "server_cfg \<Rightarrow> bytes option \<Rightarrow> string option \<Rightarrow> PairRequest \<Rightarrow> server \<Rightarrow> server" where
  "on_pair_request cfg peer_cert peer_ip req sv =
     (let e = v_env cfg;
          did = (case peer_cert of Some c \<Rightarrow> derived_id e c | None \<Rightarrow> preq_device_id req);
          (gate', evs, admission) =
            admit (e_blake3 e) (v_policy cfg) did (preq_device_name req) peer_cert (v_db sv) (v_gate sv);
          (accepted, reason) = (case admission of
              Accept \<Rightarrow> (True, None) | Hold \<Rightarrow> (False, Some PENDING_REASON) | Deny \<Rightarrow> (False, Some DENIED_REASON));
          sv1 = reply e (MPairResponse \<lparr>presp_accepted = accepted, presp_device_id = di_id (v_device cfg),
              presp_device_name = di_name (v_device cfg),
              presp_cert_fingerprint = di_cert_fingerprint (v_device cfg), presp_reason = reason\<rparr>)
            (sv\<lparr>v_gate := gate', v_events := v_events sv @ evs\<rparr>)
      in if \<not> accepted then sv1
         else
           (let (db1, r) = upsert_device (e_fk e) (e_clock e) did (preq_device_name req) peer_cert None (v_db sv1);
                sv2 = sv1\<lparr>v_db := db1, v_events := v_events sv1 @
                  (case r of Inl _ \<Rightarrow> [] | Inr _ \<Rightarrow> paired (preq_device_name req) did)\<rparr>
            in case peer_ip of
                 None \<Rightarrow> sv2
               | Some ip \<Rightarrow> sv2\<lparr>v_db := fst (set_device_last_addr (e_fk e) did
                   (ip @ '':'' @ show_nat DEFAULT_PORT) (v_db sv2))\<rparr>))"

definition on_index ::
  "server_cfg \<Rightarrow> bytes option \<Rightarrow> string \<Rightarrow> Index \<Rightarrow> SyncMessage list \<Rightarrow> server \<Rightarrow> server" where
  "on_index cfg peer_cert label idx msgs sv =
     (case peer_cert of
        None \<Rightarrow> sv
      | Some cert \<Rightarrow>
          (case get_device_by_cert_fingerprint (e_blake3 (v_env cfg)) (v_db sv) (e_blake3 (v_env cfg) cert) of
             None \<Rightarrow> sv
           | Some peer_device \<Rightarrow>
               (let (s, _) = handle_server_session (v_env cfg) (v_local_path cfg) (v_folder_id cfg) idx
                      (di_id (v_device cfg)) label msgs (session_start (v_fs sv) (v_db sv))
                in sv\<lparr>v_fs := c_fs s, v_db := c_db s, v_out := v_out sv @ c_out s,
                      v_events := v_events sv @ c_events s\<rparr>)))"

definition exposed :: "share_row \<Rightarrow> bool" where
  "exposed r \<longleftrightarrow> sh_discoverable r \<and> sh_enabled r"

definition on_list_shared :: "server_cfg \<Rightarrow> server \<Rightarrow> server" where
  "on_list_shared cfg sv =
     reply (v_env cfg) (MSharedFolders (map (\<lambda>r. shared_folder_info_new (sh_guid r) (sh_name r) ''both'' (sh_local_path r))
       (filter exposed (list_shared_folders (v_db sv) (di_id (v_device cfg)))))) sv"

definition on_request_folder_pair ::
  "server_cfg \<Rightarrow> bytes option \<Rightarrow> RemoteFolderPairRequest \<Rightarrow> server \<Rightarrow> server" where
  "on_request_folder_pair cfg peer_cert req0 sv =
     (let e = v_env cfg;
          req = (case peer_cert of Some c \<Rightarrow> req0\<lparr>rfr_device_id := derived_id e c\<rparr> | None \<Rightarrow> req0);
          owner = di_id (v_device cfg)
      in case shared_folder_by_guid (v_db sv) owner (rfr_folder_guid req) of
           None \<Rightarrow> reply e (MFolderPairRejected ''unknown or not shared folder'') sv
         | Some share \<Rightarrow>
             if \<not> exposed share then reply e (MFolderPairRejected ''unknown or not shared folder'') sv
             else
               (let (db', gate', outcome) = request_folder_pair (e_fk e) (e_clock e) req owner (sh_local_path share)
                      (v_db sv) (v_gate sv);
                    sv1 = sv\<lparr>v_db := db', v_gate := gate'\<rparr>
                in case outcome of
                     FApproved grant \<Rightarrow> reply e (MFolderPairApproved grant) sv1
                   | FRejected \<Rightarrow> reply e (MFolderPairRejected ''denied'') sv1
                   | FPending \<Rightarrow> reply e MFolderPairPending
                       (sv1\<lparr>v_events := v_events sv1 @
                         [FolderPairRequested (rfr_device_name req) (rfr_device_id req) (rfr_folder_guid req)]\<rparr>)))"

definition dispatch ::
  "server_cfg \<Rightarrow> bytes option \<Rightarrow> string option \<Rightarrow> string \<Rightarrow> SyncMessage \<Rightarrow> SyncMessage list \<Rightarrow> server \<Rightarrow> server" where
  "dispatch cfg peer_cert peer_ip label msg msgs sv =
     (case msg of
        MPairRequest req \<Rightarrow> on_pair_request cfg peer_cert peer_ip req sv
      | MIndex idx \<Rightarrow> on_index cfg peer_cert label idx msgs sv
      | MListSharedFolders \<Rightarrow> on_list_shared cfg sv
      | MRequestFolderPair req \<Rightarrow> on_request_folder_pair cfg peer_cert req sv
      | _ \<Rightarrow> sv)"

definition server_hello :: "server_cfg \<Rightarrow> db \<Rightarrow> Hello" where
  "server_hello cfg db =
     (let e = v_env cfg in
      hello_from_device
        \<lparr>di_id = derived_id e (v_own_cert cfg), di_name = di_name (v_device cfg),
         di_cert_fingerprint = di_cert_fingerprint (v_device cfg)\<rparr>
        (e_blake3 e (v_own_cert cfg))
        [\<lparr>hf_id = show_int (v_folder_id cfg), hf_name = listed_path db (v_folder_id cfg), hf_direction = ''both''\<rparr>])"

definition hello_accepted :: "env \<Rightarrow> bytes option \<Rightarrow> Hello \<Rightarrow> bool" where
  "hello_accepted e peer_cert h \<longleftrightarrow> is_ok (hello_validate h) \<and>
     (case peer_cert of None \<Rightarrow> True | Some c \<Rightarrow> hello_device_id h = derived_id e c)"

definition connection ::
  "server_cfg \<Rightarrow> bytes option \<Rightarrow> string option \<Rightarrow> string \<Rightarrow> SyncMessage list \<Rightarrow> server \<Rightarrow> server" where
  "connection cfg peer_cert peer_ip label msgs sv =
     (case msgs of
        [] \<Rightarrow> sv
      | MHello h # rest \<Rightarrow>
          if \<not> hello_accepted (v_env cfg) peer_cert h then sv
          else
            (let sv1 = reply (v_env cfg) (MHello (server_hello cfg (v_db sv))) sv in
             case rest of
               [] \<Rightarrow> sv1
             | m # ms \<Rightarrow> dispatch cfg peer_cert peer_ip label m ms sv1)
      | m # ms \<Rightarrow> dispatch cfg peer_cert peer_ip label m ms sv)"

section \<open>Runs of a server\<close>

datatype server_event =
    Connected "bytes option" "string option" string "SyncMessage list"
  | Approve string string
  | DenyDevice string
  | ApproveFolder string string string string "string option"
  | DenyFolder string string

definition handle_of :: "server_cfg \<Rightarrow> server \<Rightarrow> ServeHandle" where
  "handle_of cfg sv = \<lparr>srv_folder = v_local_path cfg, srv_port = 0, srv_owner_id = di_id (v_device cfg),
     srv_gate = Some (v_gate sv)\<rparr>"

definition gate_of :: "server \<Rightarrow> ServeHandle \<Rightarrow> PairGateInner" where
  "gate_of sv h = (case srv_gate h of None \<Rightarrow> v_gate sv | Some g \<Rightarrow> g)"

fun server_step :: "server_cfg \<Rightarrow> server \<Rightarrow> server_event \<Rightarrow> server" where
  "server_step cfg sv (Connected cert ip label msgs) = connection cfg cert ip label msgs sv"
| "server_step cfg sv (Approve did name) =
     (case approve_pairing (e_fk (v_env cfg)) (e_clock (v_env cfg)) did name (handle_of cfg sv) (v_db sv) of
        (h, db', _) \<Rightarrow> sv\<lparr>v_db := db', v_gate := gate_of sv h\<rparr>)"
| "server_step cfg sv (DenyDevice did) =
     sv\<lparr>v_gate := gate_of sv (fst (deny_pairing did (handle_of cfg sv)))\<rparr>"
| "server_step cfg sv (ApproveFolder did guid name lp rp) =
     (case approve_folder_pairing (e_fk (v_env cfg)) (e_clock (v_env cfg)) did guid name lp rp (handle_of cfg sv) (v_db sv) of
        (h, db', _) \<Rightarrow> sv\<lparr>v_db := db', v_gate := gate_of sv h\<rparr>)"
| "server_step cfg sv (DenyFolder did guid) =
     sv\<lparr>v_gate := gate_of sv (fst (deny_folder_pairing did guid (handle_of cfg sv)))\<rparr>"

end
