(* ===== verification/Listener_Props.thy ===== *)
theory Listener_Props
  imports Listener
begin

text \<open>
  Properties of a server over its runs: who is served. The locale \<open>trust\<close> states how trust spreads
  in a system that grants it by certain events only; it is interpreted on the server, whose grants
  are the operator's approvals of held certificates.
\<close>

section \<open>Systems that grant trust\<close>

locale trust =
  fixes step :: "'s \<Rightarrow> 'ev \<Rightarrow> 's" and trusted :: "'s \<Rightarrow> 'id \<Rightarrow> bool" and grants :: "'s \<Rightarrow> 'ev \<Rightarrow> 'id \<Rightarrow> bool"
  assumes only_granted: "trusted (step s ev) i \<Longrightarrow> trusted s i \<or> grants s ev i"
begin

lemma trusted_by_grant:
  "trusted (foldl step s evs) i \<Longrightarrow>
     trusted s i \<or> (\<exists>before ev after. evs = before @ ev # after \<and> grants (foldl step s before) ev i)"
proof (induction evs rule: rev_induct)
  case (snoc ev evs)
  from only_granted [of "foldl step s evs" ev i] snoc.prems
  consider "trusted (foldl step s evs) i" | "grants (foldl step s evs) ev i" by auto
  then show ?case
  proof cases
    case 1
    from snoc.IH [OF this] show ?thesis by (metis append.assoc append_Cons)
  next
    case 2
    then show ?thesis by blast
  qed
qed simp

lemma untrusted_run:
  "\<not> trusted s i \<Longrightarrow> (\<And>before ev after. evs = before @ ev # after \<Longrightarrow> \<not> grants (foldl step s before) ev i) \<Longrightarrow>
     \<not> trusted (foldl step s evs) i"
  using trusted_by_grant by metis

end

section \<open>Pinned certificates\<close>

lemma pinned_stmt_cong: "t_devices db' = t_devices db \<Longrightarrow> pinned (fst (stmt fk db db')) = pinned db"
  by (simp add: stmt_def pinned_def)

lemma pinned_bind:
  "pinned (fst r) \<subseteq> P \<Longrightarrow> (\<And>db x. pinned db \<subseteq> P \<Longrightarrow> pinned (fst (f db x)) \<subseteq> P) \<Longrightarrow> pinned (fst (db_bind r f)) \<subseteq> P"
  by (cases r) (auto simp: db_bind_def split: sum.split)

lemma pinned_history: "pinned (fst (record_history fk now rec db)) = pinned db"
  unfolding record_history_def by (rule pinned_stmt_cong) simp

lemma pinned_sync_time: "pinned (fst (set_folder_last_sync fk fid t db)) = pinned db"
  unfolding set_folder_last_sync_def by (rule pinned_stmt_cong) (simp add: update_folder_def)

lemma pinned_log: "pinned (fst (record_session fk now d p a lp n1 n2 n3 b1 b2 db)) \<subseteq> pinned db"
  unfolding record_session_def by (rule pinned_bind) (simp_all add: pinned_stmt_cong)

lemma pinned_last_addr: "pinned (fst (set_device_last_addr fk did a db)) \<subseteq> pinned db"
proof -
  have "pinned (db\<lparr>t_devices := map (\<lambda>d. if d_id d = did then d\<lparr>d_last_addr := Some a\<rparr> else d) (t_devices db)\<rparr>) \<subseteq> pinned db"
    by (auto simp: pinned_def split: if_splits)
  then show ?thesis unfolding set_device_last_addr_def
    using stmt_fst by (metis (no_types, lifting) order_refl)
qed

lemma pinned_ensure_folder: "pinned (fst (ensure_folder_by_guid fk guid lp name did db)) \<subseteq> pinned db"
proof (cases "folder_by_guid db guid")
  case None
  have "pinned (fst (stmt fk db (insert_folder lp name did ''bidirectional'' guid db))) \<subseteq> pinned db"
    by (simp add: pinned_stmt_cong insert_folder_def)
  with None show ?thesis unfolding ensure_folder_by_guid_def by (simp add: pinned_bind)
qed (simp add: ensure_folder_by_guid_def)

lemma pinned_add_pair: "pinned (fst (add_folder_device fk fid did mode rp db)) = pinned db"
  unfolding add_folder_device_def by (rule pinned_stmt_cong) (simp add: upsert_pair_def)

lemma pinned_approve_folder:
  "pinned (fst (approve_folder_pair fk now owner did guid name lp rp db inner)) \<subseteq> pinned db"
proof -
  have "pinned (fst (db_bind (upsert_device fk now did name None None db) (\<lambda>db1 _.
            db_bind (ensure_folder_by_guid fk guid lp name owner db1) (\<lambda>db2 folder_id.
              db_bind (add_folder_device fk folder_id did ''bidirectional'' rp db2) (\<lambda>db3 _. (db3, Inr g)))))) \<subseteq> pinned db" for g
    by (intro pinned_bind order_trans [OF pinned_upsert] order_trans [OF pinned_ensure_folder]) (simp_all add: pinned_add_pair)
  from this [of "\<lparr>rfp_folder_guid = guid, rfp_name = name, rfp_mode = ''bidirectional'', rfp_remote_path = rp\<rparr>"]
  show ?thesis by (simp add: approve_folder_pair_def Let_def case_prod_beta)
qed

lemma pinned_request_folder:
  "pinned (fst (request_folder_pair fk now req owner lp db inner)) \<subseteq> pinned db"
  using pinned_approve_folder [of fk now owner "rfr_device_id req" "rfr_folder_guid req" "rfr_name req" lp "Some lp" db inner]
  by (auto simp: request_folder_pair_def Let_def split: option.split prod.split sum.split)

text \<open>Sessions do not touch the pinned certificates.\<close>

interpretation pins: db_invariant e "\<lambda>db. pinned db \<subseteq> P" for e P
proof
  show "pinned (fst (record_session (e_fk e) (e_clock e) d p a lp n1 n2 n3 b1 b2 db)) \<subseteq> P"
    if "pinned db \<subseteq> P" for db d p a lp n1 n2 n3 b1 b2
    using order_trans [OF pinned_log that] by simp
qed (simp_all add: pinned_history pinned_sync_time)

lemma pinned_session:
  "pinned (c_db (fst (handle_server_session e lp fid ridx did label msgs s))) \<subseteq> pinned (c_db s)"
  by (rule pins.server_session) simp

section \<open>Trust in a server\<close>

definition trusted_fp :: "env \<Rightarrow> server \<Rightarrow> bytes \<Rightarrow> bool" where
  "trusted_fp e sv fp \<longleftrightarrow> (\<exists>c \<in> pinned (v_db sv). e_blake3 e c = fp)"

fun grants_fp :: "env \<Rightarrow> server \<Rightarrow> server_event \<Rightarrow> bytes \<Rightarrow> bool" where
  "grants_fp e sv (Approve did name) fp = (map_option (e_blake3 e) (held_cert did (v_gate sv)) = Some fp)"
| "grants_fp e sv _ fp = False"

lemma trusted_mono: "pinned (v_db sv') \<subseteq> pinned (v_db sv) \<Longrightarrow> trusted_fp e sv' fp \<Longrightarrow> trusted_fp e sv fp"
  by (auto simp: trusted_fp_def)

lemma known_trusted: "known_cert (e_blake3 e) (v_db sv) (Some c) \<longleftrightarrow> trusted_fp e sv (e_blake3 e c)"
  by (auto simp: known_cert_iff trusted_fp_def)

lemma reply_simps [simp]:
  "v_fs (reply e m sv) = v_fs sv" "v_db (reply e m sv) = v_db sv" "v_gate (reply e m sv) = v_gate sv"
  by (simp_all add: reply_def split: sum.split)

lemma reply_out: "\<exists>ms. v_out (reply e m sv) = v_out sv @ ms \<and> set ms \<subseteq> {m}"
  by (auto simp: reply_def split: sum.split)

text \<open>Under the confirming policy a pairing request adds no fingerprint that was not known.\<close>

lemma admit_accept_known:
  "admit b Confirm did name cert db inner = (g, evs, Accept) \<Longrightarrow> known_cert b db cert"
  by (auto simp: admit_def split: if_splits)

definition paired_db :: "server_cfg \<Rightarrow> bytes option \<Rightarrow> string option \<Rightarrow> PairRequest \<Rightarrow> db \<Rightarrow> db" where
  "paired_db cfg cert ip req db =
     (let e = v_env cfg;
          did = (case cert of Some c \<Rightarrow> derived_id e c | None \<Rightarrow> preq_device_id req);
          db1 = fst (upsert_device (e_fk e) (e_clock e) did (preq_device_name req) cert None db)
      in case ip of None \<Rightarrow> db1
         | Some x \<Rightarrow> fst (set_device_last_addr (e_fk e) did (x @ '':'' @ show_nat DEFAULT_PORT) db1))"

lemma pinned_paired: "pinned (paired_db cfg cert ip req db) \<subseteq> pinned db \<union> set_option cert"
  unfolding paired_db_def Let_def
  using pinned_upsert order_trans [OF pinned_last_addr pinned_upsert] by (cases ip) auto

lemma pair_request_state:
  fixes cfg sv cert req
  defines "ad \<equiv> admit (e_blake3 (v_env cfg)) (v_policy cfg)
    (case cert of Some c \<Rightarrow> derived_id (v_env cfg) c | None \<Rightarrow> preq_device_id req) (preq_device_name req) cert (v_db sv) (v_gate sv)"
  shows "v_db (on_pair_request cfg cert ip req sv) =
      (if snd (snd ad) = Accept then paired_db cfg cert ip req (v_db sv) else v_db sv) \<and>
    v_gate (on_pair_request cfg cert ip req sv) = fst ad \<and> v_fs (on_pair_request cfg cert ip req sv) = v_fs sv"
proof (cases ad)
  case (fields g evs a)
  then show ?thesis unfolding ad_def
    by (cases a; cases ip)
      (simp_all add: on_pair_request_def paired_db_def Let_def case_prod_beta ad_def [symmetric])
qed

lemma pair_request_trust:
  assumes conf: "v_policy cfg = Confirm" and t: "trusted_fp (v_env cfg) (on_pair_request cfg cert ip req sv) fp"
  shows "trusted_fp (v_env cfg) sv fp"
proof -
  let ?did = "case cert of Some c \<Rightarrow> derived_id (v_env cfg) c | None \<Rightarrow> preq_device_id req"
  obtain g evs a where ad: "admit (e_blake3 (v_env cfg)) Confirm ?did (preq_device_name req) cert (v_db sv) (v_gate sv) = (g, evs, a)"
    by (metis prod_cases3)
  show ?thesis
  proof (cases "a = Accept")
    case True
    then obtain c where c: "cert = Some c" "trusted_fp (v_env cfg) sv (e_blake3 (v_env cfg) c)"
      using admit_accept_known [OF ad [unfolded True]] known_trusted [of "v_env cfg" sv] by (cases cert) auto
    have "v_db (on_pair_request cfg cert ip req sv) = paired_db cfg cert ip req (v_db sv)"
      using pair_request_state [of cfg cert ip req sv] by (simp add: conf ad True)
    with t c pinned_paired [of cfg cert ip req "v_db sv"] show ?thesis by (auto simp: trusted_fp_def)
  next
    case False
    then have "v_db (on_pair_request cfg cert ip req sv) = v_db sv"
      using pair_request_state [of cfg cert ip req sv] by (simp add: conf ad)
    with t show ?thesis by (simp add: trusted_fp_def)
  qed
qed

lemma index_trust: "trusted_fp e (on_index cfg cert label idx msgs sv) fp \<Longrightarrow> trusted_fp e sv fp"
proof -
  have "pinned (v_db (on_index cfg cert label idx msgs sv)) \<subseteq> pinned (v_db sv)"
    using pinned_session [of "v_env cfg" "v_local_path cfg" "v_folder_id cfg" idx "di_id (v_device cfg)" label msgs "session_start (v_fs sv) (v_db sv)"]
    by (simp add: on_index_def session_start_def case_prod_beta split: option.split)
  then show "trusted_fp e (on_index cfg cert label idx msgs sv) fp \<Longrightarrow> trusted_fp e sv fp" by (rule trusted_mono)
qed

lemma folder_request_state:
  "pinned (v_db (on_request_folder_pair cfg cert req sv)) \<subseteq> pinned (v_db sv) \<and>
   v_fs (on_request_folder_pair cfg cert req sv) = v_fs sv \<and>
   (gate_wf (v_gate sv) \<longrightarrow> gate_wf (v_gate (on_request_folder_pair cfg cert req sv)))"
proof -
  define req' where "req' = (case cert of Some c \<Rightarrow> req\<lparr>rfr_device_id := derived_id (v_env cfg) c\<rparr> | None \<Rightarrow> req)"
  show ?thesis
  proof (cases "shared_folder_by_guid (v_db sv) (di_id (v_device cfg)) (rfr_folder_guid req')")
    case None
    then show ?thesis by (simp add: on_request_folder_pair_def Let_def req'_def [symmetric])
  next
    case (Some share)
    let ?r = "request_folder_pair (e_fk (v_env cfg)) (e_clock (v_env cfg)) req' (di_id (v_device cfg)) (sh_local_path share) (v_db sv) (v_gate sv)"
    obtain db' g' out where r: "?r = (db', g', out)" by (metis prod_cases3)
    have "pinned db' \<subseteq> pinned (v_db sv)"
      using pinned_request_folder [of "e_fk (v_env cfg)" "e_clock (v_env cfg)" req' "di_id (v_device cfg)" "sh_local_path share" "v_db sv" "v_gate sv"]
      by (simp add: r)
    moreover have "gate_wf (v_gate sv) \<Longrightarrow> gate_wf g'"
      using gate_wf_request [of "v_gate sv" "e_fk (v_env cfg)" "e_clock (v_env cfg)" req' "di_id (v_device cfg)" "sh_local_path share" "v_db sv"]
      by (simp add: r)
    ultimately show ?thesis
      using Some by (cases out) (simp_all add: on_request_folder_pair_def Let_def req'_def [symmetric] r)
  qed
qed

lemma connection_cases:
  assumes "\<And>sv' m ms. v_fs sv' = v_fs sv \<Longrightarrow> v_db sv' = v_db sv \<Longrightarrow> v_gate sv' = v_gate sv \<Longrightarrow>
      P (dispatch cfg cert ip label m ms sv')"
    and "\<And>sv'. v_fs sv' = v_fs sv \<Longrightarrow> v_db sv' = v_db sv \<Longrightarrow> v_gate sv' = v_gate sv \<Longrightarrow> P sv'"
  shows "P (connection cfg cert ip label msgs sv)"
  using assms by (auto simp: connection_def Let_def split: list.split SyncMessage.split)

lemma connection_trust:
  assumes "v_policy cfg = Confirm" and "trusted_fp (v_env cfg) (connection cfg cert ip label msgs sv) fp"
  shows "trusted_fp (v_env cfg) sv fp"
proof -
  have disp: "trusted_fp (v_env cfg) sv' fp" if t: "trusted_fp (v_env cfg) (dispatch cfg cert ip label m ms sv') fp" for m ms sv'
  proof (cases m)
    case (MPairRequest req)
    with t show ?thesis using pair_request_trust [OF assms(1)] by (simp add: dispatch_def)
  next
    case (MIndex idx)
    with t show ?thesis using index_trust by (simp add: dispatch_def)
  next
    case (MRequestFolderPair req)
    have "pinned (v_db (on_request_folder_pair cfg cert req sv')) \<subseteq> pinned (v_db sv')" using folder_request_state by blast
    with t trusted_mono show ?thesis by (simp add: dispatch_def MRequestFolderPair)
  qed (use t in \<open>simp_all add: dispatch_def on_list_shared_def trusted_fp_def\<close>)
  have cong: "v_db sv' = v_db sv \<Longrightarrow> trusted_fp e sv' fp \<longleftrightarrow> trusted_fp e sv fp" for sv' e by (simp add: trusted_fp_def)
  have "trusted_fp (v_env cfg) (connection cfg cert ip label msgs sv) fp \<longrightarrow> trusted_fp (v_env cfg) sv fp"
    by (rule connection_cases) (metis disp cong, metis cong)
  with assms(2) show ?thesis by blast
qed

interpretation server_trust: trust "server_step (cfg\<lparr>v_policy := Confirm\<rparr>)" "trusted_fp (v_env cfg)" "grants_fp (v_env cfg)"
  for cfg
proof
  fix sv ev fp
  assume t: "trusted_fp (v_env cfg) (server_step (cfg\<lparr>v_policy := Confirm\<rparr>) sv ev) fp"
  show "trusted_fp (v_env cfg) sv fp \<or> grants_fp (v_env cfg) sv ev fp"
  proof (cases ev)
    case (Connected cert ip label msgs)
    with t connection_trust [of "cfg\<lparr>v_policy := Confirm\<rparr>" cert ip label msgs sv fp] show ?thesis by simp
  next
    case (Approve did name)
    have "pinned (v_db (server_step (cfg\<lparr>v_policy := Confirm\<rparr>) sv ev)) \<subseteq> pinned (v_db sv) \<union> set_option (held_cert did (v_gate sv))"
      using pinned_upsert [of "e_fk (v_env cfg)" "e_clock (v_env cfg)" did name "held_cert did (v_gate sv)" None "v_db sv"]
      by (simp add: Approve approve_pairing_def require_gate_def handle_of_def case_prod_beta split: sum.split)
    with t show ?thesis by (cases "held_cert did (v_gate sv)") (auto simp: trusted_fp_def Approve)
  next
    case (ApproveFolder did guid name lp rp)
    have "pinned (v_db (server_step (cfg\<lparr>v_policy := Confirm\<rparr>) sv ev)) \<subseteq> pinned (v_db sv)"
      using pinned_approve_folder [of "e_fk (v_env cfg)" "e_clock (v_env cfg)" "di_id (v_device cfg)" did guid name lp rp "v_db sv" "v_gate sv"]
      by (simp add: ApproveFolder approve_folder_pairing_def require_gate_def handle_of_def case_prod_beta)
    with t trusted_mono show ?thesis by blast
  qed (use t in \<open>auto simp: trusted_fp_def\<close>)
qed

section \<open>What an unknown peer gets\<close>

fun is_content :: "SyncMessage \<Rightarrow> bool" where
  "is_content (MIndex _) = True"
| "is_content (MFileChunk _) = True"
| "is_content _ = False"

definition gives_nothing :: "server \<Rightarrow> server \<Rightarrow> bool" where
  "gives_nothing sv sv' \<longleftrightarrow> v_fs sv' = v_fs sv \<and>
     (\<exists>outs. v_out sv' = v_out sv @ outs \<and> (\<forall>m \<in> set outs. \<not> is_content m))"

lemma gives_nothing_refl: "gives_nothing sv sv"
  by (simp add: gives_nothing_def)

lemma gives_nothing_trans: "gives_nothing a b \<Longrightarrow> gives_nothing b c \<Longrightarrow> gives_nothing a c"
  unfolding gives_nothing_def by (metis UnE append.assoc set_append)

lemma gives_nothing_reply: "\<not> is_content m \<Longrightarrow> gives_nothing sv (reply e m sv)"
  unfolding gives_nothing_def using reply_out [of e m sv] by auto

lemma gives_nothing_cong:
  "v_fs b = v_fs a \<Longrightarrow> v_out b = v_out a \<Longrightarrow> gives_nothing b c \<Longrightarrow> gives_nothing a c"
  "gives_nothing a b \<Longrightarrow> v_fs c = v_fs b \<Longrightarrow> v_out c = v_out b \<Longrightarrow> gives_nothing a c"
  by (simp_all add: gives_nothing_def)

lemma pair_request_nothing: "gives_nothing sv (on_pair_request cfg cert ip req sv)"
proof -
  let ?did = "case cert of Some c \<Rightarrow> derived_id (v_env cfg) c | None \<Rightarrow> preq_device_id req"
  obtain g evs a where ad: "admit (e_blake3 (v_env cfg)) (v_policy cfg) ?did (preq_device_name req) cert (v_db sv) (v_gate sv) = (g, evs, a)"
    by (metis prod_cases3)
  have base: "gives_nothing sv (reply (v_env cfg) (MPairResponse r) (sv\<lparr>v_gate := g, v_events := x\<rparr>))" for r x
    by (rule gives_nothing_cong(1) [OF _ _ gives_nothing_reply]) simp_all
  show ?thesis
    by (cases a; cases ip)
      (auto simp: on_pair_request_def Let_def ad case_prod_beta intro: base gives_nothing_cong(2) [OF base])
qed

lemma folder_request_nothing: "gives_nothing sv (on_request_folder_pair cfg cert req sv)"
proof -
  define req' where "req' = (case cert of Some c \<Rightarrow> req\<lparr>rfr_device_id := derived_id (v_env cfg) c\<rparr> | None \<Rightarrow> req)"
  have upd: "gives_nothing sv (reply e m (sv\<lparr>v_db := d, v_gate := g\<rparr>))"
    "gives_nothing sv (reply e m (sv\<lparr>v_db := d, v_gate := g, v_events := x\<rparr>))" if "\<not> is_content m" for e m d g x
    by (rule gives_nothing_cong(1) [OF _ _ gives_nothing_reply [OF that]]; simp)+
  show ?thesis
    unfolding on_request_folder_pair_def Let_def req'_def [symmetric]
    by (auto intro: upd gives_nothing_reply split: option.split prod.split FolderPairOutcome.split)
qed

lemma connection_nothing:
  assumes "\<forall>c. cert = Some c \<longrightarrow> \<not> trusted_fp (v_env cfg) sv (e_blake3 (v_env cfg) c)"
  shows "gives_nothing sv (connection cfg cert ip label msgs sv)"
proof -
  have idx: "on_index cfg cert label i ms sv' = sv'" if "v_db sv' = v_db sv" for i ms sv'
    using assms that known_trusted [of "v_env cfg" sv]
    by (cases cert) (auto simp: on_index_def known_cert_def split: option.split)
  have disp: "gives_nothing sv' (dispatch cfg cert ip label m ms sv')" if "v_db sv' = v_db sv" for m ms sv'
    by (cases m) (auto simp: dispatch_def on_list_shared_def idx [OF that] gives_nothing_refl gives_nothing_reply
      pair_request_nothing folder_request_nothing)
  have hello: "gives_nothing sv (reply e (MHello h) sv)" for e h by (rule gives_nothing_reply) simp
  show ?thesis
    by (auto simp: connection_def Let_def gives_nothing_refl hello disp
      intro: gives_nothing_trans [OF hello disp] split: list.split SyncMessage.split)
qed

section \<open>The gate over a run\<close>

lemma gate_wf_step: "gate_wf (v_gate sv) \<Longrightarrow> gate_wf (v_gate (server_step cfg sv ev))"
proof (cases ev)
  case (Connected cert ip label msgs)
  assume wf: "gate_wf (v_gate sv)"
  have disp: "gate_wf (v_gate sv') \<Longrightarrow> gate_wf (v_gate (dispatch cfg cert ip label m ms sv'))" for m ms sv'
    using folder_request_state pair_request_state
    by (cases m) (auto simp: dispatch_def on_list_shared_def on_index_def gate_wf_admit case_prod_beta split: option.split)
  have "gate_wf (v_gate (connection cfg cert ip label msgs sv))"
    by (rule connection_cases) (use wf disp in auto)
  then show ?thesis by (simp add: Connected)
next
  case (Approve did name)
  assume "gate_wf (v_gate sv)"
  then show ?thesis
    by (auto simp: Approve approve_pairing_def require_gate_def handle_of_def gate_of_def gate_wf_unpend
      split: prod.split sum.split)
next
  case (DenyDevice did)
  assume "gate_wf (v_gate sv)"
  then show ?thesis by (simp add: DenyDevice deny_pairing_def require_gate_def handle_of_def gate_of_def gate_wf_deny)
next
  case (ApproveFolder did guid name lp rp)
  assume wf: "gate_wf (v_gate sv)"
  let ?a = "approve_folder_pair (e_fk (v_env cfg)) (e_clock (v_env cfg)) (di_id (v_device cfg)) did guid name lp rp (v_db sv) (v_gate sv)"
  obtain db' g r where a: "?a = (db', g, r)" by (metis prod_cases3)
  have "gate_wf g" using gate_wf_approve_folder [OF wf] a by (metis fst_conv snd_conv)
  then show ?thesis
    by (simp add: ApproveFolder approve_folder_pairing_def require_gate_def handle_of_def gate_of_def a)
next
  case (DenyFolder did guid)
  assume "gate_wf (v_gate sv)"
  then show ?thesis
    by (simp add: DenyFolder deny_folder_pairing_def require_gate_def handle_of_def gate_of_def gate_wf_deny_folder)
qed

section \<open>Properties\<close>

text \<open>C3. Nobody is served without the operator's approval. On a confirming server, take any run of
  connections and decisions from a state in which a certificate is unknown, such that no approval
  in it is of a held request with a certificate of the same fingerprint. Then a connection with that
  certificate changes no file and receives no index and no file content, whatever it sends.\<close>

theorem unapproved_never_served:
  assumes conf: "v_policy cfg = Confirm"
    and unknown: "\<not> known_cert (e_blake3 (v_env cfg)) (v_db sv) (Some cert)"
    and unapproved: "\<And>before did name after c. evs = before @ Approve did name # after \<Longrightarrow>
      held_cert did (v_gate (foldl (server_step cfg) sv before)) = Some c \<Longrightarrow>
      e_blake3 (v_env cfg) c \<noteq> e_blake3 (v_env cfg) cert"
  shows "gives_nothing (foldl (server_step cfg) sv evs)
    (connection cfg (Some cert) ip label msgs (foldl (server_step cfg) sv evs))"
proof -
  have cfg: "cfg\<lparr>v_policy := Confirm\<rparr> = cfg" using conf by simp
  let ?fp = "e_blake3 (v_env cfg) cert"
  have "\<not> grants_fp (v_env cfg) (foldl (server_step cfg) sv before) ev ?fp"
    if "evs = before @ ev # after" for before ev after
    using unapproved [of before _ _ after] that by (cases ev) auto
  then have "\<not> trusted_fp (v_env cfg) (foldl (server_step cfg) sv evs) ?fp"
    using server_trust.untrusted_run [of cfg sv ?fp evs] unknown known_trusted [of "v_env cfg" sv cert] by (simp add: cfg)
  then show ?thesis by (intro connection_nothing) simp
qed

definition example_cfg :: server_cfg where
  "example_cfg = \<lparr>v_env = example_env, v_policy = Confirm,
     v_device = \<lparr>di_id = ''me'', di_name = ''Me'', di_cert_fingerprint = []\<rparr>, v_own_cert = [1],
     v_local_path = ''/sync'', v_folder_id = 1\<rparr>"

definition example_server :: server where
  "example_server = \<lparr>v_fs = plain_fs, v_db = db_empty, v_gate = gate_new, v_out = [], v_events = []\<rparr>"

theorem unapproved_never_served_witness:
  "let evs = [Connected (Some [7]) None ''p''
        [MPairRequest \<lparr>preq_device_id = ''x'', preq_device_name = ''X'', preq_cert_fingerprint = []\<rparr>]];
      sv = foldl (server_step example_cfg) example_server evs
   in v_fs (connection example_cfg (Some [7]) None ''p'' (MIndex (empty_index None) # example_push ''a'' [9]) sv) = plain_fs"
proof -
  define evs where "evs = [Connected (Some [7]) None ''p''
        [MPairRequest \<lparr>preq_device_id = ''x'', preq_device_name = ''X'', preq_cert_fingerprint = []\<rparr>]]"
  have conf: "v_policy example_cfg = Confirm" by (simp add: example_cfg_def)
  have unk: "\<not> known_cert (e_blake3 (v_env example_cfg)) (v_db example_server) (Some c)" for c
    by (simp add: known_cert_iff pinned_def example_server_def db_empty_def)
  have "gives_nothing (foldl (server_step example_cfg) example_server evs)
      (connection example_cfg (Some [7]) None ''p'' (MIndex (empty_index None) # example_push ''a'' [9])
        (foldl (server_step example_cfg) example_server evs))"
    by (rule unapproved_never_served [OF conf unk]) (auto simp: evs_def Cons_eq_append_conv)
  moreover have "v_fs (foldl (server_step example_cfg) example_server evs) = plain_fs"
    using connection_nothing [of "Some [7]" example_cfg example_server None "''p''"] unk known_trusted [of example_env example_server]
    by (simp add: evs_def gives_nothing_def example_cfg_def) (simp add: example_server_def)
  ultimately show ?thesis by (simp add: Let_def evs_def gives_nothing_def)
qed

text \<open>Over every run of a server the gate's queues stay consistent: a device and a pair of a device
  and a folder are queued at most once, and never while denied.\<close>

theorem gate_invariant:
  "gate_wf (v_gate (foldl (server_step cfg) (sv\<lparr>v_gate := gate_new\<rparr>) evs))"
  by (induction evs rule: rev_induct) (simp_all add: gate_wf_new gate_wf_step)

text \<open>The list of shared folders, with their local paths, is answered to every peer that completes
  the TLS handshake, paired or not.\<close>

theorem shared_folders_disclosed:
  assumes "is_ok (frame_message (e_encode (v_env cfg)) (MSharedFolders folders))"
    and "folders = map (\<lambda>r. shared_folder_info_new (sh_guid r) (sh_name r) ''both'' (sh_local_path r))
       (filter exposed (list_shared_folders (v_db sv) (di_id (v_device cfg))))"
  shows "v_out (connection cfg None ip label [MListSharedFolders] sv) = v_out sv @ [MSharedFolders folders]"
  using assms by (auto simp: connection_def dispatch_def on_list_shared_def reply_def is_ok_iff)

end
