(* ===== verification/Conflict_Files.thy ===== *)
theory Conflict_Files
  imports Session
begin

text \<open>
  Conflict backups on disk, \<open>sync_engine/conflicts.rs\<close>: recognising the names that sessions give to
  backups, listing them over all folders, and resolving one. Relative paths are printed from their
  components, so redundant separators of a path string are not kept.
\<close>

section \<open>Names\<close>

text \<open>\<open>str::rfind\<close> and \<open>str::parse::<u64>\<close>, which takes a leading plus sign.\<close>

definition rfind :: "string \<Rightarrow> string \<Rightarrow> nat option" where
  "rfind pat s =
     (case filter (\<lambda>i. prefix pat (drop i s)) [0..<Suc (length s)] of [] \<Rightarrow> None | is \<Rightarrow> Some (last is))"

definition digit_value :: "char \<Rightarrow> nat option" where
  "digit_value c = (let v = of_char c in if 48 \<le> v \<and> v \<le> (57 :: nat) then Some (v - 48) else None)"

fun digits_value :: "nat \<Rightarrow> string \<Rightarrow> nat option" where
  "digits_value acc [] = Some acc"
| "digits_value acc (c # cs) =
     (case digit_value c of None \<Rightarrow> None | Some d \<Rightarrow> digits_value (acc * 10 + d) cs)"

definition parse_u64 :: "string \<Rightarrow> nat option" where
  "parse_u64 s =
     (let t = (case s of c # cs \<Rightarrow> if c = CHR ''+'' then cs else s | [] \<Rightarrow> []) in
      if t = [] then None
      else case digits_value 0 t of
          None \<Rightarrow> None
        | Some n \<Rightarrow> if n < 2 ^ 64 then Some n else None)"

text \<open>\<open>splitn(3, '-')\<close>.\<close>

definition split_once :: "char \<Rightarrow> string \<Rightarrow> (string \<times> string) option" where
  "split_once c s =
     (if c \<in> set s then Some (takeWhile (\<lambda>x. x \<noteq> c) s, tl (dropWhile (\<lambda>x. x \<noteq> c) s)) else None)"

definition parse_conflict_suffix :: "string \<Rightarrow> (nat \<times> string \<times> string) option" where
  "parse_conflict_suffix name =
     Option.bind (rfind CONFLICT_TAG name) (\<lambda>idx.
       let rest = drop (idx + length CONFLICT_TAG) name in
       case split_once (CHR ''-'') rest of
         None \<Rightarrow> None
       | Some (ts, rest2) \<Rightarrow>
           Option.bind (parse_u64 ts) (\<lambda>n.
             case split_once (CHR ''-'') rest2 of
               None \<Rightarrow> None
             | Some (label, hash) \<Rightarrow> if label = [] then None else Some (n, label, hash)))"

fun show_component :: "Component \<Rightarrow> string" where
  "show_component CurDir = ''.''"
| "show_component ParentDir = ''..''"
| "show_component (Normal s) = s"

definition show_path :: "Component list \<Rightarrow> string" where
  "show_path cs = join_slash (map show_component cs)"

definition rel_file_name :: "string \<Rightarrow> string option" where
  "rel_file_name s = path_file_name (path_components s)"

text \<open>The printed parent, empty for a single component.\<close>

definition rel_parent :: "string \<Rightarrow> string option" where
  "rel_parent s = (let cs = path_components s in if cs = [] then None else Some (show_path (butlast cs)))"

definition winner_relative_path :: "string \<Rightarrow> string option" where
  "winner_relative_path backup_relative =
     Option.bind (rel_file_name backup_relative) (\<lambda>name.
     Option.bind (rfind CONFLICT_TAG name) (\<lambda>idx.
       let original_name = take idx name in
       case rel_parent backup_relative of
         Some dir \<Rightarrow> if dir \<noteq> [] then Some (dir @ CHR ''/'' # original_name) else Some original_name
       | None \<Rightarrow> Some original_name))"

section \<open>Listing\<close>

record ConflictEntry =
  ce_folder_id :: i64
  ce_path :: string
  ce_backup_path :: string
  ce_loser_label :: string
  ce_winner_mtime :: i64
  ce_winner_size :: nat
  ce_loser_mtime :: i64
  ce_loser_size :: nat

fun node_mtime :: "node option \<Rightarrow> i64" where
  "node_mtime (Some (NFile d m)) = max 0 m"
| "node_mtime _ = 0"

fun node_size :: "node option \<Rightarrow> nat" where
  "node_size (Some (NFile d m)) = length d"
| "node_size _ = 0"

text \<open>One regular file below the root, at the path \<open>p\<close>; directories' times and sizes are not part of
  the file system model.\<close>

definition conflict_file :: "fs \<Rightarrow> abspath \<Rightarrow> i64 \<Rightarrow> abspath \<Rightarrow> ConflictEntry list \<Rightarrow> ConflictEntry list" where
  "conflict_file fs root folder_id p out =
     (case parse_conflict_suffix (last p) of
        None \<Rightarrow> out
      | Some (ts, label, hash) \<Rightarrow>
          (let backup_relative = join_slash (drop (length root) p) in
           if \<exists>c \<in> set out. ce_backup_path c = backup_relative then out
           else (case winner_relative_path backup_relative of
                None \<Rightarrow> out
              | Some winner \<Rightarrow>
                  (let winner_meta = fs_metadata fs (lit root @ raw_path winner) in
                   out @ [\<lparr>ce_folder_id = folder_id, ce_path = winner, ce_backup_path = backup_relative,
                     ce_loser_label = label, ce_winner_mtime = node_mtime winner_meta,
                     ce_winner_size = node_size winner_meta, ce_loser_mtime = node_mtime (map_of fs p),
                     ce_loser_size = node_size (map_of fs p)\<rparr>]))))"

text \<open>The files below a directory in the order of the walk.\<close>

function files_below :: "fs \<Rightarrow> abspath \<Rightarrow> abspath list" where
  "files_below fs dir =
     concat (map (\<lambda>(s, n). case n of
        NLink _ \<Rightarrow> []
      | NDir \<Rightarrow> files_below fs (dir @ [s])
      | NFile d m \<Rightarrow> [dir @ [s]]) (read_dir fs dir))"
  by pat_completeness auto

termination files_below
proof (relation "measure (\<lambda>(fs, dir). Suc (max_depth fs) - length dir)")
  fix fs :: fs and dir :: abspath and z :: "string \<times> node" and s n
  assume "z \<in> set (read_dir fs dir)" "(s, n) = z" "n = NDir"
  then have "(dir @ [s], NDir) \<in> set fs" using set_read_dir by auto
  from length_le_max_depth [OF this]
  show "((fs, dir @ [s]), fs, dir) \<in> measure (\<lambda>(fs, dir). Suc (max_depth fs) - length dir)" by simp
qed auto

declare files_below.simps [simp del]

definition walk_conflicts :: "fs \<Rightarrow> abspath \<Rightarrow> i64 \<Rightarrow> ConflictEntry list \<Rightarrow> ConflictEntry list" where
  "walk_conflicts fs root folder_id out = fold (conflict_file fs root folder_id) (files_below fs root) out"

definition list_conflicts :: "fs \<Rightarrow> db \<Rightarrow> ConflictEntry list" where
  "list_conflicts fs db =
     fold (\<lambda>(fid, fpath, _) out.
        case sync_root_open fs (raw_path fpath) of
          Inl _ \<Rightarrow> out
        | Inr root \<Rightarrow> walk_conflicts fs (sr_root root) fid out) (list_sync_folders db) []"

section \<open>Resolving\<close>

datatype resolve_error =
    FolderNotFound i64 | ROpen path_error | NotABackup string | InvalidPath string | RPath path_error
  | BackupMissing string | RFs fs_error | RemoveFailed | UnknownAction string | NoFreeName

definition record_resolved :: "env \<Rightarrow> i64 \<Rightarrow> string \<Rightarrow> string \<Rightarrow> i64 \<Rightarrow> db \<Rightarrow> db" where
  "record_resolved e folder_id path label sz db =
     fst (record_history (e_fk e) (e_clock e)
       \<lparr>hr_folder_id = folder_id, hr_path = path, hr_device_id = label, hr_action = ''resolved'',
        hr_version = 0, hr_mtime = 0, hr_hash = [], hr_size = sz\<rparr> db)"

text \<open>The names tried by \<open>keep_both\<close>: the plain one, then numbers from 2. The source's loop runs
  until a name is free; the list is as long as the file system plus two, which is enough.\<close>

definition extension_of :: "string \<Rightarrow> string" where
  "extension_of name = (let stem = file_stem name in if stem = name then [] else drop (length stem) name)"

definition candidates :: "nat \<Rightarrow> string \<Rightarrow> string \<Rightarrow> string \<Rightarrow> string list" where
  "candidates n stem sfx ext =
     (stem @ '' ('' @ sfx @ '')'' @ ext) #
     map (\<lambda>k. stem @ '' ('' @ sfx @ '' '' @ show_nat k @ '')'' @ ext) [2..<n + 2]"

definition free_name :: "fs \<Rightarrow> SyncRoot \<Rightarrow> string \<Rightarrow> string \<Rightarrow> string \<Rightarrow> string \<Rightarrow> string option" where
  "free_name fs root parent stem sfx ext =
     map_option (\<lambda>c. parent @ c)
       (find (\<lambda>c. \<not> path_exists fs (lit (sr_root root) @ raw_path (parent @ c))) (candidates (length fs) stem sfx ext))"

definition keep_backup ::
  "env \<Rightarrow> SyncRoot \<Rightarrow> i64 \<Rightarrow> path \<Rightarrow> string \<Rightarrow> string \<Rightarrow> fs \<times> db \<Rightarrow> (fs \<times> db) \<times> (resolve_error + string)" where
  "keep_backup e root folder_id backup_abs winner label = (\<lambda>(fs, db).
     case fs_read fs backup_abs of
       None \<Rightarrow> ((fs, db), Inl (RFs ReadFailed))
     | Some data \<Rightarrow>
         (case root_write_file (e_clock e) fs root winner data of
            Inl err \<Rightarrow> ((fs, db), Inl (RFs err))
          | Inr fs1 \<Rightarrow>
              (case fs_remove_file fs1 backup_abs of
                 None \<Rightarrow> ((fs1, db), Inl RemoveFailed)
               | Some fs2 \<Rightarrow> ((fs2, record_resolved e folder_id winner label (int (length data)) db), Inr label))))"

definition keep_original ::
  "env \<Rightarrow> SyncRoot \<Rightarrow> i64 \<Rightarrow> path \<Rightarrow> string \<Rightarrow> string \<Rightarrow> fs \<times> db \<Rightarrow> (fs \<times> db) \<times> (resolve_error + string)" where
  "keep_original e root folder_id backup_abs winner label = (\<lambda>(fs, db).
     case fs_remove_file fs backup_abs of
       None \<Rightarrow> ((fs, db), Inl RemoveFailed)
     | Some fs1 \<Rightarrow>
         (let sz = node_size (fs_metadata fs1 (lit (sr_root root) @ raw_path winner)) in
          ((fs1, record_resolved e folder_id winner label (int sz) db), Inr label)))"

definition keep_both ::
  "SyncRoot \<Rightarrow> string \<Rightarrow> string \<Rightarrow> string \<Rightarrow> fs \<times> db \<Rightarrow> (fs \<times> db) \<times> (resolve_error + string)" where
  "keep_both root backup_path winner label = (\<lambda>(fs, db).
     let name = (case rel_file_name winner of None \<Rightarrow> ''file'' | Some n \<Rightarrow> n);
         stem = (case rel_file_name winner of None \<Rightarrow> ''file'' | Some n \<Rightarrow> file_stem n);
         ext = (case rel_file_name winner of None \<Rightarrow> [] | Some n \<Rightarrow> extension_of n);
         sfx = (if label = ''local'' then ''this device'' else ''other device'');
         parent = (case rel_parent winner of None \<Rightarrow> [] | Some p \<Rightarrow> if p = [] then [] else p @ ''/'')
     in case free_name fs root parent stem sfx ext of
          None \<Rightarrow> ((fs, db), Inl NoFreeName)
        | Some to \<Rightarrow>
            (case root_rename fs root backup_path to of
               Inl err \<Rightarrow> ((fs, db), Inl (RFs err))
             | Inr fs1 \<Rightarrow> ((fs1, db), Inr label)))"

definition resolve_conflict ::
  "env \<Rightarrow> i64 \<Rightarrow> string \<Rightarrow> string \<Rightarrow> fs \<times> db \<Rightarrow> (fs \<times> db) \<times> (resolve_error + string)" where
  "resolve_conflict e folder_id backup_path action = (\<lambda>(fs, db).
     case find (\<lambda>(fid, _). fid = folder_id) (list_sync_folders db) of
       None \<Rightarrow> ((fs, db), Inl (FolderNotFound folder_id))
     | Some (_, fpath, _) \<Rightarrow>
         (case sync_root_open fs (raw_path fpath) of
            Inl err \<Rightarrow> ((fs, db), Inl (ROpen err))
          | Inr root \<Rightarrow>
              (case parse_conflict_suffix (case rel_file_name backup_path of None \<Rightarrow> [] | Some n \<Rightarrow> n) of
                 None \<Rightarrow> ((fs, db), Inl (NotABackup backup_path))
               | Some (ts, label, hash) \<Rightarrow>
                   (case winner_relative_path backup_path of
                      None \<Rightarrow> ((fs, db), Inl (InvalidPath backup_path))
                    | Some winner \<Rightarrow>
                        (case root_safe_join fs root backup_path of
                           Inl err \<Rightarrow> ((fs, db), Inl (RPath err))
                         | Inr backup_abs \<Rightarrow>
                             if \<not> path_exists fs backup_abs then ((fs, db), Inl (BackupMissing backup_path))
                             else if action = ''keep_backup''
                             then keep_backup e root folder_id backup_abs winner label (fs, db)
                             else if action = ''keep_original''
                             then keep_original e root folder_id backup_abs winner label (fs, db)
                             else if action = ''keep_both'' then keep_both root backup_path winner label (fs, db)
                             else ((fs, db), Inl (UnknownAction action)))))))"

end
