(* ===== verification/Conflict_Props.thy ===== *)
theory Conflict_Props
  imports Conflict_Files Session_Confinement
begin

text \<open>
  Conflict backups: the name a session gives to a backup is recognised again, with its time, label and
  hash, and names the file it was made from; the listing is exact for one folder; resolving stays
  below the folder and touches only files that carry the marker.
\<close>

section \<open>Reading numbers back\<close>

lemma digit_value_digit: "digit_value (digit k) = Some (k mod 10)"
proof -
  have "\<forall>i \<in> set [0..<10]. digit_value (''0123456789'' ! i) = Some i" by code_simp
  moreover have "k mod 10 \<in> set [0..<10]" by simp
  ultimately show ?thesis unfolding digit_def by blast
qed

lemma digits_value_snoc:
  "digits_value acc (s @ [c]) =
     Option.bind (digits_value acc s) (\<lambda>n. map_option (\<lambda>d. n * 10 + d) (digit_value c))"
  by (induction s arbitrary: acc) (auto split: option.splits)

lemma digits_value_show: "digits_value 0 (show_nat n) = Some n"
proof (induction n rule: show_nat.induct)
  case (1 n)
  then show ?case
    by (subst show_nat.simps) (auto simp: digits_value_snoc digit_value_digit split: option.splits)
qed

lemma show_nat_no_plus: "CHR ''+'' \<notin> set (show_nat n)"
proof -
  have "\<forall>i \<in> set [0..<10]. ''0123456789'' ! i \<noteq> CHR ''+''" by code_simp
  then have "digit k \<in> - {CHR ''+''}" for k
    unfolding digit_def by (metis ComplI atLeastLessThan_iff atLeastLessThan_upt less_eq_nat.simps(1)
      mod_less_divisor singletonD zero_less_numeral)
  from set_show_nat [OF this] show ?thesis by auto
qed

lemma show_nat_ne: "show_nat n \<noteq> []"
  by (subst show_nat.simps) simp

lemma parse_show: "n < 2 ^ 64 \<Longrightarrow> parse_u64 (show_nat n) = Some n"
  using show_nat_no_plus [of n] show_nat_ne [of n] digits_value_show [of n]
  by (cases "show_nat n") (auto simp: parse_u64_def)

section \<open>The names of backups\<close>

lemma upt_at: "k < n \<Longrightarrow> [0..<n] = [0..<k] @ k # [Suc k..<n]"
  using upt_add_eq_append [of 0 k "n - k"] upt_conv_Cons [of k n] by simp

lemma rfind_append:
  assumes "c \<notin> set pat" and "c \<notin> set rest"
  shows "rfind (c # pat) (s @ c # pat @ rest) = Some (length s)"
proof -
  let ?t = "s @ c # pat @ rest"
  let ?P = "\<lambda>i. prefix (c # pat) (drop i ?t)"
  have split: "[0..<Suc (length ?t)] = [0..<length s] @ length s # [Suc (length s)..<Suc (length ?t)]"
    by (rule upt_at) simp
  have "\<not> ?P i" if "i \<in> set [Suc (length s)..<Suc (length ?t)]" for i
  proof
    assume p: "?P i"
    have "length s < i" using that by auto
    then obtain j where "i = length s + Suc j" using less_imp_Suc_add by auto
    then have "drop i ?t = drop (i - Suc (length s)) (pat @ rest)" by simp
    with p have "c \<in> set (drop (i - Suc (length s)) (pat @ rest))" by (auto simp: prefix_def simp del: drop_append)
    then have "c \<in> set (pat @ rest)" by (rule in_set_dropD)
    then show False using assms by auto
  qed
  then have "filter ?P [Suc (length s)..<Suc (length ?t)] = []" by (auto simp: filter_empty_conv)
  then have "filter ?P [0..<Suc (length ?t)] = filter ?P [0..<length s] @ [length s]"
    unfolding split by simp
  moreover have "(case xs @ [k] of [] \<Rightarrow> None | ys \<Rightarrow> Some (last ys)) = Some k" for xs and k :: nat
    by (cases xs) auto
  ultimately show ?thesis by (simp only: rfind_def)
qed

lemma split_once_append: "c \<notin> set s \<Longrightarrow> split_once c (s @ c # t) = Some (s, t)"
  by (induction s) (auto simp: split_once_def)

definition suffix_tail :: "nat \<Rightarrow> string \<Rightarrow> string \<Rightarrow> string" where
  "suffix_tail ts label hash = show_nat ts @ CHR ''-'' # label @ CHR ''-'' # hash"

lemma show_nat_chars: "c \<in> {CHR ''-'', CHR ''.''} \<Longrightarrow> c \<notin> set (show_nat n)"
proof -
  have "\<forall>i \<in> set [0..<10]. ''0123456789'' ! i \<notin> {CHR ''-'', CHR ''.''}" by code_simp
  moreover have "k mod 10 \<in> set [0..<10]" for k :: nat by simp
  ultimately have "digit k \<in> - {CHR ''-'', CHR ''.''}" for k unfolding digit_def by blast
  from set_show_nat [OF this] show "c \<in> {CHR ''-'', CHR ''.''} \<Longrightarrow> c \<notin> set (show_nat n)" by auto
qed

lemma rfind_tag:
  assumes "CHR ''.'' \<notin> set label" and "CHR ''.'' \<notin> set hash"
  shows "rfind CONFLICT_TAG (s @ CONFLICT_TAG @ suffix_tail ts label hash) = Some (length s)"
  using rfind_append [of "CHR ''.''" "tl CONFLICT_TAG" "suffix_tail ts label hash" s] assms show_nat_chars
  by (simp add: CONFLICT_TAG_def suffix_tail_def)

lemma parse_suffix:
  assumes "CHR ''.'' \<notin> set label" and "CHR ''.'' \<notin> set hash" and "CHR ''-'' \<notin> set label"
    and "label \<noteq> []" and "ts < 2 ^ 64"
  shows "parse_conflict_suffix (s @ CONFLICT_TAG @ suffix_tail ts label hash) = Some (ts, label, hash)"
proof -
  have "split_once (CHR ''-'') (suffix_tail ts label hash) = Some (show_nat ts, label @ CHR ''-'' # hash)"
    unfolding suffix_tail_def by (rule split_once_append) (simp add: show_nat_chars)
  then show ?thesis
    using rfind_tag [OF assms(1,2), of s ts] split_once_append [OF assms(3), of hash] assms(4)
      parse_show [OF assms(5)]
    by (simp add: parse_conflict_suffix_def)
qed

lemma hex_dot: "CHR ''.'' \<notin> set (take n (concat (map hex_byte bs)))"
proof
  assume "CHR ''.'' \<in> set (take n (concat (map hex_byte bs)))"
  then have "CHR ''.'' \<in> set (concat (map hex_byte bs))" by (rule in_set_takeD)
  then obtain k where "CHR ''.'' = hex_digit k" by (auto simp: hex_byte_def)
  with hex_digit_in [of k] show False by auto
qed

lemma backup_suffix_tail:
  "backup_suffix e label data =
     CONFLICT_TAG @ suffix_tail (nat (max 0 (e_clock e))) label (take 8 (concat (map hex_byte (e_blake3 e data))))"
  by (simp add: backup_suffix_def suffix_tail_def show_int_def)

lemma loser_chars: "CHR ''.'' \<notin> set (loser_of w)" "CHR ''-'' \<notin> set (loser_of w)" "loser_of w \<noteq> []"
  by (auto simp: loser_of_def)

lemma join_slash_snoc: "ns \<noteq> [] \<Longrightarrow> join_slash (ns @ [x]) = join_slash ns @ CHR ''/'' # x"
  by (induction ns rule: join_slash.induct) auto

lemma join_slash_ne: "ns \<noteq> [] \<Longrightarrow> \<forall>n \<in> set ns. valid_name n \<Longrightarrow> join_slash ns \<noteq> []"
  by (induction ns rule: join_slash.induct) (auto simp: valid_name_def)

lemma show_path_lit: "show_path (lit ns) = join_slash ns"
  by (simp add: show_path_def comp_def)

lemma rel_file_name_join:
  "\<forall>n \<in> set (ns @ [x]). valid_name n \<Longrightarrow> rel_file_name (join_slash (ns @ [x])) = Some x"
  using raw_path_join(2) [of "ns @ [x]"] path_file_name_lit(1) [of ns x] by (simp add: rel_file_name_def)

lemma rel_parent_join:
  "\<forall>n \<in> set (ns @ [x]). valid_name n \<Longrightarrow> rel_parent (join_slash (ns @ [x])) = Some (join_slash ns)"
  using raw_path_join(2) [of "ns @ [x]"] by (simp add: rel_parent_def show_path_lit)

lemma winner_join:
  assumes "\<forall>n \<in> set (ns @ [x]). valid_name n" and "rfind CONFLICT_TAG x = Some k"
  shows "winner_relative_path (join_slash (ns @ [x])) = Some (join_slash (ns @ [take k x]))"
  using rel_file_name_join [OF assms(1)] rel_parent_join [OF assms(1)] assms(2) join_slash_snoc [of ns]
    join_slash_ne [of ns] assms(1)
  by (cases "ns = []") (auto simp: winner_relative_path_def Let_def)

lemma valid_backup: "valid_name n \<Longrightarrow> valid_name (n @ backup_suffix e (loser_of w) data)"
proof (rule valid_name_append)
  show "CHR ''/'' \<notin> set (backup_suffix e (loser_of w) data)"
    "CHR 0x00 \<notin> set (backup_suffix e (loser_of w) data)"
    using hex_bytes_chars [of _ 8 "e_blake3 e data"] show_int_chars [of _ "max 0 (e_clock e)"]
    by (auto simp: backup_suffix_def CONFLICT_TAG_def loser_of_def)
qed (auto simp: backup_suffix_def CONFLICT_TAG_def)

text \<open>C34. The name that a session gives to the backup of a file is recognised by the conflict
  inventory: the parser returns the time of the clock, the loser's label and the first eight hex digits
  of the hash, and stripping the marker gives the relative path of the file the backup was made from,
  also when that name carries an older marker itself.\<close>

theorem backup_name_recognised:
  assumes "\<forall>n \<in> set (dir @ [name]). valid_name n" and "e_clock e < 2 ^ 64"
  shows "parse_conflict_suffix (name @ backup_suffix e (loser_of w) data) =
      Some (nat (max 0 (e_clock e)), loser_of w, take 8 (file_hash_to_hex (e_blake3 e data))) \<and>
    winner_relative_path (join_slash (dir @ [name @ backup_suffix e (loser_of w) data])) =
      Some (join_slash (dir @ [name]))"
proof (intro conjI)
  have ts: "nat (max 0 (e_clock e)) < 2 ^ 64" using assms(2) by simp
  show "parse_conflict_suffix (name @ backup_suffix e (loser_of w) data) =
      Some (nat (max 0 (e_clock e)), loser_of w, take 8 (file_hash_to_hex (e_blake3 e data)))"
    unfolding backup_suffix_tail file_hash_to_hex_def
    by (rule parse_suffix [OF loser_chars(1) hex_dot loser_chars(2,3) ts])
  have "rfind CONFLICT_TAG (name @ backup_suffix e (loser_of w) data) = Some (length name)"
    unfolding backup_suffix_tail by (rule rfind_tag [OF loser_chars(1) hex_dot])
  with winner_join [of dir "name @ backup_suffix e (loser_of w) data"] assms(1) valid_backup [of name]
  show "winner_relative_path (join_slash (dir @ [name @ backup_suffix e (loser_of w) data])) =
      Some (join_slash (dir @ [name]))"
    by simp
qed

section \<open>The inventory\<close>

lemma files_below_sound:
  shows "p \<in> set (files_below fs dir) \<Longrightarrow> wf_fs fs \<Longrightarrow> \<exists>ns d m. ns \<noteq> [] \<and> p = dir @ ns \<and> map_of fs p = Some (NFile d m)"
proof (induction fs dir rule: files_below.induct)
  case (1 fs dir)
  from "1.prems" obtain s n where n: "(s, n) \<in> set (read_dir fs dir)"
    and p: "p \<in> set (case n of NLink _ \<Rightarrow> [] | NDir \<Rightarrow> files_below fs (dir @ [s]) | NFile d m \<Rightarrow> [dir @ [s]])"
    by (subst (asm) files_below.simps) auto
  show ?case
  proof (cases n)
    case (NFile d m)
    with n p "1.prems"(2) have "p = dir @ [s] \<and> map_of fs p = Some (NFile d m)" by (auto simp: set_read_dir wf_fs_def)
    then show ?thesis by blast
  next
    case NDir
    with p "1.IH" [OF n refl NDir] "1.prems"(2) show ?thesis by force
  qed (use p in simp)
qed

lemma files_below_complete:
  assumes wf: "wf_fs fs" and "map_of fs (dir @ ns) = Some (NFile d m)" and "ns \<noteq> []"
  shows "dir @ ns \<in> set (files_below fs dir)"
  using assms(2,3)
proof (induction ns arbitrary: dir)
  case (Cons s ns)
  have entry: "(s, n) \<in> set (read_dir fs dir)" if "map_of fs (dir @ [s]) = Some n" for n
    using that by (simp add: set_read_dir map_of_SomeD)
  show ?case
  proof (cases "ns = []")
    case True
    with Cons.prems entry [of "NFile d m"] show ?thesis
      by (subst files_below.simps) (force intro: bexI [of _ "(s, NFile d m)"])
  next
    case False
    have "map_of fs (dir @ [s]) = Some NDir"
      using wf_fs_prefix [OF wf, of "dir @ [s]" ns] Cons.prems(1) False by simp
    from Cons.IH [of "dir @ [s]"] Cons.prems(1) False entry [OF this] show ?thesis
      by (subst files_below.simps) (force intro: bexI [of _ "(s, NDir)"])
  qed
qed simp

text \<open>What one step of the walk adds.\<close>

abbreviation listed :: "ConflictEntry list \<Rightarrow> string set" where
  "listed out \<equiv> ce_backup_path ` set out"

definition marked :: "abspath \<Rightarrow> bool" where
  "marked p \<longleftrightarrow> p \<noteq> [] \<and> parse_conflict_suffix (last p) \<noteq> None"

lemma marked_winner:
  assumes "marked rel" and "\<forall>n \<in> set rel. valid_name n"
  shows "\<exists>w. winner_relative_path (join_slash rel) = Some w"
proof -
  obtain ns x where rel: "rel = ns @ [x]" using assms(1) by (cases rel rule: rev_cases) (auto simp: marked_def)
  with assms(1) obtain k where "rfind CONFLICT_TAG x = Some k"
    by (auto simp: marked_def parse_conflict_suffix_def split: bind_splits)
  with winner_join [of ns x k] assms(2) show ?thesis by (auto simp: rel)
qed

text \<open>A listing \<open>out'\<close> that extends \<open>out\<close> by the backups \<open>B\<close>, each a folder id and a relative path:
  every path is listed once, perhaps under another folder.\<close>

definition lists :: "(i64 \<times> abspath) set \<Rightarrow> ConflictEntry list \<Rightarrow> ConflictEntry list \<Rightarrow> bool" where
  "lists B out out' \<longleftrightarrow>
     listed out' = listed out \<union> (join_slash \<circ> snd) ` B \<and>
     (distinct (map ce_backup_path out) \<longrightarrow> distinct (map ce_backup_path out')) \<and>
     (\<lambda>c. (ce_folder_id c, ce_backup_path c)) ` (set out' - set out) \<subseteq> map_prod (\<lambda>i. i) join_slash ` B"

lemma lists_refl: "B = {} \<Longrightarrow> lists B out out"
  by (simp add: lists_def)

lemma lists_trans:
  assumes "lists A xs ys" and "lists B ys zs" and "C = A \<union> B"
  shows "lists C xs zs"
proof -
  let ?k = "\<lambda>c. (ce_folder_id c, ce_backup_path c)" and ?m = "map_prod (\<lambda>i. i) join_slash"
  have "?k ` (set zs - set xs) \<subseteq> ?k ` (set zs - set ys) \<union> ?k ` (set ys - set xs)" by blast
  also have "\<dots> \<subseteq> ?m ` B \<union> ?m ` A" using assms(1,2) unfolding lists_def by (intro Un_mono) simp_all
  also have "\<dots> = ?m ` C" by (simp add: assms(3) image_Un Un_commute)
  finally have "?k ` (set zs - set xs) \<subseteq> ?m ` C" .
  moreover have "listed zs = listed xs \<union> (join_slash \<circ> snd) ` C"
    using assms unfolding lists_def by (simp only: image_Un Un_assoc)
  ultimately show ?thesis using assms(1,2) by (simp add: lists_def)
qed

lemma conflict_file_step:
  assumes "rel \<noteq> []" and names: "\<forall>n \<in> set rel. valid_name n"
  shows "lists (if marked rel then {(fid, rel)} else {}) out (conflict_file fs root fid (root @ rel) out)"
proof (cases "marked rel")
  case True
  then obtain ts label h where "parse_conflict_suffix (last (root @ rel)) = Some (ts, label, h)"
    using assms(1) by (auto simp: marked_def)
  moreover from marked_winner [OF True names] obtain w where
    "winner_relative_path (join_slash rel) = Some w" by blast
  ultimately show ?thesis using True
    by (cases "\<exists>c \<in> set out. ce_backup_path c = join_slash rel")
      (auto simp: conflict_file_def lists_def Let_def image_iff eq_commute [of "join_slash rel"])
next
  case False
  then have "parse_conflict_suffix (last (root @ rel)) = None" using assms(1)
    by (cases "parse_conflict_suffix (last rel)") (auto simp: marked_def)
  with False show ?thesis by (simp add: conflict_file_def lists_def)
qed

lemma walk_files_step:
  assumes "\<forall>p \<in> set ps. \<exists>rel. p = root @ rel \<and> rel \<noteq> [] \<and> (\<forall>n \<in> set rel. valid_name n)"
  shows "lists {(fid, rel) |rel. root @ rel \<in> set ps \<and> marked rel} out (fold (conflict_file fs root fid) ps out)"
  using assms
proof (induction ps arbitrary: out)
  case (Cons p ps)
  then obtain rel where p: "p = root @ rel" "rel \<noteq> []" "\<forall>n \<in> set rel. valid_name n" by auto
  show ?case unfolding fold_simps comp_def
    by (rule lists_trans [OF conflict_file_step [OF p(2,3)]])
      (use Cons in \<open>auto simp: p(1) comp_def intro!: Cons.IH\<close>)
qed (simp add: lists_refl)

definition is_backup :: "fs \<Rightarrow> SyncRoot \<Rightarrow> abspath \<Rightarrow> bool" where
  "is_backup fs root rel \<longleftrightarrow> marked rel \<and> (\<exists>d m. map_of fs (sr_root root @ rel) = Some (NFile d m))"

lemma walk_conflicts_step:
  assumes wf: "wf_fs fs"
  shows "lists {(fid, rel) |rel. is_backup fs root rel} out (walk_conflicts fs (sr_root root) fid out)"
proof -
  have sound: "\<exists>rel. p = sr_root root @ rel \<and> rel \<noteq> [] \<and> (\<forall>n \<in> set rel. valid_name n)"
    if "p \<in> set (files_below fs (sr_root root))" for p
    using files_below_sound [OF that wf] wf_fs_names [OF wf] by metis
  have "sr_root root @ rel \<in> set (files_below fs (sr_root root)) \<and> marked rel \<longleftrightarrow> is_backup fs root rel" for rel
    using files_below_complete [OF wf, of "sr_root root" rel]
      files_below_sound [OF _ wf, of "sr_root root @ rel" "sr_root root"]
    by (auto simp: is_backup_def marked_def)
  with walk_files_step [of "files_below fs (sr_root root)" "sr_root root" fid out fs] sound
  show ?thesis by (simp add: walk_conflicts_def)
qed

definition backups_in :: "fs \<Rightarrow> (i64 \<times> string \<times> 'a) list \<Rightarrow> (i64 \<times> abspath) set" where
  "backups_in fs folders =
     (\<Union>(fid, lp, _) \<in> set folders.
        case sync_root_open fs (raw_path lp) of
          Inl _ \<Rightarrow> {}
        | Inr root \<Rightarrow> {(fid, rel) |rel. is_backup fs root rel})"

lemma list_conflicts_lists:
  assumes wf: "wf_fs fs"
  shows "lists (backups_in fs (list_sync_folders db)) [] (list_conflicts fs db)"
proof -
  have "lists (backups_in fs xs) out
      (fold (\<lambda>(fid, lp, _) out. case sync_root_open fs (raw_path lp) of Inl _ \<Rightarrow> out
        | Inr root \<Rightarrow> walk_conflicts fs (sr_root root) fid out) xs out)"
    for xs :: "(i64 \<times> string \<times> string \<times> string \<times> i64 option) list" and out
  proof (induction xs arbitrary: out)
    case (Cons x xs)
    obtain fid lp rest where x: "x = (fid, lp, rest)" by (cases x) auto
    show ?case
    proof (cases "sync_root_open fs (raw_path lp)")
      case (Inl err)
      with Cons.IH [of out] show ?thesis by (simp add: x backups_in_def)
    next
      case (Inr root)
      then have "backups_in fs (x # xs) = {(fid, rel) |rel. is_backup fs root rel} \<union> backups_in fs xs"
        by (simp add: x backups_in_def)
      from lists_trans [OF walk_conflicts_step [OF wf] Cons.IH this, of out] Inr show ?thesis
        by (simp add: x)
    qed
  qed (simp add: lists_refl backups_in_def)
  then show ?thesis by (simp add: list_conflicts_def)
qed

text \<open>C36. The conflict listing over all folders is exact: its backup paths are the relative paths of the
  regular files below an openable folder whose name carries the marker, each listed exactly once, and
  every entry names a folder that has that backup. Since a path is listed once over all folders, two
  folders that both have a backup of this name share one entry.\<close>

theorem conflict_listing_exact:
  assumes "wf_fs fs"
  shows "ce_backup_path ` set (list_conflicts fs db) =
      (join_slash \<circ> snd) ` backups_in fs (list_sync_folders db) \<and>
    distinct (map ce_backup_path (list_conflicts fs db)) \<and>
    (\<forall>c \<in> set (list_conflicts fs db). \<exists>rel.
       (ce_folder_id c, rel) \<in> backups_in fs (list_sync_folders db) \<and> ce_backup_path c = join_slash rel)"
proof -
  note l = list_conflicts_lists [OF assms, of db]
  then have "(\<lambda>c. (ce_folder_id c, ce_backup_path c)) ` set (list_conflicts fs db) \<subseteq>
      map_prod (\<lambda>i. i) join_slash ` backups_in fs (list_sync_folders db)"
    by (simp add: lists_def)
  then have "\<exists>rel. (ce_folder_id c, rel) \<in> backups_in fs (list_sync_folders db) \<and> ce_backup_path c = join_slash rel"
    if "c \<in> set (list_conflicts fs db)" for c
    using that by (fastforce simp: image_subset_iff)
  then show ?thesis using l by (simp add: lists_def)
qed

section \<open>Resolving\<close>

lemma map_of_move: "\<not> prefix a q \<Longrightarrow> \<not> prefix b q \<Longrightarrow> map_of (fs_move a b fs) q = map_of fs q"
  by (induction fs) (auto simp: fs_move_def)

text \<open>Where the last name of a joined path is found when it is not followed.\<close>

lemma safe_join_walk:
  assumes ok: "root_ok fs r" and j: "root_safe_join fs r s = Inr j"
  shows "walk fs MAXSYMLINKS False [] (path_trim j) \<in> {Found q, Missing q} \<Longrightarrow> prefix (sr_root r) q"
    and "walk fs MAXSYMLINKS False [] j = Found q \<Longrightarrow> prefix (sr_root r) q \<or> map_of fs q = Some NDir"
    and "walk fs MAXSYMLINKS False [] j = Missing q \<Longrightarrow> prefix (sr_root r) q"
proof -
  have wf: "wf_fs fs" and dir: "map_of fs (sr_root r) = Some NDir" using ok by (auto simp: root_ok_def)
  from safe_join_shape [OF ok j] obtain ns tr where jj: "j = lit (sr_root r @ ns) @ tr"
    and tr: "tr = [] \<or> tr = [CurDir]" and nl: "tr = [] \<Longrightarrow> no_links fs (sr_root r @ ns)"
    and nlb: "no_links fs (sr_root r @ butlast ns)"
    by metis
  have trim: "path_trim j = lit (sr_root r @ ns)" using tr unfolding jj by (elim disjE; simp only: append_Nil2 path_trim_lit)
  have at: "walk fs n False [] (lit (sr_root r @ ns)) \<in> {Found (sr_root r @ ns), Missing (sr_root r @ ns), ENoEnt, ENotDir}" for n
  proof (cases "map_of fs (sr_root r @ butlast ns) = Some NDir \<and> ns \<noteq> []")
    case True
    then have "sr_root r @ ns \<noteq> []" "map_of fs (butlast (sr_root r @ ns)) = Some NDir" by (auto simp: butlast_append)
    from walk_file_name [OF wf this, of n] show ?thesis by simp
  next
    case False
    show ?thesis
    proof (cases "ns = []")
      case True
      then show ?thesis using walk_no_links [of fs "sr_root r @ ns" n False] nlb by simp
    next
      case ne: False
      have "\<not> is_link (map_of fs (sr_root r @ ns))"
        using wf_fs_snoc(1) [OF wf, of "sr_root r @ butlast ns" "last ns"] False ne
        by (cases "map_of fs (sr_root r @ ns)") auto
      then have "no_links fs (sr_root r @ ns)"
        using nlb ne prefix_snoc [of _ "sr_root r @ butlast ns" "last ns"] by (auto simp: no_links_def)
      then show ?thesis by (rule walk_no_links)
    qed
  qed
  show "walk fs MAXSYMLINKS False [] (path_trim j) \<in> {Found q, Missing q} \<Longrightarrow> prefix (sr_root r) q"
    unfolding trim using at [of MAXSYMLINKS] by auto
  show "walk fs MAXSYMLINKS False [] j = Found q \<Longrightarrow> prefix (sr_root r) q \<or> map_of fs q = Some NDir"
    using at [of MAXSYMLINKS] tr walk_curdir [of fs MAXSYMLINKS False "[]" j _ q] by (auto simp: jj)
  show "walk fs MAXSYMLINKS False [] j = Missing q \<Longrightarrow> prefix (sr_root r) q"
    using at [of MAXSYMLINKS] tr walk_curdir [of fs MAXSYMLINKS False "[]" j _ q] by (auto simp: jj)
qed

lemma remove_confined:
  assumes "root_ok fs r" and "root_safe_join fs r s = Inr j" and "fs_remove_file fs j = Some fs'"
    and "\<not> prefix (sr_root r) q"
  shows "map_of fs' q = map_of fs q"
  using safe_join_walk(2) [OF assms(1,2)] assms(3,4)
  by (auto simp: fs_remove_file_def hm_simps split: walk_result.splits if_splits)

lemma rename_confined:
  assumes ok: "root_ok fs r" and run: "root_rename fs r from to = Inr fs'" and q: "\<not> prefix (sr_root r) q"
  shows "map_of fs' q = map_of fs q"
proof -
  from run obtain j k where j: "root_safe_join fs r from = Inr j" and k: "root_safe_join fs r to = Inr k"
    and ren: "fs_rename fs j k = Some fs'"
    by (auto simp: root_rename_def path_res_def opt_res_def result_simps split: sum.splits option.splits)
  from ren obtain a where a: "walk fs MAXSYMLINKS False [] (path_trim j) = Found a"
    by (auto simp: fs_rename_def split: walk_result.splits)
  then have pa: "prefix (sr_root r) a" using safe_join_walk(1) [OF ok j] by auto
  have "fs' = fs \<or> (\<exists>b. prefix (sr_root r) b \<and> fs' = fs_move a b fs)"
    using ren a safe_join_walk [OF ok k]
    by (auto simp: fs_rename_def split: walk_result.splits if_splits)
  with pa q show ?thesis using map_of_move by (metis prefix_order.trans)
qed

lemma write_confined:
  assumes "root_ok fs r" and "root_write_file now fs r s data = Inr fs'" and "\<not> prefix (sr_root r) q"
  shows "map_of fs' q = map_of fs q"
proof -
  have "\<forall>n \<in> set (sr_root r). valid_name n"
    using assms(1) wf_fs_names [of fs "[]" "sr_root r" NDir] by (simp add: root_ok_def)
  from root_write_effect [OF assms(1) this assms(2)] obtain ns fs1
    where fs1: "adds_dirs (sr_root r @ butlast ns) fs fs1"
      "fs' = hm_insert (sr_root r @ ns) (NFile data now) fs1" by metis
  have "\<not> prefix q (sr_root r @ butlast ns) \<or> map_of fs q \<noteq> None"
    using assms(1,3) wf_fs_prefix [of fs q _ NDir] by (auto simp: root_ok_def prefix_append elim!: prefixE)
  with fs1 assms(3) show ?thesis by (auto simp: hm_simps adds_dirs_def)
qed

lemma open_root_ok: "wf_fs fs \<Longrightarrow> sync_root_open fs p = Inr r \<Longrightarrow> root_ok fs r"
  by (auto simp: sync_root_open_def root_ok_def split: option.splits if_splits)

lemma write_links:
  assumes "root_ok fs r" and "root_write_file now fs r s data = Inr fs'" and "is_link (map_of fs' q)"
  shows "is_link (map_of fs q)"
proof -
  have "\<forall>n \<in> set (sr_root r). valid_name n"
    using assms(1) wf_fs_names [of fs "[]" "sr_root r" NDir] by (simp add: root_ok_def)
  from root_write_effect [OF assms(1) this assms(2)] obtain ns fs1
    where fs1: "adds_dirs (sr_root r @ butlast ns) fs fs1"
      "fs' = hm_insert (sr_root r @ ns) (NFile data now) fs1" by metis
  then show ?thesis using assms(3) adds_dirs_link [OF fs1(1)] by (auto simp: hm_simps split: if_splits)
qed

lemma read_safe_join:
  assumes ok: "root_ok fs r" and j: "root_safe_join fs r s = Inr j" and read: "fs_read fs j = Some d"
  obtains ns m where "j = lit (sr_root r @ ns)" and "no_links fs (sr_root r @ ns)"
    and "map_of fs (sr_root r @ ns) = Some (NFile d m)"
proof -
  from read obtain q m where can: "walk fs MAXSYMLINKS True [] j = Found q" and q: "map_of fs q = Some (NFile d m)"
    by (auto simp: fs_read_def fs_metadata_def canonicalize_def split: option.splits node.splits walk_result.splits)
  from safe_join_shape [OF ok j] obtain ns tr where jj: "j = lit (sr_root r @ ns) @ tr"
    and tr: "tr = [] \<or> tr = [CurDir]" and nl: "tr = [] \<Longrightarrow> no_links fs (sr_root r @ ns)"
    by metis
  have "tr = []" using tr walk_curdir [OF can, of q] q by (auto simp: jj)
  moreover from this have "q = sr_root r @ ns"
    using walk_no_links [OF nl, of MAXSYMLINKS True] can by (auto simp: jj)
  ultimately show thesis using that [of ns m] nl q jj by simp
qed

lemma remove_lit: "no_links fs p \<Longrightarrow> fs_remove_file fs (lit p) = Some fs' \<Longrightarrow> fs' = hm_remove p fs"
  using walk_no_links [of fs p MAXSYMLINKS False]
  by (auto simp: fs_remove_file_def split: walk_result.splits if_splits)

lemma keep_backup_confined:
  assumes ok: "root_ok fs root" and j: "root_safe_join fs root backup = Inr j" and q: "\<not> prefix (sr_root root) q"
    and run: "keep_backup e root fid j winner label (fs, db) = ((fs', db'), res)"
  shows "map_of fs' q = map_of fs q"
proof (cases "\<exists>d fs1. fs_read fs j = Some d \<and> root_write_file (e_clock e) fs root winner d = Inr fs1")
  case True
  then obtain d fs1 where read: "fs_read fs j = Some d" and w: "root_write_file (e_clock e) fs root winner d = Inr fs1"
    by blast
  from read_safe_join [OF ok j read] obtain ns m where jj: "j = lit (sr_root root @ ns)"
    and nl: "no_links fs (sr_root root @ ns)" by metis
  have nl1: "no_links fs1 (sr_root root @ ns)" using write_links [OF ok w] by (rule no_links_mono [OF nl])
  have "map_of fs1 q = map_of fs q" by (rule write_confined [OF ok w q])
  moreover have "q \<noteq> sr_root root @ ns" using q by auto
  ultimately show ?thesis
    using run read w remove_lit [OF nl1]
    by (auto simp: keep_backup_def jj hm_simps split: option.splits)
qed (use run in \<open>auto simp: keep_backup_def split: option.splits sum.splits\<close>)

text \<open>C35. Resolving a conflict stays inside the folder and is refused for a path without the marker:
  whatever the path and the action, nothing outside the folder's root changes, and when the last name
  of the path is not that of a backup neither the file system nor the database changes at all.\<close>

theorem resolve_confined:
  assumes "wf_fs fs" and folder: "find (\<lambda>(i, _). i = fid) (list_sync_folders db) = Some (fid, lp, rest)"
    and root: "sync_root_open fs (raw_path lp) = Inr root"
    and run: "resolve_conflict e fid backup action (fs, db) = ((fs', db'), res)"
  shows "(\<not> prefix (sr_root root) q \<longrightarrow> map_of fs' q = map_of fs q) \<and>
    (\<forall>name. rel_file_name backup = Some name \<longrightarrow> parse_conflict_suffix name = None \<longrightarrow>
       fs' = fs \<and> db' = db \<and> res = Inl (NotABackup backup))"
proof -
  have ok: "root_ok fs root" by (rule open_root_ok [OF assms(1) root])
  have "map_of fs' q = map_of fs q" if q: "\<not> prefix (sr_root root) q"
    using run folder root keep_backup_confined [OF ok _ q] remove_confined [OF ok _ _ q] rename_confined [OF ok _ q]
    by (auto simp: resolve_conflict_def keep_original_def keep_both_def Let_def
        split: option.splits sum.splits if_splits)
  then show ?thesis
    using run folder root by (auto simp: resolve_conflict_def)
qed

section \<open>The search for a free name ends\<close>

lemma split_slash_snoc: "CHR ''/'' \<notin> set c \<Longrightarrow> split_slash (p @ CHR ''/'' # c) = split_slash p @ [c]"
  by (induction p) (auto simp: split_slash_single)

text \<open>The directory in which the walk looks up the last name depends on the names before only.\<close>

lemma walk_last:
  "\<exists>D. \<forall>c q. walk fs n follow cur (Y @ [Normal c]) = Found q \<longrightarrow> follow \<longrightarrow> map_of fs (D @ [c]) \<noteq> None"
proof (induction fs n follow cur Y rule: walk.induct)
  case (1 fs n follow cur)
  show ?case by (intro exI [of _ cur]) (auto split: option.splits)
next
  case (2 fs n follow cur y ys)
  show ?case
  proof (cases "map_of fs cur = Some NDir \<and> follow")
    case dir: True
    show ?thesis
    proof (cases y)
      case CurDir
      with "2.IH"(1) dir show ?thesis by simp
    next
      case ParentDir
      with "2.IH"(2) dir show ?thesis by simp
    next
      case (Normal s)
      show ?thesis
      proof (cases "map_of fs (cur @ [s])")
        case None
        with Normal dir show ?thesis by simp
      next
        case (Some nd)
        show ?thesis
        proof (cases nd)
          case (NFile d m)
          with "2.IH"(3) dir Normal Some show ?thesis by simp
        next
          case NDir
          with "2.IH" dir Normal Some show ?thesis by simp
        next
          case (NLink t)
          show ?thesis
          proof (cases n)
            case 0
            with NLink dir Normal Some show ?thesis by simp
          next
            case (Suc m)
            with "2.IH" NLink dir Normal Some show ?thesis by simp
          qed
        qed
      qed
    qed
  qed auto
qed

lemma show_nat_inj: "show_nat m = show_nat n \<Longrightarrow> m = n"
  by (metis digits_value_show option.inject)

lemma distinct_candidates: "distinct (candidates n stem sfx ext)"
proof -
  have "inj_on (\<lambda>k. stem @ '' ('' @ sfx @ '' '' @ show_nat k @ '')'' @ ext) A" for A
    by (rule inj_onI, rule show_nat_inj) simp
  then show ?thesis unfolding candidates_def distinct.simps distinct_map by auto
qed

lemma length_candidates: "length (candidates n stem sfx ext) = Suc n"
  by (simp add: candidates_def del: upt_Suc)

lemma candidate_chars:
  assumes "CHR ''/'' \<notin> set stem" and "CHR ''/'' \<notin> set sfx" and "CHR ''/'' \<notin> set ext"
    and "c \<in> set (candidates n stem sfx ext)"
  shows "CHR ''/'' \<notin> set c \<and> raw_comp c = Normal c"
proof -
  have "CHR ''/'' \<notin> set (show_nat k)" for k
    using show_int_chars [of "CHR ''/''" "int k"] by (simp add: show_int_def)
  with assms have "CHR ''/'' \<notin> set c \<and> CHR ''('' \<in> set c" by (auto simp: candidates_def)
  then show ?thesis by (auto simp: raw_comp_def)
qed

lemma raw_path_last:
  assumes "CHR ''/'' \<notin> set c" and "raw_comp c = Normal c" and "parent = [] \<or> (\<exists>p. parent = p @ ''/'')"
  shows "raw_path (parent @ c) = (if parent = [] then [] else filter (\<lambda>c. c \<noteq> CurDir) (map raw_comp (split_slash (butlast parent)))) @ [Normal c]"
  using assms split_slash_single [OF assms(1)] split_slash_snoc [OF assms(1)]
  by (auto simp: raw_path_def Let_def)

lemma free_name_some:
  assumes chars: "CHR ''/'' \<notin> set stem" "CHR ''/'' \<notin> set sfx" "CHR ''/'' \<notin> set ext"
    and parent: "parent = [] \<or> (\<exists>p. parent = p @ ''/'')"
  shows "free_name fs root parent stem sfx ext \<noteq> None"
proof
  assume "free_name fs root parent stem sfx ext = None"
  then have all: "path_exists fs (lit (sr_root root) @ raw_path (parent @ c))"
    if "c \<in> set (candidates (length fs) stem sfx ext)" for c
    using that by (auto simp: free_name_def find_None_iff)
  define Y where "Y = lit (sr_root root) @ (if parent = [] then [] else filter (\<lambda>c. c \<noteq> CurDir) (map raw_comp (split_slash (butlast parent))))"
  obtain D where D: "\<And>c q. walk fs MAXSYMLINKS True [] (Y @ [Normal c]) = Found q \<Longrightarrow> map_of fs (D @ [c]) \<noteq> None"
    using walk_last [of fs MAXSYMLINKS True "[]" Y] by blast
  have "D @ [c] \<in> fst ` set fs" if c: "c \<in> set (candidates (length fs) stem sfx ext)" for c
  proof -
    have "lit (sr_root root) @ raw_path (parent @ c) = Y @ [Normal c]"
      using candidate_chars [OF chars c] raw_path_last [OF _ _ parent, of c] by (simp add: Y_def)
    with all [OF c] obtain q where "walk fs MAXSYMLINKS True [] (Y @ [Normal c]) = Found q"
      by (auto simp: path_exists_def canonicalize_def split: walk_result.splits)
    from D [OF this] show ?thesis by (simp add: map_of_eq_None_iff)
  qed
  then have "(\<lambda>c. D @ [c]) ` set (candidates (length fs) stem sfx ext) \<subseteq> fst ` set fs" by blast
  then have "card ((\<lambda>c. D @ [c]) ` set (candidates (length fs) stem sfx ext)) \<le> card (fst ` set fs)"
    by (intro card_mono) auto
  moreover have "card ((\<lambda>c. D @ [c]) ` set (candidates (length fs) stem sfx ext)) = Suc (length fs)"
    using distinct_card [OF distinct_candidates [of "length fs" stem sfx ext]]
    by (subst card_image) (auto simp: inj_on_def length_candidates)
  moreover have "card (fst ` set fs) \<le> length fs"
    using card_image_le [of "set fs" fst] card_length [of fs] by simp
  ultimately show False by simp
qed

lemma set_path_components: "Normal n \<in> set (path_components s) \<Longrightarrow> CHR ''/'' \<notin> set n"
  using split_slash_no_slash [of n s] by (auto simp: path_components_def raw_comp_def split: if_splits)

lemma rel_file_name_chars: "rel_file_name s = Some n \<Longrightarrow> CHR ''/'' \<notin> set n"
proof -
  assume "rel_file_name s = Some n"
  then have l: "path_trim (path_components s) \<noteq> []" "last (path_trim (path_components s)) = Normal n"
    by (auto simp: rel_file_name_def path_file_name_def Let_def split: if_splits Component.splits)
  have "set (path_trim p) \<subseteq> set p" for p
    using set_dropWhileD by (fastforce simp: path_trim_def)
  with last_in_set [OF l(1)] l(2) show ?thesis using set_path_components by auto
qed

text \<open>Keeping both versions always finds a name for the backup: the loop that counts the suffix up
  ends, for every file system, within one more step than there are entries; so resolving a conflict
  always returns.\<close>

theorem keep_both_finds_name: "snd (resolve_conflict e fid backup action (fs, db)) \<noteq> Inl NoFreeName"
proof -
  have "snd (keep_both root backup winner label (fs, db)) \<noteq> Inl NoFreeName" for root winner label
  proof -
    have ext: "CHR ''/'' \<notin> set (extension_of n)" if "CHR ''/'' \<notin> set n" for n
      using that by (auto simp: extension_of_def Let_def dest: in_set_dropD)
    have stem: "CHR ''/'' \<notin> set (file_stem n)" if "CHR ''/'' \<notin> set n" for n
      using that set_file_stem [of n] by auto
    have "free_name fs root (case rel_parent winner of None \<Rightarrow> [] | Some p \<Rightarrow> if p = [] then [] else p @ ''/'')
        (case rel_file_name winner of None \<Rightarrow> ''file'' | Some n \<Rightarrow> file_stem n)
        (if label = ''local'' then ''this device'' else ''other device'')
        (case rel_file_name winner of None \<Rightarrow> [] | Some n \<Rightarrow> extension_of n) \<noteq> None"
    proof (rule free_name_some)
      show "CHR ''/'' \<notin> set (case rel_file_name winner of None \<Rightarrow> ''file'' | Some n \<Rightarrow> file_stem n)"
        "CHR ''/'' \<notin> set (case rel_file_name winner of None \<Rightarrow> [] | Some n \<Rightarrow> extension_of n)"
        using rel_file_name_chars [of winner] ext stem by (auto split: option.splits)
    qed (auto split: option.splits)
    then show ?thesis
      by (auto simp only: keep_both_def Let_def prod.case split: option.splits sum.splits) auto
  qed
  then show ?thesis
    by (auto simp: resolve_conflict_def keep_backup_def keep_original_def Let_def
        split: option.splits sum.splits prod.splits)
qed

section \<open>Keeping the backup\<close>

lemma create_parent_existing:
  assumes "wf_fs fs" and "map_of fs p = Some NDir"
  shows "create_parent fs (lit (p @ [x])) = Inr fs"
proof -
  have "canonicalize fs (lit p) = Some p" using canonicalize_lit [OF assms] by simp
  moreover have "mkdir fs (lit p) = MkOther"
    using walk_lit_found [OF assms(1), of "[]" p NDir False] assms(2) by (simp add: mkdir_def)
  ultimately have "create_dir_all fs (lit p) = Some fs"
    by (subst create_dir_all.simps) (simp add: is_dir_def fs_metadata_def assms(2))
  then show ?thesis using path_parent_lit(1) [of p x] by (simp only: create_parent_def option.case opt_res_def)
qed

lemma safe_join_names:
  assumes "root_ok fs r" and "ns \<noteq> []" and "\<forall>n \<in> set ns. valid_name n"
    and "map_of fs (sr_root r @ ns) = Some (NFile d m)"
  shows "root_safe_join fs r (join_slash ns) = Inr (lit (sr_root r @ ns))"
proof (rule safe_join_ok [OF assms(1) _ _ _ _ assms(4)])
  show "CHR 0x00 \<notin> set (join_slash ns)" using assms(3) set_join_slash by (fastforce simp: valid_name_def)
  show "\<not> is_absolute (join_slash ns)" by (rule join_slash_not_absolute [OF assms(2,3)])
  show "ParentDir \<notin> set (path_components (join_slash ns))" "raw_path (join_slash ns) = lit ns"
    using raw_path_join [OF assms(2,3)] by auto
qed simp

lemma root_write_existing:
  assumes ok: "root_ok fs r" and "\<forall>n \<in> set (dir @ [x]). valid_name n"
    and f: "map_of fs (sr_root r @ dir @ [x]) = Some (NFile d0 m0)"
  shows "root_write_file now fs r (join_slash (dir @ [x])) d =
    Inr (hm_insert (sr_root r @ dir @ [x]) (NFile d now) fs)"
proof -
  have wf: "wf_fs fs" using ok by (simp add: root_ok_def)
  have dir: "map_of fs (sr_root r @ dir) = Some NDir"
    using wf_fs_snoc(1) [OF wf, of "sr_root r @ dir" x] f by simp
  have "root_safe_join fs r (join_slash (dir @ [x])) = Inr (lit ((sr_root r @ dir) @ [x]))"
    using safe_join_names [OF ok _ assms(2), of d0 m0] f by simp
  moreover have "walk fs MAXSYMLINKS True [] (lit ((sr_root r @ dir) @ [x])) = Found ((sr_root r @ dir) @ [x])"
    using walk_lit_found [OF wf, of "[]" "(sr_root r @ dir) @ [x]" "NFile d0 m0" True] f by simp
  ultimately show ?thesis
    using create_parent_existing [OF wf dir, of x] f
    by (simp add: root_write_file_def path_res_def opt_res_def fs_write_def)
qed

text \<open>C15. Keeping the backup undoes the overwriting: for a backup named by a session, next to the file it
  was made from, the resolution succeeds with the label of the name, the file then has the backup's
  contents, the backup is gone, and no other path has changed.\<close>

theorem keep_backup_restores:
  assumes wf: "wf_fs fs" and folder: "find (\<lambda>(i, _). i = fid) (list_sync_folders db) = Some (fid, lp, rest)"
    and root: "sync_root_open fs (raw_path lp) = Inr root"
    and names: "\<forall>n \<in> set (dir @ [name]). valid_name n" and clock: "e_clock e0 < 2 ^ 64"
    and backup: "backup = name @ backup_suffix e0 (loser_of w) data0"
    and winner: "map_of fs (sr_root root @ dir @ [name]) = Some (NFile d0 m0)"
    and loser: "map_of fs (sr_root root @ dir @ [backup]) = Some (NFile d m)"
  shows "\<exists>fs' db'. resolve_conflict e fid (join_slash (dir @ [backup])) ''keep_backup'' (fs, db) =
      ((fs', db'), Inr (loser_of w)) \<and>
    map_of fs' = (map_of fs)(sr_root root @ dir @ [name] \<mapsto> NFile d (e_clock e),
      sr_root root @ dir @ [backup] := None)"
proof -
  let ?win = "sr_root root @ dir @ [name]" and ?los = "sr_root root @ dir @ [backup]"
  have ok: "root_ok fs root" by (rule open_root_ok [OF wf root])
  have names_b: "\<forall>n \<in> set (dir @ [backup]). valid_name n" using names valid_backup by (auto simp: backup)
  have parse: "parse_conflict_suffix backup =
      Some (nat (max 0 (e_clock e0)), loser_of w, take 8 (concat (map hex_byte (e_blake3 e0 data0))))"
    using parse_suffix [OF loser_chars(1) hex_dot loser_chars(2,3)] clock by (simp add: backup backup_suffix_tail)
  have "rfind CONFLICT_TAG backup = Some (length name)"
    unfolding backup backup_suffix_tail by (rule rfind_tag [OF loser_chars(1) hex_dot])
  with winner_join [OF names_b] have win: "winner_relative_path (join_slash (dir @ [backup])) = Some (join_slash (dir @ [name]))"
    by (simp add: backup)
  have join: "root_safe_join fs root (join_slash (dir @ [backup])) = Inr (lit ?los)"
    using safe_join_names [OF ok _ names_b, of d m] loser by simp
  have can: "canonicalize fs (lit ?los) = Some ?los" using canonicalize_lit [OF wf loser] by simp
  then have read: "fs_read fs (lit ?los) = Some d" by (simp add: fs_read_def fs_metadata_def loser)
  define fs1 where "fs1 = hm_insert ?win (NFile d (e_clock e)) fs"
  have wr: "root_write_file (e_clock e) fs root (join_slash (dir @ [name])) d = Inr fs1"
    unfolding fs1_def by (rule root_write_existing [OF ok names winner])
  have "map_of fs1 ?los = Some (NFile (if backup = name then d else d) (if backup = name then e_clock e else m))"
    using loser by (auto simp: fs1_def hm_simps)
  moreover have "?los \<noteq> ?win" by (simp add: backup backup_suffix_def CONFLICT_TAG_def)
  moreover have wf1: "wf_fs fs1"
    using wf_fs_snoc(1) [OF wf, of "sr_root root @ dir" name] names winner wf unfolding fs1_def
    by (intro wf_fs_insert) (auto simp: butlast_append)
  ultimately have rm: "fs_remove_file fs1 (lit ?los) = Some (hm_remove ?los fs1)"
    using walk_lit_found [OF wf1, of "[]" ?los] by (simp add: fs_remove_file_def)
  have "map_of (hm_remove ?los fs1) = (map_of fs)(?win \<mapsto> NFile d (e_clock e), ?los := None)"
    by (auto simp: fs1_def hm_simps fun_eq_iff)
  moreover have "\<exists>db'. resolve_conflict e fid (join_slash (dir @ [backup])) ''keep_backup'' (fs, db) =
      ((hm_remove ?los fs1, db'), Inr (loser_of w))"
    using folder root parse win join can rel_file_name_join [OF names_b] read wr rm
    by (simp add: resolve_conflict_def keep_backup_def path_exists_def)
  ultimately show ?thesis by blast
qed

section \<open>Examples\<close>

definition conflict_db :: db where
  "conflict_db = db_empty\<lparr>
     t_folders := [\<lparr>sf_id = 1, sf_local_path = ''/sync'', sf_name = None, sf_device_id = ''p'', sf_active = True,
       sf_direction = ''bidirectional'', sf_last_sync_at = None, sf_guid = None\<rparr>],
     t_pairs := [\<lparr>fd_folder_id = 1, fd_device_id = ''p'', fd_mode = ''bidirectional'', fd_remote_path = None,
       fd_enabled = True\<rparr>]\<rparr>"

definition example_backup :: string where
  "example_backup = ''n.txt'' @ backup_suffix example_env (loser_of ''remote'') [7]"

definition conflict_fs :: fs where
  "conflict_fs = [([], NDir), ([''sync''], NDir), ([''sync'', ''n.txt''], NFile [7] 1),
     ([''sync'', example_backup], NFile [8] 0)]"

lemma valid_example_backup: "valid_name example_backup"
  unfolding example_backup_def by (rule valid_backup) (simp add: valid_name_def)

lemma example_backup_ne: "example_backup \<noteq> ''n.txt''"
  by (simp add: example_backup_def backup_suffix_def CONFLICT_TAG_def)

lemma wf_conflict_fs: "wf_fs conflict_fs"
  using valid_example_backup example_backup_ne
  by (auto simp: wf_fs_def conflict_fs_def valid_name_def)

lemma conflict_folder:
  "find (\<lambda>(i, _). i = 1) (list_sync_folders conflict_db) = Some (1, ''/sync'', ''p'', ''bidirectional'', None)"
  by (simp add: list_sync_folders_def conflict_db_def db_empty_def)

lemma conflict_root: "sync_root_open conflict_fs (raw_path ''/sync'') = Inr \<lparr>sr_root = [''sync'']\<rparr>"
proof -
  have "raw_path ''/sync'' = lit [''sync'']" by (simp add: raw_path_def raw_comp_def)
  then show ?thesis
    using canonicalize_lit [OF wf_conflict_fs, of "[''sync'']" NDir]
    by (simp add: sync_root_open_def conflict_fs_def)
qed

theorem backup_name_recognised_witness:
  "winner_relative_path (join_slash ([''d''] @ [''n.txt'' @ backup_suffix example_env (loser_of ''remote'') [7]])) =
     Some ''d/n.txt''"
proof -
  have "\<forall>n \<in> set ([''d''] @ [''n.txt'']). valid_name n" "e_clock example_env < 2 ^ 64"
    by (simp_all add: valid_name_def example_env_def)
  from conjunct2 [OF backup_name_recognised [OF this, of "''remote''" "[7]"]] show ?thesis by simp
qed

theorem conflict_listing_exact_witness:
  "distinct (map ce_backup_path (list_conflicts conflict_fs conflict_db))"
  using conflict_listing_exact [OF wf_conflict_fs, of conflict_db] by blast

theorem keep_backup_restores_witness:
  "\<exists>fs' db'. resolve_conflict example_env 1 example_backup ''keep_backup'' (conflict_fs, conflict_db) =
     ((fs', db'), Inr ''local'') \<and> map_of fs' [''sync'', ''n.txt''] = Some (NFile [8] 5) \<and>
     map_of fs' [''sync'', example_backup] = None"
proof -
  have names: "\<forall>n \<in> set ([] @ [''n.txt'']). valid_name n" by (simp add: valid_name_def)
  have clock: "e_clock example_env < 2 ^ 64" by (simp add: example_env_def)
  have ne: "''n.txt'' \<noteq> example_backup" using example_backup_ne by simp
  have winner: "map_of conflict_fs (sr_root \<lparr>sr_root = [''sync'']\<rparr> @ [] @ [''n.txt'']) = Some (NFile [7] 1)"
    and loser: "map_of conflict_fs (sr_root \<lparr>sr_root = [''sync'']\<rparr> @ [] @ [example_backup]) = Some (NFile [8] 0)"
    using ne by (auto simp: conflict_fs_def)
  obtain fs' db' where
    run: "resolve_conflict example_env 1 (join_slash ([] @ [example_backup])) ''keep_backup'' (conflict_fs, conflict_db) =
      ((fs', db'), Inr (loser_of ''remote''))"
    and fs': "map_of fs' = (map_of conflict_fs)([''sync'', ''n.txt''] \<mapsto> NFile [8] (e_clock example_env),
      [''sync'', example_backup] := None)"
    using keep_backup_restores [OF wf_conflict_fs conflict_folder conflict_root names clock example_backup_def
        winner loser, of example_env] by auto
  from fs' ne have "map_of fs' [''sync'', ''n.txt''] = Some (NFile [8] 5)" "map_of fs' [''sync'', example_backup] = None"
    by (auto simp: example_env_def)
  with run show ?thesis by (auto simp: loser_of_def)
qed

theorem resolve_confined_witness:
  "map_of (fst (fst (resolve_conflict example_env 1 ''n.txt'' ''keep_both'' (conflict_fs, conflict_db)))) [''etc''] = None"
proof -
  obtain fs' db' res where
    run: "resolve_conflict example_env 1 ''n.txt'' ''keep_both'' (conflict_fs, conflict_db) = ((fs', db'), res)"
    by (metis prod.collapse)
  have "\<not> prefix (sr_root \<lparr>sr_root = [''sync'']\<rparr>) [''etc'']" by simp
  with resolve_confined [OF wf_conflict_fs conflict_folder conflict_root run, of "[''etc'']"]
  have "map_of fs' [''etc''] = map_of conflict_fs [''etc'']" by blast
  then have "map_of fs' [''etc''] = None" by (simp add: conflict_fs_def)
  then show ?thesis unfolding run by simp
qed

text \<open>Two folders with a backup of the same relative name share one entry: the second one's conflict is
  not listed.\<close>

theorem second_folder_hidden:
  assumes "wf_fs fs" and "(i, rel) \<in> backups_in fs (list_sync_folders db)"
    and "(k, rel) \<in> backups_in fs (list_sync_folders db)" and "i \<noteq> k"
  shows "\<not> (\<exists>c1 \<in> set (list_conflicts fs db). \<exists>c2 \<in> set (list_conflicts fs db).
    ce_folder_id c1 = i \<and> ce_backup_path c1 = join_slash rel \<and> ce_folder_id c2 = k \<and> ce_backup_path c2 = join_slash rel)"
proof -
  have "inj_on ce_backup_path (set (list_conflicts fs db))"
    using list_conflicts_lists [OF assms(1), of db] by (simp add: lists_def distinct_map)
  then show ?thesis using assms(4) by (metis inj_onD)
qed

end
