(* ===== verification/Delivery.thy ===== *)
theory Delivery
  imports Session_Confinement
begin

text \<open>
  Delivery of files between the two sides of a session: when a file can be joined and committed below
  a root without links, what exactly a commit changes, and that the files one side pushes arrive at
  the other side with their contents.
\<close>

section \<open>Joining a name that may not exist\<close>

text \<open>Every existing ancestor is a directory.\<close>

definition clear_way :: "fs \<Rightarrow> abspath \<Rightarrow> bool" where
  "clear_way fs p \<longleftrightarrow> (\<forall>q. prefix q p \<longrightarrow> map_of fs q \<in> {None, Some NDir})"

lemma clear_way_prefix: "clear_way fs p \<Longrightarrow> prefix q p \<Longrightarrow> clear_way fs q"
  unfolding clear_way_def by (meson prefix_order.trans)

lemma find_base_lit:
  assumes l: "linkless fs R"
  shows "\<exists>q r. ns = q @ r \<and> map_of fs (R @ q) \<noteq> None \<and>
    find_base fs (lit (R @ ns)) rem = Inr (lit (R @ q), rem @ rev r)"
proof (induction ns arbitrary: rem rule: rev_induct)
  case Nil
  have R: "map_of fs R = Some NDir" "wf_fs fs" using l by (auto simp: linkless_def)
  then have "path_exists fs (lit R)"
    using canonicalize_lit [OF R(2,1)] by (simp add: path_exists_def)
  then show ?case using R by (subst find_base.simps) simp
next
  case (snoc x ns)
  show ?case
  proof (cases "path_exists fs (lit (R @ ns @ [x]))")
    case True
    then obtain q where q: "canonicalize fs (lit (R @ ns @ [x])) = Some q" by (auto simp: path_exists_def)
    then have "q = R @ ns @ [x]" using canonicalize_no_links [OF linkless_no_links [OF l]] by blast
    with canonicalize_exists [OF _ q] l have "map_of fs (R @ ns @ [x]) \<noteq> None" by (simp add: linkless_def)
    then show ?thesis using True
      by (intro exI [of _ "ns @ [x]"] exI [of _ "[]"]) (subst find_base.simps, simp)
  next
    case False
    from snoc.IH [of "rem @ [x]"] obtain q r where qr: "ns = q @ r" "map_of fs (R @ q) \<noteq> None"
      "find_base fs (lit (R @ ns)) (rem @ [x]) = Inr (lit (R @ q), (rem @ [x]) @ rev r)" by blast
    have "find_base fs (lit ((R @ ns) @ [x])) rem = find_base fs (lit (R @ ns)) (rem @ [x])"
      using False path_parent_lit(1) [of "R @ ns" x] path_file_name_lit(1) [of "R @ ns" x]
      by (subst find_base.simps) simp
    with qr show ?thesis by (intro exI [of _ q] exI [of _ "r @ [x]"]) simp
  qed
qed

lemma safe_join_new:
  assumes l: "linkless fs (sr_root r)" and ne: "ns \<noteq> []" and names: "\<forall>n \<in> set ns. valid_name n"
  shows "root_safe_join fs r (join_slash ns) = Inr (lit (sr_root r @ ns))"
proof -
  have wf: "wf_fs fs" and R: "map_of fs (sr_root r) = Some NDir" using l by (auto simp: linkless_def)
  have raw: "raw_path (join_slash ns) = lit ns" "path_components (join_slash ns) = lit ns"
    using raw_path_join [OF ne names] by auto
  have "reject_links fs (lit (sr_root r)) (lit (sr_root r @ ns)) = Inr ()"
    using reject_links_lit [OF wf R] linkless_no_links [OF l] by blast
  moreover have "resolve_joined fs (lit (sr_root r @ ns)) = Inr (sr_root r @ ns)"
  proof (cases "path_exists fs (lit (sr_root r @ ns))")
    case True
    then obtain q where "canonicalize fs (lit (sr_root r @ ns)) = Some q" by (auto simp: path_exists_def)
    moreover from this have "q = sr_root r @ ns" by (rule canonicalize_no_links [OF linkless_no_links [OF l]])
    ultimately show ?thesis using True by (simp add: resolve_joined_def)
  next
    case False
    obtain q t where qt: "ns = q @ t" "map_of fs (sr_root r @ q) \<noteq> None"
      "find_base fs (lit (sr_root r @ ns)) [] = Inr (lit (sr_root r @ q), [] @ rev t)"
      using find_base_lit [OF l, of ns "[]"] by blast
    from qt(2) obtain n where n: "map_of fs (sr_root r @ q) = Some n" by blast
    moreover have "\<not> is_link (Some n)" using l n by (metis linkless_def prefixI)
    ultimately have "canonicalize fs (lit (sr_root r @ q)) = Some (sr_root r @ q)" by (rule canonicalize_lit [OF wf])
    with False qt show ?thesis by (simp add: resolve_joined_def)
  qed
  moreover have "CHR 0x00 \<notin> set (join_slash ns)" using names set_join_slash by (fastforce simp: valid_name_def)
  moreover have "check_components (join_slash ns) (lit ns) = Inr ()"
    using components_not_empty [of "join_slash ns"] raw by (auto simp: check_components_ok)
  ultimately show ?thesis
    using join_slash_not_absolute [OF ne names] raw by (simp add: root_safe_join_def Let_def)
qed

section \<open>Creating the parents\<close>

lemma walk_clear:
  "map_of fs cur = Some NDir \<Longrightarrow> clear_way fs (cur @ ns) \<Longrightarrow> walk fs n follow cur (lit ns) \<noteq> ENotDir"
proof (induction ns arbitrary: cur)
  case (Cons x ns)
  have "map_of fs (cur @ [x]) \<in> {None, Some NDir}"
    using Cons.prems(2) by (auto simp: clear_way_def)
  with Cons.IH [of "cur @ [x]"] Cons.prems show ?case by auto
qed simp

lemma mkdir_clear:
  assumes wf: "wf_fs fs" and clear: "clear_way fs p" and ne: "p \<noteq> []"
  shows "mkdir fs (lit p) = (if map_of fs p = Some NDir then MkOther
    else if map_of fs (butlast p) = Some NDir then MkOk (hm_insert p NDir fs) else MkNotFound)"
proof (cases "map_of fs (butlast p) = Some NDir")
  case True
  have "map_of fs p \<in> {None, Some NDir}" using clear by (simp add: clear_way_def)
  then show ?thesis using walk_file_name [OF wf ne True, of MAXSYMLINKS] True by (auto simp: mkdir_def)
next
  case False
  have none: "map_of fs p = None"
    using wf_fs_snoc(1) [OF wf, of "butlast p" "last p"] False ne by (cases "map_of fs p") auto
  have "no_links fs p" using clear by (auto simp: clear_way_def no_links_def)
  from walk_no_links [OF this, of MAXSYMLINKS False] have "walk fs MAXSYMLINKS False [] (lit p) = ENoEnt"
    using walk_found_exists [of fs MAXSYMLINKS False "[]" "lit p" p] walk_missingD [of fs MAXSYMLINKS False "[]" "lit p" p]
      walk_clear [of fs "[]" p] False none clear wf by auto
  then show ?thesis using none False by (simp add: mkdir_def)
qed

lemma create_dir_all_clear:
  assumes wf: "wf_fs fs"
  shows "clear_way fs p \<Longrightarrow> \<forall>n \<in> set p. valid_name n \<Longrightarrow> \<exists>fs'. create_dir_all fs (lit p) = Some fs'"
proof (induction p rule: rev_induct)
  case Nil
  have "is_dir fs []" using wf by (simp add: is_dir_def fs_metadata_def canonicalize_def)
  moreover have "mkdir fs [] = MkOther" by (simp add: mkdir_def path_trim_def)
  ultimately show ?case by (subst create_dir_all.simps) simp
next
  case (snoc x p)
  have p: "clear_way fs p" using snoc.prems(1) by (rule clear_way_prefix) simp
  have nl: "no_links fs p" using p by (auto simp: clear_way_def no_links_def)
  from snoc.IH [OF p] snoc.prems(2) obtain fs1 where fs1: "create_dir_all fs (lit p) = Some fs1" by auto
  have 1: "wf_fs fs1" "map_of fs1 p = Some NDir" "adds_dirs p fs fs1"
    using create_dir_all_no_links [OF wf nl _ fs1] snoc.prems(2) by auto
  have "clear_way fs1 (p @ [x])"
    using snoc.prems(1) 1(3) unfolding clear_way_def adds_dirs_def by (metis empty_iff insert_iff)
  from mkdir_clear [OF 1(1) this] 1(2)
  have mk1: "mkdir fs1 (lit (p @ [x])) = (if map_of fs1 (p @ [x]) = Some NDir then MkOther else MkOk (hm_insert (p @ [x]) NDir fs1))"
    by simp
  have is_dir: "is_dir g (lit (p @ [x]))" if "map_of g (p @ [x]) = Some NDir" "wf_fs g" for g
    using canonicalize_lit [OF that(2,1)] that by (simp add: is_dir_def fs_metadata_def)
  show ?case
  proof (cases "mkdir fs (lit (p @ [x]))")
    case MkOther
    with mkdir_clear [OF wf snoc.prems(1)] have "map_of fs (p @ [x]) = Some NDir" by (auto split: if_splits)
    with is_dir [OF this wf] MkOther show ?thesis by (subst create_dir_all.simps) simp
  next
    case MkNotFound
    show ?thesis
      by (subst create_dir_all.simps)
        (use mk1 is_dir [OF _ 1(1)] in \<open>simp only: MkNotFound mkdir_result.case path_parent_lit option.case fs1;
          auto split: if_splits\<close>)
  qed (subst create_dir_all.simps, simp)
qed

section \<open>Committing a file\<close>

text \<open>A name of a user's file, neither of a temporary file nor of a backup.\<close>

definition reserved :: "string \<Rightarrow> bool" where
  "reserved x \<longleftrightarrow> suffix TEMP_EXTENSION x \<or> sublist CONFLICT_TAG x"

lemma reserved_temp: "reserved (file_stem x @ CHR ''.'' # TEMP_EXTENSION)"
  by (auto simp: reserved_def suffix_def intro: exI [of _ "file_stem x @ ''.''"])

lemma reserved_backup: "reserved (x @ backup_suffix e label data)"
  unfolding reserved_def backup_suffix_def by (intro disjI2) (simp add: sublist_def, metis append_assoc)

text \<open>The state of the folder in which the file \<open>ns\<close> can be stored: nothing but directories on the way,
  no directory in its place, and no directory with a reserved name.\<close>

definition storable :: "fs \<Rightarrow> abspath \<Rightarrow> abspath \<Rightarrow> bool" where
  "storable fs R ns \<longleftrightarrow> ns \<noteq> [] \<and> (\<forall>n \<in> set ns. valid_name n \<and> \<not> reserved n) \<and>
     clear_way fs (R @ butlast ns) \<and> map_of fs (R @ ns) \<noteq> Some NDir \<and>
     (\<forall>q. q \<noteq> [] \<longrightarrow> reserved (last q) \<longrightarrow> map_of fs (R @ q) \<noteq> Some NDir)"

lemma rename_file:
  assumes wf: "wf_fs fs" and a: "map_of fs a = Some (NFile d m)" and ne: "a \<noteq> b" "b \<noteq> []"
    and b: "map_of fs (butlast b) = Some NDir" "map_of fs b \<noteq> Some NDir"
  shows "fs_rename fs (lit a) (lit b) = Some (fs_move a b fs)"
    and "map_of (fs_move a b fs) = (map_of fs)(b \<mapsto> NFile d m, a := None)"
  using walk_lit_found [OF wf, of "[]" a "NFile d m" False MAXSYMLINKS] walk_file_name [OF wf ne(2) b(1), of MAXSYMLINKS]
    map_of_move_file [OF wf a _ ne(1)] a b ne
  by (auto simp: fs_rename_def fun_eq_iff)

lemma backup_effect:
  assumes l: "linkless (c_fs s) R" and opened: "sync_root_open (c_fs s) (raw_path lp) = Inr root" "sr_root root = R"
    and names: "\<forall>n \<in> set (ms @ [x]). valid_name n" and dir: "map_of (c_fs s) (R @ ms) = Some NDir"
    and tgt: "map_of (c_fs s) (R @ ms @ [x]) \<in> {None, Some (NFile d0 m0)}"
    and b: "b = R @ ms @ [x @ backup_suffix e (loser_of w) data]" "map_of (c_fs s) b \<noteq> Some NDir"
  shows "\<exists>fs' evs. backup_on_conflict e lp (join_slash (ms @ [x])) data w s =
      (s\<lparr>c_fs := fs', c_events := evs\<rparr>, Inr (map_of (c_fs s) (R @ ms @ [x]) \<noteq> None \<and> d0 \<noteq> data)) \<and>
    (if map_of (c_fs s) (R @ ms @ [x]) \<noteq> None \<and> d0 \<noteq> data
     then map_of fs' = (map_of (c_fs s))(b \<mapsto> NFile d0 m0, R @ ms @ [x] := None) else fs' = c_fs s)"
proof -
  let ?p = "R @ ms @ [x]"
  have wf: "wf_fs (c_fs s)" using l by (simp add: linkless_def)
  have join: "root_safe_join (c_fs s) root (join_slash (ms @ [x])) = Inr (lit ?p)"
    using safe_join_new [of "c_fs s" root "ms @ [x]"] l opened(2) names by simp
  show ?thesis
  proof (cases "map_of (c_fs s) ?p")
    case None
    have "canonicalize (c_fs s) (lit ?p) = None"
      using canonicalize_no_links [OF linkless_no_links [OF l]] canonicalize_exists [OF wf] None
      by (cases "canonicalize (c_fs s) (lit ?p)") fastforce+
    then show ?thesis using opened join None
      by (intro exI [of _ "c_fs s"] exI [of _ "c_events s"])
        (simp add: backup_on_conflict_def path_exists_def sreturn_def)
  next
    case (Some nd)
    then have nd: "nd = NFile d0 m0" using tgt by auto
    have can: "canonicalize (c_fs s) (lit ?p) = Some ?p" using canonicalize_lit [OF wf Some] nd by simp
    then have read: "fs_read (c_fs s) (lit ?p) = Some d0" by (simp add: fs_read_def fs_metadata_def Some nd)
    show ?thesis
    proof (cases "d0 = data")
      case True
      then show ?thesis using opened join can read Some
        by (intro exI [of _ "c_fs s"] exI [of _ "c_events s"])
          (simp add: backup_on_conflict_def path_exists_def sreturn_def)
    next
      case False
      have bak: "append_name (lit ?p) (backup_suffix e (loser_of w) data) = lit b"
        using append_name_lit [of "R @ ms" x] by (simp add: b(1))
      have ne: "?p \<noteq> b" by (simp add: b(1) backup_suffix_def CONFLICT_TAG_def)
      have b': "b \<noteq> []" "map_of (c_fs s) (butlast b) = Some NDir" using dir by (simp_all add: b(1) butlast_append)
      from rename_file [OF wf Some [unfolded nd] ne b' b(2)] show ?thesis using opened join can read Some False bak
        by (intro exI [of _ "fs_move ?p b (c_fs s)"]
            exI [of _ "c_events s @ [ConflictEvent (join_slash (ms @ [x])) w (loser_of w)]"])
          (simp add: backup_on_conflict_def path_exists_def sreturn_def sbind_def slift_def supdate_def emit_def)
    qed
  qed
qed

lemma temp_not_backup: "y @ TEMP_EXTENSION \<noteq> x @ backup_suffix e label data"
proof
  assume eq: "y @ TEMP_EXTENSION = x @ backup_suffix e label data"
  define h where "h = take 8 (concat (map hex_byte (e_blake3 e data)))"
  have "last (y @ TEMP_EXTENSION) = CHR ''p''" by (simp add: TEMP_EXTENSION_def)
  moreover have "last (x @ backup_suffix e label data) = (if h = [] then CHR ''-'' else last h)"
    by (simp add: backup_suffix_def h_def [symmetric])
  moreover have "last h \<noteq> CHR ''p''" if "h \<noteq> []"
  proof
    assume "last h = CHR ''p''"
    then have "CHR ''p'' \<in> set h" using that by (metis last_in_set)
    then have "CHR ''p'' \<in> set (concat (map hex_byte (e_blake3 e data)))" unfolding h_def by (rule in_set_takeD)
    then obtain k where "CHR ''p'' = hex_digit k" by (auto simp: hex_byte_def)
    with hex_digit_in [of k] show False by auto
  qed
  ultimately show False using eq by (auto split: if_splits)
qed

lemma commit_effect:
  assumes l: "linkless (c_fs s) R" and opened: "sync_root_open (c_fs s) (raw_path lp) = Inr root" "sr_root root = R"
    and st: "storable (c_fs s) R (ms @ [x])"
    and b_def: "b = R @ ms @ [x @ backup_suffix e (loser_of w) data]"
  shows "\<exists>fs' evs conflicted. commit_file e root lp (join_slash (ms @ [x])) data w s =
      (s\<lparr>c_fs := fs', c_events := evs\<rparr>, Inr (conflicted, lit (R @ ms @ [x]))) \<and>
    linkless fs' R \<and> map_of fs' (R @ ms @ [x]) = Some (NFile data (e_clock e)) \<and>
    conflicted = (\<exists>d0 m0. map_of (c_fs s) (R @ ms @ [x]) = Some (NFile d0 m0) \<and> d0 \<noteq> data) \<and>
    (conflicted \<longrightarrow> map_of fs' b = map_of (c_fs s) (R @ ms @ [x])) \<and>
    (\<forall>q. q \<notin> {R @ ms @ [x], b, R @ ms @ [file_stem x @ CHR ''.'' # TEMP_EXTENSION]} \<longrightarrow>
       map_of fs' q = map_of (c_fs s) q \<or>
       map_of (c_fs s) q = None \<and> map_of fs' q = Some NDir \<and> prefix q (R @ ms)) \<and>
    (\<forall>q \<in> {b, R @ ms @ [file_stem x @ CHR ''.'' # TEMP_EXTENSION]}. map_of fs' q \<noteq> Some NDir)"
proof -
  define fs where "fs = c_fs s"
  define p where "p = R @ ms @ [x]"
  define t where "t = R @ ms @ [file_stem x @ CHR ''.'' # TEMP_EXTENSION]"
  have names: "\<forall>n \<in> set (ms @ [x]). valid_name n" and free: "\<not> reserved x" and way: "clear_way fs (R @ ms)"
    and tgt: "map_of fs p \<noteq> Some NDir" and res: "\<And>q. q \<noteq> [] \<Longrightarrow> reserved (last q) \<Longrightarrow> map_of fs (R @ q) \<noteq> Some NDir"
    using st by (auto simp: storable_def fs_def p_def)
  have tb0: "map_of fs t \<noteq> Some NDir" "map_of fs b \<noteq> Some NDir"
    using res [of "ms @ [file_stem x @ CHR ''.'' # TEMP_EXTENSION]"] reserved_temp [of x]
      res [of "ms @ [x @ backup_suffix e (loser_of w) data]"] reserved_backup
    by (simp_all add: t_def b_def)
  have wf: "wf_fs fs" and lfs: "linkless fs R" using l by (auto simp: linkless_def fs_def)
  have join: "root_safe_join fs root (join_slash (ms @ [x])) = Inr (lit p)"
    using safe_join_new [of fs root "ms @ [x]"] lfs opened(2) names by (simp add: p_def)
  have namesR: "\<forall>n \<in> set (R @ ms). valid_name n" using names linkless_names [OF lfs] by auto
  from create_dir_all_clear [OF wf way namesR] obtain fs1 where mk: "create_dir_all fs (lit (R @ ms)) = Some fs1" by blast
  have parent: "create_parent fs (lit p) = Inr fs1"
    using path_parent_lit(1) [of "R @ ms" x] mk by (simp add: create_parent_def p_def opt_res_def)
  have 1: "wf_fs fs1" "map_of fs1 (R @ ms) = Some NDir" "adds_dirs (R @ ms) fs fs1"
    using create_parent_lit [OF wf linkless_no_links [OF lfs] namesR, of x fs1] parent by (auto simp: p_def)
  have c1: "confined fs R fs1" using confined_adds [OF confined_refl [OF lfs] 1(1,3)] .
  then have l1: "linkless fs1 R" by (simp add: confined_def)
  have same1: "map_of fs1 q = map_of fs q" if "\<not> prefix q (R @ ms)" for q
    using 1(3) that by (auto simp: adds_dirs_def)
  have deep: "\<not> prefix q (R @ ms)" if "q \<in> {p, t, b}" for q
    using that by (auto simp: p_def t_def b_def dest: prefix_length_le)
  have neq: "p \<noteq> t" "p \<noteq> b" "t \<noteq> b"
    using free reserved_temp [of x] reserved_backup [of x e "loser_of w" data]
      temp_not_backup [of "file_stem x @ ''.''" x e "loser_of w" data]
    by (auto simp: p_def t_def b_def)
  define s1 where "s1 = s\<lparr>c_fs := fs1\<rparr>"
  obtain d0 m0 where old: "map_of fs p \<in> {None, Some (NFile d0 m0)}"
  proof -
    have "\<not> is_link (map_of fs p)" using lfs by (auto simp: p_def linkless_def)
    with tgt that show thesis by (cases "map_of fs p"; cases "the (map_of fs p)") auto
  qed
  define conf where "conf = (map_of fs p \<noteq> None \<and> d0 \<noteq> data)"
  have opened1: "sync_root_open fs1 (raw_path lp) = Inr root"
    using confined_open [OF c1 lfs] opened by (simp add: fs_def)
  from backup_effect [of s1 R lp root ms x d0 m0 b e w data] opened1 opened(2) l1 names 1(2) old tb0(2) same1 deep
  obtain fs2 evs where bk: "backup_on_conflict e lp (join_slash (ms @ [x])) data w s1 =
      (s1\<lparr>c_fs := fs2, c_events := evs\<rparr>, Inr conf)"
    and fs2: "if conf then map_of fs2 = (map_of fs1)(b \<mapsto> NFile d0 m0, p := None) else fs2 = fs1"
    by (auto simp: s1_def conf_def p_def b_def)
  have raw: "raw_path (join_slash (ms @ [x])) = lit (ms @ [x]) @ []" using raw_path_join(1) [of "ms @ [x]"] names by simp
  have "linkless (c_fs s1) R" "sync_root_open (c_fs s1) (raw_path lp) = Inr root"
    using l1 opened1 by (simp_all add: s1_def)
  from backup_confined [OF this opened(2) raw _ _ names bk] have c2: "confined fs1 R fs2" by (simp add: s1_def)
  then have l2: "linkless fs2 R" by (simp add: confined_def)
  then have wf2: "wf_fs fs2" by (simp add: linkless_def)
  have dir2: "map_of fs2 (R @ ms) = Some NDir" using c2 1(2) by (simp add: confined_def)
  have same2: "map_of fs2 q = map_of fs1 q" if "q \<noteq> b" "q \<noteq> p" for q using fs2 that by (auto split: if_splits)
  have at1: "map_of fs1 b = map_of fs b" "map_of fs1 p = map_of fs p" by (rule same1, rule deep, simp)+
  have b2: "conf \<longrightarrow> map_of fs2 b = map_of fs p" "map_of fs2 b \<noteq> Some NDir" "map_of fs2 p \<noteq> Some NDir"
  proof -
    have "map_of fs p = Some (NFile d0 m0)" if conf using that old by (auto simp: conf_def)
    then show "conf \<longrightarrow> map_of fs2 b = map_of fs p" "map_of fs2 b \<noteq> Some NDir" "map_of fs2 p \<noteq> Some NDir"
      using fs2 neq(2) tb0(2) tgt at1 by (cases conf; simp)+
  qed
  have "map_of fs2 t = map_of fs1 t" using neq by (intro same2) auto
  moreover have "map_of fs1 t = map_of fs t" by (rule same1, rule deep) simp
  moreover have "\<not> is_link (map_of fs2 t)" using l2 by (simp add: linkless_def t_def)
  moreover have "valid_name (last t)" "butlast t = R @ ms" "t \<noteq> []"
    using valid_temp [of x] names by (simp_all add: t_def butlast_append)
  ultimately have t2: "temp_ok fs2 t" using dir2 tb0(1) by (simp add: temp_ok_def)
  obtain fs3 r where rep: "replace_file (e_clock e) fs2 (lit t) (lit p) data = (fs3, r)" by fastforce
  have "no_links fs2 p" "p \<noteq> []" "valid_name (last p)"
    using linkless_no_links [OF l2, of "ms @ [x]"] names by (auto simp: p_def)
  from replace_file_effect [OF wf2 t2 this _ rep] neq dir2 b2(3)
  have r: "r = Inr ()" and wf3: "wf_fs fs3" and p3: "map_of fs3 p = Some (NFile data (e_clock e))"
    and t3: "map_of fs3 t = None" and same3: "\<And>q. q \<noteq> p \<Longrightarrow> q \<noteq> t \<Longrightarrow> map_of fs3 q = map_of fs2 q"
    by (auto simp: p_def butlast_append)
  have temp: "with_extension (lit p) TEMP_EXTENSION = lit t"
    using with_extension_lit [of "[]" "R @ ms" x] by (simp add: p_def t_def)
  have run: "commit_file e root lp (join_slash (ms @ [x])) data w s =
      (s\<lparr>c_fs := fs3, c_events := evs\<rparr>, Inr (conf, lit p))"
    using join parent bk rep temp r
    by (simp add: commit_file_def sbind_def slift_def supdate_def s1_def fs_def)
  have "confined fs R fs3"
    using commit_confined [OF l opened, of e "join_slash (ms @ [x])" data w] by (simp add: run fs_def)
  then have l3: "linkless fs3 R" by (simp add: confined_def)
  have frame: "map_of fs3 q = map_of fs q \<or> map_of fs q = None \<and> map_of fs3 q = Some NDir \<and> prefix q (R @ ms)"
    if "q \<notin> {p, b, t}" for q
    using that same3 [of q] same2 [of q] 1(3) by (auto simp: adds_dirs_def)
  have b3: "map_of fs3 b = map_of fs2 b" using same3 neq by auto
  show ?thesis
    unfolding p_def [symmetric] t_def [symmetric] fs_def [symmetric]
    by (intro exI [of _ fs3] exI [of _ evs] exI [of _ conf])
      (use run l3 p3 frame b3 b2 t3 old in \<open>auto simp: conf_def\<close>)
qed

section \<open>The chunks of one file\<close>

text \<open>A file that the receiver takes in the state \<open>st\<close> of its buffers.\<close>

definition receivable :: "string \<Rightarrow> bytes \<Rightarrow> RecvState \<Rightarrow> bool" where
  "receivable path d st \<longleftrightarrow> transferable path d st \<and> buffered_bytes st + length d \<le> 256 * 1024 * 1024"

lemma take_chunk_step:
  assumes "receivable path d (c_recv s)" and "offset < length d \<or> offset = 0"
    and n: "n = min (offset + CHUNK_SIZE) (length d)"
    and c: "c = \<lparr>ch_folder_id = fid, ch_path = path, ch_offset = word_of_nat offset,
      ch_data = take (n - offset) (drop offset d), ch_total_size = word_of_nat (length d)\<rparr>"
  shows "take_chunk e x c (s\<lparr>c_recv := partial_state path d offset (c_recv s)\<rparr>) =
    (if n < length d then (s\<lparr>c_recv := partial_state path d n (c_recv s)\<rparr>, Inr False)
     else take_file e x path d s)"
proof -
  have "buffered_bytes (c_recv s) + n \<le> 256 * 1024 * 1024"
    using assms(1) n by (auto simp: receivable_def)
  with receive_sent_chunk [OF _ assms(2) n this c, of "e_checks e"] assms(1) show ?thesis
    by (simp add: take_chunk_def receivable_def Let_def)
qed

lemma server_loop_chunks:
  assumes "receivable path d (c_recv s)" and "offset < length d \<or> offset = 0" and "\<not> c_eof s"
  shows "server_loop e x (map MFileChunk (chunks_from fid path d offset) @ ms)
      (s\<lparr>c_recv := partial_state path d offset (c_recv s)\<rparr>) =
    sbind (take_file e x path d) (\<lambda>continued s1.
      if \<not> continued \<and> c_eof s1 \<and> incoming_files (c_recv s1) = [] then (s1, Inr ())
      else server_loop e x ms s1) s"
  using assms(1,2)
proof (induction fid path d offset rule: chunks_from.induct)
  case (1 fid path d offset)
  define n where "n = min (offset + CHUNK_SIZE) (length d)"
  note step = take_chunk_step [OF "1.prems"(1,2) n_def refl, of e x fid]
  show ?case
  proof (cases "length d \<le> n")
    case True
    with step show ?thesis
      by (subst chunks_from.simps) (simp add: Let_def sbind_def server_message_def flip: n_def)
  next
    case False
    then have "n < length d \<or> n = 0" by simp
    from "1.IH" [OF n_def refl False "1.prems"(1) this] step False assms(3) show ?thesis
      by (subst chunks_from.simps) (simp add: Let_def sbind_def server_message_def flip: n_def)
  qed
qed

lemma client_loop_chunks:
  assumes "receivable path d (c_recv s)" and "offset < length d \<or> offset = 0" and "length (c_pulled s) < pulls"
  shows "client_loop e x acks pulls (map MFileChunk (chunks_from fid path d offset) @ ms)
      (s\<lparr>c_recv := partial_state path d offset (c_recv s)\<rparr>) =
    sbind (take_file e x path d) (\<lambda>_. client_loop e x acks pulls ms) s"
  using assms(1,2)
proof (induction fid path d offset rule: chunks_from.induct)
  case (1 fid path d offset)
  define n where "n = min (offset + CHUNK_SIZE) (length d)"
  note step = take_chunk_step [OF "1.prems"(1,2) n_def refl, of e x fid]
  have more: "\<not> client_finished acks pulls (s\<lparr>c_recv := r\<rparr>)" for r
    using assms(3) by (simp add: client_finished_def)
  show ?case
  proof (cases "length d \<le> n")
    case True
    with step more show ?thesis
      by (subst chunks_from.simps)
        (simp add: Let_def sbind_def client_message_def sreturn_def flip: n_def split: prod.split sum.split)
  next
    case False
    then have "n < length d \<or> n = 0" by simp
    from "1.IH" [OF n_def refl False "1.prems"(1) this] step False more show ?thesis
      by (subst chunks_from.simps)
        (simp add: Let_def sbind_def client_message_def sreturn_def flip: n_def)
  qed
qed

lemma partial_zero: "s\<lparr>c_recv := partial_state path d 0 (c_recv s)\<rparr> = s"
  by (simp add: partial_state_def)

lemmas server_loop_file = server_loop_chunks [where offset = 0, unfolded partial_zero, folded send_file_chunks_def, simplified]
lemmas client_loop_file = client_loop_chunks [where offset = 0, unfolded partial_zero, folded send_file_chunks_def, simplified]

section \<open>Receiving a list of files\<close>

definition encodes :: "env \<Rightarrow> bool" where
  "encodes e \<longleftrightarrow> (\<forall>m. e_encode e m \<noteq> None)"

lemma write_encodes: "encodes e \<Longrightarrow> write_msg e m s = (s\<lparr>c_out := c_out s @ [m]\<rparr>, Inr ())"
proof -
  assume "encodes e"
  then obtain b where "e_encode e m = Some b" unfolding encodes_def by blast
  then show ?thesis by (simp add: write_msg_def frame_message_def sbind_def slift_def supdate_def)
qed

lemma take_file_effect:
  assumes enc: "encodes e" and hash: "map_of (x_hashes x) path \<in> {None, Some (e_blake3 e d)}"
    and run: "commit_file e (x_root x) (x_local_path x) path d (x_winner x) s =
      (s\<lparr>c_fs := fs', c_events := evs\<rparr>, Inr (conf, target))"
  shows "\<exists>s'. take_file e x path d s = (s', Inr False) \<and> c_fs s' = fs' \<and> c_recv s' = c_recv s \<and>
    c_eof s' = c_eof s \<and> c_pulled s' = c_pulled s @ [path] \<and> c_out s' = c_out s @ [ack path True None] \<and>
    c_pushed s' = c_pushed s \<and> c_acked s' = c_acked s"
proof -
  have h: "\<not> (case map_of (x_hashes x) path of None \<Rightarrow> False | Some expected \<Rightarrow> e_blake3 e d \<noteq> expected)"
    using hash by auto
  show ?thesis
    using run
    by (cases "x_ack_first x")
      (simp_all add: take_file_def Let_def h sbind_def supdate_def write_encodes [OF enc] sreturn_def book_file_def
        emit_progress_def emit_def record_history_row_def)
qed

text \<open>The receiver is between two files, its root has no links below it.\<close>

definition idle :: "recv_ctx \<Rightarrow> session \<Rightarrow> bool" where
  "idle x s \<longleftrightarrow> linkless (c_fs s) (sr_root (x_root x)) \<and>
     sync_root_open (c_fs s) (raw_path (x_local_path x)) = Inr (x_root x) \<and>
     c_recv s = \<lparr>incoming_files = [], buffered_bytes = 0\<rparr>"

text \<open>Files that can be delivered: names that can be stored and do not stand in each other's way,
  sizes within the buffer limit, and contents that match what the peer announced.\<close>

definition deliverable :: "env \<Rightarrow> recv_ctx \<Rightarrow> fs \<Rightarrow> (abspath \<times> bytes) list \<Rightarrow> bool" where
  "deliverable e x fs es \<longleftrightarrow> distinct (map fst es) \<and>
     (\<forall>a \<in> set es. \<forall>b \<in> set es. fst a \<noteq> fst b \<longrightarrow> \<not> prefix (fst a) (fst b)) \<and>
     (\<forall>(ns, d) \<in> set es. storable fs (sr_root (x_root x)) ns \<and> join_slash ns \<noteq> ''metadata.db'' \<and>
        length (join_slash ns) \<le> MAX_PATH_LEN \<and> length d \<le> 256 * 1024 * 1024 \<and>
        map_of (x_hashes x) (join_slash ns) \<in> {None, Some (e_blake3 e d)})"

lemma storable_names: "storable fs R ns \<Longrightarrow> n \<in> set ns \<Longrightarrow> \<not> reserved n"
  by (simp add: storable_def)

lemma idle_receivable:
  "idle x s \<Longrightarrow> deliverable e x fs ((ns, d) # es) \<Longrightarrow> receivable (join_slash ns) d (c_recv s)"
  by (auto simp: idle_def deliverable_def receivable_def transferable_def MAX_FILE_SIZE_def)

text \<open>What the committing of one file leaves: the targets \<open>T\<close> aside, names without reserved parts keep
  what they hold, but for new directories on the way to a target.\<close>

definition frame_below :: "abspath \<Rightarrow> abspath set \<Rightarrow> fs \<Rightarrow> fs \<Rightarrow> bool" where
  "frame_below R T fs fs' \<longleftrightarrow> (\<forall>q. q \<notin> T \<longrightarrow> (\<forall>n \<in> set q. \<not> reserved n) \<longrightarrow>
     map_of fs' (R @ q) = map_of fs (R @ q) \<or>
     map_of fs (R @ q) = None \<and> map_of fs' (R @ q) = Some NDir \<and> (\<exists>t \<in> T. prefix q t))"

lemma frame_below_refl: "frame_below R T fs fs"
  by (simp add: frame_below_def)

lemma frame_below_trans:
  assumes "frame_below R T fs0 fs1" and "frame_below R U fs1 fs2"
  shows "frame_below R (T \<union> U) fs0 fs2"
  unfolding frame_below_def
proof (intro allI impI)
  fix q assume q: "q \<notin> T \<union> U" "\<forall>n \<in> set q. \<not> reserved n"
  with assms show "map_of fs2 (R @ q) = map_of fs0 (R @ q) \<or>
      map_of fs0 (R @ q) = None \<and> map_of fs2 (R @ q) = Some NDir \<and> (\<exists>t \<in> T \<union> U. prefix q t)"
    unfolding frame_below_def by (metis UnCI)
qed

lemma storable_step:
  assumes st0: "storable fs R (ms @ [x])" and st: "storable fs R ns"
    and apart: "\<not> prefix (ms @ [x]) ns" "\<not> prefix ns (ms @ [x])"
    and b: "reserved y" "reserved z"
    and frame: "\<And>q. q \<notin> {R @ ms @ [x], R @ ms @ [y], R @ ms @ [z]} \<Longrightarrow>
       map_of fs' q = map_of fs q \<or> map_of fs q = None \<and> map_of fs' q = Some NDir \<and> prefix q (R @ ms)"
    and res: "map_of fs' (R @ ms @ [y]) \<noteq> Some NDir" "map_of fs' (R @ ms @ [z]) \<noteq> Some NDir"
  shows "storable fs' R ns"
proof -
  have way: "map_of fs' q \<in> {None, Some NDir}" if q: "prefix q (R @ butlast ns)" for q
  proof -
    have "map_of fs q \<in> {None, Some NDir}" using st q by (simp add: storable_def clear_way_def)
    moreover have "q \<notin> {R @ ms @ [x], R @ ms @ [y], R @ ms @ [z]}"
    proof
      assume "q \<in> {R @ ms @ [x], R @ ms @ [y], R @ ms @ [z]}"
      then consider "q = R @ ms @ [x]" | u where "q = R @ ms @ [u]" "reserved u" using b by auto
      then show False
      proof cases
        case 1
        with q have "prefix (ms @ [x]) (butlast ns)" by simp
        then show False using apart(1) prefix_order.trans [OF _ prefixeq_butlast] by blast
      next
        case 2
        with q have "prefix (ms @ [u]) (butlast ns)" by simp
        then have "u \<in> set ns" using set_mono_prefix [of "ms @ [u]"] in_set_butlastD [of u ns] by auto
        with st 2(2) show False by (simp add: storable_def)
      qed
    qed
    ultimately show ?thesis using frame [of q] by auto
  qed
  have "map_of fs' (R @ ns) \<noteq> Some NDir"
  proof -
    have "last ns \<in> set ns" using st by (simp add: storable_def)
    then have "\<not> reserved (last ns)" using st by (simp add: storable_def)
    then have "ns \<noteq> ms @ [y]" "ns \<noteq> ms @ [z]" "ns \<noteq> ms @ [x]" using b apart(1) by auto
    moreover have "\<not> prefix (R @ ns) (R @ ms)" using apart(2) by auto
    ultimately show ?thesis using frame [of "R @ ns"] st by (auto simp: storable_def)
  qed
  moreover have "map_of fs' (R @ q) \<noteq> Some NDir" if q: "q \<noteq> []" "reserved (last q)" for q
  proof -
    have old: "map_of fs (R @ q) \<noteq> Some NDir" using st q by (simp add: storable_def)
    have "q \<noteq> ms @ [x]" using st0 q(2) by (auto simp: storable_def)
    moreover have "\<not> prefix (R @ q) (R @ ms)"
    proof
      assume "prefix (R @ q) (R @ ms)"
      then have "last q \<in> set ms" using q(1) set_mono_prefix [of q ms] by auto
      with st0 q(2) show False by (simp add: storable_def)
    qed
    ultimately show ?thesis using frame [of "R @ q"] old res by (cases "R @ q \<in> {R @ ms @ [y], R @ ms @ [z]}") auto
  qed
  ultimately show ?thesis using st way by (simp add: storable_def clear_way_def)
qed

text \<open>One file: it is taken, the receiver is idle again, and the rest can still be delivered.\<close>

lemma deliver_one:
  assumes enc: "encodes e" and idle: "idle x s" and del: "deliverable e x (c_fs s) ((ns, d) # es)"
  shows "\<exists>s'. take_file e x (join_slash ns) d s = (s', Inr False) \<and> idle x s' \<and> deliverable e x (c_fs s') es \<and>
    c_eof s' = c_eof s \<and> c_pulled s' = c_pulled s @ [join_slash ns] \<and> c_pushed s' = c_pushed s \<and>
    c_acked s' = c_acked s \<and> c_out s' = c_out s @ [ack (join_slash ns) True None] \<and>
    map_of (c_fs s') (sr_root (x_root x) @ ns) = Some (NFile d (e_clock e)) \<and>
    frame_below (sr_root (x_root x)) {ns} (c_fs s) (c_fs s')"
proof -
  let ?R = "sr_root (x_root x)"
  have l: "linkless (c_fs s) ?R" and opened: "sync_root_open (c_fs s) (raw_path (x_local_path x)) = Inr (x_root x)"
    and r: "c_recv s = \<lparr>incoming_files = [], buffered_bytes = 0\<rparr>" using idle by (auto simp: idle_def)
  have st: "storable (c_fs s) ?R ns" and hash: "map_of (x_hashes x) (join_slash ns) \<in> {None, Some (e_blake3 e d)}"
    using del by (auto simp: deliverable_def)
  obtain ms y where ns: "ns = ms @ [y]" using st by (cases ns rule: rev_cases) (auto simp: storable_def)
  let ?b = "y @ backup_suffix e (loser_of (x_winner x)) d" and ?t = "file_stem y @ CHR ''.'' # TEMP_EXTENSION"
  from commit_effect [OF l opened refl st [unfolded ns] refl, where e = e and w = "x_winner x" and data = d] obtain fs' evs conf where
    run: "commit_file e (x_root x) (x_local_path x) (join_slash ns) d (x_winner x) s =
      (s\<lparr>c_fs := fs', c_events := evs\<rparr>, Inr (conf, lit (?R @ ns)))"
    and l': "linkless fs' ?R" and new: "map_of fs' (?R @ ns) = Some (NFile d (e_clock e))"
    and frame: "\<And>q. q \<notin> {?R @ ms @ [y], ?R @ ms @ [?b], ?R @ ms @ [?t]} \<Longrightarrow>
       map_of fs' q = map_of (c_fs s) q \<or> map_of (c_fs s) q = None \<and> map_of fs' q = Some NDir \<and> prefix q (?R @ ms)"
    and res: "map_of fs' (?R @ ms @ [?b]) \<noteq> Some NDir" "map_of fs' (?R @ ms @ [?t]) \<noteq> Some NDir"
    unfolding ns by auto
  from take_file_effect [OF enc hash run] obtain s' where
    s': "take_file e x (join_slash ns) d s = (s', Inr False)" "c_fs s' = fs'" "c_recv s' = c_recv s"
      "c_eof s' = c_eof s" "c_pulled s' = c_pulled s @ [join_slash ns]" "c_out s' = c_out s @ [ack (join_slash ns) True None]"
      "c_pushed s' = c_pushed s" "c_acked s' = c_acked s"
    by blast
  have "confined (c_fs s) ?R fs'"
    using commit_confined [OF l opened refl, of e "join_slash ns" d "x_winner x"] by (simp add: run)
  from confined_open [OF this l opened refl] have "idle x s'" using l' r s' by (simp add: idle_def)
  moreover have "storable fs' ?R ns'" if "(ns', d') \<in> set es" for ns' d'
  proof (rule storable_step [OF st [unfolded ns] _ _ _ reserved_backup reserved_temp frame res])
    have "ns \<noteq> ns'" using that del by (force simp: deliverable_def)
    then show "\<not> prefix (ms @ [y]) ns'" "\<not> prefix ns' (ms @ [y])"
      using that del unfolding ns [symmetric] by (fastforce simp: deliverable_def)+
    show "storable (c_fs s) ?R ns'" using that del by (auto simp: deliverable_def)
  qed
  then have "deliverable e x fs' es" using del by (auto simp: deliverable_def)
  moreover have "frame_below ?R {ns} (c_fs s) fs'"
    unfolding frame_below_def
  proof (intro allI impI)
    fix q assume q: "q \<notin> {ns}" "\<forall>n \<in> set q. \<not> reserved n"
    then have "?R @ q \<notin> {?R @ ms @ [y], ?R @ ms @ [?b], ?R @ ms @ [?t]}"
      using reserved_backup [of y e "loser_of (x_winner x)" d] reserved_temp [of y] by (auto simp: ns)
    from frame [OF this] show "map_of fs' (?R @ q) = map_of (c_fs s) (?R @ q) \<or>
        map_of (c_fs s) (?R @ q) = None \<and> map_of fs' (?R @ q) = Some NDir \<and> (\<exists>t \<in> {ns}. prefix q t)"
      by (auto simp: ns)
  qed
  ultimately show ?thesis using s' new by blast
qed

fun take_all :: "env \<Rightarrow> recv_ctx \<Rightarrow> (abspath \<times> bytes) list \<Rightarrow> session \<Rightarrow> session" where
  "take_all e x [] s = s"
| "take_all e x ((ns, d) # es) s = take_all e x es (fst (take_file e x (join_slash ns) d s))"

lemma take_all_effect:
  assumes "encodes e" and "idle x s" and "deliverable e x (c_fs s) es"
  shows "idle x (take_all e x es s) \<and> c_eof (take_all e x es s) = c_eof s \<and>
    c_pulled (take_all e x es s) = c_pulled s @ map (join_slash \<circ> fst) es \<and>
    c_pushed (take_all e x es s) = c_pushed s \<and> c_acked (take_all e x es s) = c_acked s \<and>
    c_out (take_all e x es s) = c_out s @ map (\<lambda>(ns, d). ack (join_slash ns) True None) es \<and>
    (\<forall>(ns, d) \<in> set es. map_of (c_fs (take_all e x es s)) (sr_root (x_root x) @ ns) = Some (NFile d (e_clock e))) \<and>
    frame_below (sr_root (x_root x)) (fst ` set es) (c_fs s) (c_fs (take_all e x es s))"
  using assms(2,3)
proof (induction es arbitrary: s)
  case (Cons a es)
  obtain ns d where a: "a = (ns, d)" by (cases a)
  from deliver_one [OF assms(1) Cons.prems(1) Cons.prems(2) [unfolded a]] obtain s1 where
    one: "take_file e x (join_slash ns) d s = (s1, Inr False)" "idle x s1" "deliverable e x (c_fs s1) es"
      "c_eof s1 = c_eof s" "c_pulled s1 = c_pulled s @ [join_slash ns]" "c_pushed s1 = c_pushed s"
      "c_acked s1 = c_acked s" "c_out s1 = c_out s @ [ack (join_slash ns) True None]"
      "map_of (c_fs s1) (sr_root (x_root x) @ ns) = Some (NFile d (e_clock e))"
      "frame_below (sr_root (x_root x)) {ns} (c_fs s) (c_fs s1)" by blast
  note ih = Cons.IH [OF one(2,3)]
  have "ns \<notin> fst ` set es" using Cons.prems(2) by (simp add: a deliverable_def)
  moreover have "\<forall>n \<in> set ns. \<not> reserved n" using Cons.prems(2) by (auto simp: a deliverable_def storable_def)
  ultimately have "map_of (c_fs (take_all e x es s1)) (sr_root (x_root x) @ ns) = Some (NFile d (e_clock e))"
    using ih one(9) by (auto simp: frame_below_def)
  moreover have "frame_below (sr_root (x_root x)) (fst ` set (a # es)) (c_fs s) (c_fs (take_all e x es s1))"
    using frame_below_trans [OF one(10)] ih by (simp add: a)
  ultimately show ?case using ih one by (simp add: a)
qed (simp add: frame_below_refl)

text \<open>The messages that carry the files.\<close>

definition chunk_messages :: "i64 \<Rightarrow> (abspath \<times> bytes) list \<Rightarrow> SyncMessage list" where
  "chunk_messages fid es = concat (map (\<lambda>(ns, d). map MFileChunk (send_file_chunks (join_slash ns) d (show_int fid))) es)"

lemma server_loop_files:
  assumes enc: "encodes e" and "idle x s" and "deliverable e x (c_fs s) es" and "\<not> c_eof s"
  shows "server_loop e x (chunk_messages fid es @ rest) s = server_loop e x rest (take_all e x es s)"
  using assms(2-)
proof (induction es arbitrary: s)
  case (Cons a es)
  obtain ns d where a: "a = (ns, d)" by (cases a)
  from deliver_one [OF enc Cons.prems(1) Cons.prems(2) [unfolded a]] obtain s1 where
    one: "take_file e x (join_slash ns) d s = (s1, Inr False)" "idle x s1" "deliverable e x (c_fs s1) es"
      "c_eof s1 = c_eof s" by blast
  from Cons.IH [OF one(2,3)] one(1,4) Cons.prems(3)
    server_loop_file [OF idle_receivable [OF Cons.prems(1) Cons.prems(2) [unfolded a]] Cons.prems(3)]
  show ?case by (simp add: chunk_messages_def a sbind_def)
qed (simp add: chunk_messages_def)

lemma client_loop_files:
  assumes enc: "encodes e" and "idle x s" and "deliverable e x (c_fs s) es"
    and "length (c_pulled s) + length es \<le> pulls"
  shows "client_loop e x acks pulls (chunk_messages fid es @ rest) s = client_loop e x acks pulls rest (take_all e x es s)"
  using assms(2-)
proof (induction es arbitrary: s)
  case (Cons a es)
  obtain ns d where a: "a = (ns, d)" by (cases a)
  from deliver_one [OF enc Cons.prems(1) Cons.prems(2) [unfolded a]] obtain s1 where
    one: "take_file e x (join_slash ns) d s = (s1, Inr False)" "idle x s1" "deliverable e x (c_fs s1) es"
      "c_pulled s1 = c_pulled s @ [join_slash ns]" by blast
  have pulls: "length (c_pulled s) < pulls" "length (c_pulled s1) + length es \<le> pulls"
    using Cons.prems(3) one(4) by auto
  from Cons.IH [OF one(2,3) pulls(2)] one(1)
    client_loop_file [OF idle_receivable [OF Cons.prems(1) Cons.prems(2) [unfolded a]] pulls(1)]
  show ?case by (simp add: chunk_messages_def a sbind_def)
qed (simp add: chunk_messages_def)

end
