(* ===== verification/Convergence.thy ===== *)
theory Convergence
  imports Delivery
begin

text \<open>
  Two devices in one session: the client's run and the server's run, each reading what the other
  writes. The files of a folder are compared by relative path and contents.
\<close>

section \<open>Pushing files\<close>

definition content :: "fs \<Rightarrow> abspath \<Rightarrow> abspath \<Rightarrow> bytes option" where
  "content fs R ns = (case map_of fs (R @ ns) of Some (NFile d m) \<Rightarrow> Some d | _ \<Rightarrow> None)"

lemma content_Some: "content fs R ns = Some d \<longleftrightarrow> (\<exists>m. map_of fs (R @ ns) = Some (NFile d m))"
  by (auto simp: content_def split: option.splits node.splits)

text \<open>The files that a list of paths stands for.\<close>

definition files_of :: "fs \<Rightarrow> abspath \<Rightarrow> FilePath list \<Rightarrow> (abspath \<times> bytes) list" where
  "files_of fs R ps = map (\<lambda>p. (split_slash p, the (content fs R (split_slash p)))) ps"

definition holds :: "fs \<Rightarrow> abspath \<Rightarrow> FilePath \<Rightarrow> bool" where
  "holds fs R p \<longleftrightarrow> (\<exists>ns d. p = join_slash ns \<and> ns \<noteq> [] \<and> content fs R ns = Some d)"

lemma holdsD:
  assumes "wf_fs fs" and "holds fs R p"
  obtains ns d m where "p = join_slash ns" and "split_slash p = ns" and "ns \<noteq> []" and "\<forall>n \<in> set ns. valid_name n"
    and "content fs R ns = Some d" and "map_of fs (R @ ns) = Some (NFile d m)"
proof -
  from assms(2) obtain ns d m where *: "p = join_slash ns" "ns \<noteq> []" "content fs R ns = Some d"
    "map_of fs (R @ ns) = Some (NFile d m)" by (auto simp: holds_def content_Some)
  moreover note wf_fs_names [OF assms(1) *(4)]
  moreover from this have "split_slash p = ns" using split_join *(1,2) by simp
  ultimately show thesis using that by blast
qed

lemma send_chunks_encodes:
  assumes "encodes e"
  shows "send_chunks e path d fid s = (s\<lparr>c_out := c_out s @ map MFileChunk (send_file_chunks path d (show_int fid))\<rparr>, Inr ())"
proof -
  have "sfor (\<lambda>c. write_msg e (MFileChunk c)) cs s = (s\<lparr>c_out := c_out s @ map MFileChunk cs\<rparr>, Inr ())" for cs s
    by (induction cs arbitrary: s) (simp_all add: sreturn_def sbind_def write_encodes [OF assms])
  then show ?thesis by (simp add: send_chunks_def)
qed

text \<open>What a push leaves as it was.\<close>

definition same_folder :: "session \<Rightarrow> session \<Rightarrow> bool" where
  "same_folder s s' \<longleftrightarrow> c_fs s' = c_fs s \<and> c_recv s' = c_recv s \<and> c_eof s' = c_eof s \<and>
     c_pulled s' = c_pulled s \<and> c_acked s' = c_acked s"

lemma same_folder_trans: "same_folder a b \<Longrightarrow> same_folder b c \<Longrightarrow> same_folder a c"
  by (simp add: same_folder_def)

lemma push_one:
  assumes enc: "encodes e" and ok: "linkless (c_fs s) (sr_root r)" and p: "holds (c_fs s) (sr_root r) (ie_path entry)"
  shows "\<exists>s'. push_file e r fid did ed tf tb entry s = (s', Inr ()) \<and> same_folder s s' \<and>
    c_out s' = c_out s @ chunk_messages fid (files_of (c_fs s) (sr_root r) [ie_path entry]) \<and>
    c_pushed s' = c_pushed s @ [ie_path entry]"
proof -
  have wf: "wf_fs (c_fs s)" using ok by (simp add: linkless_def)
  from holdsD [OF wf p] obtain ns d m where ns: "ie_path entry = join_slash ns" "split_slash (ie_path entry) = ns"
    "ns \<noteq> []" "\<forall>n \<in> set ns. valid_name n" "content (c_fs s) (sr_root r) ns = Some d"
    "map_of (c_fs s) (sr_root r @ ns) = Some (NFile d m)" .
  have join: "root_safe_join (c_fs s) r (ie_path entry) = Inr (lit (sr_root r @ ns))"
    unfolding ns(1) by (rule safe_join_new [OF ok ns(3,4)])
  have "canonicalize (c_fs s) (lit (sr_root r @ ns)) = Some (sr_root r @ ns)"
    using canonicalize_lit [OF wf ns(6)] by simp
  then have read: "fs_read (c_fs s) (lit (sr_root r @ ns)) = Some d"
    by (simp add: fs_read_def fs_metadata_def ns(6))
  have msgs: "map MFileChunk (send_file_chunks (ie_path entry) d (show_int fid)) =
      chunk_messages fid (files_of (c_fs s) (sr_root r) [ie_path entry])"
    by (simp only: chunk_messages_def files_of_def list.map prod.case ns(2,5) option.sel ns(1) [symmetric]) simp
  show ?thesis
    using join read
    by (simp add: push_file_def sbind_def slift_def send_chunks_encodes [OF enc] supdate_def emit_progress_def
        emit_def record_history_row_def same_folder_def msgs)
qed

lemma chunk_messages_append: "chunk_messages fid (xs @ ys) = chunk_messages fid xs @ chunk_messages fid ys"
  by (simp add: chunk_messages_def)

lemma push_all:
  assumes enc: "encodes e" and "linkless (c_fs s) (sr_root r)"
    and "\<forall>entry \<in> set entries. holds (c_fs s) (sr_root r) (ie_path entry)"
  shows "\<exists>s'. sfor (push_file e r fid did ed tf tb) entries s = (s', Inr ()) \<and> same_folder s s' \<and>
    c_out s' = c_out s @ chunk_messages fid (files_of (c_fs s) (sr_root r) (map ie_path entries)) \<and>
    c_pushed s' = c_pushed s @ map ie_path entries"
  using assms(2-)
proof (induction entries arbitrary: s)
  case Nil
  show ?case by (simp add: sreturn_def same_folder_def chunk_messages_def files_of_def)
next
  case (Cons entry entries)
  from push_one [OF enc Cons.prems(1), of entry] Cons.prems(2) obtain s1 where
    1: "push_file e r fid did ed tf tb entry s = (s1, Inr ())" "same_folder s s1"
      "c_out s1 = c_out s @ chunk_messages fid (files_of (c_fs s) (sr_root r) [ie_path entry])"
      "c_pushed s1 = c_pushed s @ [ie_path entry]" by fastforce
  have fs: "c_fs s1 = c_fs s" using 1(2) by (simp add: same_folder_def)
  from Cons.IH [of s1] Cons.prems obtain s2 where
    "sfor (push_file e r fid did ed tf tb) entries s1 = (s2, Inr ())" "same_folder s1 s2"
      "c_out s2 = c_out s1 @ chunk_messages fid (files_of (c_fs s1) (sr_root r) (map ie_path entries))"
      "c_pushed s2 = c_pushed s1 @ map ie_path entries" by (auto simp: fs)
  with 1 same_folder_trans [OF 1(2)] show ?case
    by (intro exI [of _ s2]) (simp add: sbind_def fs files_of_def chunk_messages_def)
qed

section \<open>The index of a folder\<close>

definition file_entry :: "(bytes \<Rightarrow> bytes) \<Rightarrow> abspath \<Rightarrow> bytes \<Rightarrow> i64 \<Rightarrow> IndexEntry" where
  "file_entry blake3 ns d m = \<lparr>ie_path = join_slash ns, ie_local_version = word_of_int (max 0 m),
     ie_remote_version = 0, ie_mtime = max 0 m, ie_size = word_of_nat (length d), ie_hash = blake3 d\<rparr>"

definition describes :: "(bytes \<Rightarrow> bytes) \<Rightarrow> fs \<Rightarrow> abspath \<Rightarrow> IndexEntry list \<Rightarrow> bool" where
  "describes blake3 fs R entries \<longleftrightarrow> distinct (map ie_path entries) \<and>
     (\<forall>x. x \<in> set entries \<longleftrightarrow> (\<exists>ns d m. ns \<noteq> [] \<and> map_of fs (R @ ns) = Some (NFile d m) \<and>
        last ns \<noteq> ''metadata.db'' \<and> x = file_entry blake3 ns d m))"

lemma index_describes:
  assumes "wf_fs fs" and "sync_root_open fs p = Inr r"
  shows "\<exists>entries. build_protocol_index blake3 fs p fid did = Inr entries \<and> describes blake3 fs (sr_root r) entries"
proof -
  define entries where "entries = map (snapshot_entry_to_index \<circ> stamp_entry did) (scan_dir blake3 fs (sr_root r) (sr_root r))"
  have "build_protocol_index blake3 fs p fid did = Inr entries"
    by (simp add: build_protocol_index_def assms(2) Let_def snapshot_to_index_def snapshot_build_def scan_def entries_def)
  have "map ie_path entries = map se_path (scan_dir blake3 fs (sr_root r) (sr_root r))"
    by (simp add: entries_def snapshot_entry_to_index_def stamp_entry_def)
  then have "distinct (map ie_path entries)" using distinct_scan_dir [OF assms(1), of "sr_root r" "sr_root r"] by simp
  have "snapshot_entry_to_index (stamp_entry did (scan_entry blake3 ns d m)) = file_entry blake3 ns d m" for ns d m
    by (simp add: snapshot_entry_to_index_def stamp_entry_def scan_entry_def file_entry_def file_hash_from_bytes_def)
  moreover have "set (scan_dir blake3 fs (sr_root r) (sr_root r)) = {scan_entry blake3 ns d m |ns d m.
      ns \<noteq> [] \<and> map_of fs (sr_root r @ ns) = Some (NFile d m) \<and> last ns \<noteq> ''metadata.db''}"
    by (rule set_eqI) (auto simp: set_scan_dir [OF assms(1)])
  ultimately have "set entries = {file_entry blake3 ns d m |ns d m.
      ns \<noteq> [] \<and> map_of fs (sr_root r @ ns) = Some (NFile d m) \<and> last ns \<noteq> ''metadata.db''}"
    by (auto simp: entries_def image_def) metis+
  with \<open>distinct (map ie_path entries)\<close> \<open>build_protocol_index blake3 fs p fid did = Inr entries\<close> show ?thesis
    by (intro exI [of _ entries]) (auto simp: describes_def)
qed

section \<open>The plans of the two sides\<close>

definition plan_decision :: "Index \<Rightarrow> Index \<Rightarrow> FilePath \<Rightarrow> SyncOperation option" where
  "plan_decision li ri = decide (entry_map (snap_entries (index_to_snapshot li 0)))
     (entry_map (snap_entries (index_to_snapshot ri 0))) (tombstoned []) (tombstoned [])"

lemma plan_lists:
  assumes "hashset_iter (e_set_iter e)"
  shows "set (map op_path (uploads (session_plan e fid li ri))) = {p. \<exists>op. plan_decision li ri p = Some op \<and> is_upload op}"
    and "set (map op_path (downloads (session_plan e fid li ri))) = {p. \<exists>op. plan_decision li ri p = Some op \<and> is_download op}"
    and "set (map op_path (conflicts (session_plan e fid li ri))) = {p. \<exists>op. plan_decision li ri p = Some op \<and> is_conflict op}"
    and "distinct (map op_path (uploads (session_plan e fid li ri)) @ map op_path (conflicts (session_plan e fid li ri)))"
    and "distinct (map op_path (downloads (session_plan e fid li ri)) @ map op_path (conflicts (session_plan e fid li ri)))"
    and "upload_paths (session_plan e fid li ri) = map op_path (uploads (session_plan e fid li ri))"
    and "download_paths (session_plan e fid li ri) = map op_path (downloads (session_plan e fid li ri))"
proof -
  define ds where "ds = decisions (e_set_iter e) (index_to_snapshot li fid) (index_to_snapshot ri fid) [] []"
  have mem: "op \<in> set ds \<longleftrightarrow> plan_decision li ri (op_path op) = Some op" for op
    by (simp add: ds_def set_decisions [OF assms] plan_decision_def index_to_snapshot_def)
  have dist: "distinct (map op_path ds)" unfolding ds_def by (rule distinct_decisions [OF assms])
  have path: "plan_decision li ri p = Some op \<Longrightarrow> op_path op = p" for p op
    unfolding plan_decision_def by (rule decide_path)
  have lists: "uploads (session_plan e fid li ri) = filter is_upload ds" "downloads (session_plan e fid li ri) = filter is_download ds"
    "conflicts (session_plan e fid li ri) = filter is_conflict ds"
    by (simp_all add: session_plan_def reconcile_snapshots_def ds_def)
  show "set (map op_path (uploads (session_plan e fid li ri))) = {p. \<exists>op. plan_decision li ri p = Some op \<and> is_upload op}"
    "set (map op_path (downloads (session_plan e fid li ri))) = {p. \<exists>op. plan_decision li ri p = Some op \<and> is_download op}"
    "set (map op_path (conflicts (session_plan e fid li ri))) = {p. \<exists>op. plan_decision li ri p = Some op \<and> is_conflict op}"
    unfolding lists using mem path by (auto simp: image_iff)
  have inj: "inj_on op_path (set ds)" and d: "distinct ds" using dist by (simp_all add: distinct_map)
  have two: "distinct (map op_path (filter P ds) @ map op_path (filter Q ds))"
    if "\<And>op. \<not> (P op \<and> Q op)" for P Q :: "SyncOperation \<Rightarrow> bool"
    unfolding distinct_append distinct_map
    using d inj that by (auto simp: inj_on_def)
  show "distinct (map op_path (uploads (session_plan e fid li ri)) @ map op_path (conflicts (session_plan e fid li ri)))"
    "distinct (map op_path (downloads (session_plan e fid li ri)) @ map op_path (conflicts (session_plan e fid li ri)))"
    unfolding lists by (rule two, metis is_upload.simps is_download.simps is_conflict.simps SyncOperation.exhaust)+
  have up: "List.map_filter (\<lambda>op. case op of Upload p _ _ \<Rightarrow> Some p | _ \<Rightarrow> None) (filter is_upload xs) = map op_path (filter is_upload xs)" for xs
    by (induction xs) (auto simp: List.map_filter_simps split: SyncOperation.split)
  have down: "List.map_filter (\<lambda>op. case op of Download p _ _ \<Rightarrow> Some p | _ \<Rightarrow> None) (filter is_download xs) = map op_path (filter is_download xs)" for xs
    by (induction xs) (auto simp: List.map_filter_simps split: SyncOperation.split)
  show "upload_paths (session_plan e fid li ri) = map op_path (uploads (session_plan e fid li ri))"
    "download_paths (session_plan e fid li ri) = map op_path (downloads (session_plan e fid li ri))"
    by (simp_all only: upload_paths_def download_paths_def lists up down)
qed

lemma plan_decision_mirror: "plan_decision ri li p = map_option mirror_op (plan_decision li ri p)"
  unfolding plan_decision_def
  by (rule decide_mirror) (use wf_index_snapshot wf_snapshot_entry in blast)

lemma entries_of_paths:
  "set ps \<subseteq> ie_path ` set entries \<Longrightarrow> map ie_path (entries_of entries ps) = ps"
proof (induction ps)
  case (Cons p ps)
  then obtain x where "x \<in> set entries" "ie_path x = p" by auto
  then have "find (\<lambda>x. ie_path x = p) entries \<noteq> None" by (auto simp: find_None_iff)
  then obtain y where y: "find (\<lambda>x. ie_path x = p) entries = Some y" by blast
  then have "ie_path y = p" by (auto dest: find_SomeD)
  with y Cons show ?case by (simp add: entries_of_def List.map_filter_simps)
qed (simp add: entries_of_def List.map_filter_simps)

lemma set_entries_of: "set (entries_of entries ps) \<subseteq> set entries"
  by (auto simp: entries_of_def set_map_filter dest: find_SomeD)

text \<open>What the decision for a path says about the two indexes.\<close>

definition indexed :: "Index \<Rightarrow> FilePath \<Rightarrow> IndexEntry option" where
  "indexed i p = find (\<lambda>x. ie_path x = p) (idx_entries i)"

lemma indexed_map:
  assumes "distinct (map ie_path (idx_entries i))"
  shows "entry_map (snap_entries (index_to_snapshot i f)) p = map_option (index_entry_to_snapshot (idx_device_id i)) (indexed i p)"
proof (cases "indexed i p")
  case None
  then have "entry_map (snap_entries (index_to_snapshot i f)) p = None"
    by (auto simp: entry_map_None_iff indexed_def find_None_iff index_to_snapshot_def index_entry_to_snapshot_def)
  with None show ?thesis by simp
next
  case (Some x)
  then have "x \<in> set (idx_entries i)" "ie_path x = p" by (auto simp: indexed_def dest: find_SomeD)
  with index_entry_map [OF assms] Some show ?thesis by auto
qed

lemma plan_decision_cases:
  assumes "distinct (map ie_path (idx_entries li))" and "distinct (map ie_path (idx_entries ri))"
  shows "case (indexed li p, indexed ri p) of
      (None, None) \<Rightarrow> plan_decision li ri p = None
    | (Some a, None) \<Rightarrow> \<exists>op. plan_decision li ri p = Some op \<and> is_upload op
    | (None, Some b) \<Rightarrow> \<exists>op. plan_decision li ri p = Some op \<and> is_download op
    | (Some a, Some b) \<Rightarrow> (plan_decision li ri p = None) = (hash_array (ie_hash a) = hash_array (ie_hash b))"
  by (auto simp: plan_decision_def decide_def indexed_map [OF assms(1)] indexed_map [OF assms(2)] tombstoned_def
      index_entry_to_snapshot_def split: option.split)

lemma plan_decision_kind: "plan_decision li ri p = Some op \<Longrightarrow> is_upload op \<or> is_download op \<or> is_conflict op"
  unfolding plan_decision_def by (rule decide_kind)

section \<open>Folders that can be synced\<close>

text \<open>The files that an index lists.\<close>

definition listed_file :: "fs \<Rightarrow> abspath \<Rightarrow> abspath \<Rightarrow> bool" where
  "listed_file fs R ns \<longleftrightarrow> ns \<noteq> [] \<and> last ns \<noteq> ''metadata.db'' \<and> content fs R ns \<noteq> None"

text \<open>Every listed file of one folder fits into the other one: no reserved name, within the limits on
  paths and sizes, and no file where the other folder has a directory or the other way round.\<close>

definition fits :: "fs \<Rightarrow> abspath \<Rightarrow> fs \<Rightarrow> abspath \<Rightarrow> bool" where
  "fits fa Ra fb Rb \<longleftrightarrow>
     (\<forall>ns. listed_file fa Ra ns \<longrightarrow> (\<forall>n \<in> set ns. \<not> reserved n) \<and> length (join_slash ns) \<le> MAX_PATH_LEN \<and>
        length (the (content fa Ra ns)) \<le> 256 * 1024 * 1024 \<and> map_of fb (Rb @ ns) \<noteq> Some NDir \<and>
        (\<forall>q. strict_prefix q ns \<longrightarrow> map_of fb (Rb @ q) \<in> {None, Some NDir})) \<and>
     (\<forall>q. q \<noteq> [] \<longrightarrow> reserved (last q) \<longrightarrow> map_of fb (Rb @ q) \<noteq> Some NDir)"

lemma listed_names: "wf_fs fs \<Longrightarrow> listed_file fs R ns \<Longrightarrow> \<forall>n \<in> set ns. valid_name n"
  by (auto simp: listed_file_def content_Some dest: wf_fs_names)

lemma fits_storable:
  assumes fits: "fits fa Ra fb Rb" and wf: "wf_fs fa" and l: "linkless fb Rb" and ns: "listed_file fa Ra ns"
  shows "storable fb Rb ns"
proof -
  have R: "wf_fs fb" "map_of fb Rb = Some NDir" using l by (auto simp: linkless_def)
  have way: "map_of fb q \<in> {None, Some NDir}" if q: "prefix q (Rb @ butlast ns)" for q
  proof (cases "prefix Rb q")
    case True
    then obtain z where z: "q = Rb @ z" by (auto elim: prefixE)
    with q have "prefix z (butlast ns)" by simp
    moreover have "strict_prefix (butlast ns) ns"
      using ns by (simp add: listed_file_def strict_prefix_def prefixeq_butlast) (metis butlast.simps(1) length_butlast
        length_greater_0_conv diff_less zero_less_one less_irrefl)
    ultimately have "strict_prefix z ns" by (rule prefix_order.le_less_trans)
    with fits ns show ?thesis by (auto simp: fits_def z)
  next
    case False
    with q have "prefix q Rb" using prefix_same_cases [of q "Rb @ butlast ns" Rb] by auto
    then obtain z where z: "Rb = q @ z" by (auto elim: prefixE)
    with wf_fs_prefix [OF R(1), of q z NDir] R(2) show ?thesis by (cases "z = []") auto
  qed
  with fits ns listed_names [OF wf ns] show ?thesis
    unfolding storable_def clear_way_def by (auto simp: fits_def listed_file_def)
qed

lemma expected_hashes_entry:
  assumes "distinct (map ie_path entries)" and "x \<in> set entries"
  shows "map_of (expected_hashes entries) (ie_path x) = Some (ie_hash x)"
proof -
  have other: "map_of (fold (\<lambda>e m. hm_insert (ie_path e) (ie_hash e) m) es m) p = map_of m p"
    if "p \<notin> ie_path ` set es" for es m p
    using that by (induction es arbitrary: m) (auto simp: hm_simps)
  have "map_of (fold (\<lambda>e m. hm_insert (ie_path e) (ie_hash e) m) entries m) (ie_path x) = Some (ie_hash x)" for m
    using assms by (induction entries arbitrary: m) (auto simp: other hm_simps)
  then show ?thesis by (simp add: expected_hashes_def)
qed

lemma describes_entry:
  assumes "describes b3 fs R entries" and "listed_file fs R ns"
  shows "\<exists>x. x \<in> set entries \<and> ie_path x = join_slash ns \<and> ie_hash x = b3 (the (content fs R ns)) \<and>
    unat (ie_size x) = length (the (content fs R ns)) mod 2 ^ 64"
proof -
  from assms(2) obtain d m where dm: "map_of fs (R @ ns) = Some (NFile d m)" by (auto simp: listed_file_def content_Some)
  then have "content fs R ns = Some d" by (simp add: content_def)
  with assms dm show ?thesis
    by (intro exI [of _ "file_entry b3 ns d m"])
      (auto simp: describes_def listed_file_def file_entry_def unat_of_nat)
qed

lemma describes_listed:
  assumes "describes b3 fs R entries" and "x \<in> set entries"
  shows "\<exists>ns. listed_file fs R ns \<and> ie_path x = join_slash ns \<and> ie_hash x = b3 (the (content fs R ns)) \<and>
    ie_size x = word_of_nat (length (the (content fs R ns)))"
proof -
  from assms obtain ns d m where ns: "ns \<noteq> []" "map_of fs (R @ ns) = Some (NFile d m)" "last ns \<noteq> ''metadata.db''"
    "x = file_entry b3 ns d m" by (auto simp: describes_def)
  then have "content fs R ns = Some d" by (simp add: content_def)
  with ns show ?thesis by (intro exI [of _ ns]) (simp add: listed_file_def file_entry_def)
qed

lemma deliverable_files:
  assumes fits: "fits fa Ra fb (sr_root (x_root x))" and wf: "wf_fs fa" and l: "linkless fb (sr_root (x_root x))"
    and desc: "describes (e_blake3 e) fa Ra entries" and hashes: "x_hashes x = expected_hashes entries"
    and ps: "distinct ps" "set ps \<subseteq> ie_path ` set entries"
  shows "deliverable e x fb (files_of fa Ra ps)"
proof -
  have one: "\<exists>ns. p = join_slash ns \<and> split_slash p = ns \<and> listed_file fa Ra ns" if "p \<in> set ps" for p
  proof -
    from that ps(2) obtain y where "y \<in> set entries" "ie_path y = p" by auto
    with describes_listed [OF desc] obtain ns where ns: "listed_file fa Ra ns" "p = join_slash ns" by metis
    with split_join [of ns] listed_names [OF wf ns(1)] show ?thesis by (auto simp: listed_file_def)
  qed
  have names: "map fst (files_of fa Ra ps) = map split_slash ps" by (simp add: files_of_def comp_def)
  have "inj_on split_slash (set ps)" using one by (intro inj_onI) metis
  then have "distinct (map fst (files_of fa Ra ps))" unfolding names distinct_map using ps(1) by simp
  moreover have "\<not> prefix ns ns'" if "listed_file fa Ra ns" "listed_file fa Ra ns'" "ns \<noteq> ns'" for ns ns'
  proof
    assume "prefix ns ns'"
    then obtain z where z: "ns' = ns @ z" by (auto elim: prefixE)
    with that obtain d m d' m' where f: "map_of fa (Ra @ ns) = Some (NFile d m)" "map_of fa ((Ra @ ns) @ z) = Some (NFile d' m')"
      by (auto simp: listed_file_def content_Some)
    with wf_fs_prefix [OF wf f(2)] z that(3) show False by auto
  qed
  then have "\<forall>a \<in> set (files_of fa Ra ps). \<forall>b \<in> set (files_of fa Ra ps). fst a \<noteq> fst b \<longrightarrow> \<not> prefix (fst a) (fst b)"
    using one by (fastforce simp: files_of_def)
  moreover have "storable fb (sr_root (x_root x)) (split_slash p) \<and> join_slash (split_slash p) \<noteq> ''metadata.db'' \<and>
      length (join_slash (split_slash p)) \<le> MAX_PATH_LEN \<and>
      length (the (content fa Ra (split_slash p))) \<le> 256 * 1024 * 1024 \<and>
      map_of (x_hashes x) (join_slash (split_slash p)) = Some (e_blake3 e (the (content fa Ra (split_slash p))))"
    if "p \<in> set ps" for p
  proof -
    from one [OF that] obtain ns where ns: "p = join_slash ns" "split_slash p = ns" "listed_file fa Ra ns" by blast
    have "storable fb (sr_root (x_root x)) ns" by (rule fits_storable [OF fits wf l ns(3)])
    moreover have "join_slash ns \<noteq> ''metadata.db''"
    proof
      assume "join_slash ns = ''metadata.db''"
      then have "ns = [''metadata.db'']" using ns(1,2) split_slash_single [of "''metadata.db''"] by simp
      with ns(3) show False by (simp add: listed_file_def)
    qed
    moreover obtain y where "y \<in> set entries" "ie_path y = join_slash ns" "ie_hash y = e_blake3 e (the (content fa Ra ns))"
      using describes_entry [OF desc ns(3)] by blast
    with expected_hashes_entry [of entries y] desc
    have "map_of (x_hashes x) (join_slash ns) = Some (e_blake3 e (the (content fa Ra ns)))"
      by (simp add: hashes describes_def)
    ultimately show ?thesis using fits ns(3) by (simp add: ns(2) fits_def)
  qed
  ultimately show ?thesis by (auto simp: deliverable_def files_of_def)
qed

lemma describes_holds:
  assumes "describes b3 fs R entries" and "p \<in> ie_path ` set entries"
  shows "holds fs R p"
  using describes_listed [OF assms(1)] assms(2) by (fastforce simp: holds_def listed_file_def)

lemma indexed_described:
  assumes desc: "describes b3 fs R (idx_entries i)" and wf: "wf_fs fs" and ns: "\<forall>n \<in> set ns. valid_name n" "ns \<noteq> []"
    "last ns \<noteq> ''metadata.db''"
  shows "map_option ie_hash (indexed i (join_slash ns)) = map_option b3 (content fs R ns)"
proof (cases "content fs R ns")
  case None
  have "join_slash ns \<notin> ie_path ` set (idx_entries i)"
  proof
    assume "join_slash ns \<in> ie_path ` set (idx_entries i)"
    then obtain ns' where ns': "listed_file fs R ns'" "join_slash ns = join_slash ns'"
      using describes_listed [OF desc] by fastforce
    then have "ns = ns'" using join_slash_inj [OF ns(2) _ ns(1) listed_names [OF wf ns'(1)] ns'(2)] by (simp add: listed_file_def)
    with ns'(1) None show False by (simp add: listed_file_def)
  qed
  then have "\<not> (\<exists>x. x \<in> set (idx_entries i) \<and> ie_path x = join_slash ns)" by (auto simp: image_iff)
  then have "find (\<lambda>x. ie_path x = join_slash ns) (idx_entries i) = None" unfolding find_None_iff .
  with None show ?thesis by (simp add: indexed_def)
next
  case (Some d)
  then have "listed_file fs R ns" using ns by (simp add: listed_file_def)
  from describes_entry [OF desc this] obtain x where x: "x \<in> set (idx_entries i)" "ie_path x = join_slash ns" "ie_hash x = b3 d"
    using Some by auto
  have "find (\<lambda>y. ie_path y = ie_path x) (idx_entries i) = Some x"
    using desc x(1) by (intro find_unique) (auto simp: describes_def)
  with x Some show ?thesis by (simp add: indexed_def)
qed

section \<open>One side's run\<close>

lemma length_paths: "set ps \<subseteq> ie_path ` set entries \<Longrightarrow> distinct ps \<Longrightarrow> length ps \<le> length entries"
  by (metis List.finite_set card_image_le card_length card_mono distinct_card finite_imageI order.trans)

lemma length_entries: "set xs \<subseteq> set entries \<Longrightarrow> distinct (map ie_path xs) \<Longrightarrow> length xs \<le> length entries"
  using length_paths [of "map ie_path xs" entries] by auto

lemma sizes_fit:
  assumes "\<forall>x \<in> set xs. unat (ie_size x) \<le> 2 ^ 28" and "length xs \<le> 2 * MAX_INDEX_ENTRIES"
  shows "\<exists>n. sizes_total e xs s = (s, Inr n)"
proof -
  have "sum_list (map unat (map ie_size xs)) \<le> 2 ^ 28 * length xs"
    using assms(1) by (induction xs) auto
  also have "\<dots> \<le> 2 ^ 28 * (2 * MAX_INDEX_ENTRIES)" using assms(2) by simp
  also have "\<dots> < 2 ^ 64" by (simp add: MAX_INDEX_ENTRIES_def)
  finally show ?thesis by (simp add: sizes_total_def sum_u64_def Let_def sreturn_def)
qed

lemma described_size:
  assumes "describes b3 fa Ra entries" and "fits fa Ra fb Rb" and "x \<in> set entries"
  shows "unat (ie_size x) \<le> 2 ^ 28"
proof -
  from describes_listed [OF assms(1,3)] obtain ns where ns: "listed_file fa Ra ns"
    "ie_size x = word_of_nat (length (the (content fa Ra ns)))" by blast
  then have "length (the (content fa Ra ns)) \<le> 2 ^ 28" using assms(2) by (simp add: fits_def)
  then show ?thesis by (simp add: ns(2) unat_of_nat)
qed

definition acks_for :: "(abspath \<times> bytes) list \<Rightarrow> SyncMessage list" where
  "acks_for es = map (\<lambda>(ns, d). ack (join_slash ns) True None) es"

text \<open>What a side has after taking the files \<open>es\<close>.\<close>

definition received :: "i64 \<Rightarrow> abspath \<Rightarrow> (abspath \<times> bytes) list \<Rightarrow> fs \<Rightarrow> fs \<Rightarrow> bool" where
  "received now R es fs fs' \<longleftrightarrow>
     (\<forall>(ns, d) \<in> set es. map_of fs' (R @ ns) = Some (NFile d now)) \<and> frame_below R (fst ` set es) fs fs'"

lemma plan_paths_indexed:
  assumes "distinct (map ie_path (idx_entries li))" and "distinct (map ie_path (idx_entries ri))"
    and "plan_decision li ri p = Some op"
  shows "is_upload op \<or> is_conflict op \<Longrightarrow> p \<in> ie_path ` set (idx_entries li)"
    and "is_download op \<or> is_conflict op \<Longrightarrow> p \<in> ie_path ` set (idx_entries ri)"
proof -
  have mem: "indexed i p = Some x \<Longrightarrow> p \<in> ie_path ` set (idx_entries i)" for i x
    by (auto simp: indexed_def dest!: find_SomeD)
  show "is_upload op \<or> is_conflict op \<Longrightarrow> p \<in> ie_path ` set (idx_entries li)"
    "is_download op \<or> is_conflict op \<Longrightarrow> p \<in> ie_path ` set (idx_entries ri)"
    using assms(3) mem
    by (auto simp: plan_decision_def decide_def indexed_map [OF assms(1)] indexed_map [OF assms(2)] tombstoned_def
        split: option.splits if_splits)
qed

lemma server_run:
  assumes enc: "encodes e" and iter: "hashset_iter (e_set_iter e)"
    and l: "linkless (c_fs s) (sr_root r)" and opened: "sync_root_open (c_fs s) (raw_path lp) = Inr r"
    and fresh: "c_recv s = \<lparr>incoming_files = [], buffered_bytes = 0\<rparr>" "\<not> c_eof s" "c_out s = []"
    and ridx: "idx_remote_path ridx = None" "length (idx_entries ridx) \<le> MAX_INDEX_ENTRIES"
      "describes (e_blake3 e) fa Ra (idx_entries ridx)" "wf_fs fa"
    and entries: "build_protocol_index (e_blake3 e) (c_fs s) (raw_path lp) fid did = Inr entries"
      "describes (e_blake3 e) (c_fs s) (sr_root r) entries" "length entries \<le> MAX_INDEX_ENTRIES"
    and fits: "fits fa Ra (c_fs s) (sr_root r)" "fits (c_fs s) (sr_root r) fa Ra"
    and lidx: "lidx = \<lparr>idx_folder_id = show_int fid, idx_device_id = did, idx_remote_path = None, idx_entries = entries\<rparr>"
    and plan: "plan = session_plan e fid lidx ridx"
    and psa: "distinct psa" "set psa = set (map op_path (downloads plan))"
  shows "\<exists>s'. handle_server_session e lp fid ridx did label
      (chunk_messages fid' (files_of fa Ra psa) @ ack [] True None # rest) s = (s', Inr ()) \<and>
    c_out s' = MIndex lidx # chunk_messages fid (files_of (c_fs s) (sr_root r)
        (map op_path (uploads plan) @ map op_path (conflicts plan))) @
      ack [] True None # acks_for (files_of fa Ra psa) \<and>
    received (e_clock e) (sr_root r) (files_of fa Ra psa) (c_fs s) (c_fs s')"
proof -
  have dist: "distinct (map ie_path (idx_entries lidx))" "distinct (map ie_path (idx_entries ridx))"
    using entries(2) ridx(3) by (simp_all add: lidx describes_def)
  note lists = plan_lists [OF iter, of fid lidx ridx, folded plan]
  note member = plan_paths_indexed [OF dist]
  have up: "set (map op_path (uploads plan)) \<subseteq> ie_path ` set entries"
    and conf: "set (map op_path (conflicts plan)) \<subseteq> ie_path ` set entries"
    and down: "set (map op_path (downloads plan)) \<subseteq> ie_path ` set (idx_entries ridx)"
    unfolding lists(1-3) using member by (auto simp: lidx)
  define push where "push = server_to_push plan entries"
  define expects where "expects = server_expects plan (idx_entries ridx)"
  have push_paths: "map ie_path push = map op_path (uploads plan) @ map op_path (conflicts plan)"
    using entries_of_paths [OF up] entries_of_paths [OF conf] by (simp add: push_def server_to_push_def lists(6))
  have expect_paths: "map ie_path expects = map op_path (downloads plan)"
    using entries_of_paths [OF down] by (simp add: expects_def server_expects_def lists(7))
  have push_in: "set push \<subseteq> set entries" and expects_in: "set expects \<subseteq> set (idx_entries ridx)"
    using set_entries_of by (auto simp: push_def server_to_push_def expects_def server_expects_def)
  have "length push \<le> length entries" "length expects \<le> length (idx_entries ridx)"
    using length_entries [OF push_in] length_entries [OF expects_in] push_paths expect_paths lists(4,5) by auto
  then have len: "length (push @ expects) \<le> 2 * MAX_INDEX_ENTRIES" using ridx(2) entries(3) by simp
  have "\<forall>x \<in> set (push @ expects). unat (ie_size x) \<le> 2 ^ 28"
    using described_size [OF entries(2) fits(2)] described_size [OF ridx(3) fits(1)] push_in expects_in by auto
  from sizes_fit [OF this len] have total: "\<exists>n. sizes_total e (push @ expects) s' = (s', Inr n)" for s' .
  define R where "R = sr_root r"
  define s2 where "s2 = s\<lparr>c_out := [MIndex lidx], c_events := c_events s @
      [Progress (show_int fid) ''starting'' 0 0 (word_of_nat (length push + length expects)) (the (sum_u64 (e_checks e) (map ie_size (push @ expects))))]\<rparr>"
  have tot: "sizes_total e (push @ expects) s' = (s', Inr (the (sum_u64 (e_checks e) (map ie_size (push @ expects)))))" for s'
    using total [of s'] by (auto simp: sizes_total_def sreturn_def sfail_def split: option.splits)
  define tot_files where "tot_files = (word_of_nat (length push + length expects) :: u64)"
  define tot_bytes where "tot_bytes = the (sum_u64 (e_checks e) (map ie_size (push @ expects)))"
  have "\<forall>entry \<in> set push. holds (c_fs s2) (sr_root r) (ie_path entry)"
    using describes_holds [OF entries(2)] push_in by (auto simp: s2_def)
  from push_all [OF enc _ this, of fid did "''remote''" tot_files tot_bytes] l obtain s3 where
    s3: "sfor (push_file e r fid did ''remote'' tot_files tot_bytes) push s2 = (s3, Inr ())" "same_folder s2 s3"
      "c_out s3 = c_out s2 @ chunk_messages fid (files_of (c_fs s2) (sr_root r) (map ie_path push))"
    by (auto simp: s2_def)
  define s4 where "s4 = s3\<lparr>c_out := c_out s3 @ [ack [] True None]\<rparr>"
  define x where "x = \<lparr>x_root = r, x_local_path = lp, x_folder_id = fid,
          x_device_id = did, x_winner = ''remote'', x_event_device = ''remote'',
          x_hashes = expected_hashes (idx_entries ridx), x_total_files = tot_files,
          x_total_bytes = tot_bytes, x_ack_first = False\<rparr>"
  have fs4: "c_fs s4 = c_fs s" "c_recv s4 = c_recv s" "\<not> c_eof s4"
    using s3(2) fresh by (auto simp: s4_def s2_def same_folder_def)
  have idle: "idle x s4" using l opened fresh fs4 by (simp add: idle_def x_def)
  have del: "deliverable e x (c_fs s4) (files_of fa Ra psa)"
    unfolding fs4 by (rule deliverable_files [OF _ ridx(4) _ ridx(3)])
      (use fits(1) l psa down in \<open>simp_all add: x_def\<close>)
  define s5 where "s5 = take_all e x (files_of fa Ra psa) s4"
  note eff = take_all_effect [OF enc idle del, folded s5_def]
  define s6 where "s6 = s5\<lparr>c_eof := True\<rparr>"
  have "incoming_files (c_recv s5) = []" using eff by (simp add: idle_def)
  then have loop: "server_loop e x (chunk_messages fid' (files_of fa Ra psa) @ ack [] True None # rest) s4 = (s6, Inr ())"
    using server_loop_files [OF enc idle del fs4(3), of fid' "ack [] True None # rest"]
    by (simp add: s5_def [symmetric] s6_def [symmetric] ack_def server_message_def sbind_def supdate_def sreturn_def)
  have "handle_server_session e lp fid ridx did label
      (chunk_messages fid' (files_of fa Ra psa) @ ack [] True None # rest) s =
    finish_session e ''incoming'' label label lp fid (length (c_pulled s6)) (length push + length (c_served s6)) s6"
    using ridx(1,2) entries(1) opened fresh(3) loop s3(1)
    by (simp add: handle_server_session_def served_root_def sbind_def slift_def write_encodes [OF enc]
        server_transfer_def Let_def lidx [symmetric] plan [symmetric] push_def [symmetric] expects_def [symmetric]
        tot emit_progress_def emit_def supdate_def tot_files_def tot_bytes_def s2_def s4_def x_def)
  moreover have "c_out s6 = MIndex lidx # chunk_messages fid (files_of (c_fs s) (sr_root r)
        (map op_path (uploads plan) @ map op_path (conflicts plan))) @
      ack [] True None # acks_for (files_of fa Ra psa)"
    using eff s3(3) by (simp add: s6_def s4_def s2_def push_paths acks_for_def)
  moreover have "received (e_clock e) (sr_root r) (files_of fa Ra psa) (c_fs s) (c_fs s6)"
    using eff fs4(1) by (simp add: received_def s6_def x_def)
  ultimately show ?thesis
    by (simp add: finish_session_def supdate_def Let_def)
qed

lemma client_loop_acks:
  "\<forall>m \<in> set ms. \<exists>a. m = MAck a \<Longrightarrow> \<exists>s'. client_loop e x acks pulls ms s = (s', Inr ()) \<and> c_fs s' = c_fs s \<and> c_out s' = c_out s"
proof (induction ms arbitrary: s)
  case (Cons m ms)
  then obtain a where a: "m = MAck a" by auto
  define s1 where "s1 = (if ack_path a \<noteq> [] \<and> ack_path a \<in> set (c_pushed s)
      then s\<lparr>c_acked := insert (ack_path a) (c_acked s)\<rparr> else s)"
  have "c_fs s1 = c_fs s" "c_out s1 = c_out s" by (simp_all add: s1_def)
  with Cons.IH [of s1] Cons.prems show ?case
    by (cases "client_finished acks pulls s")
      (simp_all add: a client_message_def sbind_def supdate_def s1_def [symmetric])
qed simp

lemma acks_are_acks: "\<forall>m \<in> set (acks_for es). \<exists>a. m = MAck a"
  by (auto simp: acks_for_def ack_def)

lemma client_run:
  assumes enc: "encodes e" and iter: "hashset_iter (e_set_iter e)"
    and l: "linkless (c_fs s) (sr_root r)" and opened: "sync_root_open (c_fs s) (raw_path lp) = Inr r"
    and fresh: "c_recv s = \<lparr>incoming_files = [], buffered_bytes = 0\<rparr>" "c_pulled s = []" "c_out s = []"
    and auth: "get_device_cert (c_db s) did = Some pc" "pc \<noteq> own"
      "hello_validate h = Inr ()" "hello_device_id h = cert_to_device_id (e_blake3 e) (e_show_uuid e) pc"
    and ridx: "length (idx_entries ridx) \<le> MAX_INDEX_ENTRIES"
      "describes (e_blake3 e) fb Rb (idx_entries ridx)" "wf_fs fb"
    and entries: "build_protocol_index (e_blake3 e) (c_fs s) (raw_path lp) fid did = Inr entries"
      "describes (e_blake3 e) (c_fs s) (sr_root r) entries" "length entries \<le> MAX_INDEX_ENTRIES"
    and fits: "fits fb Rb (c_fs s) (sr_root r)" "fits (c_fs s) (sr_root r) fb Rb"
    and lidx: "lidx = \<lparr>idx_folder_id = show_int fid, idx_device_id = did, idx_remote_path = None, idx_entries = entries\<rparr>"
    and plan: "plan = session_plan e fid lidx ridx"
    and psb: "distinct psb" "set psb = set (map op_path (downloads plan) @ map op_path (conflicts plan))"
  shows "\<exists>s' res. run_sync_session e own (Some pc) lp addr fid did False None
      (MHello h # MIndex ridx # chunk_messages fid' (files_of fb Rb psb) @ ack [] True None # acks_for as) s = (s', Inr res) \<and>
    c_out s' = MHello (client_hello e own fid (c_db s)) # MIndex lidx #
      chunk_messages fid (files_of (c_fs s) (sr_root r) (map op_path (uploads plan))) @
      ack [] True None # acks_for (files_of fb Rb psb) \<and>
    received (e_clock e) (sr_root r) (files_of fb Rb psb) (c_fs s) (c_fs s')"
proof -
  have dist: "distinct (map ie_path (idx_entries lidx))" "distinct (map ie_path (idx_entries ridx))"
    using entries(2) ridx(2) by (simp_all add: lidx describes_def)
  note lists = plan_lists [OF iter, of fid lidx ridx, folded plan]
  note member = plan_paths_indexed [OF dist]
  have up: "set (map op_path (uploads plan)) \<subseteq> ie_path ` set entries"
    and conf: "set (map op_path (conflicts plan)) \<subseteq> ie_path ` set (idx_entries ridx)"
    and down: "set (map op_path (downloads plan)) \<subseteq> ie_path ` set (idx_entries ridx)"
    unfolding lists(1-3) using member by (auto simp: lidx)
  define push where "push = client_to_push plan entries"
  define pull where "pull = client_to_pull plan (idx_entries ridx)"
  have push_paths: "map ie_path push = map op_path (uploads plan)"
    using entries_of_paths [OF up] by (simp add: push_def client_to_push_def lists(6))
  have pull_paths: "map ie_path pull = map op_path (downloads plan) @ map op_path (conflicts plan)"
    using entries_of_paths [OF down] entries_of_paths [OF conf] by (simp add: pull_def client_to_pull_def lists(7))
  have push_in: "set push \<subseteq> set entries" and pull_in: "set pull \<subseteq> set (idx_entries ridx)"
    using set_entries_of by (auto simp: push_def client_to_push_def pull_def client_to_pull_def)
  have "length push \<le> length entries" "length pull \<le> length (idx_entries ridx)"
    using length_entries [OF push_in] length_entries [OF pull_in] push_paths pull_paths lists(4,5) by auto
  then have len: "length (push @ pull) \<le> 2 * MAX_INDEX_ENTRIES" using ridx(1) entries(3) by simp
  have "\<forall>x \<in> set (push @ pull). unat (ie_size x) \<le> 2 ^ 28"
    using described_size [OF entries(2) fits(2)] described_size [OF ridx(2) fits(1)] push_in pull_in by auto
  from sizes_fit [OF this len] have total: "\<exists>n. sizes_total e (push @ pull) s' = (s', Inr n)" for s' .
  have pulls: "length pull = length psb"
    using distinct_card [OF psb(1)] distinct_card [OF lists(5)] psb(2) pull_paths by (metis length_map)
  define tot_files where "tot_files = (word_of_nat (length push + length pull) :: u64)"
  define tot_bytes where "tot_bytes = the (sum_u64 (e_checks e) (map ie_size (push @ pull)))"
  have tot: "sizes_total e (push @ pull) s' = (s', Inr tot_bytes)" for s'
    using total [of s'] by (auto simp: tot_bytes_def sizes_total_def sreturn_def sfail_def split: option.splits)
  define s2 where "s2 = s\<lparr>c_out := [MHello (client_hello e own fid (c_db s)), MIndex lidx],
      c_events := c_events s @ [Progress (show_int fid) ''starting'' 0 0 tot_files tot_bytes]\<rparr>"
  have "\<forall>entry \<in> set push. holds (c_fs s2) (sr_root r) (ie_path entry)"
    using describes_holds [OF entries(2)] push_in by (auto simp: s2_def)
  from push_all [OF enc _ this, of fid did did tot_files tot_bytes] l obtain s3 where
    s3: "sfor (push_file e r fid did did tot_files tot_bytes) push s2 = (s3, Inr ())" "same_folder s2 s3"
      "c_out s3 = c_out s2 @ chunk_messages fid (files_of (c_fs s2) (sr_root r) (map ie_path push))"
    by (auto simp: s2_def)
  define s4 where "s4 = s3\<lparr>c_out := c_out s3 @ [ack [] True None]\<rparr>"
  define x where "x = \<lparr>x_root = r, x_local_path = lp, x_folder_id = fid,
          x_device_id = did, x_winner = did, x_event_device = did,
          x_hashes = expected_hashes (idx_entries ridx), x_total_files = tot_files,
          x_total_bytes = tot_bytes, x_ack_first = True\<rparr>"
  have fs4: "c_fs s4 = c_fs s" "c_recv s4 = c_recv s" "c_pulled s4 = []"
    using s3(2) fresh by (auto simp: s4_def s2_def same_folder_def)
  have idle: "idle x s4" using l opened fresh fs4 by (simp add: idle_def x_def)
  have del: "deliverable e x (c_fs s4) (files_of fb Rb psb)"
    unfolding fs4 by (rule deliverable_files [OF _ ridx(3) _ ridx(2)])
      (use fits(1) l psb down conf in \<open>simp_all add: x_def\<close>)
  define s5 where "s5 = take_all e x (files_of fb Rb psb) s4"
  note eff = take_all_effect [OF enc idle del, folded s5_def]
  have "\<forall>m \<in> set (ack [] True None # acks_for as). \<exists>a. m = MAck a" using acks_are_acks by (auto simp: ack_def)
  from client_loop_acks [OF this, of e x "length (c_pushed s4)" "length pull" s5] obtain s6 where
    s6: "client_loop e x (length (c_pushed s4)) (length pull) (ack [] True None # acks_for as) s5 = (s6, Inr ())"
      "c_fs s6 = c_fs s5" "c_out s6 = c_out s5" by blast
  have "length (c_pulled s4) + length (files_of fb Rb psb) \<le> length pull" using pulls fs4 by (simp add: files_of_def)
  from client_loop_files [OF enc idle del this, of "length (c_pushed s4)" fid' "ack [] True None # acks_for as"] s6(1)
  have loop: "client_loop e x (length (c_pushed s4)) (length pull)
      (chunk_messages fid' (files_of fb Rb psb) @ ack [] True None # acks_for as) s4 = (s6, Inr ())"
    by (simp add: s5_def)
  define fin where "fin = fst (finish_session e ''outgoing'' did addr lp fid (length (c_pushed s6)) (length (c_pulled s6)) s6)"
  have fin: "c_fs fin = c_fs s6" "c_out fin = c_out s6"
    by (simp_all add: fin_def finish_session_def supdate_def Let_def)
  have "\<exists>res. run_sync_session e own (Some pc) lp addr fid did False None
      (MHello h # MIndex ridx # chunk_messages fid' (files_of fb Rb psb) @ ack [] True None # acks_for as) s = (fin, Inr res)"
    using auth ridx(1) entries(1) opened fresh(3) loop s3(1) tot
    by (simp add: run_sync_session_def sbind_def slift_def write_encodes [OF enc] client_authenticate_def
        client_check_hello_def sreturn_def client_exchange_def client_index_message_def client_transfer_def
        Let_def lidx [symmetric] plan [symmetric] push_def [symmetric] pull_def [symmetric]
        emit_progress_def emit_def supdate_def tot_files_def s2_def s4_def x_def fin_def finish_session_def)
  moreover have "c_out fin = MHello (client_hello e own fid (c_db s)) # MIndex lidx #
      chunk_messages fid (files_of (c_fs s) (sr_root r) (map op_path (uploads plan))) @
      ack [] True None # acks_for (files_of fb Rb psb)"
    using eff s3(3) fin s6 by (simp add: s4_def s2_def push_paths acks_for_def)
  moreover have "received (e_clock e) (sr_root r) (files_of fb Rb psb) (c_fs s) (c_fs fin)"
    using eff fs4(1) fin s6 by (simp add: received_def x_def)
  ultimately show ?thesis by blast
qed

section \<open>Both sides together\<close>

lemma content_received:
  assumes "received now R (files_of src Rs ps) fs fs'" and "\<forall>n \<in> set ns. \<not> reserved n"
  shows "content fs' R ns = (if ns \<in> split_slash ` set ps then Some (the (content src Rs ns)) else content fs R ns)"
proof (cases "ns \<in> split_slash ` set ps")
  case True
  then have "(ns, the (content src Rs ns)) \<in> set (files_of src Rs ps)" by (auto simp: files_of_def)
  with assms(1) have "map_of fs' (R @ ns) = Some (NFile (the (content src Rs ns)) now)"
    unfolding received_def by blast
  with True show ?thesis by (simp add: content_def)
next
  case False
  then have "ns \<notin> fst ` set (files_of src Rs ps)" by (force simp: files_of_def)
  with assms have "map_of fs' (R @ ns) = map_of fs (R @ ns) \<or> map_of fs (R @ ns) = None \<and> map_of fs' (R @ ns) = Some NDir"
    by (auto simp: received_def frame_below_def)
  with False show ?thesis by (auto simp: content_def)
qed

lemma target_path:
  assumes desc: "describes b3 fs R entries" and wf: "wf_fs fs" and ps: "set ps \<subseteq> ie_path ` set entries"
  shows "ns \<in> split_slash ` set ps \<longleftrightarrow> listed_file fs R ns \<and> join_slash ns \<in> set ps"
proof
  assume "ns \<in> split_slash ` set ps"
  then obtain p where p: "p \<in> set ps" "ns = split_slash p" by auto
  with ps obtain x where "x \<in> set entries" "ie_path x = p" by auto
  with describes_listed [OF desc] obtain ns' where ns': "listed_file fs R ns'" "p = join_slash ns'" by metis
  with split_join [of ns'] listed_names [OF wf ns'(1)] p show "listed_file fs R ns \<and> join_slash ns \<in> set ps"
    by (auto simp: listed_file_def)
next
  assume a: "listed_file fs R ns \<and> join_slash ns \<in> set ps"
  then have "split_slash (join_slash ns) = ns" using split_join listed_names [OF wf] by (auto simp: listed_file_def)
  with a show "ns \<in> split_slash ` set ps" by (metis image_eqI)
qed

lemma index_length:
  assumes desc: "describes b3 fs R entries" and "card {ns. listed_file fs R ns} \<le> k"
  shows "length entries \<le> k"
proof -
  have "{ns. listed_file fs R ns} \<subseteq> drop (length R) ` fst ` set fs"
  proof
    fix ns assume "ns \<in> {ns. listed_file fs R ns}"
    then obtain d m where "map_of fs (R @ ns) = Some (NFile d m)" by (auto simp: listed_file_def content_Some)
    then have "R @ ns \<in> fst ` set fs" by (metis fst_conv image_eqI map_of_SomeD)
    then show "ns \<in> drop (length R) ` fst ` set fs" by (metis append_eq_conv_conj image_eqI)
  qed
  then have fin: "finite {ns. listed_file fs R ns}" by (rule finite_subset) simp
  have "ie_path ` set entries \<subseteq> join_slash ` {ns. listed_file fs R ns}"
    using describes_listed [OF desc] by blast
  then have "card (ie_path ` set entries) \<le> card {ns. listed_file fs R ns}"
    using fin by (meson card_image_le card_mono finite_imageI order.trans)
  moreover have "card (ie_path ` set entries) = length entries"
    using distinct_card [of "map ie_path entries"] desc by (simp add: describes_def)
  ultimately show ?thesis using assms(2) by simp
qed

lemma one_side_sends:
  assumes dist: "distinct (map ie_path (idx_entries ia))" "distinct (map ie_path (idx_entries ib))"
    and ha: "map_option ie_hash (indexed ia p) = map_option b3 ca"
    and hb: "map_option ie_hash (indexed ib p) = map_option b3 cb"
    and len: "\<And>d. length (b3 d) = 32"
    and inj: "\<forall>d d'. ca = Some d \<longrightarrow> cb = Some d' \<longrightarrow> b3 d = b3 d' \<longrightarrow> d = d'"
    and up: "U \<longleftrightarrow> (\<exists>op. plan_decision ia ib p = Some op \<and> is_upload op)"
    and down: "D \<longleftrightarrow> (\<exists>op. plan_decision ia ib p = Some op \<and> (is_download op \<or> is_conflict op))"
  shows "U \<and> \<not> D \<and> ca \<noteq> None \<or> D \<and> \<not> U \<and> cb \<noteq> None \<or> \<not> U \<and> \<not> D \<and> ca = cb"
    and "ca = None \<Longrightarrow> \<not> U" and "cb = None \<Longrightarrow> \<not> D"
proof -
  note cases = plan_decision_cases [OF dist, of p]
  have excl: "\<not> (is_upload op \<and> (is_download op \<or> is_conflict op))" "\<not> (is_download op \<and> is_conflict op)" for op
    by (cases op; simp)+
  have some: "plan_decision ia ib p = Some op \<Longrightarrow> U \<noteq> D" for op
    using plan_decision_kind [of ia ib p op] excl(1) [of op] unfolding up down by auto
  have none: "plan_decision ia ib p = None \<Longrightarrow> \<not> U \<and> \<not> D" unfolding up down by simp
  have id: "hash_array (b3 d) = b3 d" for d using len [of d] by (simp add: hash_array_def)
  have both: "(plan_decision ia ib p = None) = (d = d')" if "ca = Some d" "cb = Some d'" for d d'
  proof -
    from that ha hb obtain x y where "indexed ia p = Some x" "ie_hash x = b3 d" "indexed ib p = Some y" "ie_hash y = b3 d'"
      by auto
    with cases that inj show ?thesis by (auto simp: id)
  qed
  have onlya: "U \<and> \<not> D" if "ca \<noteq> None" "cb = None"
  proof -
    from that ha hb obtain x where "indexed ia p = Some x" "indexed ib p = None" by auto
    with cases obtain op where "plan_decision ia ib p = Some op" "is_upload op" by auto
    with excl(1) [of op] show ?thesis unfolding up down by auto
  qed
  have onlyb: "D \<and> \<not> U" if "ca = None" "cb \<noteq> None"
  proof -
    from that ha hb obtain x where "indexed ib p = Some x" "indexed ia p = None" by auto
    with cases obtain op where "plan_decision ia ib p = Some op" "is_download op" by auto
    with excl(1) [of op] show ?thesis unfolding up down by auto
  qed
  have neither: "\<not> U \<and> \<not> D" if "ca = None" "cb = None"
  proof -
    from that ha hb have "indexed ib p = None" "indexed ia p = None" by auto
    with cases show ?thesis using none by simp
  qed
  show "U \<and> \<not> D \<and> ca \<noteq> None \<or> D \<and> \<not> U \<and> cb \<noteq> None \<or> \<not> U \<and> \<not> D \<and> ca = cb"
  proof (cases "ca = None \<or> cb = None")
    case True
    with onlya onlyb neither show ?thesis by fastforce
  next
    case False
    then obtain d d' where dd: "ca = Some d" "cb = Some d'" by auto
    show ?thesis
    proof (cases "plan_decision ia ib p")
      case None
      with both [OF dd] none dd show ?thesis by simp
    next
      case (Some op)
      with some dd show ?thesis by blast
    qed
  qed
  show "ca = None \<Longrightarrow> \<not> U" using onlyb neither by blast
  show "cb = None \<Longrightarrow> \<not> D" using onlya neither by blast
qed

lemma option_choice:
  "U \<and> \<not> D \<and> ca \<noteq> None \<or> D \<and> \<not> U \<and> cb \<noteq> None \<or> \<not> U \<and> \<not> D \<and> ca = cb \<Longrightarrow>
    (if D then Some (the cb) else ca) = (if U then Some (the ca) else cb) \<and>
    (if D then Some (the cb) else ca) \<in> {ca, cb}"
  by auto

text \<open>The folders of two devices before a session: no links below the roots, the same hash function on
  both machines, without collisions between the two versions of a file, and folders that fit into
  each other.\<close>

definition pair_ready :: "env \<Rightarrow> fs \<Rightarrow> abspath \<Rightarrow> env \<Rightarrow> fs \<Rightarrow> abspath \<Rightarrow> bool" where
  "pair_ready ea fa Ra eb fb Rb \<longleftrightarrow> encodes ea \<and> encodes eb \<and> hashset_iter (e_set_iter ea) \<and>
     hashset_iter (e_set_iter eb) \<and> e_blake3 eb = e_blake3 ea \<and> (\<forall>d. length (e_blake3 ea d) = 32) \<and>
     (\<forall>ns d d'. content fa Ra ns = Some d \<longrightarrow> content fb Rb ns = Some d' \<longrightarrow> e_blake3 ea d = e_blake3 ea d' \<longrightarrow> d = d') \<and>
     linkless fa Ra \<and> linkless fb Rb \<and> fits fa Ra fb Rb \<and> fits fb Rb fa Ra \<and>
     card {ns. listed_file fa Ra ns} \<le> MAX_INDEX_ENTRIES \<and> card {ns. listed_file fb Rb ns} \<le> MAX_INDEX_ENTRIES"

text \<open>The paths that go either way: what one side sends is what the plan of the client uploads, or
  downloads and backs up.\<close>

definition divided :: "(bytes \<Rightarrow> bytes) \<Rightarrow> fs \<Rightarrow> abspath \<Rightarrow> Index \<Rightarrow> fs \<Rightarrow> abspath \<Rightarrow> Index \<Rightarrow> FilePath list \<Rightarrow> FilePath list \<Rightarrow> bool" where
  "divided b3 fa Ra ia fb Rb ib psa psb \<longleftrightarrow>
     describes b3 fa Ra (idx_entries ia) \<and> describes b3 fb Rb (idx_entries ib) \<and> distinct psa \<and> distinct psb \<and>
     set psa = {p. \<exists>op. plan_decision ia ib p = Some op \<and> is_upload op} \<and>
     set psb = {p. \<exists>op. plan_decision ia ib p = Some op \<and> (is_download op \<or> is_conflict op)}"

lemma plans_divide:
  assumes iter: "hashset_iter (e_set_iter ea)" "hashset_iter (e_set_iter eb)"
    and desc: "describes b3 fa Ra (idx_entries ia)" "describes b3 fb Rb (idx_entries ib)"
    and plans: "plana = session_plan ea fida ia ib" "planb = session_plan eb fidb ib ia"
  defines "psa \<equiv> map op_path (uploads plana)" and "psb \<equiv> map op_path (uploads planb) @ map op_path (conflicts planb)"
  shows "divided b3 fa Ra ia fb Rb ib psa psb" and "set psa = set (map op_path (downloads planb))"
    and "set psb = set (map op_path (downloads plana) @ map op_path (conflicts plana))"
proof -
  note A = plan_lists [OF iter(1), of fida ia ib, folded plans(1)]
  note B = plan_lists [OF iter(2), of fidb ib ia, folded plans(2)]
  have mirror: "plan_decision ib ia p = map_option mirror_op (plan_decision ia ib p)" for p
    by (rule plan_decision_mirror)
  have up: "set psa = {p. \<exists>op. plan_decision ia ib p = Some op \<and> is_upload op}"
    unfolding psa_def by (rule A(1))
  have down: "set psb = {p. \<exists>op. plan_decision ia ib p = Some op \<and> (is_download op \<or> is_conflict op)}"
    unfolding psb_def set_append B(1,3) mirror by auto
  show "set psa = set (map op_path (downloads planb))"
    unfolding up B(2) mirror by auto
  show "set psb = set (map op_path (downloads plana) @ map op_path (conflicts plana))"
    unfolding down set_append A(2,3) by auto
  have "distinct psa" "distinct psb" using A(4) B(4) by (auto simp: psa_def psb_def)
  with up down desc show "divided b3 fa Ra ia fb Rb ib psa psb" by (simp add: divided_def)
qed

lemma divided_paths:
  assumes "divided b3 fa Ra ia fb Rb ib psa psb"
  shows "set psa \<subseteq> ie_path ` set (idx_entries ia)" and "set psb \<subseteq> ie_path ` set (idx_entries ib)"
proof -
  have "distinct (map ie_path (idx_entries ia))" "distinct (map ie_path (idx_entries ib))"
    using assms by (simp_all add: divided_def describes_def)
  from plan_paths_indexed [OF this] assms
  show "set psa \<subseteq> ie_path ` set (idx_entries ia)" "set psb \<subseteq> ie_path ` set (idx_entries ib)"
    by (auto simp: divided_def)
qed

text \<open>What both folders hold under a path once each side took the files of the other.\<close>

lemma exchanged_agree:
  assumes div: "divided (e_blake3 ea) fa Ra ia fb Rb ib psa psb"
    and ready: "pair_ready ea fa Ra eb fb Rb"
    and got: "received now Ra (files_of fb Rb psb) fa fa'" "received now' Rb (files_of fa Ra psa) fb fb'"
    and clean: "\<forall>n \<in> set ns. \<not> reserved n" and db: "last (''r'' # ns) \<noteq> ''metadata.db''"
  shows "content fa' Ra ns = content fb' Rb ns \<and>
       (content fa Ra ns = None \<longrightarrow> content fa' Ra ns = content fb Rb ns) \<and>
       (content fb Rb ns = None \<longrightarrow> content fa' Ra ns = content fa Ra ns) \<and>
       content fa' Ra ns \<in> {content fa Ra ns, content fb Rb ns}"
proof -
  have len: "\<And>d. length (e_blake3 ea d) = 32"
    and inj: "\<And>ns d d'. content fa Ra ns = Some d \<Longrightarrow> content fb Rb ns = Some d' \<Longrightarrow> e_blake3 ea d = e_blake3 ea d' \<Longrightarrow> d = d'"
    and l: "linkless fa Ra" "linkless fb Rb"
    using ready unfolding pair_ready_def by blast+
  have wf: "wf_fs fa" "wf_fs fb" using l by (auto simp: linkless_def)
  have desc: "describes (e_blake3 ea) fa Ra (idx_entries ia)" "describes (e_blake3 ea) fb Rb (idx_entries ib)"
    and up: "set psa = {p. \<exists>op. plan_decision ia ib p = Some op \<and> is_upload op}"
    and down: "set psb = {p. \<exists>op. plan_decision ia ib p = Some op \<and> (is_download op \<or> is_conflict op)}"
    using div by (simp_all add: divided_def)
  have dist: "distinct (map ie_path (idx_entries ia))" "distinct (map ie_path (idx_entries ib))"
    using desc by (simp_all add: describes_def)
  note sub = divided_paths [OF div]
  note after = content_received [OF got(1) clean] content_received [OF got(2) clean]
  note target = target_path [OF desc(1) wf(1) sub(1), of ns] target_path [OF desc(2) wf(2) sub(2), of ns]
  have valid: "\<forall>n \<in> set ns. valid_name n" if "content fa Ra ns \<noteq> None \<or> content fb Rb ns \<noteq> None"
    using that wf by (auto simp: content_Some dest: wf_fs_names)
  have root: "ns \<noteq> []" if "content fa Ra ns \<noteq> None \<or> content fb Rb ns \<noteq> None"
    using that l by (cases "ns = []") (auto simp: content_Some linkless_def)
  show ?thesis
  proof (cases "content fa Ra ns = None \<and> content fb Rb ns = None")
    case True
    then have "ns \<notin> split_slash ` set psa" "ns \<notin> split_slash ` set psb" using target by (auto simp: listed_file_def)
    with after True show ?thesis by simp
  next
    case False
    then have names: "\<forall>n \<in> set ns. valid_name n" "ns \<noteq> []" using valid root by blast+
    with db have db': "last ns \<noteq> ''metadata.db''" by simp
    note h = indexed_described [of _ _ _ ia, OF _ wf(1) names db'] indexed_described [of _ _ _ ib, OF _ wf(2) names db']
    have ha: "map_option ie_hash (indexed ia (join_slash ns)) = map_option (e_blake3 ea) (content fa Ra ns)"
      by (rule h(1)) (rule desc(1))
    have hb: "map_option ie_hash (indexed ib (join_slash ns)) = map_option (e_blake3 ea) (content fb Rb ns)"
      by (rule h(2)) (rule desc(2))
    have U: "join_slash ns \<in> set psa \<longleftrightarrow> (\<exists>op. plan_decision ia ib (join_slash ns) = Some op \<and> is_upload op)"
      and D: "join_slash ns \<in> set psb \<longleftrightarrow>
        (\<exists>op. plan_decision ia ib (join_slash ns) = Some op \<and> (is_download op \<or> is_conflict op))"
      unfolding up down by simp_all
    have "\<forall>d d'. content fa Ra ns = Some d \<longrightarrow> content fb Rb ns = Some d' \<longrightarrow> e_blake3 ea d = e_blake3 ea d' \<longrightarrow> d = d'"
      using inj by blast
    note sends = one_side_sends [OF dist ha hb len this U D]
    have ta: "ns \<in> split_slash ` set psa \<longleftrightarrow> join_slash ns \<in> set psa"
      using sends(2) names db' unfolding target(1) listed_file_def by blast
    have tb: "ns \<in> split_slash ` set psb \<longleftrightarrow> join_slash ns \<in> set psb"
      using sends(3) names db' unfolding target(2) listed_file_def by blast
    show ?thesis unfolding after ta tb using sends(2,3) sends(1) [THEN option_choice] by auto
  qed
qed

text \<open>Two ready devices exchange their files: the messages each side writes are the ones the other
  reads, both runs succeed, and each folder receives the files the other's plan uploads.\<close>

lemma exchange_runs:
  assumes ready: "pair_ready ea fa Ra eb fb Rb"
    and opened: "sync_root_open fa (raw_path pa) = Inr ra" "sync_root_open fb (raw_path pb) = Inr rb"
    and auth: "get_device_cert dba dida = Some pc" "pc \<noteq> own" "hello_validate h = Inr ()"
      "hello_device_id h = cert_to_device_id (e_blake3 ea) (e_show_uuid ea) pc"
    and Ra: "Ra = sr_root ra" and Rb: "Rb = sr_root rb"
  shows "\<exists>ia ib psa psb to_server to_client sa sb res. divided (e_blake3 ea) fa Ra ia fb Rb ib psa psb \<and>
    run_sync_session ea own (Some pc) pa addr fida dida False None (MHello h # to_client) (session_start fa dba) = (sa, Inr res) \<and>
    handle_server_session eb pb fidb ia didb label to_server (session_start fb dbb) = (sb, Inr ()) \<and>
    c_out sa = MHello (client_hello ea own fida dba) # MIndex ia # to_server \<and> c_out sb = to_client \<and>
    received (e_clock ea) Ra (files_of fb Rb psb) fa (c_fs sa) \<and> received (e_clock eb) Rb (files_of fa Ra psa) fb (c_fs sb)"
proof -
  have enc: "encodes ea" "encodes eb" and iter: "hashset_iter (e_set_iter ea)" "hashset_iter (e_set_iter eb)"
    and b3: "e_blake3 eb = e_blake3 ea" and len: "\<And>d. length (e_blake3 ea d) = 32"
    and inj: "\<And>ns d d'. content fa Ra ns = Some d \<Longrightarrow> content fb Rb ns = Some d' \<Longrightarrow> e_blake3 ea d = e_blake3 ea d' \<Longrightarrow> d = d'"
    and l: "linkless fa Ra" "linkless fb Rb" and fits: "fits fa Ra fb Rb" "fits fb Rb fa Ra"
    and card: "card {ns. listed_file fa Ra ns} \<le> MAX_INDEX_ENTRIES" "card {ns. listed_file fb Rb ns} \<le> MAX_INDEX_ENTRIES"
    using ready unfolding pair_ready_def by blast+
  have wf: "wf_fs fa" "wf_fs fb" using l by (auto simp: linkless_def)
  obtain la where la: "build_protocol_index (e_blake3 ea) fa (raw_path pa) fida dida = Inr la" "describes (e_blake3 ea) fa Ra la"
    using index_describes [OF wf(1) opened(1)] unfolding Ra by blast
  obtain lb where lb: "build_protocol_index (e_blake3 eb) fb (raw_path pb) fidb didb = Inr lb" "describes (e_blake3 eb) fb Rb lb"
    using index_describes [OF wf(2) opened(2)] unfolding Rb by blast
  define ia where "ia = \<lparr>idx_folder_id = show_int fida, idx_device_id = dida, idx_remote_path = None, idx_entries = la\<rparr>"
  define ib where "ib = \<lparr>idx_folder_id = show_int fidb, idx_device_id = didb, idx_remote_path = None, idx_entries = lb\<rparr>"
  note desc = la(2) lb(2) [unfolded b3]
  have lens: "length la \<le> MAX_INDEX_ENTRIES" "length lb \<le> MAX_INDEX_ENTRIES"
    using index_length [OF la(2) card(1)] index_length [OF lb(2) card(2)] .
  define plana where "plana = session_plan ea fida ia ib"
  define planb where "planb = session_plan eb fidb ib ia"
  define psa where "psa = map op_path (uploads plana)"
  define psb where "psb = map op_path (uploads planb) @ map op_path (conflicts planb)"
  have "describes (e_blake3 ea) fa Ra (idx_entries ia)" "describes (e_blake3 ea) fb Rb (idx_entries ib)"
    using desc by (simp_all add: ia_def ib_def)
  note div = plans_divide [OF iter this plana_def planb_def, folded psa_def psb_def]
  have psa: "distinct psa" "set psa = set (map op_path (downloads planb))" using div(1,2) by (simp_all add: divided_def)
  have psb: "distinct psb" "set psb = set (map op_path (downloads plana) @ map op_path (conflicts plana))"
    using div(1,3) by (simp_all add: divided_def)
  define Fa where "Fa = files_of fa Ra psa"
  define Fb where "Fb = files_of fb Rb psb"
  obtain sb where sb: "handle_server_session eb pb fidb ia didb label
      (chunk_messages fida Fa @ ack [] True None # acks_for Fb) (session_start fb dbb) = (sb, Inr ())"
    "c_out sb = MIndex ib # chunk_messages fidb Fb @ ack [] True None # acks_for Fa"
    "received (e_clock eb) Rb Fa fb (c_fs sb)"
    using server_run [OF enc(2) iter(2), where s = "session_start fb dbb" and r = rb and lp = pb and ridx = ia and fa = fa
        and Ra = Ra and fid = fidb and did = didb and entries = lb and lidx = ib and plan = planb and psa = psa
        and fid' = fida and rest = "acks_for Fb" and label = label]
      l opened lens la lb desc b3 fits wf psa
    by (auto simp: session_start_def ia_def ib_def planb_def Fa_def Fb_def psb_def Rb)
  obtain sa res where sa: "run_sync_session ea own (Some pc) pa addr fida dida False None
      (MHello h # MIndex ib # chunk_messages fidb Fb @ ack [] True None # acks_for Fa) (session_start fa dba) = (sa, Inr res)"
    "c_out sa = MHello (client_hello ea own fida dba) # MIndex ia # chunk_messages fida Fa @ ack [] True None # acks_for Fb"
    "received (e_clock ea) Ra Fb fa (c_fs sa)"
    using client_run [OF enc(1) iter(1), where s = "session_start fa dba" and r = ra and lp = pa and ridx = ib and fb = fb
        and Rb = Rb and fid = fida and did = dida and entries = la and lidx = ia and plan = plana and psb = psb
        and fid' = fidb and as = Fa and pc = pc and own = own and h = h and addr = addr]
      l opened lens la lb desc b3 fits wf psb auth
    by (auto simp: session_start_def ia_def ib_def plana_def Fa_def Fb_def psa_def Ra)
  show ?thesis
    using div(1) sa(1,2) sb(1,2) sa(3) [unfolded Fb_def] sb(3) [unfolded Fa_def] by blast
qed


definition pair_env :: env where
  "pair_env = example_env\<lparr>e_blake3 := \<lambda>d. take 32 (d @ replicate 32 0), e_set_iter := remdups\<rparr>"

definition pair_fs :: "(string \<times> bytes) list \<Rightarrow> fs" where
  "pair_fs xs = [([], NDir), ([''s''], NDir)] @ map (\<lambda>(n, d). ([''s'', n], NFile d 1)) xs"

definition pair_db :: db where
  "pair_db = db_empty\<lparr>t_devices := [\<lparr>d_id = ''u'', d_name = ''n'', d_cert = Some [9], d_last_seen = None, d_last_addr = None\<rparr>]\<rparr>"

definition pair_hello :: Hello where
  "pair_hello = \<lparr>hello_protocol_version = PROTOCOL_VERSION, hello_device_id = ''u'', hello_device_name = ''n'',
     hello_cert_fingerprint = [], hello_folders = []\<rparr>"

lemma content_pair_fs: "content (pair_fs xs) [''s''] ns = (case ns of [n] \<Rightarrow> map_of xs n | _ \<Rightarrow> None)"
proof -
  have "map_of (map (\<lambda>(n, d). ([''s'', n], NFile d 1)) xs) (''s'' # ns) =
      (case ns of [n] \<Rightarrow> map_option (\<lambda>d. NFile d 1) (map_of xs n) | _ \<Rightarrow> None)"
    by (induction xs) (auto split: list.splits)
  then show ?thesis by (auto simp: content_def pair_fs_def split: list.splits option.splits)
qed

lemma pair_fs_dir: "map_of (pair_fs xs) q = Some NDir \<Longrightarrow> q = [] \<or> q = [''s'']"
  by (auto simp: pair_fs_def map_add_def dest!: map_of_SomeD split: if_splits option.splits)

lemma linkless_pair_fs:
  assumes "distinct (map fst xs)" and "\<forall>n \<in> fst ` set xs. valid_name n"
  shows "linkless (pair_fs xs) [''s'']"
proof -
  have "distinct (map fst (pair_fs xs))"
    using assms(1) by (auto simp: pair_fs_def distinct_map inj_on_def) (metis fst_conv snd_conv)
  moreover have "\<not> is_link (map_of (pair_fs xs) q)" for q
  proof (cases "map_of (pair_fs xs) q")
    case (Some n)
    then have "(q, n) \<in> set (pair_fs xs)" by (rule map_of_SomeD)
    then have "n = NDir \<or> (\<exists>d. n = NFile d 1)" by (auto simp: pair_fs_def)
    with Some show ?thesis by auto
  qed simp
  ultimately show ?thesis using assms(2)
    unfolding linkless_def by (auto simp: wf_fs_def pair_fs_def valid_name_def)
qed

lemma fits_pair_fs:
  assumes "\<forall>(n, d) \<in> set xs. \<not> reserved n \<and> length n \<le> MAX_PATH_LEN \<and> length d \<le> 256 * 1024 * 1024"
  shows "fits (pair_fs xs) [''s''] (pair_fs ys) [''s'']"
proof -
  have "map_of (pair_fs ys) ([''s''] @ q) \<noteq> Some NDir" if "q \<noteq> []" for q
    using pair_fs_dir [of ys "[''s''] @ q"] that by auto
  moreover have "map_of (pair_fs ys) ([''s''] @ q) = Some NDir" if "strict_prefix q [n]" for q n
    using that by (cases q) (auto simp: pair_fs_def)
  moreover have "\<exists>n d. ns = [n] \<and> (n, d) \<in> set xs \<and> content (pair_fs xs) [''s''] ns = Some d"
    if "listed_file (pair_fs xs) [''s''] ns" for ns
    using that by (auto simp: listed_file_def content_pair_fs split: list.splits dest: map_of_SomeD)
  ultimately show ?thesis using assms unfolding fits_def by (fastforce simp: listed_file_def)
qed


end
