(* ===== verification/Health.thy ===== *)
theory Health
  imports Conflict_Files "HOL-Library.Product_Lexorder"
begin

text \<open>
  The status projections of \<open>health.rs\<close> and the dashboard that \<open>commands/status.rs\<close> makes of
  them: derived views of the database and, for conflict counts, of the files on disk. Times are
  seconds read from a clock, so their difference is taken without overflow. A \<open>HashMap\<close> is
  an association list with distinct keys; none of them is iterated here.
\<close>

section \<open>Presence\<close>

definition CONNECTED_WINDOW_SECS :: i64 where
  "CONNECTED_WINDOW_SECS = 300"

definition RECENTLY_SEEN_WINDOW_SECS :: i64 where
  "RECENTLY_SEEN_WINDOW_SECS = 24 * 60 * 60"

datatype Presence = Connected | RecentlySeen | Offline

definition from_last_seen :: "i64 \<Rightarrow> i64 option \<Rightarrow> Presence" where
  "from_last_seen now_secs last_seen =
     (case last_seen of
        Some ts \<Rightarrow>
          if now_secs - ts \<le> CONNECTED_WINDOW_SECS then Connected
          else if now_secs - ts \<le> RECENTLY_SEEN_WINDOW_SECS then RecentlySeen
          else Presence.Offline
      | None \<Rightarrow> Presence.Offline)"

fun presence_str :: "Presence \<Rightarrow> string" where
  "presence_str Connected = ''connected''"
| "presence_str RecentlySeen = ''recently_seen''"
| "presence_str Presence.Offline = ''offline''"

section \<open>Folder health\<close>

datatype FolderHealth = Healthy | Syncing | Waiting | Offline | Error | Conflict | NotConfigured

fun health_str :: "FolderHealth \<Rightarrow> string" where
  "health_str Healthy = ''healthy''"
| "health_str Syncing = ''syncing''"
| "health_str Waiting = ''waiting''"
| "health_str FolderHealth.Offline = ''offline''"
| "health_str FolderHealth.Error = ''error''"
| "health_str FolderHealth.Conflict = ''conflict''"
| "health_str NotConfigured = ''not_configured''"

definition health_needs_attention :: "FolderHealth \<Rightarrow> bool" where
  "health_needs_attention h \<longleftrightarrow> h \<in> {FolderHealth.Conflict, FolderHealth.Error, FolderHealth.Offline}"

fun health_priority :: "FolderHealth \<Rightarrow> nat" where
  "health_priority FolderHealth.Conflict = 6"
| "health_priority FolderHealth.Error = 5"
| "health_priority FolderHealth.Offline = 4"
| "health_priority NotConfigured = 3"
| "health_priority Waiting = 2"
| "health_priority Syncing = 1"
| "health_priority Healthy = 0"

definition folder_health ::
  "string \<Rightarrow> string \<Rightarrow> Presence \<Rightarrow> i64 option \<Rightarrow> nat \<Rightarrow> bool \<Rightarrow> bool \<Rightarrow> FolderHealth" where
  "folder_health device_id own dev_presence last_sync nconflicts is_syncing is_errored =
     (if device_id = own then NotConfigured
      else if 0 < nconflicts then FolderHealth.Conflict
      else if is_syncing then Syncing
      else if is_errored then FolderHealth.Error
      else case dev_presence of
          Connected \<Rightarrow> (if last_sync \<noteq> None then Healthy else Waiting)
        | RecentlySeen \<Rightarrow> Waiting
        | Presence.Offline \<Rightarrow> (if last_sync = None then FolderHealth.Offline else Waiting))"

section \<open>Devices and folders\<close>

record DeviceStatus =
  ds_id :: string
  ds_name :: string
  ds_presence :: Presence
  ds_folder_count :: nat

record FolderStatus =
  fs_id :: i64
  fs_path :: string
  fs_device_id :: string
  fs_device_name :: "string option"
  fs_health :: FolderHealth
  fs_last_sync :: "i64 option"
  fs_conflicts :: nat

text \<open>The entry API: \<open>*map.entry(k).or_default() += 1\<close>, and collecting pairs into a map.\<close>

definition hm_count :: "'k \<Rightarrow> ('k \<times> nat) list \<Rightarrow> ('k \<times> nat) list" where
  "hm_count k m = hm_insert k ((case map_of m k of None \<Rightarrow> 0 | Some n \<Rightarrow> n) + 1) m"

definition hm_collect :: "('k \<times> 'v) list \<Rightarrow> ('k \<times> 'v) list" where
  "hm_collect xs = fold (\<lambda>(k, v). hm_insert k v) xs []"

definition hm_total :: "('k \<times> nat) list \<Rightarrow> 'k \<Rightarrow> nat" where
  "hm_total m k = (case map_of m k of None \<Rightarrow> 0 | Some n \<Rightarrow> n)"

definition compute_device_statuses :: "db \<Rightarrow> string \<Rightarrow> i64 \<Rightarrow> DeviceStatus list" where
  "compute_device_statuses db own now =
     (let folder_counts = fold (\<lambda>(_, _, dev, _, _). hm_count dev) (list_sync_folders db) []
      in sort_key (\<lambda>d. (ds_presence d \<noteq> Connected, ds_name d))
        (map (\<lambda>(did, name, last_seen). \<lparr>ds_id = did, ds_name = name,
             ds_presence = from_last_seen now last_seen, ds_folder_count = hm_total folder_counts did\<rparr>)
          (filter (\<lambda>(did, _, _). did \<noteq> own) (list_devices db))))"

definition folder_conflict_counts :: "fs \<Rightarrow> db \<Rightarrow> (i64 \<times> nat) list" where
  "folder_conflict_counts fs db = fold (\<lambda>e. hm_count (ce_folder_id e)) (list_conflicts fs db) []"

record LiveState =
  syncing :: "string list"
  errored :: "string list"

definition folder_row_status ::
  "(string \<times> string) list \<Rightarrow> (string \<times> Presence) list \<Rightarrow> (i64 \<times> nat) list \<Rightarrow> LiveState \<Rightarrow> string \<Rightarrow>
   i64 \<times> string \<times> string \<times> string \<times> i64 option \<Rightarrow> FolderStatus" where
  "folder_row_status device_name presence counts live own = (\<lambda>(fid, fpath, dev_id, _, last_sync).
     let count = hm_total counts fid;
         dev_presence = (case map_of presence dev_id of None \<Rightarrow> Presence.Offline | Some p \<Rightarrow> p)
     in \<lparr>fs_id = fid, fs_path = fpath, fs_device_id = dev_id, fs_device_name = map_of device_name dev_id,
         fs_health = folder_health dev_id own dev_presence last_sync count
           (fpath \<in> set (syncing live)) (fpath \<in> set (errored live)),
         fs_last_sync = last_sync, fs_conflicts = count\<rparr>)"

definition compute_folder_statuses :: "fs \<Rightarrow> db \<Rightarrow> string \<Rightarrow> i64 \<Rightarrow> LiveState \<Rightarrow> FolderStatus list" where
  "compute_folder_statuses fs db own now live =
     (let devices = list_devices db;
          device_name = hm_collect (map (\<lambda>(did, name, _). (did, name)) devices);
          presence = hm_collect (map (\<lambda>(did, _, last). (did, from_last_seen now last)) devices);
          counts = folder_conflict_counts fs db
      in sort_key fs_path
        (map (folder_row_status device_name presence counts live own) (list_sync_folders db)))"

definition peer_label :: "FolderStatus \<Rightarrow> string \<Rightarrow> string" where
  "peer_label f own =
     (if fs_device_id f = own then ''this device''
      else case fs_device_name f of Some n \<Rightarrow> n | None \<Rightarrow> fs_device_id f)"

section \<open>One row per folder\<close>

definition opt_max :: "i64 option \<Rightarrow> i64 option \<Rightarrow> i64 option" where
  "opt_max a b =
     (case (a, b) of
        (None, b) \<Rightarrow> b
      | (a, None) \<Rightarrow> a
      | (Some x, Some y) \<Rightarrow> Some (max x y))"

definition group_push ::
  "FolderStatus \<Rightarrow> i64 list \<times> (i64 \<times> FolderStatus list) list \<Rightarrow> i64 list \<times> (i64 \<times> FolderStatus list) list" where
  "group_push f = (\<lambda>(order, by_id).
     let rows = (case map_of by_id (fs_id f) of None \<Rightarrow> [] | Some g \<Rightarrow> g)
     in (if rows = [] then order @ [fs_id f] else order, hm_insert (fs_id f) (rows @ [f]) by_id))"

record merging =
  mg_labels :: "string list"
  mg_self :: bool
  mg_worst :: FolderHealth
  mg_row :: FolderStatus

definition merge_row :: "string \<Rightarrow> FolderStatus \<Rightarrow> merging \<Rightarrow> merging" where
  "merge_row own f m =
     (if fs_device_id f = own then m\<lparr>mg_self := True\<rparr>
      else
        let label = peer_label f own;
            labels = (if label \<in> set (mg_labels m) then mg_labels m else mg_labels m @ [label]);
            worse = health_priority (mg_worst m) < health_priority (fs_health f);
            row = (if worse then (mg_row m)\<lparr>fs_device_id := fs_device_id f\<rparr> else mg_row m)
        in m\<lparr>mg_labels := labels, mg_worst := (if worse then fs_health f else mg_worst m),
             mg_row := row\<lparr>fs_last_sync := opt_max (fs_last_sync row) (fs_last_sync f),
                           fs_conflicts := max (fs_conflicts row) (fs_conflicts f)\<rparr>\<rparr>)"

definition comma_join :: "string list \<Rightarrow> string" where
  "comma_join xs = concat (case xs of [] \<Rightarrow> [] | y # ys \<Rightarrow> y # map (\<lambda>z. '', '' @ z) ys)"

definition merge_group :: "string \<Rightarrow> FolderStatus list \<Rightarrow> FolderStatus" where
  "merge_group own rows =
     (let first = hd rows;
          m = fold (merge_row own) rows \<lparr>mg_labels = [], mg_self = False, mg_worst = Healthy, mg_row = first\<rparr>
      in if mg_labels m = []
         then (mg_row m)\<lparr>fs_health := fs_health first, fs_device_id := fs_device_id first,
                fs_last_sync := fs_last_sync first, fs_conflicts := fs_conflicts first,
                fs_device_name := Some (comma_join [''this device''])\<rparr>
         else (mg_row m)\<lparr>fs_health := mg_worst m,
                fs_device_name := Some (comma_join (mg_labels m @ (if mg_self m then [''this device''] else [])))\<rparr>)"

definition group_folders :: "FolderStatus list \<Rightarrow> string \<Rightarrow> FolderStatus list" where
  "group_folders folders own =
     (let (order, by_id) = fold group_push folders ([], [])
      in map (\<lambda>fid. merge_group own (the (map_of by_id fid))) order)"

section \<open>The roll-up\<close>

record HealthSummary =
  device_total :: nat
  device_connected :: nat
  device_recently_seen :: nat
  folders_total :: nat
  folders_healthy :: nat
  folders_needing_attention :: nat
  conflicts_total :: nat
  last_sync_secs :: "i64 option"

definition summary_needs_attention :: "HealthSummary \<Rightarrow> bool" where
  "summary_needs_attention s \<longleftrightarrow> 0 < conflicts_total s \<or> 0 < folders_needing_attention s"

definition summarize :: "DeviceStatus list \<Rightarrow> FolderStatus list \<Rightarrow> HealthSummary" where
  "summarize devices folders =
     \<lparr>device_total = length devices,
      device_connected = length (filter (\<lambda>d. ds_presence d = Connected) devices),
      device_recently_seen = length (filter (\<lambda>d. ds_presence d = RecentlySeen) devices),
      folders_total = length folders,
      folders_healthy = length (filter (\<lambda>f. fs_health f \<in> {Healthy, Syncing}) folders),
      folders_needing_attention = length (filter (\<lambda>f. health_needs_attention (fs_health f)) folders),
      conflicts_total = sum_list (map fs_conflicts folders),
      last_sync_secs = fold (\<lambda>t m. opt_max m (Some t)) (List.map_filter fs_last_sync folders) None\<rparr>"

record HealthSnapshot =
  hs_devices :: "DeviceStatus list"
  hs_folders :: "FolderStatus list"
  hs_summary :: HealthSummary

definition health_snapshot :: "fs \<Rightarrow> db \<Rightarrow> string \<Rightarrow> i64 \<Rightarrow> LiveState \<Rightarrow> HealthSnapshot" where
  "health_snapshot fs db own now live =
     (let devices = compute_device_statuses db own now;
          folders = compute_folder_statuses fs db own now live
      in \<lparr>hs_devices = devices, hs_folders = folders, hs_summary = summarize devices folders\<rparr>)"

section \<open>The dashboard\<close>

text \<open>Strings are bytes; the symbols of the dashboard in UTF-8.\<close>

definition sym_warn :: string where "sym_warn = [CHR 0xE2, CHR 0x9A, CHR 0xA0]"
definition sym_up :: string where "sym_up = [CHR 0xE2, CHR 0x86, CHR 0x91]"
definition sym_ring :: string where "sym_ring = [CHR 0xE2, CHR 0x97, CHR 0x8B]"
definition sym_disc :: string where "sym_disc = [CHR 0xE2, CHR 0x97, CHR 0x8F]"
definition sym_check :: string where "sym_check = [CHR 0xE2, CHR 0x9C, CHR 0x93]"
definition sym_bullet :: string where "sym_bullet = [CHR 0xE2, CHR 0x80, CHR 0xA2]"
definition sym_dot :: string where "sym_dot = [CHR 0xC2, CHR 0xB7]"
definition sym_both :: string where "sym_both = [CHR 0xE2, CHR 0x86, CHR 0x94]"
definition sym_dash :: string where "sym_dash = [CHR 0xE2, CHR 0x80, CHR 0x94]"
definition newline :: string where "newline = [CHR 0x0A]"

definition plural :: "nat \<Rightarrow> string" where
  "plural n = (if n = 1 then [] else ''s'')"

definition synced_headline :: string where
  "synced_headline = sym_check @ '' Everything is synced''"

definition headline :: "HealthSummary \<Rightarrow> string" where
  "headline s =
     (if folders_total s = 0 \<and> device_total s = 0 then ''Start by connecting a device.''
      else if 0 < conflicts_total s
      then sym_warn @ '' '' @ show_nat (conflicts_total s) @ '' conflict'' @ plural (conflicts_total s) @ '' need attention''
      else if 0 < folders_needing_attention s
      then sym_up @ '' '' @ show_nat (folders_needing_attention s) @ '' folder'' @
        plural (folders_needing_attention s) @ '' need attention''
      else
        let offline = device_total s - (device_connected s + device_recently_seen s)
        in if 0 < offline then sym_ring @ '' '' @ show_nat offline @ '' device'' @ plural offline @ '' offline''
           else synced_headline)"

fun presence_tag :: "Presence \<Rightarrow> string \<times> string" where
  "presence_tag Connected = (sym_disc, '' '' @ sym_dot @ '' connected'')"
| "presence_tag RecentlySeen = (sym_disc, '' '' @ sym_dot @ '' recently seen'')"
| "presence_tag Presence.Offline = (sym_ring, '' '' @ sym_dot @ '' offline'')"

fun folder_health_label :: "FolderHealth \<Rightarrow> string" where
  "folder_health_label NotConfigured = ''not configured''"
| "folder_health_label h = health_str h"

fun folder_marker :: "FolderHealth \<Rightarrow> string" where
  "folder_marker Healthy = sym_check"
| "folder_marker Syncing = sym_up"
| "folder_marker FolderHealth.Conflict = sym_warn"
| "folder_marker _ = sym_bullet"

definition attention_reason :: "FolderStatus \<Rightarrow> string \<Rightarrow> string" where
  "attention_reason f own =
     (case fs_health f of
        FolderHealth.Conflict \<Rightarrow> show_nat (fs_conflicts f) @ '' unresolved conflict(s), resolve with: ferrisync conflicts''
      | FolderHealth.Offline \<Rightarrow> peer_label f own @ '' is offline and '' @ fs_path f @ '' has never synced''
      | FolderHealth.Error \<Rightarrow> ''last sync errored '' @ sym_dash @ '' run `ferrisync sync` again''
      | _ \<Rightarrow> [])"

record Status =
  st_snapshot :: HealthSnapshot
  st_device_id :: string
  st_device_name :: string
  st_remote_labels :: "(i64 \<times> string) list"

definition status_run :: "fs \<Rightarrow> db \<Rightarrow> string \<Rightarrow> string \<Rightarrow> i64 \<Rightarrow> Status" where
  "status_run fs db own own_name now =
     \<lparr>st_snapshot = health_snapshot fs db own now \<lparr>syncing = [], errored = []\<rparr>,
      st_device_id = own, st_device_name = own_name, st_remote_labels = folder_remote_labels db own\<rparr>"

definition status_peer :: "Status \<Rightarrow> FolderStatus \<Rightarrow> string" where
  "status_peer st f =
     (case map_of (st_remote_labels st) (fs_id f) of Some l \<Rightarrow> l | None \<Rightarrow> peer_label f (st_device_id st))"

definition dashboard :: "Status \<Rightarrow> string" where
  "dashboard st =
     (let s = st_snapshot st;
          folders = group_folders (hs_folders s) (st_device_id st)
      in ''FerriSync '' @ sym_dot @ '' '' @ st_device_name st @ newline @
         headline (hs_summary s) @ newline @
         ''Devices'' @ newline @
         (if hs_devices s = [] then ''  (none '' @ sym_dash @ '' run `pair <ip>` or `discover` to connect)'' @ newline else []) @
         concat (map (\<lambda>d. let (dot, tag) = presence_tag (ds_presence d)
            in ''  '' @ dot @ '' '' @ ds_name d @ tag @ newline) (hs_devices s)) @
         ''Folders'' @ newline @
         (if folders = [] then ''  (none '' @ sym_dash @ '' add a folder to sync)'' @ newline else []) @
         concat (map (\<lambda>f. ''  '' @ folder_marker (fs_health f) @ '' '' @ fs_path f @ '' '' @ sym_both @ '' '' @
            status_peer st f @ '' '' @ sym_dash @ '' '' @ folder_health_label (fs_health f) @ newline) folders))"

end
