(* ===== verification/Health_Props.thy ===== *)
theory Health_Props
  imports Health
begin

text \<open>
  What the projections show: the grouping of rows by folder, how often a conflict is counted, and
  when the dashboard says that everything is synced.
\<close>

section \<open>Counting\<close>

lemma hm_total_count: "hm_total (hm_count k m) k' = hm_total m k' + (if k' = k then 1 else 0)"
  by (simp add: hm_total_def hm_count_def hm_simps)

lemma hm_total_fold: "hm_total (fold (\<lambda>x. hm_count (g x)) xs m) k = hm_total m k + length (filter (\<lambda>x. g x = k) xs)"
  by (induction xs arbitrary: m) (simp_all add: hm_total_count)

lemma conflict_count: "hm_total (folder_conflict_counts fs db) fid = length (filter (\<lambda>e. ce_folder_id e = fid) (list_conflicts fs db))"
  unfolding folder_conflict_counts_def hm_total_fold by (simp add: hm_total_def)

lemma sum_list_sort_key: "sum_list (map f (sort_key g xs)) = sum_list (map f xs)" for f :: "'a \<Rightarrow> nat"
proof -
  have "mset (map f (sort_key g xs)) = mset (map f xs)" by simp
  then show ?thesis by (metis sum_mset_sum_list)
qed

text \<open>Counting pairs by rows or by columns.\<close>

lemma count_both: "sum_list (map (\<lambda>x. length (filter (\<lambda>y. P x y) ys)) xs) = sum_list (map (\<lambda>y. length (filter (\<lambda>x. P x y) xs)) ys)"
proof (induction ys)
  case (Cons y ys)
  have "sum_list (map (\<lambda>x. length (filter (\<lambda>y. P x y) (y # ys))) xs) =
      length (filter (\<lambda>x. P x y) xs) + sum_list (map (\<lambda>x. length (filter (\<lambda>y. P x y) ys)) xs)"
    by (induction xs) simp_all
  with Cons show ?case by simp
qed (induction xs; simp)

section \<open>Grouping\<close>

lemma group_push_fold:
  "fold group_push folders ([], []) = (order, by_id) \<Longrightarrow>
     order = rev (remdups (rev (map fs_id folders))) \<and>
     (\<forall>fid. map_of by_id fid = (let g = filter (\<lambda>f. fs_id f = fid) folders in if g = [] then None else Some g))"
proof (induction folders arbitrary: order by_id rule: rev_induct)
  case (snoc f folders)
  obtain order' by_id' where *: "fold group_push folders ([], []) = (order', by_id')" by fastforce
  note IH = snoc.IH [OF *]
  have "fs_id f \<in> set (map fs_id folders) \<longleftrightarrow> filter (\<lambda>g. fs_id g = fs_id f) folders \<noteq> []"
    by (auto simp: filter_empty_conv) (metis image_eqI)
  moreover have "group_push f (order', by_id') = (order, by_id)" using snoc.prems * by simp
  ultimately show ?case using IH
    by (auto simp: group_push_def Let_def hm_simps)
qed simp

lemma merge_row_ids: "fs_id (mg_row (merge_row own f m)) = fs_id (mg_row m)"
  "fs_path (mg_row (merge_row own f m)) = fs_path (mg_row m)"
  by (simp_all add: merge_row_def Let_def)

lemma merge_fold_ids: "fs_id (mg_row (fold (merge_row own) rows m)) = fs_id (mg_row m)"
  "fs_path (mg_row (fold (merge_row own) rows m)) = fs_path (mg_row m)"
  by (induction rows arbitrary: m) (simp_all add: merge_row_ids)

lemma merge_fold_labels:
  "mg_labels (fold (merge_row own) rows m) = [] \<longleftrightarrow> mg_labels m = [] \<and> filter (\<lambda>f. fs_device_id f \<noteq> own) rows = []"
  by (induction rows arbitrary: m) (auto simp: merge_row_def Let_def)

lemma merge_fold_values:
  assumes "rows' = filter (\<lambda>f. fs_device_id f \<noteq> own) rows"
  shows "health_priority (mg_worst (fold (merge_row own) rows m)) =
      fold (\<lambda>f p. max p (health_priority (fs_health f))) rows' (health_priority (mg_worst m))"
    and "fs_conflicts (mg_row (fold (merge_row own) rows m)) = fold (\<lambda>f c. max c (fs_conflicts f)) rows' (fs_conflicts (mg_row m))"
  unfolding assms by (induction rows arbitrary: m) (auto simp: merge_row_def Let_def max_def)

lemma fold_max: "fold (\<lambda>f c. max c (g f)) xs c = Max (insert c (g ` set xs))" for c :: nat
proof -
  have "fold (\<lambda>f c. max c (g f)) xs c = fold max (map g xs) c"
    by (induction xs arbitrary: c) (simp_all add: max.commute)
  with Max.set_eq_fold [of c "map g xs"] show ?thesis by simp
qed

text \<open>The row a group becomes.\<close>

lemma merge_group_spec:
  assumes peers_def: "peers = filter (\<lambda>f. fs_device_id f \<noteq> own) rows"
  shows "fs_id (merge_group own rows) = fs_id (hd rows)" and "fs_path (merge_group own rows) = fs_path (hd rows)"
    and "health_priority (fs_health (merge_group own rows)) =
      (if peers = [] then health_priority (fs_health (hd rows)) else Max (health_priority ` fs_health ` set peers))"
    and "fs_conflicts (merge_group own rows) = Max (fs_conflicts ` set (hd rows # peers))"
proof -
  let ?m = "fold (merge_row own) rows \<lparr>mg_labels = [], mg_self = False, mg_worst = Healthy, mg_row = hd rows\<rparr>"
  have none: "mg_labels ?m = [] \<longleftrightarrow> peers = []" by (simp add: merge_fold_labels peers_def)
  note vals = merge_fold_values [of peers own rows, OF peers_def, unfolded fold_max]
  show "fs_id (merge_group own rows) = fs_id (hd rows)" "fs_path (merge_group own rows) = fs_path (hd rows)"
    by (simp_all add: merge_group_def Let_def merge_fold_ids)
  show "fs_conflicts (merge_group own rows) = Max (fs_conflicts ` set (hd rows # peers))"
    using none vals(2) by (simp add: merge_group_def Let_def)
  have "Max (insert 0 (health_priority ` fs_health ` set peers)) = Max (health_priority ` fs_health ` set peers)"
    if "peers \<noteq> []"
    using that by (subst Max_insert) auto
  then show "health_priority (fs_health (merge_group own rows)) =
      (if peers = [] then health_priority (fs_health (hd rows)) else Max (health_priority ` fs_health ` set peers))"
    using none vals(1) by (simp add: merge_group_def Let_def image_image)
qed

lemma group_folders_eq:
  "group_folders folders own = map (\<lambda>fid. merge_group own (filter (\<lambda>f. fs_id f = fid) folders)) (rev (remdups (rev (map fs_id folders))))"
proof -
  obtain order by_id where *: "fold group_push folders ([], []) = (order, by_id)" by fastforce
  from group_push_fold [OF this] have o: "order = rev (remdups (rev (map fs_id folders)))"
    and m: "\<And>fid. map_of by_id fid = (let g = filter (\<lambda>f. fs_id f = fid) folders in if g = [] then None else Some g)"
    by blast+
  have "the (map_of by_id fid) = filter (\<lambda>f. fs_id f = fid) folders" if "fid \<in> set order" for fid
  proof -
    from that have "\<exists>f \<in> set folders. fs_id f = fid" by (auto simp: o)
    then have "filter (\<lambda>f. fs_id f = fid) folders \<noteq> []" by (auto simp: filter_empty_conv)
    then show ?thesis by (simp add: m)
  qed
  then show ?thesis by (simp add: group_folders_def * o)
qed

section \<open>Properties\<close>

text \<open>The folder list shows one row per folder, in the order of first appearance. A row has the
  health of the highest priority among the folder's remote peers (that of its own row if there is no
  peer) and the largest conflict count.\<close>

theorem grouped_rows_exact:
  "map fs_id (group_folders folders own) = rev (remdups (rev (map fs_id folders))) \<and>
   map_of (map (\<lambda>r. (fs_id r, (fs_path r, health_priority (fs_health r), fs_conflicts r))) (group_folders folders own)) fid =
     (let g = filter (\<lambda>f. fs_id f = fid) folders;
          peers = filter (\<lambda>f. fs_device_id f \<noteq> own) g
      in if g = [] then None
         else Some (fs_path (hd g),
           if peers = [] then health_priority (fs_health (hd g)) else Max (health_priority ` fs_health ` set peers),
           Max (fs_conflicts ` set (hd g # peers))))"
proof -
  let ?g = "\<lambda>i. filter (\<lambda>f. fs_id f = i) folders"
  have hd: "?g i \<noteq> [] \<Longrightarrow> fs_id (hd (?g i)) = i" for i using hd_in_set [of "?g i"] by simp
  have mem: "i \<in> set (map fs_id folders) \<longleftrightarrow> ?g i \<noteq> []" for i
    by (auto simp: filter_empty_conv)
  have ids: "map fs_id (group_folders folders own) = rev (remdups (rev (map fs_id folders)))"
    unfolding group_folders_eq map_map
    by (rule map_idI) (use mem hd in \<open>simp add: merge_group_spec(1) [OF refl]\<close>)
  let ?v = "\<lambda>r. (fs_path r, health_priority (fs_health r), fs_conflicts r)"
  have row: "map (\<lambda>r. (fs_id r, ?v r)) (group_folders folders own) =
      map (\<lambda>i. (i, ?v (merge_group own (?g i)))) (rev (remdups (rev (map fs_id folders))))"
    using ids unfolding group_folders_eq by (simp add: list_eq_iff_nth_eq)
  have "map_of (map (\<lambda>i. (i, w i)) xs) fid = (if fid \<in> set xs then Some (w fid) else None)"
    for w :: "i64 \<Rightarrow> string \<times> nat \<times> nat" and xs
    by (simp add: map_of_map_restrict restrict_map_def)
  from this [of "\<lambda>i. ?v (merge_group own (?g i))" "rev (remdups (rev (map fs_id folders)))"]
  have "map_of (map (\<lambda>r. (fs_id r, ?v r)) (group_folders folders own)) fid =
      (if ?g fid = [] then None else Some (?v (merge_group own (?g fid))))"
    unfolding row using mem [of fid] by simp
  then show ?thesis unfolding ids Let_def merge_group_spec(2-4) [OF refl] by simp
qed

text \<open>The conflict total counts a backup once for every device its folder is paired with, not once:
  it is the sum over the listed backups of the number of enabled pairs of their folder.\<close>

theorem conflicts_counted_per_pair:
  "conflicts_total (hs_summary (health_snapshot fs db own now live)) =
     sum_list (map (\<lambda>e. length (filter (\<lambda>r. fst r = ce_folder_id e) (list_sync_folders db))) (list_conflicts fs db))"
proof -
  have "fs_conflicts (folder_row_status dn pr (folder_conflict_counts fs db) live own r) =
      length (filter (\<lambda>e. fst r = ce_folder_id e) (list_conflicts fs db))" for dn pr r
    by (cases r) (auto simp: folder_row_status_def Let_def conflict_count intro!: arg_cong [where f = length] filter_cong)
  then have "conflicts_total (hs_summary (health_snapshot fs db own now live)) =
      sum_list (map (\<lambda>r. length (filter (\<lambda>e. fst r = ce_folder_id e) (list_conflicts fs db))) (list_sync_folders db))"
    by (simp add: health_snapshot_def Let_def summarize_def compute_folder_statuses_def sum_list_sort_key comp_def)
  then show ?thesis unfolding count_both [of "\<lambda>r e. fst r = ce_folder_id e"] .
qed

text \<open>When the headline says that everything is synced: there is a device or a folder, no device is
  offline, no folder has a conflict, and no folder has failed or is unreachable before its first
  sync. A folder that is waiting for its first sync does not count.\<close>

theorem synced_headline_exact:
  assumes "s = health_snapshot fs db own now live"
  shows "headline (hs_summary s) = synced_headline \<longleftrightarrow>
     (hs_folders s \<noteq> [] \<or> hs_devices s \<noteq> []) \<and> (\<forall>d \<in> set (hs_devices s). ds_presence d \<noteq> Presence.Offline) \<and>
     (\<forall>f \<in> set (hs_folders s). fs_conflicts f = 0 \<and> fs_health f \<notin> {FolderHealth.Error, FolderHealth.Offline})"
proof -
  have diff: "''Start by connecting a device.'' \<noteq> synced_headline" "sym_warn @ x \<noteq> synced_headline"
    "sym_up @ x \<noteq> synced_headline" "sym_ring @ x \<noteq> synced_headline" for x
    by (simp_all add: synced_headline_def sym_check_def sym_warn_def sym_up_def sym_ring_def)
  define ds where "ds = hs_devices s"
  define rows where "rows = hs_folders s"
  have sum: "hs_summary s = summarize ds rows" by (simp add: assms ds_def rows_def health_snapshot_def Let_def)
  have "length ds = length (filter (\<lambda>d. ds_presence d = Connected) ds) + length (filter (\<lambda>d. ds_presence d = RecentlySeen) ds) +
      length (filter (\<lambda>d. ds_presence d = Presence.Offline) ds)"
    by (induction ds) (auto, (metis Presence.exhaust)+)
  then have off: "length ds - (length (filter (\<lambda>d. ds_presence d = Connected) ds) + length (filter (\<lambda>d. ds_presence d = RecentlySeen) ds)) = 0
      \<longleftrightarrow> (\<forall>d \<in> set ds. ds_presence d \<noteq> Presence.Offline)"
    by (simp add: filter_empty_conv)
  have att: "0 < length (filter (\<lambda>f. health_needs_attention (fs_health f)) rows) \<longleftrightarrow>
      (\<exists>f \<in> set rows. health_needs_attention (fs_health f))"
    by (auto simp: filter_empty_conv)
  have con: "fs_health f = FolderHealth.Conflict \<Longrightarrow> 0 < fs_conflicts f" if "f \<in> set rows" for f
    using that by (auto simp: rows_def assms health_snapshot_def Let_def compute_folder_statuses_def
        folder_row_status_def folder_health_def split: if_splits Presence.splits option.splits)
  have "sum_list (map fs_conflicts rows) = 0 \<longleftrightarrow> (\<forall>f \<in> set rows. fs_conflicts f = 0)"
    by simp
  have "headline (hs_summary s) = synced_headline \<longleftrightarrow>
      (rows \<noteq> [] \<or> ds \<noteq> []) \<and> sum_list (map fs_conflicts rows) = 0 \<and>
      length (filter (\<lambda>f. health_needs_attention (fs_health f)) rows) = 0 \<and>
      length ds - (length (filter (\<lambda>d. ds_presence d = Connected) ds) + length (filter (\<lambda>d. ds_presence d = RecentlySeen) ds)) = 0"
  proof -
    have "headline t = synced_headline \<longleftrightarrow> (folders_total t \<noteq> 0 \<or> device_total t \<noteq> 0) \<and> conflicts_total t = 0 \<and>
        folders_needing_attention t = 0 \<and> device_total t - (device_connected t + device_recently_seen t) = 0" for t
      unfolding headline_def Let_def using diff by auto
    then show ?thesis unfolding sum by (simp only: summarize_def HealthSummary.simps length_0_conv)
  qed
  also have "\<dots> \<longleftrightarrow> (rows \<noteq> [] \<or> ds \<noteq> []) \<and> (\<forall>f \<in> set rows. fs_conflicts f = 0) \<and>
      \<not> (\<exists>f \<in> set rows. health_needs_attention (fs_health f)) \<and> (\<forall>d \<in> set ds. ds_presence d \<noteq> Presence.Offline)"
    unfolding off att [symmetric] by (simp add: off)
  also have "\<dots> \<longleftrightarrow> (rows \<noteq> [] \<or> ds \<noteq> []) \<and> (\<forall>d \<in> set ds. ds_presence d \<noteq> Presence.Offline) \<and>
      (\<forall>f \<in> set rows. fs_conflicts f = 0 \<and> fs_health f \<notin> {FolderHealth.Error, FolderHealth.Offline})"
    using con unfolding health_needs_attention_def by fastforce
  finally show ?thesis by (simp add: ds_def rows_def)
qed

definition waiting_db :: db where
  "waiting_db = db_empty\<lparr>
     t_devices := [\<lparr>d_id = ''p'', d_name = ''phone'', d_cert = None, d_last_seen = Some 1000, d_last_addr = None\<rparr>],
     t_folders := [\<lparr>sf_id = 1, sf_local_path = ''/s'', sf_name = None, sf_device_id = ''p'', sf_active = True,
       sf_direction = ''pull'', sf_last_sync_at = None, sf_guid = None\<rparr>],
     t_pairs := [\<lparr>fd_folder_id = 1, fd_device_id = ''p'', fd_mode = ''pull'', fd_remote_path = None, fd_enabled = True\<rparr>]\<rparr>"

theorem synced_headline_exact_witness:
  "headline (hs_summary (health_snapshot [([], NDir)] waiting_db ''me'' 1100 \<lparr>syncing = [], errored = []\<rparr>)) = synced_headline \<and>
   list_sync_folders waiting_db = [(1, ''/s'', ''p'', ''pull'', None)]"
proof -
  let ?s = "health_snapshot [([], NDir)] waiting_db ''me'' 1100 \<lparr>syncing = [], errored = []\<rparr>"
  have folders: "list_sync_folders waiting_db = [(1, ''/s'', ''p'', ''pull'', None)]"
    by (simp add: list_sync_folders_def waiting_db_def)
  have devices: "list_devices waiting_db = [(''p'', ''phone'', Some 1000)]"
    by (simp add: list_devices_def waiting_db_def db_empty_def)
  have "sync_root_open [([], NDir)] (raw_path ''/s'') = Inl RootMissing" by code_simp
  then have "list_conflicts [([], NDir)] waiting_db = []" by (simp add: list_conflicts_def folders)
  then have "hs_folders ?s = [\<lparr>fs_id = 1, fs_path = ''/s'', fs_device_id = ''p'', fs_device_name = Some ''phone'',
      fs_health = Waiting, fs_last_sync = None, fs_conflicts = 0\<rparr>]"
    by (simp add: health_snapshot_def Let_def compute_folder_statuses_def folders devices folder_conflict_counts_def
        folder_row_status_def hm_total_def hm_collect_def folder_health_def from_last_seen_def CONNECTED_WINDOW_SECS_def)
  moreover have "hs_devices ?s = [\<lparr>ds_id = ''p'', ds_name = ''phone'', ds_presence = Connected, ds_folder_count = 1\<rparr>]"
    by (simp add: health_snapshot_def Let_def compute_device_statuses_def folders devices hm_count_def hm_total_def
        from_last_seen_def CONNECTED_WINDOW_SECS_def)
  ultimately show ?thesis using folders by (simp add: synced_headline_exact [OF refl])
qed

end
