(* ===== verification/Watcher.thy ===== *)
theory Watcher
  imports Prelude
begin

text \<open>
  The change scheduler of \<open>watcher/mod.rs\<close>: how a batch of file system events is coalesced, and the
  loop that collects events until they have been quiet for the debounce time or a batch is full.
  Paths are a type parameter with the equality of \<open>PathBuf\<close>. The loop is a step function over the
  three things that can wake it: an event, the timer, or the end of the input; times are milliseconds.
  When an event and the timer are both ready the loop may take either, so the timer fires at any
  time from its deadline on. \<open>notify\<close> delivers events as a kind with a list of paths.
\<close>

section \<open>Events\<close>

datatype 'p ChangeEvent = Created 'p | Modified 'p | Deleted 'p | Renamed 'p 'p

fun primary_path :: "'p ChangeEvent \<Rightarrow> 'p" where
  "primary_path (Created p) = p"
| "primary_path (Modified p) = p"
| "primary_path (Deleted p) = p"
| "primary_path (Renamed from_path to_path) = from_path"

fun merge_events :: "'p ChangeEvent option \<Rightarrow> 'p ChangeEvent \<Rightarrow> 'p ChangeEvent option" where
  "merge_events (Some (Created q)) (Modified p) = Some (Created p)"
| "merge_events (Some (Created q)) (Deleted p) = None"
| "merge_events (Some (Modified q)) (Deleted p) = Some (Deleted p)"
| "merge_events (Some (Deleted q)) (Created p) = Some (Modified p)"
| "merge_events (Some (Deleted q)) (Modified p) = Some (Modified p)"
| "merge_events prev other = Some other"

text \<open>The paths in the order of their first event, and the merged event of each.\<close>

definition coalesce_push ::
  "'p ChangeEvent \<Rightarrow> 'p list \<times> ('p \<times> 'p ChangeEvent option) list \<Rightarrow> 'p list \<times> ('p \<times> 'p ChangeEvent option) list" where
  "coalesce_push event = (\<lambda>(order, final_state).
     let path = primary_path event;
         is_new = (map_of final_state path = None);
         prev = (case map_of final_state path of None \<Rightarrow> None | Some x \<Rightarrow> x);
         merged = merge_events prev event
     in (if is_new then order @ [path] else order, hm_insert path merged final_state))"

definition coalesce :: "'p ChangeEvent list \<Rightarrow> 'p ChangeEvent list" where
  "coalesce events =
     (if events = [] then []
      else let (order, final_state) = fold coalesce_push events ([], [])
           in List.map_filter (\<lambda>p. case map_of final_state p of None \<Rightarrow> None | Some x \<Rightarrow> x) order)"

section \<open>The scheduler loop\<close>

record ChangeScheduler =
  debounce :: nat
  max_batch :: nat

record 'p sched =
  sc_pending :: "'p ChangeEvent list"
  sc_deadline :: "nat option"
  sc_sent :: "(nat \<times> 'p ChangeEvent list) list"
  sc_open :: bool

definition sched_new :: "'p sched" where
  "sched_new = \<lparr>sc_pending = [], sc_deadline = None, sc_sent = [], sc_open = True\<rparr>"

datatype 'p tick = Recv nat "'p ChangeEvent" | Timer nat | Closed nat

definition release :: "nat \<Rightarrow> 'p sched \<Rightarrow> 'p sched" where
  "release now s =
     (let batch = coalesce (sc_pending s)
      in s\<lparr>sc_pending := [], sc_deadline := None,
           sc_sent := (if batch = [] then sc_sent s else sc_sent s @ [(now, batch)])\<rparr>)"

fun sched_step :: "ChangeScheduler \<Rightarrow> 'p tick \<Rightarrow> 'p sched \<Rightarrow> 'p sched option" where
  "sched_step cfg (Recv now e) s =
     (if \<not> sc_open s then None
      else case sc_deadline s of
        Some d \<Rightarrow>
          (let s1 = s\<lparr>sc_pending := sc_pending s @ [e]\<rparr>
           in if 0 < max_batch cfg \<and> max_batch cfg \<le> length (sc_pending s1) then Some (release now s1)
              else Some (s1\<lparr>sc_deadline := Some (now + debounce cfg)\<rparr>))
      | None \<Rightarrow> Some (s\<lparr>sc_pending := sc_pending s @ [e], sc_deadline := Some (now + debounce cfg)\<rparr>))"
| "sched_step cfg (Timer now) s =
     (if \<not> sc_open s then None
      else case sc_deadline s of
        Some d \<Rightarrow> if d \<le> now then Some (release now s) else None
      | None \<Rightarrow> None)"
| "sched_step cfg (Closed now) s =
     (if \<not> sc_open s then None
      else case sc_deadline s of
        Some d \<Rightarrow> Some ((release now s)\<lparr>sc_open := False\<rparr>)
      | None \<Rightarrow> Some (s\<lparr>sc_open := False\<rparr>))"

inductive sched_reach :: "ChangeScheduler \<Rightarrow> 'p tick list \<Rightarrow> 'p sched \<Rightarrow> bool" for cfg where
  start: "sched_reach cfg [] sched_new"
| step: "sched_reach cfg ts s \<Longrightarrow> sched_step cfg t s = Some s' \<Longrightarrow> sched_reach cfg (ts @ [t]) s'"

fun tick_events :: "'p tick list \<Rightarrow> 'p ChangeEvent list" where
  "tick_events [] = []"
| "tick_events (Recv now e # ts) = e # tick_events ts"
| "tick_events (_ # ts) = tick_events ts"

section \<open>The bridge from notify\<close>

datatype EventKind = Create | Modify | Remove | OtherKind

fun bridge_event :: "EventKind \<times> 'p list \<Rightarrow> 'p ChangeEvent list" where
  "bridge_event (Create, paths) = map Created paths"
| "bridge_event (Modify, paths) = map Modified paths"
| "bridge_event (Remove, paths) = map Deleted paths"
| "bridge_event (OtherKind, paths) = []"

definition bridge :: "(EventKind \<times> 'p list) list \<Rightarrow> 'p ChangeEvent list" where
  "bridge raw = concat (map bridge_event raw)"

section \<open>What coalescing computes\<close>

definition net :: "'p \<Rightarrow> 'p ChangeEvent list \<Rightarrow> 'p ChangeEvent option" where
  "net p es = fold (\<lambda>e prev. merge_events prev e) (filter (\<lambda>e. primary_path e = p) es) None"

lemma net_snoc: "net p (es @ [e]) = (if primary_path e = p then merge_events (net p es) e else net p es)"
  by (simp add: net_def)

lemma coalesce_push_fold:
  "fold coalesce_push es ([], []) = (order, st) \<Longrightarrow>
     order = rev (remdups (rev (map primary_path es))) \<and>
     (\<forall>p. map_of st p = (if p \<in> primary_path ` set es then Some (net p es) else None))"
proof (induction es arbitrary: order st rule: rev_induct)
  case (snoc e es)
  obtain order' st' where *: "fold coalesce_push es ([], []) = (order', st')" by fastforce
  moreover have "coalesce_push e (order', st') = (order, st)" using snoc.prems * by simp
  moreover have "net p es = None" if "p \<notin> primary_path ` set es" for p
  proof -
    have "filter (\<lambda>e. primary_path e = p) es = []" using that by (auto simp: filter_empty_conv)
    then show ?thesis by (simp add: net_def)
  qed
  ultimately show ?case using snoc.IH [OF *]
    by (auto simp: coalesce_push_def Let_def hm_simps net_snoc)
qed simp

lemma coalesce_eq: "coalesce es = List.map_filter (\<lambda>p. net p es) (rev (remdups (rev (map primary_path es))))"
proof (cases "es = []")
  case False
  obtain order st where *: "fold coalesce_push es ([], []) = (order, st)" by fastforce
  from coalesce_push_fold [OF this] False show ?thesis
    by (auto simp: coalesce_def * List.map_filter_def intro!: map_cong filter_cong)
qed (simp add: coalesce_def List.map_filter_def)

lemma merge_path: "(\<And>x. prev = Some x \<Longrightarrow> primary_path x = primary_path e) \<Longrightarrow>
    merge_events prev e = Some x \<Longrightarrow> primary_path x = primary_path e"
  by (cases "(prev, e)" rule: merge_events.cases) auto

lemma net_path: "net p es = Some x \<Longrightarrow> primary_path x = p"
proof (induction es arbitrary: x rule: rev_induct)
  case (snoc e es)
  then show ?case using merge_path [of "net p es" e x] by (auto simp: net_snoc split: if_splits)
qed (simp add: net_def)

lemma length_coalesce: "length (coalesce es) \<le> length es"
proof -
  have "length (coalesce es) \<le> length (remdups (rev (map primary_path es)))"
    unfolding coalesce_eq List.map_filter_def by (metis length_filter_le length_map length_rev)
  also have "\<dots> \<le> length es" by (metis length_map length_remdups_leq length_rev)
  finally show ?thesis .
qed

section \<open>Coalescing against the files that exist\<close>

fun apply_event :: "'p ChangeEvent \<Rightarrow> 'p set \<Rightarrow> 'p set" where
  "apply_event (Created p) S = insert p S"
| "apply_event (Modified p) S = insert p S"
| "apply_event (Deleted p) S = S - {p}"
| "apply_event (Renamed p q) S = insert q (S - {p})"

text \<open>Events as a file system without renames produces them: a file is created when it is not
  there, changed and deleted when it is.\<close>

fun event_ok :: "'p ChangeEvent \<Rightarrow> 'p set \<Rightarrow> bool" where
  "event_ok (Created p) S \<longleftrightarrow> p \<notin> S"
| "event_ok (Modified p) S \<longleftrightarrow> p \<in> S"
| "event_ok (Deleted p) S \<longleftrightarrow> p \<in> S"
| "event_ok (Renamed p q) S \<longleftrightarrow> False"

fun valid_events :: "'p set \<Rightarrow> 'p ChangeEvent list \<Rightarrow> bool" where
  "valid_events S [] = True"
| "valid_events S (e # es) = (event_ok e S \<and> valid_events (apply_event e S) es)"

lemma valid_events_append:
  "valid_events S (es @ es') \<longleftrightarrow> valid_events S es \<and> valid_events (fold apply_event es S) es'"
  by (induction es arbitrary: S) auto

definition net_change :: "'p \<Rightarrow> bool \<Rightarrow> bool \<Rightarrow> bool \<Rightarrow> 'p ChangeEvent option" where
  "net_change p touched before after =
     (if \<not> before \<and> after then Some (Created p)
      else if before \<and> \<not> after then Some (Deleted p)
      else if before \<and> touched then Some (Modified p)
      else None)"

lemma net_valid:
  "valid_events S es \<Longrightarrow> net p es = net_change p (p \<in> primary_path ` set es) (p \<in> S) (p \<in> fold apply_event es S) \<and>
     (p \<notin> primary_path ` set es \<longrightarrow> (p \<in> fold apply_event es S) = (p \<in> S))"
proof (induction es rule: rev_induct)
  case (snoc e es)
  then show ?case
    by (cases e) (auto simp: net_snoc valid_events_append net_change_def)
qed (simp add: net_def net_change_def)



text \<open>A rename is forgotten when its old name is used again: the batch no longer mentions the new name.\<close>

theorem rename_forgotten: "coalesce [Renamed p q, Created p] = [Created p]"
  by (simp add: coalesce_eq net_def List.map_filter_simps)

theorem bridge_never_renames: "Renamed p q \<notin> set (bridge raw)"
proof -
  have "Renamed p q \<notin> set (bridge_event x)" for x by (cases x rule: bridge_event.cases) auto
  then show ?thesis by (auto simp: bridge_def)
qed

section \<open>The loop loses nothing\<close>

lemma tick_events_append: "tick_events (ts @ ts') = tick_events ts @ tick_events ts'"
  by (induction ts rule: tick_events.induct) simp_all

definition sched_inv :: "ChangeScheduler \<Rightarrow> 'p tick list \<Rightarrow> 'p sched \<Rightarrow> 'p ChangeEvent list list \<Rightarrow> bool" where
  "sched_inv cfg ts s chunks \<longleftrightarrow>
     concat chunks @ sc_pending s = tick_events ts \<and>
     map snd (sc_sent s) = filter (\<lambda>b. b \<noteq> []) (map coalesce chunks) \<and>
     (sc_deadline s = None \<longleftrightarrow> sc_pending s = []) \<and> (sc_open s \<or> sc_pending s = []) \<and>
     (0 < max_batch cfg \<longrightarrow> length (sc_pending s) < max 2 (max_batch cfg) \<and>
        (\<forall>c \<in> set chunks. length c \<le> max 2 (max_batch cfg)))"

lemma sched_reach_inv: "sched_reach cfg ts s \<Longrightarrow> \<exists>chunks. sched_inv cfg ts s chunks"
proof (induction rule: sched_reach.induct)
  case start
  show ?case by (rule exI [of _ "[]"]) (simp add: sched_inv_def sched_new_def less_max_iff_disj)
next
  case (step ts s t s')
  then obtain chunks where inv: "sched_inv cfg ts s chunks" by blast
  note simps = sched_inv_def release_def Let_def tick_events_append
  show ?case
  proof (cases "sc_pending s' = [] \<and> (sc_pending s \<noteq> [] \<or> tick_events [t] \<noteq> [])")
    case True
    with step.hyps(2) inv show ?thesis
      by (intro exI [of _ "chunks @ [sc_pending s @ tick_events [t]]"], cases t)
        (auto simp: simps split: if_splits option.splits)
  next
    case False
    with step.hyps(2) inv show ?thesis
      by (intro exI [of _ chunks], cases t) (auto simp: simps split: if_splits option.splits)
  qed
qed

text \<open>C38. The scheduler loses no event: at every point the events received so far are cut into chunks and
  the events still pending; what was sent are the coalesced chunks that are not empty, and nothing
  is pending once the input is closed.\<close>

theorem scheduler_loses_nothing:
  assumes "sched_reach cfg ts s"
  shows "\<exists>chunks. concat chunks @ sc_pending s = tick_events ts \<and>
     map snd (sc_sent s) = filter (\<lambda>b. b \<noteq> []) (map coalesce chunks) \<and> (\<not> sc_open s \<longrightarrow> sc_pending s = [])"
  using sched_reach_inv [OF assms] by (auto simp: sched_inv_def)

text \<open>With a limit \<open>max_batch\<close> a batch has at most that many events, but two if the limit is one: the
  first event of a batch is not checked against the limit.\<close>

theorem batch_limit:
  assumes "sched_reach cfg ts s" and "0 < max_batch cfg" and "(now, batch) \<in> set (sc_sent s)"
  shows "length batch \<le> max 2 (max_batch cfg)"
proof -
  from sched_reach_inv [OF assms(1)] obtain chunks where "sched_inv cfg ts s chunks" by blast
  then have sent: "map snd (sc_sent s) = filter (\<lambda>b. b \<noteq> []) (map coalesce chunks)"
    and limit: "\<forall>c \<in> set chunks. length c \<le> max 2 (max_batch cfg)" using assms(2) by (simp_all add: sched_inv_def)
  have "batch \<in> set (map snd (sc_sent s))" using assms(3) by force
  then obtain c where "c \<in> set chunks" "batch = coalesce c" unfolding sent by auto
  with limit length_coalesce [of c] show ?thesis by fastforce
qed

definition eager :: ChangeScheduler where
  "eager = \<lparr>debounce = 50, max_batch = 1\<rparr>"

lemma eager_run:
  "sched_reach eager [Recv 0 (Modified 1), Recv 1 (Modified 2)]
     \<lparr>sc_pending = [], sc_deadline = None, sc_sent = [(1, [Modified (1::nat), Modified 2])], sc_open = True\<rparr>"
proof -
  have 1: "sched_reach eager ([] @ [Recv 0 (Modified (1::nat))])
      \<lparr>sc_pending = [Modified 1], sc_deadline = Some 50, sc_sent = [], sc_open = True\<rparr>"
    by (rule sched_reach.step [OF sched_reach.start]) (simp add: sched_new_def eager_def)
  show ?thesis
    using sched_reach.step [OF 1, of "Recv 1 (Modified 2)"]
    by (simp add: eager_def release_def Let_def coalesce_eq net_def List.map_filter_simps)
qed

theorem scheduler_loses_nothing_witness:
  "\<exists>chunks. concat chunks = [Modified (1::nat), Modified 2] \<and> [[Modified 1, Modified 2]] = filter (\<lambda>b. b \<noteq> []) (map coalesce chunks)"
  using scheduler_loses_nothing [OF eager_run] by simp

theorem batch_limit_witness: "length [Modified (1::nat), Modified 2] \<le> 2"
  using batch_limit [OF eager_run, of 1 "[Modified 1, Modified 2]"] by (simp add: eager_def)

definition last_recv :: "'p tick list \<Rightarrow> nat option" where
  "last_recv ts = fold (\<lambda>t r. case t of Recv now e \<Rightarrow> Some now | _ \<Rightarrow> r) ts None"

lemma last_recv_snoc: "last_recv (ts @ [t]) = (case t of Recv now e \<Rightarrow> Some now | _ \<Rightarrow> last_recv ts)"
  by (cases t) (simp_all add: last_recv_def)

lemma deadline_last: "sched_reach cfg ts s \<Longrightarrow> sc_deadline s = Some d \<Longrightarrow> \<exists>t. last_recv ts = Some t \<and> d = t + debounce cfg"
proof (induction arbitrary: d rule: sched_reach.induct)
  case (step ts s t s')
  then show ?case
    by (cases t) (auto simp: last_recv_snoc release_def Let_def split: if_splits option.splits)
qed (simp add: sched_new_def)

text \<open>What the timer releases has been quiet: when it fires, the debounce time has passed since the
  last event that was received. A full batch is released at once, as \<open>eager_run\<close> shows.\<close>

theorem timer_waits:
  assumes "sched_reach cfg ts s" and "sched_step cfg (Timer now) s = Some s'"
  shows "\<exists>t. last_recv ts = Some t \<and> t + debounce cfg \<le> now"
  using deadline_last [OF assms(1)] assms(2) by (fastforce split: if_splits option.splits)

end
