(* ===== verification/Client_Rpc.thy ===== *)
theory Client_Rpc
  imports Listener
begin

text \<open>
  The requesting side of pairing: \<open>PairingManager\<close> of \<open>sync_engine/pairing.rs\<close>, which asks a host to
  pair and keeps asking while the host holds the request, and \<open>SharedFolderClient\<close> of
  \<open>sync_engine/shared_folder.rs\<close>, which lists the shared folders of a peer and polls for the owner's
  decision. The k-th connection is a parameter: what comes back from it and how many milliseconds it
  takes. Texts of errors that come from the transport, the frame parser and SQLite are parameters.
\<close>

section \<open>Pairing with a host\<close>

datatype read_result = TimedOut | ReadFailed string | Got bytes

datatype pair_answer =
    NotConnected string
  | WriteRefused string
  | Answered "bytes option" read_result

datatype pair_error =
    PairIo string
  | PairFrame frame_error
  | PairTimeout
  | PairDb db_error
  | PairRejected string
  | PairUnexpected
  | AwaitingApproval

definition PAIR_RETRY_INTERVAL :: nat where
  "PAIR_RETRY_INTERVAL = 3000"

definition PAIR_TOTAL_BUDGET :: nat where
  "PAIR_TOTAL_BUDGET = 60000"

definition pair_error_text :: "(frame_error \<Rightarrow> string) \<Rightarrow> (db_error \<Rightarrow> string) \<Rightarrow> pair_error \<Rightarrow> string" where
  "pair_error_text frame_text db_text err =
     (case err of
        PairIo t \<Rightarrow> t
      | PairFrame f \<Rightarrow> frame_text f
      | PairTimeout \<Rightarrow> ''timed out waiting for pairing response''
      | PairDb d \<Rightarrow> db_text d
      | PairRejected reason \<Rightarrow> ''pairing rejected: '' @ reason
      | PairUnexpected \<Rightarrow> ''unexpected response during pairing''
      | AwaitingApproval \<Rightarrow>
          ''pairing awaiting host approval (timed out after '' @ show_nat (PAIR_TOTAL_BUDGET div 1000) @ ''s)'')"

text \<open>An accepted response: the peer is stored under the id of its certificate.\<close>

definition store_peer ::
  "env \<Rightarrow> string \<Rightarrow> bytes option \<Rightarrow> PairResponse \<Rightarrow> db \<Rightarrow> db \<times> (pair_error + DeviceInfo)" where
  "store_peer e addr peer_cert resp db =
     (let peer_id = (case peer_cert of Some c \<Rightarrow> derived_id e c | None \<Rightarrow> presp_device_id resp);
          peer_info = \<lparr>di_id = peer_id, di_name = presp_device_name resp,
            di_cert_fingerprint = presp_cert_fingerprint resp\<rparr>
      in case upsert_device (e_fk e) (e_clock e) peer_id (presp_device_name resp) peer_cert (Some addr) db of
           (db', Inl err) \<Rightarrow> (db', Inl (PairDb err))
         | (db', Inr _) \<Rightarrow> (db', Inr peer_info))"

definition pair_request :: "DeviceInfo \<Rightarrow> PairRequest" where
  "pair_request own =
     \<lparr>preq_device_id = di_id own, preq_device_name = di_name own, preq_cert_fingerprint = di_cert_fingerprint own\<rparr>"

text \<open>One attempt: a single read of at most 4096 bytes must hold the whole response.\<close>

definition on_response ::
  "env \<Rightarrow> (bytes \<Rightarrow> SyncMessage option) \<Rightarrow> string \<Rightarrow> bytes option \<Rightarrow> bytes \<Rightarrow> db \<Rightarrow> db \<times> (pair_error + DeviceInfo)" where
  "on_response e deser addr peer_cert buf db =
     (case parse_frame deser (take 4096 buf) of
        Inl f \<Rightarrow> (db, Inl (PairFrame f))
      | Inr (MPairResponse resp, _) \<Rightarrow>
          if presp_accepted resp then store_peer e addr peer_cert resp db
          else (db, Inl (PairRejected (case presp_reason resp of Some r \<Rightarrow> r | None \<Rightarrow> [])))
      | Inr _ \<Rightarrow> (db, Inl PairUnexpected))"

definition pair_attempt ::
  "env \<Rightarrow> (bytes \<Rightarrow> SyncMessage option) \<Rightarrow> DeviceInfo \<Rightarrow> string \<Rightarrow> pair_answer \<Rightarrow> db \<Rightarrow> db \<times> (pair_error + DeviceInfo)" where
  "pair_attempt e deser own addr ans db =
     (case ans of
        NotConnected t \<Rightarrow> (db, Inl (PairIo t))
      | _ \<Rightarrow>
          (case frame_message (e_encode e) (MPairRequest (pair_request own)) of
             Inl f \<Rightarrow> (db, Inl (PairFrame f))
           | Inr _ \<Rightarrow>
               (case ans of
                  NotConnected t \<Rightarrow> (db, Inl (PairIo t))
                | WriteRefused t \<Rightarrow> (db, Inl (PairIo t))
                | Answered _ TimedOut \<Rightarrow> (db, Inl PairTimeout)
                | Answered _ (ReadFailed t) \<Rightarrow> (db, Inl (PairIo t))
                | Answered peer_cert (Got buf) \<Rightarrow> on_response e deser addr peer_cert buf db)))"

definition held :: "(pair_error \<Rightarrow> string) \<Rightarrow> pair_error \<Rightarrow> bool" where
  "held msg_of err \<longleftrightarrow> sublist PENDING_REASON (msg_of err)"

function pair_loop ::
  "env \<Rightarrow> (bytes \<Rightarrow> SyncMessage option) \<Rightarrow> (pair_error \<Rightarrow> string) \<Rightarrow> DeviceInfo \<Rightarrow> string \<Rightarrow>
   (nat \<Rightarrow> pair_answer \<times> nat) \<Rightarrow> nat \<Rightarrow> nat \<Rightarrow> db \<Rightarrow> db \<times> (pair_error + DeviceInfo)" where
  "pair_loop e deser msg_of own addr peer k now db =
     (case pair_attempt e deser own addr (fst (peer k)) db of
        (db', Inl err) \<Rightarrow>
          if held msg_of err
          then if PAIR_TOTAL_BUDGET \<le> now + snd (peer k) then (db', Inl AwaitingApproval)
               else pair_loop e deser msg_of own addr peer (Suc k) (now + snd (peer k) + PAIR_RETRY_INTERVAL) db'
          else (db', Inl err)
      | other \<Rightarrow> other)"
  by pat_completeness auto
termination
  by (relation "measure (\<lambda>(_, _, _, _, _, _, _, now, _). PAIR_TOTAL_BUDGET - now)")
    (auto simp: PAIR_RETRY_INTERVAL_def)

declare pair_loop.simps [simp del]

definition pair_with ::
  "env \<Rightarrow> (bytes \<Rightarrow> SyncMessage option) \<Rightarrow> (pair_error \<Rightarrow> string) \<Rightarrow> DeviceInfo \<Rightarrow> string \<Rightarrow>
   (nat \<Rightarrow> pair_answer \<times> nat) \<Rightarrow> db \<Rightarrow> db \<times> (pair_error + DeviceInfo)" where
  "pair_with e deser msg_of own addr peer db = pair_loop e deser msg_of own addr peer 0 0 db"

section \<open>Shared folders of a peer\<close>

datatype FolderPairReply = RApproved RemoteFolderPair | RRejected string | RPending

text \<open>A connection: none, one that cannot be written to, or the segments its reads return.\<close>

datatype rpc_answer = RpcUnreachable | RpcUnwritable | RpcSegments "bytes list"

datatype rpc_error = RpcConnect | RpcSend | RpcFrame frame_error | RpcUnexpected SyncMessage

definition rpc_call ::
  "env \<Rightarrow> (bytes \<Rightarrow> SyncMessage option) \<Rightarrow> SyncMessage \<Rightarrow> rpc_answer \<Rightarrow> rpc_error + SyncMessage" where
  "rpc_call e deser msg ans =
     (case ans of
        RpcUnreachable \<Rightarrow> Inl RpcConnect
      | _ \<Rightarrow>
          (case frame_message (e_encode e) msg of
             Inl f \<Rightarrow> Inl (RpcFrame f)
           | Inr _ \<Rightarrow>
               (case ans of
                  RpcSegments segs \<Rightarrow>
                    (case read_frame deser segs of Inl f \<Rightarrow> Inl (RpcFrame f) | Inr (m, _) \<Rightarrow> Inr m)
                | _ \<Rightarrow> Inl RpcSend)))"

definition client_list_shared_folders ::
  "env \<Rightarrow> (bytes \<Rightarrow> SyncMessage option) \<Rightarrow> rpc_answer \<Rightarrow> rpc_error + SharedFolderInfo list" where
  "client_list_shared_folders e deser ans =
     res_bind (rpc_call e deser MListSharedFolders ans) (\<lambda>m.
       case m of MSharedFolders folders \<Rightarrow> Inr folders | other \<Rightarrow> Inl (RpcUnexpected other))"

definition single_request ::
  "env \<Rightarrow> (bytes \<Rightarrow> SyncMessage option) \<Rightarrow> RemoteFolderPairRequest \<Rightarrow> rpc_answer \<Rightarrow> rpc_error + FolderPairReply" where
  "single_request e deser req ans =
     res_bind (rpc_call e deser (MRequestFolderPair req) ans) (\<lambda>m.
       case m of
         MFolderPairApproved grant \<Rightarrow> Inr (RApproved grant)
       | MFolderPairRejected reason \<Rightarrow> Inr (RRejected reason)
       | MFolderPairPending \<Rightarrow> Inr RPending
       | other \<Rightarrow> Inl (RpcUnexpected other))"

definition POLL_INTERVAL :: nat where
  "POLL_INTERVAL = 1500"

text \<open>The poll loop; without a deadline it may run forever, so its value is an option.\<close>

partial_function (option) poll ::
  "env \<Rightarrow> (bytes \<Rightarrow> SyncMessage option) \<Rightarrow> RemoteFolderPairRequest \<Rightarrow> nat option \<Rightarrow>
   (nat \<Rightarrow> rpc_answer \<times> nat) \<Rightarrow> nat \<Rightarrow> nat \<Rightarrow> (rpc_error + FolderPairReply) option" where
  "poll e deser req deadline peer k now =
     (case single_request e deser req (fst (peer k)) of
        Inr RPending \<Rightarrow>
          if (case deadline of Some d \<Rightarrow> d \<le> now + snd (peer k) | None \<Rightarrow> False) then Some (Inr RPending)
          else poll e deser req deadline peer (Suc k) (now + snd (peer k) + POLL_INTERVAL)
      | other \<Rightarrow> Some other)"

definition folder_pair_request :: "string \<Rightarrow> string \<Rightarrow> string \<Rightarrow> string \<Rightarrow> RemoteFolderPairRequest" where
  "folder_pair_request device_id device_name guid name =
     \<lparr>rfr_device_id = device_id, rfr_device_name = device_name, rfr_folder_guid = guid, rfr_name = name,
      rfr_mode = ''bidirectional''\<rparr>"

definition request_and_collect_pairing ::
  "env \<Rightarrow> (bytes \<Rightarrow> SyncMessage option) \<Rightarrow> string \<Rightarrow> string \<Rightarrow> string \<Rightarrow> string \<Rightarrow> nat option \<Rightarrow>
   (nat \<Rightarrow> rpc_answer \<times> nat) \<Rightarrow> (rpc_error + FolderPairReply) option" where
  "request_and_collect_pairing e deser device_id device_name guid name lifetime peer =
     poll e deser (folder_pair_request device_id device_name guid name) lifetime peer 0 0"

section \<open>The pairing loop\<close>

lemma store_peer_err: "store_peer e addr cert resp db = (db', Inl err) \<Longrightarrow> db' = db"
  by (auto simp: store_peer_def Let_def upsert_device_def stmt_def split: if_splits)

lemma on_response_err: "on_response e deser addr cert buf db = (db', Inl err) \<Longrightarrow> db' = db"
  by (auto simp: on_response_def dest: store_peer_err split: sum.splits SyncMessage.splits if_splits)

lemma pair_attempt_err: "pair_attempt e deser own addr ans db = (db', Inl err) \<Longrightarrow> db' = db"
  by (auto simp: pair_attempt_def dest: on_response_err split: pair_answer.splits sum.splits read_result.splits)

text \<open>An attempt is held, or it decides: its own outcome is the result, and a last held one gives up.\<close>

definition held_at ::
  "env \<Rightarrow> (bytes \<Rightarrow> SyncMessage option) \<Rightarrow> (pair_error \<Rightarrow> string) \<Rightarrow> DeviceInfo \<Rightarrow> string \<Rightarrow>
   (nat \<Rightarrow> pair_answer \<times> nat) \<Rightarrow> db \<Rightarrow> nat \<Rightarrow> bool" where
  "held_at e deser msg_of own addr peer db j \<longleftrightarrow>
     (case snd (pair_attempt e deser own addr (fst (peer j)) db) of Inl err \<Rightarrow> held msg_of err | Inr _ \<Rightarrow> False)"

definition decided_at ::
  "env \<Rightarrow> (bytes \<Rightarrow> SyncMessage option) \<Rightarrow> (pair_error \<Rightarrow> string) \<Rightarrow> DeviceInfo \<Rightarrow> string \<Rightarrow>
   (nat \<Rightarrow> pair_answer \<times> nat) \<Rightarrow> db \<Rightarrow> nat \<Rightarrow> db \<times> (pair_error + DeviceInfo) \<Rightarrow> bool" where
  "decided_at e deser msg_of own addr peer db n res \<longleftrightarrow>
     (if held_at e deser msg_of own addr peer db n then res = (db, Inl AwaitingApproval)
      else res = pair_attempt e deser own addr (fst (peer n)) db)"

text \<open>The k-th attempt starts at 3 seconds times k or later.\<close>

lemma pair_loop_outcome:
  assumes "PAIR_RETRY_INTERVAL * k \<le> now" and "now < PAIR_TOTAL_BUDGET + PAIR_RETRY_INTERVAL"
  shows "\<exists>n \<ge> k. n \<le> 20 \<and> (\<forall>j. k \<le> j \<and> j < n \<longrightarrow> held_at e deser msg_of own addr peer db j) \<and>
    decided_at e deser msg_of own addr peer db n (pair_loop e deser msg_of own addr peer k now db)"
  using assms
proof (induction e deser msg_of own addr peer k now db rule: pair_loop.induct)
  case (1 e deser msg_of own addr peer k now db)
  have k: "k \<le> 20" using "1.prems" by (simp add: PAIR_RETRY_INTERVAL_def PAIR_TOTAL_BUDGET_def)
  obtain db' r where att: "pair_attempt e deser own addr (fst (peer k)) db = (db', r)" by fastforce
  show ?case
  proof (cases "\<exists>err. r = Inl err \<and> held msg_of err \<and> \<not> PAIR_TOTAL_BUDGET \<le> now + snd (peer k)")
    case True
    then obtain err where err: "r = Inl err" "held msg_of err" "\<not> PAIR_TOTAL_BUDGET \<le> now + snd (peer k)" by blast
    have db: "db' = db" using pair_attempt_err att err(1) by blast
    let ?rest = "pair_loop e deser msg_of own addr peer (Suc k) (now + snd (peer k) + PAIR_RETRY_INTERVAL) db"
    have step: "pair_loop e deser msg_of own addr peer k now db = ?rest"
      using att err db by (subst pair_loop.simps) simp
    have "PAIR_RETRY_INTERVAL * Suc k \<le> now + snd (peer k) + PAIR_RETRY_INTERVAL"
      "now + snd (peer k) + PAIR_RETRY_INTERVAL < PAIR_TOTAL_BUDGET + PAIR_RETRY_INTERVAL"
      using "1.prems"(1) err(3) by simp_all
    from "1.IH" [OF att [symmetric] err(1) err(2,3), unfolded db, OF this] obtain n where
      n: "Suc k \<le> n" "n \<le> 20" "\<forall>j. Suc k \<le> j \<and> j < n \<longrightarrow> held_at e deser msg_of own addr peer db j"
        "decided_at e deser msg_of own addr peer db n ?rest"
      by (elim exE conjE)
    have "held_at e deser msg_of own addr peer db k" using att err by (simp add: held_at_def)
    with n(3) have "held_at e deser msg_of own addr peer db j" if "k \<le> j" "j < n" for j
      using that by (cases "j = k") simp_all
    with n step show ?thesis by (intro exI [of _ n]) simp
  next
    case False
    have "decided_at e deser msg_of own addr peer db k (pair_loop e deser msg_of own addr peer k now db)"
    proof (cases r)
      case (Inl err)
      with att pair_attempt_err [of e deser own addr "fst (peer k)" db db'] False show ?thesis
        by (subst pair_loop.simps) (simp add: decided_at_def held_at_def)
    qed (use att in \<open>subst pair_loop.simps, simp add: decided_at_def held_at_def\<close>)
    with k show ?thesis by (intro exI [of _ k]) auto
  qed
qed

lemma store_peer_ok:
  assumes "store_peer e addr cert resp db = (db', Inr info)"
  shows "di_id info = (case cert of Some c \<Rightarrow> derived_id e c | None \<Rightarrow> presp_device_id resp) \<and>
    di_name info = presp_device_name resp \<and> get_device_name db' (di_id info) = Some (di_name info) \<and>
    get_device_cert db' (di_id info) = coalesce cert (get_device_cert db (di_id info)) \<and>
    device_last_addr db' (di_id info) = Some addr \<and>
    (\<forall>j. j \<noteq> di_id info \<longrightarrow> device_by_id db' j = device_by_id db j)"
proof -
  from assms obtain pid where pid: "pid = (case cert of Some c \<Rightarrow> derived_id e c | None \<Rightarrow> presp_device_id resp)"
    and up: "upsert_device (e_fk e) (e_clock e) pid (presp_device_name resp) cert (Some addr) db = (db', Inr ())"
    and info: "di_id info = pid" "di_name info = presp_device_name resp"
    by (auto simp: store_peer_def Let_def split: prod.splits sum.splits)
  from stmt_ok [OF up [unfolded upsert_device_def]] show ?thesis
    by (auto simp: info pid [symmetric] get_device_name_def get_device_cert_def device_last_addr_def device_by_id_upsert
      coalesce_def split: option.splits)
qed

lemma pair_attempt_ok:
  assumes "pair_attempt e deser own addr ans db = (db', Inr info)"
  obtains cert buf resp n where "ans = Answered cert (Got buf)" "parse_frame deser (take 4096 buf) = Inr (MPairResponse resp, n)"
    "presp_accepted resp" "store_peer e addr cert resp db = (db', Inr info)"
  using assms
  by (auto simp: pair_attempt_def on_response_def split: pair_answer.splits sum.splits read_result.splits
      SyncMessage.splits if_splits prod.splits)

text \<open>C12. Pairing gives up: for every host and every timing it makes at most 21 attempts; all but the last
  were held by the host and changed nothing, and the last one gives the result, unless it was held
  as well. A success stores the peer under the id of the certificate it presented, with that
  certificate, its name and the dialled address, and touches no other device; a failure stores
  nothing.\<close>

theorem pair_with_outcome:
  "\<exists>n \<le> 20. (\<forall>j < n. held_at e deser msg_of own addr peer db j) \<and>
     (case pair_with e deser msg_of own addr peer db of
        (db', Inl err) \<Rightarrow> db' = db \<and> (held_at e deser msg_of own addr peer db n \<longleftrightarrow> err = AwaitingApproval)
      | (db', Inr info) \<Rightarrow>
          (\<exists>cert buf. fst (peer n) = Answered cert (Got buf) \<and>
             (\<forall>c. cert = Some c \<longrightarrow> di_id info = derived_id e c) \<and>
             get_device_cert db' (di_id info) = coalesce cert (get_device_cert db (di_id info))) \<and>
          get_device_name db' (di_id info) = Some (di_name info) \<and> device_last_addr db' (di_id info) = Some addr \<and>
          (\<forall>j. j \<noteq> di_id info \<longrightarrow> device_by_id db' j = device_by_id db j))"
proof -
  have "\<exists>n \<ge> 0. n \<le> 20 \<and> (\<forall>j. 0 \<le> j \<and> j < n \<longrightarrow> held_at e deser msg_of own addr peer db j) \<and>
    decided_at e deser msg_of own addr peer db n (pair_with e deser msg_of own addr peer db)"
    unfolding pair_with_def by (rule pair_loop_outcome) (simp_all add: PAIR_TOTAL_BUDGET_def)
  then obtain n where n: "n \<le> 20" "\<forall>j < n. held_at e deser msg_of own addr peer db j"
    "decided_at e deser msg_of own addr peer db n (pair_with e deser msg_of own addr peer db)" by auto
  show ?thesis
  proof (intro exI [of _ n] conjI n(1,2))
    obtain db' r where res: "pair_with e deser msg_of own addr peer db = (db', r)" by fastforce
    show "case pair_with e deser msg_of own addr peer db of
        (db', Inl err) \<Rightarrow> db' = db \<and> (held_at e deser msg_of own addr peer db n \<longleftrightarrow> err = AwaitingApproval)
      | (db', Inr info) \<Rightarrow>
          (\<exists>cert buf. fst (peer n) = Answered cert (Got buf) \<and>
             (\<forall>c. cert = Some c \<longrightarrow> di_id info = derived_id e c) \<and>
             get_device_cert db' (di_id info) = coalesce cert (get_device_cert db (di_id info))) \<and>
          get_device_name db' (di_id info) = Some (di_name info) \<and> device_last_addr db' (di_id info) = Some addr \<and>
          (\<forall>j. j \<noteq> di_id info \<longrightarrow> device_by_id db' j = device_by_id db j)"
    proof (cases r)
      case (Inl err)
      have "err \<noteq> AwaitingApproval" if "pair_attempt e deser own addr (fst (peer n)) db = (db', Inl err)"
        using that by (auto simp: pair_attempt_def on_response_def store_peer_def Let_def
            split: pair_answer.splits sum.splits read_result.splits SyncMessage.splits if_splits prod.splits)
      with n(3) res Inl pair_attempt_err [of e deser own addr "fst (peer n)" db db' err] show ?thesis
        by (auto simp: decided_at_def split: if_splits)
    next
      case (Inr info)
      with n(3) res have "pair_attempt e deser own addr (fst (peer n)) db = (db', Inr info)"
        by (auto simp: decided_at_def split: if_splits)
      then obtain cert buf resp where "fst (peer n) = Answered cert (Got buf)" "store_peer e addr cert resp db = (db', Inr info)"
        by (rule pair_attempt_ok) auto
      with store_peer_ok [OF this(2)] res Inr show ?thesis by (auto simp: split: option.splits)
    qed
  qed
qed

section \<open>Polling for the owner\<close>

definition asks_again :: "env \<Rightarrow> (bytes \<Rightarrow> SyncMessage option) \<Rightarrow> RemoteFolderPairRequest \<Rightarrow> (nat \<Rightarrow> rpc_answer \<times> nat) \<Rightarrow> nat \<Rightarrow> bool" where
  "asks_again e deser req peer k \<longleftrightarrow> single_request e deser req (fst (peer k)) = Inr RPending"

lemma poll_unfold:
  "poll e deser req deadline peer k now =
     (if asks_again e deser req peer k
      then if (case deadline of Some d \<Rightarrow> d \<le> now + snd (peer k) | None \<Rightarrow> False) then Some (Inr RPending)
           else poll e deser req deadline peer (Suc k) (now + snd (peer k) + POLL_INTERVAL)
      else Some (single_request e deser req (fst (peer k))))"
  by (subst poll.simps) (auto simp: asks_again_def split: sum.split FolderPairReply.split)

lemma poll_deadline: "\<exists>r. poll e deser req (Some d) peer k now = Some r"
proof (induction "d - now" arbitrary: k now rule: less_induct)
  case less
  show ?case
  proof (cases "d \<le> now + snd (peer k)")
    case False
    then have "d - (now + snd (peer k) + POLL_INTERVAL) < d - now" by (simp add: POLL_INTERVAL_def)
    from less [OF this] False show ?thesis by (subst poll_unfold) simp
  qed (subst poll_unfold, simp)
qed

lemma poll_answered:
  assumes "\<not> asks_again e deser req peer (k + n)"
  shows "\<exists>r. poll e deser req deadline peer k now = Some r"
  using assms
proof (induction n arbitrary: k now)
  case 0
  then show ?case by (subst poll_unfold) simp
next
  case (Suc n)
  from Suc.IH [of "Suc k"] Suc.prems show ?case by (subst poll_unfold) simp
qed

lemma poll_forever:
  assumes "\<forall>k. asks_again e deser req peer k"
  shows "poll e deser req None peer k now = None"
proof -
  have no: "\<not> (deadline = None \<and> (\<forall>k. asks_again e deser req peer k))" if "poll e deser req deadline peer k now = Some r"
    for e deser req deadline peer k now r
  proof (rule poll.raw_induct [OF _ that])
    fix poll' :: "env \<Rightarrow> (bytes \<Rightarrow> SyncMessage option) \<Rightarrow> RemoteFolderPairRequest \<Rightarrow> nat option \<Rightarrow>
      (nat \<Rightarrow> rpc_answer \<times> nat) \<Rightarrow> nat \<Rightarrow> nat \<Rightarrow> (rpc_error + FolderPairReply) option"
    fix e deser req deadline peer k now r
    assume ih: "\<And>e deser req deadline peer k now r. poll' e deser req deadline peer k now = Some r \<Longrightarrow>
        \<not> (deadline = None \<and> (\<forall>k. asks_again e deser req peer k))"
      and step: "(case single_request e deser req (fst (peer k)) of
          Inr RPending \<Rightarrow>
            if (case deadline of Some d \<Rightarrow> d \<le> now + snd (peer k) | None \<Rightarrow> False) then Some (Inr RPending)
            else poll' e deser req deadline peer (Suc k) (now + snd (peer k) + POLL_INTERVAL)
        | other \<Rightarrow> Some other) = Some r"
    show "\<not> (deadline = None \<and> (\<forall>k. asks_again e deser req peer k))"
    proof
      assume "deadline = None \<and> (\<forall>k. asks_again e deser req peer k)"
      moreover from this step have "poll' e deser req deadline peer (Suc k) (now + snd (peer k) + POLL_INTERVAL) = Some r"
        by (simp add: asks_again_def)
      ultimately show False using ih by blast
    qed
  qed
  show ?thesis using no [of e deser req None peer k now] assms by (cases "poll e deser req None peer k now") auto
qed

text \<open>Asking to pair with a shared folder returns unless it was given no lifetime and every answer of
  the owner is that the request is pending; then it never returns.\<close>

theorem folder_poll_returns:
  "request_and_collect_pairing e deser did dname guid name lifetime peer = None \<longleftrightarrow>
     lifetime = None \<and> (\<forall>k. single_request e deser (folder_pair_request did dname guid name) (fst (peer k)) = Inr RPending)"
proof (cases "lifetime = None \<and> (\<forall>k. asks_again e deser (folder_pair_request did dname guid name) peer k)")
  case True
  then show ?thesis using poll_forever [of e deser "folder_pair_request did dname guid name" peer 0 0]
    by (auto simp: request_and_collect_pairing_def asks_again_def)
next
  case False
  have "\<exists>r. poll e deser (folder_pair_request did dname guid name) lifetime peer 0 0 = Some r"
  proof (cases lifetime)
    case None
    with False obtain k where "\<not> asks_again e deser (folder_pair_request did dname guid name) peer (0 + k)" by auto
    then show ?thesis by (rule poll_answered)
  qed (use poll_deadline in blast)
  with False show ?thesis by (auto simp: request_and_collect_pairing_def asks_again_def)
qed

end
