(* ===== verification/Pairing_Run.thy ===== *)
theory Pairing_Run
  imports Client_Rpc
begin

text \<open>
  Pairing from end to end: the client of \<open>sync_engine/pairing.rs\<close> against the listener of
  \<open>sync_engine/session.rs\<close> and the gate of \<open>sync_engine/server.rs\<close>. The bytes that the server writes
  in its k-th connection are the answer of the client's k-th attempt.
\<close>

section \<open>Bytes between the two sides\<close>

definition written :: "env \<Rightarrow> server \<Rightarrow> server \<Rightarrow> bytes" where
  "written e sv sv' = concat (map (\<lambda>m. case frame_message (e_encode e) m of Inl _ \<Rightarrow> [] | Inr f \<Rightarrow> f)
     (drop (length (v_out sv)) (v_out sv')))"

definition pair_response :: "DeviceInfo \<Rightarrow> bool \<Rightarrow> string option \<Rightarrow> PairResponse" where
  "pair_response dev ok reason = \<lparr>presp_accepted = ok, presp_device_id = di_id dev, presp_device_name = di_name dev,
     presp_cert_fingerprint = di_cert_fingerprint dev, presp_reason = reason\<rparr>"

text \<open>Messages that fit into one read of the client, and decode to themselves.\<close>

definition fits :: "env \<Rightarrow> (bytes \<Rightarrow> SyncMessage option) \<Rightarrow> SyncMessage \<Rightarrow> bool" where
  "fits e deser m \<longleftrightarrow> (case e_encode e m of None \<Rightarrow> False | Some p \<Rightarrow> length p \<le> 4092 \<and> deser p = Some m)"

lemma fits_parse:
  assumes "fits e deser m" and "v_out sv' = v_out sv @ [m]"
  shows "\<exists>n. parse_frame deser (take 4096 (written e sv sv')) = Inr (m, n)"
proof -
  from assms(1) obtain p where p: "e_encode e m = Some p" "length p \<le> 4092" "deser p = Some m"
    by (auto simp: fits_def split: option.splits)
  let ?f = "to_be_bytes (word_of_nat (length p)) @ p"
  have w: "written e sv sv' = ?f" using assms(2) p(1) by (simp add: written_def frame_message_def)
  have "length ?f \<le> 4096" using p(2) by (simp add: to_be_bytes_def)
  then have "take 4096 (written e sv sv') = ?f @ []" by (simp add: w)
  with parse_frame_framed [of p ?f deser "[]"] p show ?thesis by (simp add: MAX_CONTROL_FRAME_def)
qed

lemma reply_fits: "fits e deser m \<Longrightarrow> reply e m sv = sv\<lparr>v_out := v_out sv @ [m]\<rparr>"
  by (auto simp: fits_def reply_def frame_message_def split: option.splits)

section \<open>The server's two answers\<close>

lemma request_held:
  assumes "v_policy cfg = Confirm" and "\<not> known_cert (e_blake3 (v_env cfg)) (v_db sv) (Some c)"
    and "derived_id (v_env cfg) c \<notin> denied (v_gate sv)"
    and "derived_id (v_env cfg) c \<notin> pp_device_id ` set (pending (v_gate sv))"
    and "fits (v_env cfg) deser (MPairResponse (pair_response (v_device cfg) False (Some PENDING_REASON)))"
    and sv'_def: "sv' = connection cfg (Some c) ip label [MPairRequest req] sv"
  shows "v_out sv' = v_out sv @ [MPairResponse (pair_response (v_device cfg) False (Some PENDING_REASON))]"
    and "v_db sv' = v_db sv"
    and "v_gate sv' = v_gate sv\<lparr>pending := pending (v_gate sv) @ [\<lparr>pp_device_id = derived_id (v_env cfg) c,
        pp_device_name = preq_device_name req, pp_cert_der = Some c\<rparr>]\<rparr>"
proof -
  have "\<not> (\<exists>p \<in> set (pending (v_gate sv)). pp_device_id p = derived_id (v_env cfg) c)" using assms(4) by force
  with assms(1-3) reply_fits [OF assms(5)] show "v_out sv' = v_out sv @ [MPairResponse (pair_response (v_device cfg) False (Some PENDING_REASON))]"
    "v_db sv' = v_db sv" "v_gate sv' = v_gate sv\<lparr>pending := pending (v_gate sv) @ [\<lparr>pp_device_id = derived_id (v_env cfg) c,
        pp_device_name = preq_device_name req, pp_cert_der = Some c\<rparr>]\<rparr>"
    by (simp_all add: sv'_def connection_def dispatch_def on_pair_request_def admit_def Let_def pair_response_def)
qed

lemma approved_pins:
  assumes "good (e_fk (v_env cfg)) (v_db sv)"
    and "v_gate sv = gate\<lparr>pending := pending gate @ [\<lparr>pp_device_id = did, pp_device_name = n, pp_cert_der = Some c\<rparr>]\<rparr>"
    and "did \<notin> pp_device_id ` set (pending gate)"
  shows "c \<in> pinned (v_db (server_step cfg sv (Approve did name)))"
    and "good (e_fk (v_env cfg)) (v_db (server_step cfg sv (Approve did name)))"
    and "v_out (server_step cfg sv (Approve did name)) = v_out sv"
proof -
  have "find (\<lambda>p. pp_device_id p = did) (pending gate) = None" using assms(3) by (auto simp: find_None_iff)
  then have held: "held_cert did (v_gate sv) = Some c" by (simp add: held_cert_def assms(2) find_snoc)
  obtain db' where up: "upsert_device (e_fk (v_env cfg)) (e_clock (v_env cfg)) did name (Some c) None (v_db sv) = (db', Inr ())"
    "c \<in> pinned db'"
    by (rule upsert_device_ok [OF assms(1), of "e_clock (v_env cfg)" did name "Some c" None]) auto
  then have "v_db (server_step cfg sv (Approve did name)) = db'"
    by (simp add: approve_pairing_def require_gate_def handle_of_def held)
  moreover have "good (e_fk (v_env cfg)) db'" using good_simple_ops(1) [OF assms(1)] up(1) by (metis fst_conv)
  ultimately show "c \<in> pinned (v_db (server_step cfg sv (Approve did name)))"
    "good (e_fk (v_env cfg)) (v_db (server_step cfg sv (Approve did name)))" using up(2) by simp_all
  show "v_out (server_step cfg sv (Approve did name)) = v_out sv" by (simp split: prod.split)
qed

lemma pinned_last_addr_eq: "pinned (fst (set_device_last_addr fk did a db)) = pinned db"
proof -
  have certs: "pinned x = {c. Some c \<in> set (map d_cert (t_devices x))}" for x by (force simp: pinned_def)
  have "map d_cert (map (\<lambda>d. if d_id d = did then d\<lparr>d_last_addr := Some a\<rparr> else d) xs) = map d_cert xs" for xs :: "device_row list"
    by (induction xs) auto
  then have "map d_cert (t_devices (fst (set_device_last_addr fk did a db))) = map d_cert (t_devices db)"
    by (simp add: set_device_last_addr_def stmt_def del: map_map)
  then show ?thesis unfolding certs by simp
qed

lemma request_accepted:
  assumes g: "good (e_fk (v_env cfg)) (v_db sv)" and "c \<in> pinned (v_db sv)"
    and f: "fits (v_env cfg) deser (MPairResponse (pair_response (v_device cfg) True None))"
    and sv'_def: "sv' = connection cfg (Some c) ip label [MPairRequest req] sv"
  shows "v_out sv' = v_out sv @ [MPairResponse (pair_response (v_device cfg) True None)]"
    and "known_cert (e_blake3 (v_env cfg)) (v_db sv') (Some c)"
proof -
  have known: "known_cert (e_blake3 (v_env cfg)) (v_db sv) (Some c)" using assms(2) by (auto simp: known_cert_iff)
  obtain db' where up: "upsert_device (e_fk (v_env cfg)) (e_clock (v_env cfg)) (derived_id (v_env cfg) c) (preq_device_name req) (Some c) None
      (v_db sv) = (db', Inr ())" "c \<in> pinned db'"
    by (rule upsert_device_ok [OF g, of "e_clock (v_env cfg)" "derived_id (v_env cfg) c" "preq_device_name req" "Some c" None]) auto
  have "v_out sv' = v_out sv @ [MPairResponse (pair_response (v_device cfg) True None)] \<and> c \<in> pinned (v_db sv')"
    using known reply_fits [OF f, unfolded pair_response_def] up
    by (cases ip) (simp_all add: sv'_def connection_def dispatch_def on_pair_request_def admit_def Let_def pair_response_def
        pinned_last_addr_eq)
  then show "v_out sv' = v_out sv @ [MPairResponse (pair_response (v_device cfg) True None)]"
    "known_cert (e_blake3 (v_env cfg)) (v_db sv') (Some c)" by (auto simp: known_cert_iff)
qed

section \<open>Both sides trust each other\<close>

text \<open>C7. Pairing completes: a host in confirm mode holds the first request of an unknown device; when the
  operator approves it while the client is within its budget, the client's next attempt succeeds,
  and then the client has stored the host's certificate under the host's id, and the host knows
  the client's.\<close>

theorem pairing_completes:
  assumes client: "db_reach (e_fk e) db" and host: "db_reach (e_fk e) (v_db sv)" "v_policy cfg = Confirm" "v_env cfg = e"
    and unknown: "\<not> known_cert (e_blake3 e) (v_db sv) (Some c)" "derived_id e c \<notin> denied (v_gate sv)"
      "derived_id e c \<notin> pp_device_id ` set (pending (v_gate sv))"
    and frames: "\<forall>m. m = MPairRequest (pair_request own) \<or> m = MPairResponse (pair_response (v_device cfg) False (Some PENDING_REASON)) \<or>
      m = MPairResponse (pair_response (v_device cfg) True None) \<longrightarrow> fits e deser m"
    and sv1: "sv1 = connection cfg (Some c) ip label [MPairRequest (pair_request own)] sv"
    and sv2: "sv2 = server_step cfg sv1 (Approve (derived_id e c) name)"
    and sv3: "sv3 = connection cfg (Some c) ip label [MPairRequest (pair_request own)] sv2"
    and dials: "peer 0 = (Answered (Some hc) (Got (written e sv sv1)), t0)" "t0 < PAIR_TOTAL_BUDGET"
      "peer 1 = (Answered (Some hc) (Got (written e sv2 sv3)), t1)"
  shows "\<exists>db'. pair_with e deser (pair_error_text ft dt) own addr peer db =
      (db', Inr \<lparr>di_id = derived_id e hc, di_name = di_name (v_device cfg),
        di_cert_fingerprint = di_cert_fingerprint (v_device cfg)\<rparr>) \<and>
    get_device_cert db' (derived_id e hc) = Some hc \<and> known_cert (e_blake3 e) (v_db sv3) (Some c)"
proof -
  let ?no = "MPairResponse (pair_response (v_device cfg) False (Some PENDING_REASON))"
    and ?yes = "MPairResponse (pair_response (v_device cfg) True None)"
  have fits: "fits e deser (MPairRequest (pair_request own))" "fits e deser ?no" "fits e deser ?yes" using frames by simp_all
  note held = request_held [of cfg sv c deser sv1 ip label "pair_request own", unfolded host(3), OF host(2) unknown fits(2) sv1]
  have g: "good (e_fk (v_env cfg)) (v_db sv1)" using good_reach [OF host(1)] held(2) host(3) by simp
  note ap = approved_pins [OF g held(3) unknown(3), of name, folded sv2]
  note acc = request_accepted [of cfg sv2 c deser sv3 ip label "pair_request own", unfolded host(3), OF ap(2) [unfolded host(3)] ap(1) fits(3) sv3]
  obtain b where request: "frame_message (e_encode e) (MPairRequest (pair_request own)) = Inr b"
    using fits(1) by (auto simp: fits_def frame_message_def split: option.splits)
  have first: "pair_attempt e deser own addr (fst (peer 0)) db = (db, Inl (PairRejected PENDING_REASON))"
    using fits_parse [OF fits(2) held(1)] by (auto simp: dials pair_attempt_def request on_response_def pair_response_def)
  have pending: "held (pair_error_text ft dt) (PairRejected PENDING_REASON)"
    unfolding held_def pair_error_text_def pair_error.case by (rule sublist_append_leftI)
  have second: "pair_attempt e deser own addr (fst (peer 1)) db = store_peer e addr (Some hc) (pair_response (v_device cfg) True None) db"
    using fits_parse [OF fits(3) acc(1)] dials(3) by (auto simp: pair_attempt_def request on_response_def pair_response_def)
  obtain db' where up: "upsert_device (e_fk e) (e_clock e) (derived_id e hc) (di_name (v_device cfg)) (Some hc) (Some addr) db = (db', Inr ())"
    "get_device_cert db' (derived_id e hc) = Some hc"
    by (rule upsert_device_ok [OF good_reach [OF client], of "e_clock e" "derived_id e hc" "di_name (v_device cfg)" "Some hc" "Some addr"])
      (auto simp: coalesce_def)
  have "pair_with e deser (pair_error_text ft dt) own addr peer db = pair_attempt e deser own addr (fst (peer 1)) db"
    unfolding pair_with_def
    using first pending dials(1,2) up(1) second
    by (subst pair_loop.simps, simp, subst pair_loop.simps) (simp add: store_peer_def pair_response_def)
  with second up acc(2) show ?thesis by (simp add: store_peer_def pair_response_def)
qed

definition desk :: DeviceInfo where
  "desk = \<lparr>di_id = ''d'', di_name = ''Desk'', di_cert_fingerprint = [5]\<rparr>"

definition phone :: DeviceInfo where
  "phone = \<lparr>di_id = ''p'', di_name = ''Phone'', di_cert_fingerprint = [7]\<rparr>"

definition tag_env :: env where
  "tag_env = example_env\<lparr>e_encode := (\<lambda>m. case m of MPairRequest _ \<Rightarrow> Some [0] | MPairResponse r \<Rightarrow> Some [if presp_accepted r then 1 else 2] | _ \<Rightarrow> None)\<rparr>"

definition tag_decode :: "bytes \<Rightarrow> SyncMessage option" where
  "tag_decode b = (if b = [0] then Some (MPairRequest (pair_request phone))
     else if b = [1] then Some (MPairResponse (pair_response desk True None))
     else Some (MPairResponse (pair_response desk False (Some PENDING_REASON))))"

definition desk_cfg :: server_cfg where
  "desk_cfg = \<lparr>v_env = tag_env, v_policy = Confirm, v_device = desk, v_own_cert = [5], v_local_path = ''/sync'', v_folder_id = 1\<rparr>"

definition fresh_server :: server where
  "fresh_server = \<lparr>v_fs = plain_fs, v_db = db_empty, v_gate = gate_new, v_out = [], v_events = []\<rparr>"

theorem pairing_completes_witness:
  "let ask = connection desk_cfg (Some [7]) None ''phone'' [MPairRequest (pair_request phone)];
       sv1 = ask fresh_server; sv2 = server_step desk_cfg sv1 (Approve (derived_id tag_env [7]) ''Phone''); sv3 = ask sv2;
       peer = (\<lambda>k. (Answered (Some [5]) (Got (if k = 0 then written tag_env fresh_server sv1 else written tag_env sv2 sv3)), 10))
   in \<exists>db' info. pair_with tag_env tag_decode (pair_error_text (\<lambda>_. []) (\<lambda>_. [])) phone ''desk:1'' peer db_empty = (db', Inr info) \<and>
        get_device_cert db' (di_id info) = Some [5] \<and> known_cert (e_blake3 tag_env) (v_db sv3) (Some [7])"
proof -
  define ask where "ask = connection desk_cfg (Some [7]) None ''phone'' [MPairRequest (pair_request phone)]"
  define sv2 where "sv2 = server_step desk_cfg (ask fresh_server) (Approve (derived_id tag_env [7]) ''Phone'')"
  define peer where "peer = (\<lambda>k :: nat. (Answered (Some [5 :: 8 word])
      (Got (if k = 0 then written tag_env fresh_server (ask fresh_server) else written tag_env sv2 (ask sv2))), 10 :: nat))"
  have frames: "\<forall>m. m = MPairRequest (pair_request phone) \<or> m = MPairResponse (pair_response (v_device desk_cfg) False (Some PENDING_REASON)) \<or>
      m = MPairResponse (pair_response (v_device desk_cfg) True None) \<longrightarrow> fits tag_env tag_decode m"
    by (auto simp: fits_def tag_env_def tag_decode_def desk_cfg_def pair_response_def)
  have host: "db_reach (e_fk tag_env) (v_db fresh_server)" "v_policy desk_cfg = Confirm" "v_env desk_cfg = tag_env"
    by (simp_all add: fresh_server_def desk_cfg_def db_reach.init)
  have unknown: "\<not> known_cert (e_blake3 tag_env) (v_db fresh_server) (Some [7])"
    "derived_id tag_env [7] \<notin> denied (v_gate fresh_server)"
    "derived_id tag_env [7] \<notin> pp_device_id ` set (pending (v_gate fresh_server))"
    by (simp_all add: fresh_server_def known_cert_iff pinned_def db_empty_def gate_new_def)
  have "peer 0 = (Answered (Some [5]) (Got (written tag_env fresh_server (ask fresh_server))), 10)"
    "peer 1 = (Answered (Some [5]) (Got (written tag_env sv2 (ask sv2))), 10)" "10 < PAIR_TOTAL_BUDGET"
    by (simp_all add: peer_def PAIR_TOTAL_BUDGET_def)
  from pairing_completes [OF db_reach.init host unknown frames fun_cong [OF ask_def] sv2_def fun_cong [OF ask_def] this(1,3,2)]
  show ?thesis unfolding Let_def ask_def [symmetric] sv2_def [symmetric] peer_def [symmetric] by fastforce
qed

text \<open>A host that accepts the first attempt: the peer is pinned under the id of its certificate.\<close>

theorem pair_with_outcome_witness:
  "case pair_with tag_env tag_decode (pair_error_text (\<lambda>_. []) (\<lambda>_. [])) phone ''desk:1''
       (\<lambda>_. (Answered (Some [5]) (Got [0, 0, 0, 1, 1]), 10)) db_empty of
     (db', Inl err) \<Rightarrow> False
   | (db', Inr info) \<Rightarrow> get_device_cert db' (di_id info) = Some [5] \<and> device_last_addr db' (di_id info) = Some ''desk:1''"
proof -
  let ?msg = "pair_error_text (\<lambda>_. []) (\<lambda>_. [])" and ?peer = "\<lambda>_ :: nat. (Answered (Some [5]) (Got [0, 0, 0, 1, 1]), 10 :: nat)"
  have parse: "parse_frame tag_decode [0, 0, 0, 1, 1] = Inr (MPairResponse (pair_response desk True None), 5)"
    by (simp add: parse_frame_def tag_decode_def from_be_bytes_def MAX_CONTROL_FRAME_def)
  have "good (e_fk tag_env) db_empty" by (rule good_reach) (rule db_reach.init)
  then obtain db' where up: "upsert_device (e_fk tag_env) (e_clock tag_env) (derived_id tag_env [5]) ''Desk'' (Some [5]) (Some ''desk:1'') db_empty = (db', Inr ())"
    by (rule upsert_device_ok)
  have enc: "e_encode tag_env (MPairRequest r) = Some [0]" for r by (simp add: tag_env_def)
  define info where "info = \<lparr>di_id = derived_id tag_env [5], di_name = ''Desk'', di_cert_fingerprint = [5]\<rparr>"
  have "on_response tag_env tag_decode ''desk:1'' (Some [5]) [0, 0, 0, 1, 1] db_empty = (db', Inr info)"
    using parse up by (simp add: on_response_def pair_response_def store_peer_def desk_def info_def)
  moreover have "\<exists>f. frame_message (e_encode tag_env) (MPairRequest (pair_request phone)) = Inr f"
    by (simp add: frame_message_def enc MAX_CONTROL_FRAME_def)
  ultimately have "pair_attempt tag_env tag_decode phone ''desk:1'' (fst (?peer 0)) db_empty = (db', Inr info)"
    by (auto simp: pair_attempt_def)
  then have "\<exists>info. pair_with tag_env tag_decode ?msg phone ''desk:1'' ?peer db_empty = (db', Inr info)"
    unfolding pair_with_def by (subst pair_loop.simps) simp
  then show ?thesis
    using pair_with_outcome [of tag_env tag_decode ?msg phone "''desk:1''" ?peer db_empty]
    by (auto simp: coalesce_def get_device_cert_def device_by_id_def db_empty_def)
qed

end
