(* ===== verification/Utf8.thy ===== *)
theory Utf8
  imports Prelude
begin

text \<open>
  UTF-8 as \<open>std::str\<close> has it, over code points: a Rust string is the list of its bytes, and the
  operations that look at characters (\<open>trim\<close>, \<open>chars\<close>, \<open>is_control\<close>) decode it first.
\<close>

section \<open>Encoding and decoding\<close>

definition scalar :: "nat \<Rightarrow> bool" where
  "scalar c \<longleftrightarrow> c < 0xD800 \<or> 0xE000 \<le> c \<and> c < 0x110000"

definition cont :: "nat \<Rightarrow> bool" where
  "cont b \<longleftrightarrow> 0x80 \<le> b \<and> b < 0xC0"

definition encode_char :: "nat \<Rightarrow> nat list" where
  "encode_char c =
     (if c < 0x80 then [c]
      else if c < 0x800 then [0xC0 + c div 64, 0x80 + c mod 64]
      else if c < 0x10000 then [0xE0 + c div 4096, 0x80 + c div 64 mod 64, 0x80 + c mod 64]
      else [0xF0 + c div 262144, 0x80 + c div 4096 mod 64, 0x80 + c div 64 mod 64, 0x80 + c mod 64])"

definition utf8_encode :: "nat list \<Rightarrow> nat list" where
  "utf8_encode cs = concat (map encode_char cs)"

text \<open>Overlong forms, surrogates and values beyond the last code point are rejected.\<close>

fun utf8_decode :: "nat list \<Rightarrow> nat list option" where
  "utf8_decode [] = Some []"
| "utf8_decode (a # r) =
     (if a < 0x80 then map_option ((#) a) (utf8_decode r)
      else if a < 0xC0 then None
      else if a < 0xE0 then
        (case r of
           b # r' \<Rightarrow>
             let c = (a - 0xC0) * 64 + (b - 0x80)
             in if cont b \<and> 0x80 \<le> c then map_option ((#) c) (utf8_decode r') else None
         | _ \<Rightarrow> None)
      else if a < 0xF0 then
        (case r of
           b # b' # r' \<Rightarrow>
             let c = (a - 0xE0) * 4096 + (b - 0x80) * 64 + (b' - 0x80)
             in if cont b \<and> cont b' \<and> 0x800 \<le> c \<and> scalar c then map_option ((#) c) (utf8_decode r') else None
         | _ \<Rightarrow> None)
      else
        (case r of
           b # b' # b'' # r' \<Rightarrow>
             let c = (a - 0xF0) * 262144 + (b - 0x80) * 4096 + (b' - 0x80) * 64 + (b'' - 0x80)
             in if cont b \<and> cont b' \<and> cont b'' \<and> 0x10000 \<le> c \<and> scalar c
                then map_option ((#) c) (utf8_decode r') else None
         | _ \<Rightarrow> None))"

lemma decode_char:
  assumes "scalar c"
  shows "utf8_decode (encode_char c @ r) = map_option ((#) c) (utf8_decode r)"
proof -
  have dm: "n div k * k + n mod k = n" for n k :: nat by simp
  consider "c < 0x80" | "0x80 \<le> c" "c < 0x800" | "0x800 \<le> c" "c < 0x10000" | "0x10000 \<le> c" by linarith
  then show ?thesis
  proof cases
    case 2
    then have "c div 64 < 0x20" "0 < c div 64" by (simp_all add: div_less_iff_less_mult div_greater_zero_iff)
    with 2 show ?thesis by (simp add: encode_char_def cont_def Let_def)
  next
    case 3
    have "c div 64 div 64 * 64 + c div 64 mod 64 = c div 64" by (rule dm)
    then have "c div 4096 * 4096 + c div 64 mod 64 * 64 + c mod 64 = c"
      using dm [of c 64] div_mult2_eq [of c 64 64, simplified] by linarith
    moreover have "c div 4096 < 0x10" using 3 by (simp add: div_less_iff_less_mult)
    ultimately show ?thesis using 3 assms by (simp add: encode_char_def cont_def Let_def)
  next
    case 4
    have "c div 262144 * 262144 + c div 4096 mod 64 * 4096 + c div 64 mod 64 * 64 + c mod 64 = c"
      using dm [of c 64] dm [of "c div 64" 64] dm [of "c div 4096" 64] div_mult2_eq [of c 64 64, simplified] div_mult2_eq [of c 4096 64, simplified]
      by linarith
    then show ?thesis using 4 assms by (simp add: encode_char_def cont_def Let_def)
  qed (simp add: encode_char_def)
qed

lemma decode_encode: "\<forall>c \<in> set cs. scalar c \<Longrightarrow> utf8_decode (utf8_encode cs) = Some cs"
  by (induction cs) (simp_all add: utf8_encode_def decode_char)

lemma scalar_small: "c < 0x800 \<Longrightarrow> scalar c"
  by (simp add: scalar_def)

lemma decode_scalars: "utf8_decode bs = Some cs \<Longrightarrow> \<forall>c \<in> set cs. scalar c"
proof (induction bs arbitrary: cs rule: utf8_decode.induct)
  case (2 a r)
  have step: "\<forall>c \<in> set cs. scalar c"
    if "map_option ((#) c) (utf8_decode r') = Some cs" "scalar c" "\<And>ds. utf8_decode r' = Some ds \<Longrightarrow> \<forall>d \<in> set ds. scalar d" for c r'
    using that by auto
  consider "a < 0x80" | "0x80 \<le> a" "a < 0xC0" | "0xC0 \<le> a" "a < 0xE0" | "0xE0 \<le> a" "a < 0xF0" | "0xF0 \<le> a"
    by linarith
  then show ?case
  proof cases
    case 1
    with 2(5) have "map_option ((#) a) (utf8_decode r) = Some cs" by simp
    then show ?thesis by (rule step) (use 1 2(1) in \<open>simp_all add: scalar_def\<close>)
  next
    case 3
    with 2(5) obtain b r' where r: "r = b # r'" "cont b" "0x80 \<le> (a - 0xC0) * 64 + (b - 0x80)"
      "map_option ((#) ((a - 0xC0) * 64 + (b - 0x80))) (utf8_decode r') = Some cs"
      by (auto simp: Let_def split: list.splits if_splits)
    have "(a - 0xC0) * 64 + (b - 0x80) < 0x800" using 3 r(2) by (auto simp: cont_def)
    with r(4) show ?thesis by (intro step [OF _ scalar_small]) (use 2(2) [OF _ _ _ r(1) refl] 3 r in auto)
  next
    case 4
    with 2(5) obtain b b' r' where r: "r = b # b' # r'" "cont b" "cont b'"
      "0x800 \<le> (a - 0xE0) * 4096 + (b - 0x80) * 64 + (b' - 0x80)"
      "scalar ((a - 0xE0) * 4096 + (b - 0x80) * 64 + (b' - 0x80))"
      "map_option ((#) ((a - 0xE0) * 4096 + (b - 0x80) * 64 + (b' - 0x80))) (utf8_decode r') = Some cs"
      by (auto simp: Let_def split: list.splits if_splits)
    show ?thesis by (rule step [OF r(6,5)]) (use 2(3) [OF _ _ _ _ r(1) refl refl] 4 r in auto)
  next
    case 5
    with 2(5) obtain b b' b'' r' where r: "r = b # b' # b'' # r'" "cont b" "cont b'" "cont b''"
      "0x10000 \<le> (a - 0xF0) * 262144 + (b - 0x80) * 4096 + (b' - 0x80) * 64 + (b'' - 0x80)"
      "scalar ((a - 0xF0) * 262144 + (b - 0x80) * 4096 + (b' - 0x80) * 64 + (b'' - 0x80))"
      "map_option ((#) ((a - 0xF0) * 262144 + (b - 0x80) * 4096 + (b' - 0x80) * 64 + (b'' - 0x80))) (utf8_decode r') = Some cs"
      by (auto simp: Let_def split: list.splits if_splits)
    show ?thesis by (rule step [OF r(7,6)]) (use 2(4) [OF _ _ _ _ r(1) refl refl refl] 5 r in auto)
  qed (use 2(5) in simp)
qed simp

section \<open>Strings\<close>

definition string_bytes :: "string \<Rightarrow> bytes" where
  "string_bytes s = map (\<lambda>c. word_of_nat (of_char c)) s"

definition bytes_string :: "bytes \<Rightarrow> string" where
  "bytes_string bs = map (\<lambda>b. char_of (unat b)) bs"

lemma bytes_string_bytes [simp]: "bytes_string (string_bytes s) = s"
proof -
  have "char_of (unat (word_of_nat (of_char c) :: u8)) = c" for c :: char
    using nat_of_char_less_256 [of c] by (simp add: unat_of_nat)
  then show ?thesis by (induction s) (simp_all add: string_bytes_def bytes_string_def)
qed

text \<open>\<open>std::str::from_utf8\<close> and \<open>read_to_string\<close>.\<close>

definition from_utf8 :: "bytes \<Rightarrow> string option" where
  "from_utf8 bs = (if utf8_decode (map unat bs) \<noteq> None then Some (bytes_string bs) else None)"

definition code_points :: "string \<Rightarrow> nat list" where
  "code_points s = (case utf8_decode (map of_char s) of None \<Rightarrow> [] | Some cs \<Rightarrow> cs)"

definition of_code_points :: "nat list \<Rightarrow> string" where
  "of_code_points cs = map char_of (utf8_encode cs)"

definition valid_str :: "string \<Rightarrow> bool" where
  "valid_str s \<longleftrightarrow> utf8_decode (map of_char s) \<noteq> None"

lemma code_points_scalars: "\<forall>c \<in> set (code_points s). scalar c"
proof (cases "utf8_decode (map of_char s)")
  case (Some cs)
  with decode_scalars [OF Some] show ?thesis by (simp add: code_points_def)
qed (simp add: code_points_def)

lemma encode_bytes: "\<forall>c \<in> set cs. scalar c \<Longrightarrow> \<forall>b \<in> set (utf8_encode cs). b < 256"
proof -
  have "\<forall>b \<in> set (encode_char c). b < 256" if "scalar c" for c
  proof -
    have "c div 64 < 0x20" if "c < 0x800" using that by (simp add: div_less_iff_less_mult)
    moreover have "c div 4096 < 0x10" if "c < 0x10000" using that by (simp add: div_less_iff_less_mult)
    moreover have "c div 262144 < 8" using that by (auto simp: div_less_iff_less_mult scalar_def)
    ultimately show ?thesis by (auto simp: encode_char_def)
  qed
  then show "\<forall>c \<in> set cs. scalar c \<Longrightarrow> ?thesis" by (auto simp: utf8_encode_def)
qed

lemma of_char_of_code_points:
  "\<forall>c \<in> set cs. scalar c \<Longrightarrow> map of_char (of_code_points cs) = utf8_encode cs"
  using encode_bytes [of cs] by (auto simp: of_code_points_def intro: map_idI)

lemma code_points_of: "\<forall>c \<in> set cs. scalar c \<Longrightarrow> code_points (of_code_points cs) = cs \<and> valid_str (of_code_points cs)"
  by (simp add: code_points_def valid_str_def of_char_of_code_points decode_encode)

lemma from_utf8_string: "valid_str s \<Longrightarrow> from_utf8 (string_bytes s) = Some s"
proof -
  have "map unat (string_bytes s) = map of_char s"
    using nat_of_char_less_256 by (simp add: string_bytes_def unat_of_nat)
  then show "valid_str s \<Longrightarrow> ?thesis" by (simp add: from_utf8_def valid_str_def)
qed

section \<open>Character classes\<close>

text \<open>\<open>char::is_whitespace\<close> (the Unicode property White_Space) and \<open>char::is_control\<close> (class Cc).\<close>

definition is_whitespace :: "nat \<Rightarrow> bool" where
  "is_whitespace c \<longleftrightarrow> 9 \<le> c \<and> c \<le> 0xD \<or> c \<in> {0x20, 0x85, 0xA0, 0x1680, 0x2028, 0x2029, 0x202F, 0x205F, 0x3000} \<or>
     0x2000 \<le> c \<and> c \<le> 0x200A"

definition is_control :: "nat \<Rightarrow> bool" where
  "is_control c \<longleftrightarrow> c < 0x20 \<or> 0x7F \<le> c \<and> c < 0xA0"

definition trim_chars :: "nat list \<Rightarrow> nat list" where
  "trim_chars cs = rev (dropWhile is_whitespace (rev (dropWhile is_whitespace cs)))"

definition str_trim :: "string \<Rightarrow> string" where
  "str_trim s = of_code_points (trim_chars (code_points s))"

lemma dropWhile_last: "xs \<noteq> [] \<Longrightarrow> \<not> P (hd xs) \<Longrightarrow> dropWhile P xs = xs"
  by (cases xs) auto

lemma trim_idem: "trim_chars (trim_chars cs) = trim_chars cs"
proof (cases "trim_chars cs = []")
  case False
  define ds where "ds = dropWhile is_whitespace cs"
  define es where "es = dropWhile is_whitespace (rev ds)"
  have t: "trim_chars cs = rev es" by (simp add: trim_chars_def ds_def es_def)
  with False have es: "es \<noteq> []" by simp
  then have l: "\<not> is_whitespace (hd es)" unfolding es_def by (rule hd_dropWhile)
  have "ds \<noteq> []" using es by (auto simp: es_def)
  then have h: "\<not> is_whitespace (hd ds)" unfolding ds_def by (rule hd_dropWhile)
  have "rev es = take (length es) ds"
    unfolding es_def by (metis append_eq_conv_conj rev_append rev_rev_ident takeWhile_dropWhile_id length_rev)
  then have "hd (rev es) = hd ds" using es by (simp add: hd_take)
  with h es have "dropWhile is_whitespace (rev es) = rev es" by (intro dropWhile_last) auto
  moreover have "dropWhile is_whitespace es = es" using es l by (intro dropWhile_last) auto
  ultimately show ?thesis unfolding t by (simp add: trim_chars_def)
next
  case True
  show ?thesis unfolding True by (simp add: trim_chars_def)
qed

lemma set_trim: "set (trim_chars cs) \<subseteq> set cs"
  by (auto simp: trim_chars_def dest!: set_dropWhileD)

end
