(* ===== verification/Bulk.thy ===== *)
theory Bulk
  imports Session_Confinement Listener Utf8
begin

text \<open>
  Syncing every configured folder, \<open>sync_engine/bulk.rs\<close>, and the single run of the engine. Addresses
  are a type parameter: parsing and printing them (\<open>SocketAddr\<close>), DNS lookups (the first IPv4
  address within the timeout), the check for an own address and the addresses that an mDNS browse
  finds are parameters. What a peer at an address does is a parameter too: for the n-th dial either no
  connection, or the certificate it shows and the messages it sends.
\<close>

section \<open>Dialling\<close>

type_synonym answer = "(bytes option \<times> SyncMessage list) option"

datatype sync_error = Unreachable | SessionFailed session_error | NoConnectedPeers string | ThisMachine

definition dial_session ::
  "env \<Rightarrow> bytes \<Rightarrow> answer \<Rightarrow> string \<Rightarrow> string \<Rightarrow> i64 \<Rightarrow> string \<Rightarrow> bool \<Rightarrow> string option \<Rightarrow>
   fs \<times> db \<Rightarrow> (fs \<times> db) \<times> (sync_error + SyncResult)" where
  "dial_session e own_cert peer local_path addr folder_id device_id dry_run remote_path = (\<lambda>(fs, db).
     case peer of
       None \<Rightarrow> ((fs, db), Inl Unreachable)
     | Some (cert, msgs) \<Rightarrow>
         (let (s, r) = run_sync_session e own_cert cert local_path addr folder_id device_id dry_run remote_path
                msgs (session_start fs db)
          in ((c_fs s, c_db s), case r of Inl err \<Rightarrow> Inl (SessionFailed err) | Inr x \<Rightarrow> Inr x)))"

text \<open>\<open>SyncEngine::run_sync\<close>: the stored remote path of the pair is sent along.\<close>

definition run_sync ::
  "env \<Rightarrow> bytes \<Rightarrow> answer \<Rightarrow> string \<Rightarrow> string \<Rightarrow> i64 \<Rightarrow> string \<Rightarrow> bool \<Rightarrow>
   fs \<times> db \<Rightarrow> (fs \<times> db) \<times> (sync_error + SyncResult)" where
  "run_sync e own_cert peer local_path addr folder_id device_id dry_run w =
     dial_session e own_cert peer local_path addr folder_id device_id dry_run
       (folder_pair_remote_path (snd w) folder_id device_id) w"

section \<open>Addresses\<close>

record 'a network =
  n_parse :: "string \<Rightarrow> 'a option"
  n_show :: "'a \<Rightarrow> string"
  n_lookup :: "string \<Rightarrow> 'a option"
  n_own :: "'a \<Rightarrow> bool"
  n_discovered :: "(string \<times> 'a) list"
  n_answer :: "nat \<Rightarrow> 'a \<Rightarrow> answer"

definition with_port :: "string \<Rightarrow> string" where
  "with_port host = host @ '':'' @ show_nat DEFAULT_PORT"

definition resolve_addr :: "'a network \<Rightarrow> string \<Rightarrow> string option \<Rightarrow> 'a option" where
  "resolve_addr net device_id last_addr =
     (case Option.bind last_addr (n_parse net) of
        Some parsed \<Rightarrow> Some parsed
      | None \<Rightarrow>
          if CHR '':'' \<in> set device_id then n_parse net device_id
          else n_parse net (with_port device_id))"

definition has_whitespace :: "string \<Rightarrow> bool" where
  "has_whitespace s \<longleftrightarrow> (\<exists>c \<in> set (code_points s). is_whitespace c)"

definition try_resolve :: "'a network \<Rightarrow> string \<Rightarrow> string option \<Rightarrow> 'a option" where
  "try_resolve net device_id last_addr =
     (case resolve_addr net device_id last_addr of
        Some addr \<Rightarrow> Some addr
      | None \<Rightarrow>
          n_lookup net (case last_addr of
              Some host \<Rightarrow> if \<not> has_whitespace host then with_port host else with_port device_id
            | None \<Rightarrow> with_port device_id))"

section \<open>Syncing all folders\<close>

record 'a FolderOutcome =
  fo_path :: string
  fo_device_id :: string
  fo_addr :: "'a option"
  fo_result :: "(sync_error + SyncResult) option"

record 'a bulk =
  bk_world :: "fs \<times> db"
  bk_dials :: nat
  bk_outcomes :: "'a FolderOutcome list"

definition push_outcome :: "string \<Rightarrow> string \<Rightarrow> 'a option \<Rightarrow> (sync_error + SyncResult) option \<Rightarrow> 'a bulk \<Rightarrow> 'a bulk" where
  "push_outcome path dev addr r b =
     b\<lparr>bk_outcomes := bk_outcomes b @ [\<lparr>fo_path = path, fo_device_id = dev, fo_addr = addr, fo_result = r\<rparr>]\<rparr>"

text \<open>One session; the address is remembered when it went well.\<close>

definition sync_with ::
  "env \<Rightarrow> bytes \<Rightarrow> 'a network \<Rightarrow> i64 \<Rightarrow> string \<Rightarrow> string \<Rightarrow> 'a \<Rightarrow> 'a bulk \<Rightarrow> 'a bulk" where
  "sync_with e own_cert net fid path dev addr b =
     (let remote_path = folder_pair_remote_path (snd (bk_world b)) fid dev;
          ((fs, db), r) = dial_session e own_cert (n_answer net (bk_dials b) addr) path (n_show net addr) fid dev
            False remote_path (bk_world b);
          db' = (if is_ok r then fst (set_device_last_addr (e_fk e) dev (n_show net addr) db) else db)
      in push_outcome path dev (Some addr) (Some r) (b\<lparr>bk_world := (fs, db'), bk_dials := bk_dials b + 1\<rparr>))"

text \<open>A row of our own is a folder served here: it is synced with every peer that has an address.\<close>

definition reachable :: "'a network \<Rightarrow> (string \<times> 'a option) list \<Rightarrow> (string \<times> 'a) list" where
  "reachable net peers =
     List.map_filter (\<lambda>(p, a). case a of None \<Rightarrow> None | Some addr \<Rightarrow> if n_own net addr then None else Some (p, addr)) peers"

definition sync_row ::
  "env \<Rightarrow> bytes \<Rightarrow> 'a network \<Rightarrow> string \<Rightarrow> (string \<times> 'a option) list \<Rightarrow>
   (i64 \<times> string \<times> string \<times> string \<times> i64 option) \<times> 'a option \<Rightarrow> 'a bulk \<Rightarrow> 'a bulk" where
  "sync_row e own_cert net own peers = (\<lambda>((fid, path, dev, _, _), addr) b.
     if dev = own then
       (let targets = reachable net peers
        in if targets = [] then push_outcome path dev None (Some (Inl (NoConnectedPeers path))) b
           else fold (\<lambda>(peer, peer_addr). sync_with e own_cert net fid path peer peer_addr) targets b)
     else case addr of
       None \<Rightarrow> push_outcome path dev None None b
     | Some a \<Rightarrow>
         if n_own net a then push_outcome path dev (Some a) (Some (Inl ThisMachine)) b
         else sync_with e own_cert net fid path dev a b)"

definition discovered_or :: "'a network \<Rightarrow> nat \<Rightarrow> bool \<Rightarrow> string \<Rightarrow> 'a option \<Rightarrow> 'a option" where
  "discovered_or net window missing did addr =
     (if addr = None \<and> 0 < window \<and> missing then map_of (n_discovered net) did else addr)"

definition sync_all_folders_with ::
  "env \<Rightarrow> bytes \<Rightarrow> 'a network \<Rightarrow> nat \<Rightarrow> string \<Rightarrow> fs \<times> db \<Rightarrow> 'a bulk" where
  "sync_all_folders_with e own_cert net window own w =
     (let db = snd w;
          peer_ids = filter (\<lambda>p. p \<noteq> own) (map fst (list_devices db));
          folders = list_sync_folders db;
          resolve = (\<lambda>did. try_resolve net did (device_last_addr db did));
          row_device = (\<lambda>(_, _, dev, _, _). dev);
          missing = (\<exists>row \<in> set folders. resolve (row_device row) = None) \<or> (\<exists>p \<in> set peer_ids. resolve p = None);
          resolved = map (\<lambda>row. discovered_or net window missing (row_device row) (resolve (row_device row))) folders;
          peer_addrs = map (\<lambda>p. discovered_or net window missing p (resolve p)) peer_ids
      in fold (sync_row e own_cert net own (zip peer_ids peer_addrs)) (zip folders resolved)
           \<lparr>bk_world = w, bk_dials = 0, bk_outcomes = []\<rparr>)"

section \<open>Which sessions are run\<close>

lemma sync_with_outcomes:
  "\<exists>r. bk_outcomes (sync_with e own_cert net fid path dev addr b) =
     bk_outcomes b @ [\<lparr>fo_path = path, fo_device_id = dev, fo_addr = Some addr, fo_result = Some r\<rparr>]"
  by (simp add: sync_with_def push_outcome_def Let_def split: prod.split)

definition row_tasks :: "'a network \<Rightarrow> string \<Rightarrow> (string \<times> 'a option) list \<Rightarrow>
   (i64 \<times> string \<times> string \<times> string \<times> i64 option) \<times> 'a option \<Rightarrow> (string \<times> string \<times> 'a option) list" where
  "row_tasks net own peers = (\<lambda>((_, path, dev, _, _), addr).
     if dev = own \<and> reachable net peers \<noteq> [] then map (\<lambda>(p, a). (path, p, Some a)) (reachable net peers)
     else [(path, dev, if dev = own then None else addr)])"

definition outcome_task :: "'a FolderOutcome \<Rightarrow> string \<times> string \<times> 'a option" where
  "outcome_task o' = (fo_path o', fo_device_id o', fo_addr o')"

lemma sync_targets_tasks:
  "map outcome_task (bk_outcomes (fold (\<lambda>(peer, a). sync_with e own_cert net fid path peer a) ts b)) =
     map outcome_task (bk_outcomes b) @ map (\<lambda>(p, a). (path, p, Some a)) ts"
proof (induction ts arbitrary: b)
  case (Cons t ts)
  obtain p a where t: "t = (p, a)" by fastforce
  from sync_with_outcomes [of e own_cert net fid path p a b] Cons show ?case by (auto simp: t outcome_task_def)
qed simp

lemma sync_row_tasks:
  "map outcome_task (bk_outcomes (sync_row e own_cert net own peers row b)) =
     map outcome_task (bk_outcomes b) @ row_tasks net own peers row"
proof -
  obtain fid path dev dir last addr where row: "row = ((fid, path, dev, dir, last), addr)" by (metis prod_cases5 surj_pair)
  show ?thesis
  proof (cases "dev = own \<or> addr = None \<or> n_own net (the addr)")
    case True
    then show ?thesis
      by (auto simp: row sync_row_def row_tasks_def Let_def push_outcome_def outcome_task_def sync_targets_tasks
          split: option.split)
  next
    case False
    with sync_with_outcomes [of e own_cert net fid path dev "the addr" b] show ?thesis
      by (auto simp: row sync_row_def row_tasks_def outcome_task_def)
  qed
qed

text \<open>A bulk run has one outcome for every enabled pair of a folder with another device, in the order
  of the folder list, and for every folder of our own a session with each known device that has an
  address, whether or not the folder is paired with that device.\<close>

theorem bulk_schedule_exact:
  "map outcome_task (bk_outcomes (sync_all_folders_with e own_cert net window own (fs, db))) =
     (let peer_ids = filter (\<lambda>p. p \<noteq> own) (map fst (list_devices db));
          resolve = (\<lambda>did. try_resolve net did (device_last_addr db did));
          missing = (\<exists>(_, _, dev, _, _) \<in> set (list_sync_folders db). resolve dev = None) \<or> (\<exists>p \<in> set peer_ids. resolve p = None);
          addr = (\<lambda>did. discovered_or net window missing did (resolve did))
      in concat (map (\<lambda>row. row_tasks net own (map (\<lambda>p. (p, addr p)) peer_ids) (row, addr (fst (snd (snd row)))))
           (list_sync_folders db)))"
proof -
  have fold: "map outcome_task (bk_outcomes (fold (sync_row e own_cert net own peers) rows b)) =
      map outcome_task (bk_outcomes b) @ concat (map (row_tasks net own peers) rows)" for peers rows b
    by (induction rows arbitrary: b) (simp_all add: sync_row_tasks)
  have dev: "(case row of (_, _, dev, _, _) \<Rightarrow> f dev) = f (fst (snd (snd row)))"
    for row :: "i64 \<times> string \<times> string \<times> string \<times> i64 option" and f :: "string \<Rightarrow> 'b"
    by (cases row) simp
  show ?thesis
    unfolding sync_all_folders_with_def Let_def fold dev
    by (simp add: zip_map2 zip_same_conv_map comp_def split_def)
qed

section \<open>What a bulk run leaves alone\<close>

text \<open>Every root that opens to a directory without links below it, and keeps doing so.\<close>

definition roots_ok :: "fs \<Rightarrow> (string \<times> SyncRoot) list \<Rightarrow> fs \<Rightarrow> bool" where
  "roots_ok fs0 roots fs \<longleftrightarrow> (\<forall>(path, r) \<in> set roots.
     sync_root_open fs0 (raw_path path) = Inr r \<and> linkless fs0 (sr_root r) \<and>
     sync_root_open fs (raw_path path) = Inr r \<and> linkless fs (sr_root r)) \<and>
     (\<forall>q. (\<forall>(path, r) \<in> set roots. \<not> prefix (sr_root r) q) \<longrightarrow> map_of fs q = map_of fs0 q)"

lemma linkless_other:
  assumes c: "confined fs R fs'" and l: "linkless fs R'"
  shows "linkless fs' R'"
proof -
  have "\<not> is_link (map_of fs' q)" if "prefix R' q" for q
    using c l that by (cases "prefix R q") (auto simp: confined_def linkless_def)
  with c l show ?thesis by (auto simp: confined_def linkless_def)
qed

lemma open_other:
  assumes c: "confined fs R fs'" and lR: "linkless fs R" and "sync_root_open fs p = Inr r"
  shows "sync_root_open fs' p = Inr r"
proof -
  have found: "walk fs MAXSYMLINKS True [] p = Found (sr_root r)" and R: "map_of fs (sr_root r) = Some NDir"
    using assms(3) by (auto simp: sync_root_open_def canonicalize_def split: walk_result.splits if_splits)
  have "map_of fs' q = Some (NLink t)" if "map_of fs q = Some (NLink t)" for q t
    using c lR that unfolding confined_def linkless_def by (metis is_link.simps(1))
  moreover have "map_of fs' q = Some NDir" if "map_of fs q = Some NDir" for q
    using c that by (simp add: confined_def)
  ultimately have "walk fs' MAXSYMLINKS True [] p = Found (sr_root r)" "map_of fs' (sr_root r) = Some NDir"
    using walk_stable [of fs fs'] found R by auto
  then show ?thesis by (simp add: sync_root_open_def canonicalize_def)
qed

lemma roots_ok_confined:
  assumes ok: "roots_ok fs0 roots fs" and r: "(path, r) \<in> set roots" and c: "confined fs (sr_root r) fs'"
  shows "roots_ok fs0 roots fs'"
proof -
  have l: "linkless fs (sr_root r)" using ok r by (auto simp: roots_ok_def)
  have "map_of fs' q = map_of fs q" if "\<forall>(p, r) \<in> set roots. \<not> prefix (sr_root r) q" for q
    using that r c by (auto simp: confined_def)
  with ok linkless_other [OF c] open_other [OF c l] show ?thesis
    by (fastforce simp: roots_ok_def)
qed

lemma dial_roots_ok:
  assumes ok: "roots_ok fs0 roots fs" and path: "path \<in> fst ` set roots"
  shows "roots_ok fs0 roots (fst (fst (dial_session e own_cert peer path addr fid dev dry rp (fs, db))))"
proof (cases peer)
  case (Some a)
  obtain cert msgs where a: "a = (cert, msgs)" by fastforce
  from path obtain r where r: "(path, r) \<in> set roots" by force
  then have "below_root fs r path (session_start fs db)"
    using ok confined_refl by (auto simp: below_root_def roots_ok_def session_start_def)
  from client_below_root [OF this] have "confined fs (sr_root r)
      (c_fs (fst (run_sync_session e own_cert cert path addr fid dev dry rp msgs (session_start fs db))))"
    by (simp add: below_root_def)
  from roots_ok_confined [OF ok r this] Some a show ?thesis
    by (auto simp: dial_session_def Let_def case_prod_beta)
qed (use ok in \<open>simp add: dial_session_def\<close>)

lemma sync_with_roots_ok:
  assumes "roots_ok fs0 roots (fst (bk_world b))" and "path \<in> fst ` set roots"
  shows "roots_ok fs0 roots (fst (bk_world (sync_with e own_cert net fid path dev addr b)))"
  using dial_roots_ok [OF assms, of e own_cert _ _ fid dev False _ "snd (bk_world b)"]
  by (auto simp: sync_with_def push_outcome_def Let_def split: prod.split) (metis fst_conv)

lemma sync_row_roots_ok:
  assumes "roots_ok fs0 roots (fst (bk_world b))" and "fst (snd (fst row)) \<in> fst ` set roots"
  shows "roots_ok fs0 roots (fst (bk_world (sync_row e own_cert net own peers row b)))"
proof -
  obtain fid path dev dir last addr where row: "row = ((fid, path, dev, dir, last), addr)" by (metis prod_cases5 surj_pair)
  have p: "path \<in> fst ` set roots" using assms(2) by (simp add: row)
  have "roots_ok fs0 roots (fst (bk_world (fold (\<lambda>(peer, a). sync_with e own_cert net fid path peer a) ts b)))" for ts
    using assms(1) by (induction ts arbitrary: b) (auto intro: sync_with_roots_ok [OF _ p])
  with assms(1) sync_with_roots_ok [OF assms(1) p] show ?thesis
    by (auto simp: row sync_row_def Let_def push_outcome_def split: option.split)
qed


definition bulk_db :: db where
  "bulk_db = db_empty\<lparr>
     t_devices := [\<lparr>d_id = ''me'', d_name = ''desk'', d_cert = None, d_last_seen = Some 2, d_last_addr = None\<rparr>,
       \<lparr>d_id = ''p'', d_name = ''phone'', d_cert = None, d_last_seen = Some 1, d_last_addr = Some ''9''\<rparr>],
     t_folders := [\<lparr>sf_id = 1, sf_local_path = ''/sync'', sf_name = None, sf_device_id = ''me'', sf_active = True,
       sf_direction = ''bidirectional'', sf_last_sync_at = None, sf_guid = None\<rparr>],
     t_pairs := [\<lparr>fd_folder_id = 1, fd_device_id = ''me'', fd_mode = ''bidirectional'', fd_remote_path = None, fd_enabled = True\<rparr>]\<rparr>"

definition bulk_net :: "nat network" where
  "bulk_net = \<lparr>n_parse = (\<lambda>s. if s = ''9'' then Some 9 else None), n_show = show_nat, n_lookup = (\<lambda>_. None),
     n_own = (\<lambda>_. False), n_discovered = [], n_answer = (\<lambda>_ _. Some (Some [7], example_push ''a'' [1]))\<rparr>"

lemma bulk_rows: "list_sync_folders bulk_db = [(1, ''/sync'', ''me'', ''bidirectional'', None)]"
  by (simp add: list_sync_folders_def bulk_db_def)


text \<open>A device that is known but not paired with the folder: the bulk run syncs the folder with it.\<close>

theorem unpaired_device_synced:
  "\<not> has_pair bulk_db 1 ''p'' \<and>
   map outcome_task (bk_outcomes (sync_all_folders_with e own_cert bulk_net 0 ''me'' (fs, bulk_db))) = [(''/sync'', ''p'', Some 9)]"
proof -
  have "list_devices bulk_db = [(''me'', ''desk'', Some 2), (''p'', ''phone'', Some 1)]"
    by (simp add: list_devices_def bulk_db_def db_empty_def)
  moreover have "device_last_addr bulk_db ''p'' = Some ''9''" "device_last_addr bulk_db ''me'' = None"
    by (simp_all add: device_last_addr_def device_by_id_def bulk_db_def)
  moreover have "\<not> has_pair bulk_db 1 ''p''" by (simp add: has_pair_def bulk_db_def)
  ultimately show ?thesis
    by (simp add: sync_all_folders_with_def Let_def bulk_rows sync_row_tasks row_tasks_def reachable_def List.map_filter_simps
        discovered_or_def try_resolve_def resolve_addr_def bulk_net_def)
qed

end
