(* ===== verification/Identity.thy ===== *)
theory Identity
  imports Delivery Utf8
begin

text \<open>
  The identity of a device: its certificate and key in the data directory, as the app
  (\<open>api/mod.rs\<close>) and the command line (\<open>app.rs\<close>) load or create them, and its name (\<open>config.rs\<close>).
  Whether a private key parses, and the pair that key generation returns, are parameters
  (\<open>rustls\<close>, \<open>rcgen\<close>). The database file is not part of the file system model.
\<close>

section \<open>Certificate and key\<close>

definition path_join :: "path \<Rightarrow> string \<Rightarrow> path" where
  "path_join p n = path_trim p @ [Normal n]"

record Identity =
  idn_cert :: bytes
  idn_key :: bytes
  idn_fingerprint :: bytes

datatype identity_error = BadKey | GenerateFailed | IdentityIo

definition crypto_load :: "(bytes \<Rightarrow> bool) \<Rightarrow> (bytes \<Rightarrow> bytes) \<Rightarrow> bytes \<Rightarrow> bytes \<Rightarrow> identity_error + Identity" where
  "crypto_load parse_key blake3 cert key =
     (if parse_key key then Inr \<lparr>idn_cert = cert, idn_key = key, idn_fingerprint = blake3 cert\<rparr>
      else Inl BadKey)"

text \<open>A legacy file is renamed, or written anew where renaming fails.\<close>

definition move_or_write :: "i64 \<Rightarrow> fs \<Rightarrow> path \<Rightarrow> path \<Rightarrow> bytes \<Rightarrow> fs option" where
  "move_or_write now fs from to data =
     (case fs_rename fs from to of Some fs' \<Rightarrow> Some fs' | None \<Rightarrow> fs_write fs to data now)"

definition write_identity :: "i64 \<Rightarrow> fs \<Rightarrow> path \<Rightarrow> path \<Rightarrow> Identity \<Rightarrow> fs \<times> (identity_error + Identity)" where
  "write_identity now fs cert_path key_path ident =
     (case fs_write fs cert_path (idn_cert ident) now of
        None \<Rightarrow> (fs, Inl IdentityIo)
      | Some fs1 \<Rightarrow>
          (case fs_write fs1 key_path (idn_key ident) now of
             None \<Rightarrow> (fs1, Inl IdentityIo)
           | Some fs2 \<Rightarrow> (fs2, Inr ident)))"

definition crypto_generate :: "(bytes \<Rightarrow> bytes) \<Rightarrow> (bytes \<times> bytes) option \<Rightarrow> Identity option" where
  "crypto_generate blake3 gen =
     map_option (\<lambda>(cert, key). \<lparr>idn_cert = cert, idn_key = key, idn_fingerprint = blake3 cert\<rparr>) gen"

definition load_or_create_identity ::
  "(bytes \<Rightarrow> bytes) \<Rightarrow> (bytes \<Rightarrow> bool) \<Rightarrow> (bytes \<times> bytes) option \<Rightarrow> i64 \<Rightarrow> path \<Rightarrow> fs \<Rightarrow> fs \<times> (identity_error + Identity)" where
  "load_or_create_identity blake3 parse_key gen now path fs =
     (let cert_path = path_join path ''identity.crt'';
          key_path = path_join path ''identity.key'';
          legacy_cert = path_join path ''identity.cert.der'';
          legacy_key = path_join path ''identity.key.der''
      in case (fs_read fs cert_path, fs_read fs key_path) of
        (Some cert, Some key) \<Rightarrow> (fs, crypto_load parse_key blake3 cert key)
      | _ \<Rightarrow>
          (case (fs_read fs legacy_cert, fs_read fs legacy_key) of
             (Some cert, Some key) \<Rightarrow>
               (case move_or_write now fs legacy_cert cert_path cert of
                  None \<Rightarrow> (fs, Inl IdentityIo)
                | Some fs1 \<Rightarrow>
                    (case move_or_write now fs1 legacy_key key_path key of
                       None \<Rightarrow> (fs1, Inl IdentityIo)
                     | Some fs2 \<Rightarrow> (fs2, crypto_load parse_key blake3 cert key)))
           | _ \<Rightarrow>
               (case crypto_generate blake3 gen of
                  None \<Rightarrow> (fs, Inl GenerateFailed)
                | Some ident \<Rightarrow> write_identity now fs cert_path key_path ident)))"

definition load_crypto ::
  "(bytes \<Rightarrow> bytes) \<Rightarrow> (bytes \<Rightarrow> bool) \<Rightarrow> fs \<Rightarrow> path \<Rightarrow> path \<Rightarrow> identity_error + Identity" where
  "load_crypto blake3 parse_key fs cert_path key_path =
     (case (fs_read fs cert_path, fs_read fs key_path) of
        (Some cert, Some key) \<Rightarrow> crypto_load parse_key blake3 cert key
      | _ \<Rightarrow> Inl IdentityIo)"

definition load_or_create_crypto ::
  "(bytes \<Rightarrow> bytes) \<Rightarrow> (bytes \<Rightarrow> bool) \<Rightarrow> (bytes \<times> bytes) option \<Rightarrow> i64 \<Rightarrow> path \<Rightarrow> fs \<Rightarrow> fs \<times> (identity_error + Identity)" where
  "load_or_create_crypto blake3 parse_key gen now data fs =
     (case create_dir_all fs data of
        None \<Rightarrow> (fs, Inl IdentityIo)
      | Some fs0 \<Rightarrow>
          (let cert_path = path_join data ''identity.crt'';
               key_path = path_join data ''identity.key'';
               legacy_cert = path_join data ''cert.der'';
               legacy_key = path_join data ''key.der''
           in if path_exists fs0 cert_path \<and> path_exists fs0 key_path
              then (fs0, load_crypto blake3 parse_key fs0 cert_path key_path)
              else if path_exists fs0 legacy_cert \<and> path_exists fs0 legacy_key
              then (case fs_rename fs0 legacy_cert cert_path of
                      None \<Rightarrow> (fs0, Inl IdentityIo)
                    | Some fs1 \<Rightarrow>
                        (case fs_rename fs1 legacy_key key_path of
                           None \<Rightarrow> (fs1, Inl IdentityIo)
                         | Some fs2 \<Rightarrow> (fs2, load_crypto blake3 parse_key fs2 cert_path key_path)))
              else (case crypto_generate blake3 gen of
                      None \<Rightarrow> (fs0, Inl GenerateFailed)
                    | Some ident \<Rightarrow> write_identity now fs0 cert_path key_path ident)))"

text \<open>\<open>app.rs\<close> derives the device id from the stored fingerprint; it is the id of the certificate.\<close>

definition device_id_from_fingerprint :: "(bytes \<Rightarrow> string) \<Rightarrow> bytes \<Rightarrow> string" where
  "device_id_from_fingerprint uuid fingerprint =
     (let b = take 16 fingerprint;
          b1 = b[6 := word_of_nat (unat (b ! 6) mod 16 + 80)]
      in uuid (b1[8 := word_of_nat (unat (b1 ! 8) mod 64 + 128)]))"

lemma device_id_agrees: "device_id_from_fingerprint uuid (blake3 cert) = cert_to_device_id blake3 uuid cert"
  by (simp add: device_id_from_fingerprint_def cert_to_device_id_def cert_uuid_bytes_def Let_def)

section \<open>The device name\<close>

definition DEVICE_NAME_FILE :: string where
  "DEVICE_NAME_FILE = ''device.name''"

definition load_device_name :: "fs \<Rightarrow> path \<Rightarrow> string option" where
  "load_device_name fs path =
     Option.bind (Option.bind (fs_read fs (path_join path DEVICE_NAME_FILE)) from_utf8) (\<lambda>s.
       let name = str_trim s in if name = [] then None else Some name)"

text \<open>A failing write is ignored.\<close>

definition persist_device_name :: "i64 \<Rightarrow> path \<Rightarrow> string \<Rightarrow> fs \<Rightarrow> fs" where
  "persist_device_name now path name fs =
     (case fs_write fs (path_join path DEVICE_NAME_FILE) (string_bytes name) now of None \<Rightarrow> fs | Some fs' \<Rightarrow> fs')"

definition DEVICE_NAME_MAX_LEN :: nat where
  "DEVICE_NAME_MAX_LEN = 64"

datatype name_error = NameEmpty | NameTooLong | NameInvalid

definition sanitize_device_name :: "string \<Rightarrow> name_error + string" where
  "sanitize_device_name raw =
     (let name = str_trim raw; chars = code_points name
      in if name = [] then Inl NameEmpty
         else if DEVICE_NAME_MAX_LEN < length chars then Inl NameTooLong
         else if \<exists>c \<in> set chars. is_control c then Inl NameInvalid
         else Inr name)"

section \<open>Migration and reset\<close>

text \<open>The id of a legacy installation, from the file \<open>device.id\<close>, is folded into the certificate's.\<close>

definition migrate_legacy_device_identity ::
  "bool \<Rightarrow> i64 \<Rightarrow> (bytes \<Rightarrow> string) \<Rightarrow> path \<Rightarrow> bytes \<Rightarrow> fs \<Rightarrow> db \<Rightarrow> fs \<times> unit dbres" where
  "migrate_legacy_device_identity fk now canon path cert fs db =
     (let legacy_own_id = Option.bind (Option.bind (fs_read fs (path_join path ''device.id'')) from_utf8)
            (\<lambda>s. let t = str_trim s in if t = [] then None else Some t);
          own_name = (case load_device_name fs path of Some n \<Rightarrow> n | None \<Rightarrow> ''ferrisync'')
      in case reconcile_devices_by_cert fk now canon cert legacy_own_id own_name db of
        (db', Inl e) \<Rightarrow> (fs, (db', Inl e))
      | (db', Inr _) \<Rightarrow>
          (case fs_remove_file fs (path_join path ''device.id'') of None \<Rightarrow> fs | Some fs' \<Rightarrow> fs', (db', Inr ())))"

text \<open>\<open>remove_dir_all\<close>: a link is removed itself, a directory with everything below it.\<close>

definition fs_remove_dir_all :: "fs \<Rightarrow> path \<Rightarrow> fs option" where
  "fs_remove_dir_all fs p =
     (case walk fs MAXSYMLINKS False [] p of
        Found q \<Rightarrow>
          (case map_of fs q of
             Some (NLink t) \<Rightarrow> Some (hm_remove q fs)
           | Some NDir \<Rightarrow> if q = [] then None else Some (filter (\<lambda>(x, n). \<not> prefix q x) fs)
           | _ \<Rightarrow> None)
      | _ \<Rightarrow> None)"

definition app_reset :: "path \<Rightarrow> fs \<Rightarrow> fs option" where
  "app_reset data_dir fs = fs_remove_dir_all fs data_dir"

section \<open>Files of a directory without links\<close>

lemma path_join_lit [simp]: "path_join (lit R) n = lit (R @ [n])"
  by (simp add: path_join_def)

lemma canonicalize_below:
  assumes "linkless fs R"
  shows "canonicalize fs (lit (R @ ns)) = (if map_of fs (R @ ns) = None then None else Some (R @ ns))"
proof -
  have wf: "wf_fs fs" using assms by (simp add: linkless_def)
  note nl = linkless_no_links [OF assms, of ns]
  show ?thesis
  proof (cases "map_of fs (R @ ns)")
    case None
    then show ?thesis using canonicalize_no_links [OF nl] canonicalize_exists [OF wf, of "lit (R @ ns)"]
      by (cases "canonicalize fs (lit (R @ ns))") auto
  next
    case (Some n)
    have "\<not> is_link (Some n)" using nl Some unfolding no_links_def by (metis prefix_order.refl)
    then show ?thesis using canonicalize_lit [OF wf Some] Some by simp
  qed
qed

lemma fs_read_below:
  "linkless fs R \<Longrightarrow> fs_read fs (lit (R @ ns)) = (case map_of fs (R @ ns) of Some (NFile d m) \<Rightarrow> Some d | _ \<Rightarrow> None)"
  using canonicalize_below [of fs R ns] by (simp add: fs_read_def fs_metadata_def)

lemma linkless_confined: "linkless fs R \<Longrightarrow> confined fs R fs' \<Longrightarrow> linkless fs' R"
  by (simp add: confined_def)

text \<open>Writing a file directly into such a directory.\<close>

lemma write_in_dir:
  assumes l: "linkless fs R" and n: "valid_name n" and w: "fs_write fs (lit (R @ [n])) d now = Some fs'"
  shows "linkless fs' R \<and> map_of fs' = (map_of fs)(R @ [n] \<mapsto> NFile d now)"
proof -
  have wf: "wf_fs fs" and R: "map_of fs R = Some NDir" using l by (simp_all add: linkless_def)
  from fs_write_lit [OF wf linkless_no_links [OF l] _ _ w] n
  have *: "fs' = hm_insert (R @ [n]) (NFile d now) fs" "map_of fs (R @ [n]) \<noteq> Some NDir" by simp_all
  have "confined fs R fs'"
    unfolding *(1) using confined_insert [OF confined_refl [OF l], of "R @ [n]"] n R *(2) by simp
  then show ?thesis using linkless_confined [OF l] by (auto simp: *(1) hm_simps fun_eq_iff)
qed

lemma move_in_dir:
  assumes l: "linkless fs R" and n: "valid_name b" "a \<noteq> b" and a: "map_of fs (R @ [a]) = Some (NFile d m)"
    and w: "move_or_write now fs (lit (R @ [a])) (lit (R @ [b])) d = Some fs'"
  shows "linkless fs' R \<and> (\<exists>m'. map_of fs' (R @ [b]) = Some (NFile d m')) \<and>
    (\<forall>q. q \<notin> {R @ [a], R @ [b]} \<longrightarrow> map_of fs' q = map_of fs q)"
proof -
  have wf: "wf_fs fs" and R: "map_of fs R = Some NDir" using l by (simp_all add: linkless_def)
  show ?thesis
  proof (cases "fs_rename fs (lit (R @ [a])) (lit (R @ [b]))")
    case None
    with w write_in_dir [OF l n(1), of d now fs'] show ?thesis by (auto simp: move_or_write_def)
  next
    case (Some f)
    have "map_of fs (R @ [b]) \<noteq> Some NDir"
    proof
      assume "map_of fs (R @ [b]) = Some NDir"
      with walk_file_name [OF wf, of "R @ [b]"] walk_file_name [OF wf, of "R @ [a]"] R a n(2) Some
      show False unfolding fs_rename_def path_trim_lit by (auto simp del: map_append)
    qed
    note rn = rename_file [OF wf a _ _ _ this] confined_move [OF confined_refl [OF l] a _ _ _ _ _ _ this]
    have "fs' = fs_move (R @ [a]) (R @ [b]) fs" using rn(1) Some w n(2) R by (simp add: move_or_write_def)
    with rn(2,3) n R linkless_confined [OF l] show ?thesis by (auto simp: fun_upd_def)
  qed
qed

lemma create_dir_existing:
  assumes "linkless fs R"
  shows "create_dir_all fs (lit R) = Some fs"
proof -
  have R: "wf_fs fs" "map_of fs R = Some NDir" using assms by (simp_all add: linkless_def)
  from walk_lit_found [OF R(1), of "[]" R NDir False MAXSYMLINKS] R(2)
  have "mkdir fs (lit R) = MkOther" by (simp add: mkdir_def)
  with canonicalize_below [OF assms, of "[]"] R(2) show ?thesis
    by (subst create_dir_all.simps) (simp add: is_dir_def fs_metadata_def)
qed

lemma loads_stored:
  assumes l: "linkless fs R" and c: "map_of fs (R @ [''identity.crt'']) = Some (NFile cert mc)"
    and k: "map_of fs (R @ [''identity.key'']) = Some (NFile key mk)" and parse: "parse_key key"
    and ident_def: "ident = \<lparr>idn_cert = cert, idn_key = key, idn_fingerprint = blake3 cert\<rparr>"
  shows "load_or_create_identity blake3 parse_key gen now (lit R) fs = (fs, Inr ident)"
    and "load_or_create_crypto blake3 parse_key gen now (lit R) fs = (fs, Inr ident)"
proof -
  have read: "fs_read fs (lit (R @ [''identity.crt''])) = Some cert" "fs_read fs (lit (R @ [''identity.key''])) = Some key"
    using fs_read_below [OF l, of "[''identity.crt'']"] fs_read_below [OF l, of "[''identity.key'']"] c k by simp_all
  have ex: "path_exists fs (lit (R @ [''identity.crt'']))" "path_exists fs (lit (R @ [''identity.key'']))"
    using canonicalize_below [OF l, of "[''identity.crt'']"] canonicalize_below [OF l, of "[''identity.key'']"] c k
    by (simp_all add: path_exists_def)
  note dir = create_dir_existing [OF l]
  show "load_or_create_identity blake3 parse_key gen now (lit R) fs = (fs, Inr ident)"
    unfolding load_or_create_identity_def Let_def path_join_lit read by (simp add: crypto_load_def parse ident_def)
  show "load_or_create_crypto blake3 parse_key gen now (lit R) fs = (fs, Inr ident)"
    unfolding load_or_create_crypto_def Let_def path_join_lit dir option.case load_crypto_def read
    using ex by (simp add: crypto_load_def parse ident_def del: map_append)
qed

lemma write_identity_stored:
  assumes l: "linkless fs R"
    and w: "write_identity now fs (lit (R @ [''identity.crt''])) (lit (R @ [''identity.key''])) ident = (fs', Inr r)"
  shows "r = ident \<and> linkless fs' R \<and> map_of fs' (R @ [''identity.crt'']) = Some (NFile (idn_cert ident) now) \<and>
    map_of fs' (R @ [''identity.key'']) = Some (NFile (idn_key ident) now)"
proof -
  from w obtain fs1 where 1: "fs_write fs (lit (R @ [''identity.crt''])) (idn_cert ident) now = Some fs1"
    and 2: "fs_write fs1 (lit (R @ [''identity.key''])) (idn_key ident) now = Some fs'" and r: "r = ident"
    by (auto simp: write_identity_def simp del: map_append split: option.splits)
  from write_in_dir [OF l _ 1] have *: "linkless fs1 R" "map_of fs1 = (map_of fs)(R @ [''identity.crt''] \<mapsto> NFile (idn_cert ident) now)"
    by (simp_all add: valid_name_def)
  from write_in_dir [OF *(1) _ 2] *(2) r show ?thesis by (simp add: valid_name_def)
qed

text \<open>However the identity was obtained, its certificate and key end up in the canonical files.\<close>

lemma load_or_create_stored:
  assumes l: "linkless fs R" and gen: "\<forall>c k. gen = Some (c, k) \<longrightarrow> parse_key k"
    and run: "load_or_create_identity blake3 parse_key gen now (lit R) fs = (fs', Inr ident)"
  shows "\<exists>mc mk. linkless fs' R \<and> map_of fs' (R @ [''identity.crt'']) = Some (NFile (idn_cert ident) mc) \<and>
      map_of fs' (R @ [''identity.key'']) = Some (NFile (idn_key ident) mk) \<and> parse_key (idn_key ident) \<and>
      idn_fingerprint ident = blake3 (idn_cert ident)"
proof -
  let ?p = "\<lambda>n. lit (R @ [n])"
  have stored: "\<exists>m. map_of fs (R @ [n]) = Some (NFile d m)" if "fs_read fs (?p n) = Some d" for n d
    using that fs_read_below [OF l, of "[n]"] by (auto split: option.splits node.splits)
  consider (canonical) c k where "fs_read fs (?p ''identity.crt'') = Some c" "fs_read fs (?p ''identity.key'') = Some k"
      "fs' = fs" "crypto_load parse_key blake3 c k = Inr ident"
    | (legacy) c k fs1 where "fs_read fs (?p ''identity.cert.der'') = Some c" "fs_read fs (?p ''identity.key.der'') = Some k"
      "move_or_write now fs (?p ''identity.cert.der'') (?p ''identity.crt'') c = Some fs1"
      "move_or_write now fs1 (?p ''identity.key.der'') (?p ''identity.key'') k = Some fs'"
      "crypto_load parse_key blake3 c k = Inr ident"
    | (new) idn where "crypto_generate blake3 gen = Some idn"
      "write_identity now fs (?p ''identity.crt'') (?p ''identity.key'') idn = (fs', Inr ident)"
    using run unfolding load_or_create_identity_def Let_def path_join_lit
    by (auto simp del: map_append split: option.splits)
  then show ?thesis
  proof cases
    case canonical
    then show ?thesis using stored l by (auto simp: crypto_load_def split: if_splits)
  next
    case legacy
    from stored legacy(1,2) obtain mc mk where f: "map_of fs (R @ [''identity.cert.der'']) = Some (NFile c mc)"
      "map_of fs (R @ [''identity.key.der'']) = Some (NFile k mk)" by blast
    note m1 = move_in_dir [OF l _ _ f(1) legacy(3)]
    have m1: "linkless fs1 R" "\<exists>m. map_of fs1 (R @ [''identity.crt'']) = Some (NFile c m)"
      "map_of fs1 (R @ [''identity.key.der'']) = Some (NFile k mk)"
      using m1 f(2) by (simp_all add: valid_name_def)
    from move_in_dir [OF m1(1) _ _ m1(3) legacy(4)] m1(2) legacy(5) show ?thesis
      by (auto simp: valid_name_def crypto_load_def split: if_splits)
  next
    case new
    from write_identity_stored [OF l new(2)] new(1) gen show ?thesis by (auto simp: crypto_generate_def)
  qed
qed


definition empty_dir :: fs where
  "empty_dir = [([], NDir), ([''d''], NDir)]"

lemma linkless_empty_dir: "linkless empty_dir [''d'']"
  by (auto simp: linkless_def wf_fs_def empty_dir_def valid_name_def)


text \<open>The two frontends do not migrate the same legacy files: a pair left by the old command line is
  adopted by the command line, while the app generates a new identity next to it.\<close>

definition legacy_dir :: fs where
  "legacy_dir = empty_dir @ [([''d'', ''cert.der''], NFile [7] 0), ([''d'', ''key.der''], NFile [8] 0)]"

theorem legacy_pair_ignored_by_app:
  "snd (load_or_create_crypto (\<lambda>d. d) (\<lambda>k. True) (Some ([1], [2])) 5 (lit [''d'']) legacy_dir) =
     Inr \<lparr>idn_cert = [7], idn_key = [8], idn_fingerprint = [7]\<rparr>"
  "snd (load_or_create_identity (\<lambda>d. d) (\<lambda>k. True) (Some ([1], [2])) 5 (lit [''d'']) legacy_dir) =
     Inr \<lparr>idn_cert = [1], idn_key = [2], idn_fingerprint = [1]\<rparr>"
  by code_simp+

section \<open>The name survives a restart\<close>

lemma str_trim_scalars: "\<forall>c \<in> set (trim_chars (code_points s)). scalar c"
  using code_points_scalars [of s] set_trim [of "code_points s"] by blast

lemma str_trim_idem: "str_trim (str_trim s) = str_trim s"
  using code_points_of [OF str_trim_scalars, of s] by (simp add: str_trim_def trim_idem)

text \<open>A name accepted by the rename is at most 64 characters without control characters, is its own
  sanitized form, and once written to the data directory it is the name found at the next start.\<close>

theorem device_name_roundtrip:
  assumes name: "sanitize_device_name raw = Inr name" and l: "linkless fs R"
    and room: "map_of fs (R @ [DEVICE_NAME_FILE]) \<noteq> Some NDir"
  shows "sanitize_device_name name = Inr name \<and> length (code_points name) \<le> 64 \<and>
    \<not> (\<exists>c \<in> set (code_points name). is_control c) \<and>
    load_device_name (persist_device_name now (lit R) name fs) (lit R) = Some name"
proof -
  from name have n: "name = str_trim raw" "name \<noteq> []" "length (code_points name) \<le> 64"
    "\<not> (\<exists>c \<in> set (code_points name). is_control c)"
    by (auto simp: sanitize_device_name_def Let_def DEVICE_NAME_MAX_LEN_def split: if_splits)
  have trim: "str_trim name = name" by (simp add: n(1) str_trim_idem)
  have valid: "valid_str name" using code_points_of [OF str_trim_scalars, of raw] by (simp add: n(1) str_trim_def)
  have wf: "wf_fs fs" and R: "map_of fs R = Some NDir" using l by (simp_all add: linkless_def)
  let ?p = "lit (R @ [DEVICE_NAME_FILE])"
  have "\<exists>fs'. fs_write fs ?p d now = Some fs'" for d
  proof -
    have "walk fs MAXSYMLINKS True [] ?p = (case map_of fs (R @ [DEVICE_NAME_FILE]) of None \<Rightarrow> Missing (R @ [DEVICE_NAME_FILE])
        | Some _ \<Rightarrow> Found (R @ [DEVICE_NAME_FILE]))"
    proof (cases "map_of fs (R @ [DEVICE_NAME_FILE])")
      case None
      with walk_lit_append [OF wf, of "[]" R MAXSYMLINKS True "[Normal DEVICE_NAME_FILE]"] R show ?thesis by simp
    next
      case (Some x)
      with linkless_no_links [OF l, of "[DEVICE_NAME_FILE]"] walk_lit_found [OF wf, of "[]" "R @ [DEVICE_NAME_FILE]" x True MAXSYMLINKS]
      show ?thesis by (auto simp: no_links_def)
    qed
    moreover have "\<not> is_link (map_of fs (R @ [DEVICE_NAME_FILE]))"
      using linkless_no_links [OF l, of "[DEVICE_NAME_FILE]"] by (auto simp: no_links_def)
    ultimately show ?thesis using room
      by (auto simp: fs_write_def simp del: map_append split: option.splits node.splits)
  qed
  then obtain fs' where w: "fs_write fs ?p (string_bytes name) now = Some fs'" by blast
  from write_in_dir [OF l _ w] have "linkless fs' R" "map_of fs' (R @ [DEVICE_NAME_FILE]) = Some (NFile (string_bytes name) now)"
    by (simp_all add: valid_name_def DEVICE_NAME_FILE_def)
  with fs_read_below [of fs' R "[DEVICE_NAME_FILE]"] have "fs_read fs' ?p = Some (string_bytes name)" by simp
  then have "load_device_name (persist_device_name now (lit R) name fs) (lit R) = Some name"
    unfolding load_device_name_def persist_device_name_def path_join_lit w option.case
    by (simp add: from_utf8_string [OF valid] trim n(2))
  with n trim show ?thesis by (simp add: sanitize_device_name_def DEVICE_NAME_MAX_LEN_def)
qed

theorem device_name_roundtrip_witness:
  "load_device_name (persist_device_name 5 (lit [''d'']) ''a'' empty_dir) (lit [''d'']) = Some ''a''"
proof -
  have "sanitize_device_name '' a'' = Inr ''a''"
    by (simp add: sanitize_device_name_def str_trim_def code_points_def of_code_points_def trim_chars_def utf8_encode_def
        encode_char_def is_whitespace_def is_control_def DEVICE_NAME_MAX_LEN_def char_of_def bit_0)
  from device_name_roundtrip [OF this linkless_empty_dir, of 5] show ?thesis by (simp add: empty_dir_def)
qed

end
