(* ===== verification/Api.thy ===== *)
theory Api
  imports Bulk Identity Client_Rpc Health "HOL-Library.Multiset"
begin

text \<open>
  The application's interface, \<open>api/mod.rs\<close>, first part: the state of the app, its folder servers,
  the decisions on pairing requests, the rename of the device, start and reset. The map of running
  servers (\<open>HashMap\<close>) is an association list; the order in which it is iterated is the parameter
  \<open>ae_iter\<close>. What binding a listener to a port returns, the host name, key generation and whether
  the database file opens are parameters; logging is left out.
\<close>

section \<open>State\<close>

text \<open>A running listener, with the identity and the folder row it was started with.\<close>

record RunningServer =
  rs_handle :: ServeHandle
  rs_port :: nat
  rs_local_path :: string
  rs_device :: DeviceInfo
  rs_folder_id :: i64

type_synonym servers = "(i64 \<times> RunningServer) list"

record api_env =
  ae_env :: env
  ae_mint :: "i64 \<Rightarrow> string"
  ae_bind :: "string \<Rightarrow> nat \<Rightarrow> nat option \<times> nat option"
  ae_iter :: "servers \<Rightarrow> servers"
  ae_hostname :: "string option"
  ae_parse_key :: "bytes \<Rightarrow> bool"
  ae_generated :: "(bytes \<times> bytes) option"
  ae_opens :: bool

record ApiState =
  a_fs :: fs
  a_db :: db
  a_identity :: Identity
  a_data_dir :: string
  a_device :: DeviceInfo
  a_pairing :: DeviceInfo
  a_engine :: DeviceInfo
  a_servers :: servers

datatype api_error =
    ApiGate gate_error | NoPending | ApiName name_error | ApiDb db_error | ApiAddr | ApiPair pair_error
  | ApiRpc rpc_error | ApiSync sync_error | NoGuid | NoFolderPath | ShareNotPersisted | NoPeers
  | NoSuchFolder i64 | ApiPath path_error | ApiIdentity identity_error | ApiIo

type_synonym 'a api = "ApiState \<times> (api_error + 'a)"

definition current_device :: "ApiState \<Rightarrow> DeviceInfo" where
  "current_device st = a_device st"

definition api_device_id :: "ApiState \<Rightarrow> string" where
  "api_device_id st = di_id (current_device st)"

definition api_device_name :: "ApiState \<Rightarrow> string" where
  "api_device_name st = di_name (current_device st)"

section \<open>Folder servers\<close>

definition api_start_server :: "api_env \<Rightarrow> nat \<Rightarrow> i64 \<Rightarrow> string \<Rightarrow> ApiState \<Rightarrow> unit api" where
  "api_start_server E port folder_id local_path st =
     (if folder_id \<in> fst ` set (a_servers st) then (st, Inr ())
      else
        (let (bind6, bind4) = ae_bind E local_path port
         in case serve_folder (e_fk (ae_env E)) (ae_mint E) (e_clock (ae_env E)) (current_device st) local_path
                bind6 bind4 (a_db st) of
              (db', Inl err) \<Rightarrow> (st\<lparr>a_db := db'\<rparr>, Inl (ApiGate err))
            | (db', Inr (handle, fid)) \<Rightarrow>
                (st\<lparr>a_db := db', a_servers := a_servers st @
                   [(folder_id, \<lparr>rs_handle = handle, rs_port = srv_port handle, rs_local_path = local_path,
                      rs_device = current_device st, rs_folder_id = fid\<rparr>)]\<rparr>, Inr ())))"

definition api_stop_server :: "ApiState \<Rightarrow> ApiState" where
  "api_stop_server st = st\<lparr>a_servers := []\<rparr>"

definition restart_server :: "api_env \<Rightarrow> i64 \<times> RunningServer \<Rightarrow> ApiState \<Rightarrow> ApiState" where
  "restart_server E = (\<lambda>(folder_id, server) st.
     fst (api_start_server E (rs_port server) folder_id (rs_local_path server) st))"

definition restart_all_servers :: "api_env \<Rightarrow> ApiState \<Rightarrow> ApiState" where
  "restart_all_servers E st = fold (restart_server E) (ae_iter E (a_servers st)) (st\<lparr>a_servers := []\<rparr>)"

section \<open>Pairing requests\<close>

text \<open>\<open>dedup_by\<close>: of neighbours with the same key the first is kept.\<close>

fun dedup_on :: "('a \<Rightarrow> 'k) \<Rightarrow> 'a list \<Rightarrow> 'a list" where
  "dedup_on k [] = []"
| "dedup_on k [x] = [x]"
| "dedup_on k (x # y # ys) = (if k x = k y then dedup_on k (x # ys) else x # dedup_on k (y # ys))"

definition or_empty :: "'e + 'a list \<Rightarrow> 'a list" where
  "or_empty r = (case r of Inl _ \<Rightarrow> [] | Inr xs \<Rightarrow> xs)"

definition api_pending_pairings :: "api_env \<Rightarrow> ApiState \<Rightarrow> (string \<times> string) list" where
  "api_pending_pairings E st =
     dedup_on snd (sort_key snd (concat (map (\<lambda>(_, s). or_empty (pending_pairings (rs_handle s))) (ae_iter E (a_servers st)))))"

definition set_handle :: "i64 \<Rightarrow> ServeHandle \<Rightarrow> ApiState \<Rightarrow> ApiState" where
  "set_handle k h st =
     st\<lparr>a_servers := map (\<lambda>(k', s). if k' = k then (k', s\<lparr>rs_handle := h\<rparr>) else (k', s)) (a_servers st)\<rparr>"

definition holds_device :: "string \<Rightarrow> ServeHandle \<Rightarrow> bool" where
  "holds_device did h \<longleftrightarrow> (\<exists>p \<in> set (or_empty (pending_pairings h)). snd p = did)"

definition first_server :: "api_env \<Rightarrow> (ServeHandle \<Rightarrow> bool) \<Rightarrow> ApiState \<Rightarrow> (i64 \<times> RunningServer) option" where
  "first_server E P st = find (\<lambda>(_, s). P (rs_handle s)) (ae_iter E (a_servers st))"

definition gate_result :: "gate_error + 'a \<Rightarrow> api_error + unit" where
  "gate_result r = (case r of Inl err \<Rightarrow> Inl (ApiGate err) | Inr _ \<Rightarrow> Inr ())"

definition approve_pending_pairing :: "api_env \<Rightarrow> string \<Rightarrow> string \<Rightarrow> ApiState \<Rightarrow> unit api" where
  "approve_pending_pairing E did name st =
     (case first_server E (holds_device did) st of
        None \<Rightarrow> (st, Inl NoPending)
      | Some (k, s) \<Rightarrow>
          (case approve_pairing (e_fk (ae_env E)) (e_clock (ae_env E)) did name (rs_handle s) (a_db st) of
             (h, db', r) \<Rightarrow> (set_handle k h (st\<lparr>a_db := db'\<rparr>), gate_result r)))"

definition deny_pending_pairing :: "api_env \<Rightarrow> string \<Rightarrow> ApiState \<Rightarrow> unit api" where
  "deny_pending_pairing E did st =
     (case first_server E (holds_device did) st of
        None \<Rightarrow> (st, Inl NoPending)
      | Some (k, s) \<Rightarrow>
          (case deny_pairing did (rs_handle s) of (h, r) \<Rightarrow> (set_handle k h st, gate_result r)))"

section \<open>Folder pairing requests\<close>

record PendingFolderPairing =
  pf_device_id :: string
  pf_device_name :: string
  pf_folder_guid :: string
  pf_folder_name :: string

abbreviation pf_key :: "PendingFolderPairing \<Rightarrow> string \<times> string" where
  "pf_key p \<equiv> (pf_folder_guid p, pf_device_id p)"

definition api_pending_folder_pairings :: "api_env \<Rightarrow> ApiState \<Rightarrow> PendingFolderPairing list" where
  "api_pending_folder_pairings E st =
     dedup_on pf_key (sort_key pf_folder_guid (sort_key pf_device_id
       (concat (map (\<lambda>(_, s). map (\<lambda>r. \<lparr>pf_device_id = rfr_device_id r, pf_device_name = rfr_device_name r,
            pf_folder_guid = rfr_folder_guid r, pf_folder_name = rfr_name r\<rparr>)
          (or_empty (pending_folder_pairings (rs_handle s)))) (ae_iter E (a_servers st))))))"

definition holds_folder :: "string \<Rightarrow> string \<Rightarrow> ServeHandle \<Rightarrow> bool" where
  "holds_folder did guid h \<longleftrightarrow>
     (\<exists>p \<in> set (or_empty (pending_folder_pairings h)). rfr_device_id p = did \<and> rfr_folder_guid p = guid)"

definition api_approve_folder_pairing ::
  "api_env \<Rightarrow> string \<Rightarrow> string \<Rightarrow> string \<Rightarrow> string \<Rightarrow> string option \<Rightarrow> ApiState \<Rightarrow> unit api" where
  "api_approve_folder_pairing E did guid name local_path remote_path st =
     (case first_server E (holds_folder did guid) st of
        None \<Rightarrow> (st, Inl NoPending)
      | Some (k, s) \<Rightarrow>
          (case approve_folder_pairing (e_fk (ae_env E)) (e_clock (ae_env E)) did guid name local_path remote_path
                  (rs_handle s) (a_db st) of
             (h, db', r) \<Rightarrow> (set_handle k h (st\<lparr>a_db := db'\<rparr>), gate_result r)))"

definition api_deny_folder_pairing :: "api_env \<Rightarrow> string \<Rightarrow> string \<Rightarrow> ApiState \<Rightarrow> unit api" where
  "api_deny_folder_pairing E did guid st =
     (case first_server E (holds_folder did guid) st of
        None \<Rightarrow> (st, Inl NoPending)
      | Some (k, s) \<Rightarrow>
          (case deny_folder_pairing did guid (rs_handle s) of (h, r) \<Rightarrow> (set_handle k h st, gate_result r)))"

section \<open>The device's name\<close>

definition set_device_name :: "api_env \<Rightarrow> string \<Rightarrow> ApiState \<Rightarrow> string api" where
  "set_device_name E raw st =
     (case sanitize_device_name raw of
        Inl err \<Rightarrow> (st, Inl (ApiName err))
      | Inr name \<Rightarrow>
          (restart_all_servers E
             (st\<lparr>a_fs := persist_device_name (e_clock (ae_env E)) (raw_path (a_data_dir st)) name (a_fs st),
                 a_device := (a_device st)\<lparr>di_name := name\<rparr>,
                 a_pairing := (a_pairing st)\<lparr>di_name := name\<rparr>\<rparr>),
           Inr name))"

section \<open>Start and reset\<close>

definition serve_port :: "nat \<Rightarrow> nat" where
  "serve_port i = (if DEFAULT_PORT + i < 2 ^ 16 then DEFAULT_PORT + i else DEFAULT_PORT)"

text \<open>Every folder once; a folder that cannot be served is skipped.\<close>

fun serve_rows ::
  "api_env \<Rightarrow> nat \<Rightarrow> (i64 \<times> string) list \<Rightarrow> (i64 \<times> string \<times> string \<times> string \<times> i64 option) list \<Rightarrow> ApiState \<Rightarrow> ApiState" where
  "serve_rows E i served [] st = st"
| "serve_rows E i served ((fid, path, _) # rows) st =
     (if \<exists>(f, p) \<in> set served. f = fid \<or> p = path then serve_rows E (Suc i) served rows st
      else serve_rows E (Suc i) (served @ [(fid, path)]) rows (fst (api_start_server E (serve_port i) fid path st)))"

definition device_of :: "api_env \<Rightarrow> Identity \<Rightarrow> fs \<Rightarrow> path \<Rightarrow> DeviceInfo" where
  "device_of E ident fs path =
     \<lparr>di_id = derived_id (ae_env E) (idn_cert ident),
      di_name = (case load_device_name fs path of Some n \<Rightarrow> n
        | None \<Rightarrow> (case ae_hostname E of Some h \<Rightarrow> h | None \<Rightarrow> ''ferrisync'')),
      di_cert_fingerprint = idn_fingerprint ident\<rparr>"

definition init_engine :: "api_env \<Rightarrow> string \<Rightarrow> fs \<Rightarrow> db \<Rightarrow> (fs \<times> db) \<times> (api_error + ApiState)" where
  "init_engine E data_dir fs db =
     (let path = raw_path data_dir; e = ae_env E
      in case create_dir_all fs path of
           None \<Rightarrow> ((fs, db), Inl ApiIo)
         | Some fs0 \<Rightarrow>
             (case load_or_create_identity (e_blake3 e) (ae_parse_key E) (ae_generated E) (e_clock e) path fs0 of
                (fs1, Inl err) \<Rightarrow> ((fs1, db), Inl (ApiIdentity err))
              | (fs1, Inr ident) \<Rightarrow>
                  if \<not> ae_opens E then ((fs1, db), Inl ApiIo)
                  else
                    (case migrate_legacy_device_identity (e_fk e) (e_clock e) (derived_id e) path (idn_cert ident) fs1
                            (initialize_schema (e_fk e) (ae_mint E) db) of
                       (fs2, (db2, Inl err)) \<Rightarrow> ((fs2, db2), Inl (ApiDb err))
                     | (fs2, (db2, Inr _)) \<Rightarrow>
                         (let device = device_of E ident fs2 path;
                              st = \<lparr>a_fs = fs2, a_db = db2, a_identity = ident, a_data_dir = data_dir, a_device = device,
                                a_pairing = device, a_engine = device, a_servers = []\<rparr>;
                              st' = serve_rows E 0 [] (list_sync_folders db2) st
                          in ((a_fs st', a_db st'), Inr st')))))"

definition factory_reset :: "ApiState \<Rightarrow> unit api" where
  "factory_reset st =
     (let st1 = api_stop_server st
      in case fs_remove_dir_all (a_fs st1) (raw_path (a_data_dir st1)) of
           None \<Rightarrow> (st1, Inl ApiIo)
         | Some fs' \<Rightarrow> (st1\<lparr>a_fs := fs'\<rparr>, Inr ()))"

end
