(* ===== verification/Api_Folders.thy ===== *)
theory Api_Folders
  imports Api Conflict_Files
begin

text \<open>
  The application's interface, \<open>api/mod.rs\<close>, second part: devices, folders and shared folders, pairing
  as the requesting side, syncing one folder, history, conflicts and statuses. What the network
  does (connections, an mDNS browse, address parsing) is a parameter of the operation that uses it.
\<close>

section \<open>Devices\<close>

definition on_db :: "(db \<Rightarrow> 'a dbres) \<Rightarrow> ApiState \<Rightarrow> 'a api" where
  "on_db f st = (case f (a_db st) of (db', r) \<Rightarrow> (st\<lparr>a_db := db'\<rparr>, map_sum ApiDb id r))"

definition api_bind :: "'a api \<Rightarrow> ('a \<Rightarrow> ApiState \<Rightarrow> 'b api) \<Rightarrow> 'b api" where
  "api_bind r f = (case r of (st, Inl err) \<Rightarrow> (st, Inl err) | (st, Inr x) \<Rightarrow> f x st)"

text \<open>Storage operations with the constants of the environment.\<close>

definition put_device :: "api_env \<Rightarrow> string \<Rightarrow> string \<Rightarrow> ApiState \<Rightarrow> unit api" where
  "put_device E did name = on_db (upsert_device (e_fk (ae_env E)) (e_clock (ae_env E)) did name None None)"

definition api_upsert_device :: "api_env \<Rightarrow> string \<Rightarrow> string \<Rightarrow> ApiState \<Rightarrow> unit api" where
  "api_upsert_device E did name st = put_device E did name st"

record DeviceEntry =
  de_id :: string
  de_name :: string
  de_last_seen :: i64

definition api_list_devices :: "ApiState \<Rightarrow> DeviceEntry list" where
  "api_list_devices st =
     map (\<lambda>(did, name, last_seen). \<lparr>de_id = did, de_name = name, de_last_seen = (case last_seen of Some t \<Rightarrow> t | None \<Rightarrow> 0)\<rparr>)
       (filter (\<lambda>(did, _, _). did \<noteq> api_device_id st) (list_devices (a_db st)))"

definition api_device_last_addr :: "string \<Rightarrow> ApiState \<Rightarrow> string option" where
  "api_device_last_addr did st = device_last_addr (a_db st) did"

definition api_remove_device :: "api_env \<Rightarrow> string \<Rightarrow> ApiState \<Rightarrow> DeviceCleanup api" where
  "api_remove_device E did = on_db (remove_device (e_fk (ae_env E)) did)"

fun remove_each :: "api_env \<Rightarrow> string list \<Rightarrow> ApiState \<Rightarrow> unit api" where
  "remove_each E [] st = (st, Inr ())"
| "remove_each E (did # dids) st = api_bind (api_remove_device E did st) (\<lambda>_. remove_each E dids)"

definition remove_all_devices :: "api_env \<Rightarrow> ApiState \<Rightarrow> nat api" where
  "remove_all_devices E st =
     (let ids = map fst (list_devices (a_db st))
      in api_bind (remove_each E ids st) (\<lambda>_ st'. (st', Inr (length ids))))"

section \<open>Folders\<close>

record FolderDevice =
  fdv_device_id :: string
  fdv_mode :: string
  fdv_remote_path :: "string option"
  fdv_enabled :: bool

definition remove_folder :: "api_env \<Rightarrow> i64 \<Rightarrow> ApiState \<Rightarrow> unit api" where
  "remove_folder E fid = on_db (remove_sync_folder_by_id (e_fk (ae_env E)) fid)"

definition api_add_folder_device ::
  "api_env \<Rightarrow> i64 \<Rightarrow> string \<Rightarrow> string \<Rightarrow> string option \<Rightarrow> ApiState \<Rightarrow> FolderDevice api" where
  "api_add_folder_device E fid did mode remote_path st =
     api_bind (put_device E did did st) (\<lambda>_ st1.
       api_bind (on_db (add_folder_device (e_fk (ae_env E)) fid did mode remote_path) st1) (\<lambda>_ st2.
         (st2, Inr \<lparr>fdv_device_id = did, fdv_mode = mode, fdv_remote_path = remote_path, fdv_enabled = True\<rparr>)))"

definition api_remove_folder_device :: "api_env \<Rightarrow> i64 \<Rightarrow> string \<Rightarrow> ApiState \<Rightarrow> bool api" where
  "api_remove_folder_device E fid did = on_db (remove_folder_device (e_fk (ae_env E)) fid did)"

definition list_folder_devices :: "i64 \<Rightarrow> ApiState \<Rightarrow> FolderDevice list" where
  "list_folder_devices fid st =
     map (\<lambda>(did, mode, rp, enabled). \<lparr>fdv_device_id = did, fdv_mode = mode, fdv_remote_path = rp, fdv_enabled = enabled\<rparr>)
       (folder_pairs (a_db st) fid)"

definition api_set_folder_local_path :: "api_env \<Rightarrow> i64 \<Rightarrow> string \<Rightarrow> ApiState \<Rightarrow> unit api" where
  "api_set_folder_local_path E fid path = on_db (set_folder_local_path (e_fk (ae_env E)) fid path)"

definition api_add_sync_folder :: "api_env \<Rightarrow> string \<Rightarrow> string \<Rightarrow> string \<Rightarrow> ApiState \<Rightarrow> i64 api" where
  "api_add_sync_folder E local_path did direction st =
     api_bind
       (if get_device_name (a_db st) did = None
        then put_device E did (if did = api_device_id st then api_device_name st else did) st
        else (st, Inr ()))
       (\<lambda>_. on_db (add_sync_folder (e_fk (ae_env E)) (ae_mint E) local_path did direction))"

record FolderPeerRequest =
  fpr_device_id :: string
  fpr_mode :: "string option"
  fpr_remote_path :: "string option"

definition folder_peer_request_new :: "string \<Rightarrow> string \<Rightarrow> FolderPeerRequest" where
  "folder_peer_request_new did mode = \<lparr>fpr_device_id = did, fpr_mode = Some mode, fpr_remote_path = None\<rparr>"

definition add_peer :: "api_env \<Rightarrow> string \<Rightarrow> FolderPeerRequest \<Rightarrow> ApiState \<Rightarrow> i64 api" where
  "add_peer E local_path p st =
     (let mode = (case fpr_mode p of Some m \<Rightarrow> m | None \<Rightarrow> ''bidirectional''); did = fpr_device_id p
      in api_bind (put_device E did did st) (\<lambda>_ st1.
           api_bind (on_db (add_sync_folder (e_fk (ae_env E)) (ae_mint E) local_path did mode) st1) (\<lambda>fid st2.
             api_bind (on_db (add_folder_device (e_fk (ae_env E)) fid did mode (fpr_remote_path p)) st2) (\<lambda>_ st3.
               (st3, Inr fid)))))"

fun add_peers :: "api_env \<Rightarrow> string \<Rightarrow> FolderPeerRequest list \<Rightarrow> i64 option \<Rightarrow> ApiState \<Rightarrow> i64 option api" where
  "add_peers E local_path [] fid st = (st, Inr fid)"
| "add_peers E local_path (p # ps) fid st =
     api_bind (add_peer E local_path p st) (\<lambda>f. add_peers E local_path ps (Some f))"

definition add_sync_folder_with_peers ::
  "api_env \<Rightarrow> string \<Rightarrow> string \<Rightarrow> FolderPeerRequest list \<Rightarrow> ApiState \<Rightarrow> i64 api" where
  "add_sync_folder_with_peers E local_path name peers st =
     api_bind (add_peers E local_path peers None st) (\<lambda>folder_id st1.
       case folder_id of
         None \<Rightarrow> (st1, Inl NoPeers)
       | Some fid \<Rightarrow>
           if str_trim name = [] then (st1, Inr fid)
           else api_bind (on_db (set_folder_name (e_fk (ae_env E)) fid (str_trim name)) st1) (\<lambda>_ st2. (st2, Inr fid)))"

text \<open>The folder list: the rows grouped by folder id, in ascending order (\<open>BTreeMap\<close>).\<close>

record FolderPeer =
  fpe_device_id :: string
  fpe_mode :: string
  fpe_remote_path :: "string option"
  fpe_enabled :: bool

record FolderEntry =
  fe_id :: i64
  fe_local_path :: string
  fe_name :: string
  fe_guid :: "string option"
  fe_device_id :: string
  fe_direction :: string
  fe_peers :: "FolderPeer list"
  fe_last_sync_at :: i64

type_synonym folder_group = "i64 \<times> string \<times> i64 option \<times> (string \<times> string) list"

fun group_row :: "i64 \<times> string \<times> string \<times> string \<times> i64 option \<Rightarrow> folder_group list \<Rightarrow> folder_group list" where
  "group_row (fid, path, dev, mode, sync_at) [] = [(fid, path, sync_at, [(dev, mode)])]"
| "group_row (fid, path, dev, mode, sync_at) ((f, p, l, pairs) # gs) =
     (if f = fid then (f, p, l, pairs @ [(dev, mode)]) # gs
      else if fid < f then (fid, path, sync_at, [(dev, mode)]) # (f, p, l, pairs) # gs
      else (f, p, l, pairs) # group_row (fid, path, dev, mode, sync_at) gs)"

definition folder_entry :: "db \<Rightarrow> string \<Rightarrow> folder_group \<Rightarrow> FolderEntry" where
  "folder_entry db own = (\<lambda>(fid, local_path, last_sync_at, pairs).
     (let first_real = (case find (\<lambda>(dev, _). dev \<noteq> own) pairs of Some p \<Rightarrow> Some p
            | None \<Rightarrow> (case pairs of [] \<Rightarrow> None | p # _ \<Rightarrow> Some p));
          (device_id, direction) = (case first_real of Some p \<Rightarrow> p | None \<Rightarrow> ([], []))
      in \<lparr>fe_id = fid, fe_local_path = local_path,
          fe_name = (case folder_name db fid of Inl _ \<Rightarrow> path_label local_path | Inr n \<Rightarrow> n),
          fe_guid = folder_guid db fid, fe_device_id = device_id, fe_direction = direction,
          fe_peers = map (\<lambda>(dev, mode). \<lparr>fpe_device_id = dev, fpe_mode = mode,
              fpe_remote_path = folder_pair_remote_path db fid dev, fpe_enabled = True\<rparr>)
            (filter (\<lambda>(dev, _). dev \<noteq> own) pairs),
          fe_last_sync_at = (case last_sync_at of Some t \<Rightarrow> t | None \<Rightarrow> 0)\<rparr>))"

definition api_list_sync_folders :: "ApiState \<Rightarrow> FolderEntry list" where
  "api_list_sync_folders st =
     map (folder_entry (a_db st) (api_device_id st)) (fold group_row (list_sync_folders (a_db st)) [])"

section \<open>Shared folders\<close>

record SharedFolder =
  sfo_id :: i64
  sfo_folder_guid :: string
  sfo_name :: string
  sfo_local_path :: string
  sfo_discoverable :: bool
  sfo_enabled :: bool
  sfo_permissions :: string

definition api_share_folder :: "api_env \<Rightarrow> i64 \<Rightarrow> string \<Rightarrow> ApiState \<Rightarrow> i64 api" where
  "api_share_folder E fid device_name st =
     (case folder_guid (a_db st) fid of
        None \<Rightarrow> (st, Inl NoGuid)
      | Some guid \<Rightarrow>
          (case folder_path (a_db st) fid of
             None \<Rightarrow> (st, Inl NoFolderPath)
           | Some local_path \<Rightarrow>
               (let name = (if str_trim device_name = [] then path_label local_path else str_trim device_name);
                    own = api_device_id st
                in api_bind (put_device E own (api_device_name st) st) (\<lambda>_ st1.
                     api_bind (on_db (share_folder (e_fk (ae_env E)) guid own name local_path) st1) (\<lambda>_ st2.
                       case shared_folder_by_guid (a_db st2) own guid of
                         None \<Rightarrow> (st2, Inl ShareNotPersisted)
                       | Some row \<Rightarrow> (st2, Inr (sh_id row)))))))"

definition list_my_shared_folders :: "ApiState \<Rightarrow> SharedFolder list" where
  "list_my_shared_folders st =
     map (\<lambda>r. \<lparr>sfo_id = sh_id r, sfo_folder_guid = sh_guid r, sfo_name = sh_name r, sfo_local_path = sh_local_path r,
         sfo_discoverable = sh_discoverable r, sfo_enabled = sh_enabled r, sfo_permissions = sh_permissions r\<rparr>)
       (list_shared_folders (a_db st) (api_device_id st))"

definition api_set_shared_discoverable :: "api_env \<Rightarrow> i64 \<Rightarrow> bool \<Rightarrow> ApiState \<Rightarrow> unit api" where
  "api_set_shared_discoverable E sid discoverable = on_db (set_shared_discoverable (e_fk (ae_env E)) sid discoverable)"

definition api_unshare_folder :: "api_env \<Rightarrow> i64 \<Rightarrow> ApiState \<Rightarrow> unit api" where
  "api_unshare_folder E sid = on_db (unshare_folder (e_fk (ae_env E)) sid)"

section \<open>Asking other devices\<close>

text \<open>An address \<open>ip:port\<close> that does not parse is refused; what answers there is a parameter.\<close>

definition pair_with_device ::
  "api_env \<Rightarrow> (bytes \<Rightarrow> SyncMessage option) \<Rightarrow> (pair_error \<Rightarrow> string) \<Rightarrow> string option \<Rightarrow> (nat \<Rightarrow> pair_answer \<times> nat) \<Rightarrow>
   ApiState \<Rightarrow> string api" where
  "pair_with_device E deser msg_of addr peer st =
     (case addr of
        None \<Rightarrow> (st, Inl ApiAddr)
      | Some a \<Rightarrow>
          (case pair_with (ae_env E) deser msg_of (a_pairing st) a peer (a_db st) of
             (db', Inl err) \<Rightarrow> (st\<lparr>a_db := db'\<rparr>, Inl (ApiPair err))
           | (db', Inr info) \<Rightarrow> (st\<lparr>a_db := db'\<rparr>, Inr (di_name info @ '' ('' @ di_id info @ '')''))))"

text \<open>\<open>parse\<close> gives the printed form of an address that parses; \<open>dial\<close> is what answers at it.\<close>

definition repair_one ::
  "api_env \<Rightarrow> (bytes \<Rightarrow> SyncMessage option) \<Rightarrow> (pair_error \<Rightarrow> string) \<Rightarrow> (string \<Rightarrow> string option) \<Rightarrow>
   (string \<Rightarrow> nat \<Rightarrow> pair_answer \<times> nat) \<Rightarrow> string \<times> string \<Rightarrow> ApiState \<times> nat \<Rightarrow> ApiState \<times> nat" where
  "repair_one E deser msg_of parse dial = (\<lambda>(_, last_addr) (st, repaired).
     case parse last_addr of
       None \<Rightarrow> (st, repaired)
     | Some addr \<Rightarrow>
         (case pair_with (ae_env E) deser msg_of (a_pairing st) addr (dial addr) (a_db st) of
            (db', r) \<Rightarrow> (st\<lparr>a_db := db'\<rparr>, if is_ok r then repaired + 1 else repaired)))"

definition auto_repair_known_devices ::
  "api_env \<Rightarrow> (bytes \<Rightarrow> SyncMessage option) \<Rightarrow> (pair_error \<Rightarrow> string) \<Rightarrow> (string \<Rightarrow> string option) \<Rightarrow>
   (string \<Rightarrow> nat \<Rightarrow> pair_answer \<times> nat) \<Rightarrow> ApiState \<Rightarrow> ApiState \<times> nat" where
  "auto_repair_known_devices E deser msg_of parse dial st =
     fold (repair_one E deser msg_of parse dial) (list_trusted_device_addrs (a_db st)) (st, 0)"

definition browse_peer_shared_folders ::
  "api_env \<Rightarrow> (bytes \<Rightarrow> SyncMessage option) \<Rightarrow> string option \<Rightarrow> rpc_answer \<Rightarrow> api_error + SharedFolderInfo list" where
  "browse_peer_shared_folders E deser addr ans =
     (case addr of
        None \<Rightarrow> Inl ApiAddr
      | Some _ \<Rightarrow> map_sum ApiRpc id (client_list_shared_folders (ae_env E) deser ans))"

datatype FolderPairResult = FpApproved string string "string option" | FpRejected string | FpPending

text \<open>The grant of the owner is wired into the database; the result is None when polling never ends.\<close>

definition on_folder_reply ::
  "api_env \<Rightarrow> string \<Rightarrow> string \<Rightarrow> string \<Rightarrow> string \<Rightarrow> string \<Rightarrow> FolderPairReply \<Rightarrow> ApiState \<Rightarrow> FolderPairResult api" where
  "on_folder_reply E addr peer_id guid share_name local_path answer st =
     (case answer of
        RApproved grant \<Rightarrow>
          api_bind (on_db (wire_folder_pair (e_fk (ae_env E)) guid local_path share_name (api_device_id st) peer_id
              (rfp_remote_path grant)) st) (\<lambda>_ st1.
            api_bind (on_db (set_device_last_addr (e_fk (ae_env E)) peer_id addr) st1) (\<lambda>_ st2.
              (st2, Inr (FpApproved (rfp_folder_guid grant) (rfp_name grant) (rfp_remote_path grant)))))
      | RRejected reason \<Rightarrow> (st, Inr (FpRejected reason))
      | RPending \<Rightarrow> (st, Inr FpPending))"

definition request_folder_pairing ::
  "api_env \<Rightarrow> (bytes \<Rightarrow> SyncMessage option) \<Rightarrow> string option \<Rightarrow> (nat \<Rightarrow> rpc_answer \<times> nat) \<Rightarrow> string \<Rightarrow> string \<Rightarrow> string \<Rightarrow>
   string \<Rightarrow> nat \<Rightarrow> ApiState \<Rightarrow> FolderPairResult api option" where
  "request_folder_pairing E deser addr peer peer_id guid share_name local_path lifetime_ms st =
     (case addr of
        None \<Rightarrow> Some (st, Inl ApiAddr)
      | Some a \<Rightarrow>
          (case put_device E (api_device_id st) (api_device_name st) st of
             (st1, Inl err) \<Rightarrow> Some (st1, Inl err)
           | (st1, Inr _) \<Rightarrow>
               (case request_and_collect_pairing (ae_env E) deser (api_device_id st1) (api_device_name st1) guid share_name
                       (if lifetime_ms = 0 then None else Some lifetime_ms) peer of
                  None \<Rightarrow> None
                | Some (Inl err) \<Rightarrow> Some (st1, Inl (ApiRpc err))
                | Some (Inr answer) \<Rightarrow> Some (on_folder_reply E a peer_id guid share_name local_path answer st1))))"

section \<open>Syncing one folder\<close>

text \<open>The first dial; when the peer could not be reached, one more at the address that an mDNS browse
  finds for it, unless that is the same address or our own. Addresses that worked are stored.\<close>

definition remember_addr :: "api_env \<Rightarrow> string \<Rightarrow> string \<Rightarrow> bool \<Rightarrow> ApiState \<Rightarrow> ApiState" where
  "remember_addr E did addr dry_run st =
     (if dry_run then st
      else st\<lparr>a_db := fst (set_device_last_addr (e_fk (ae_env E)) did addr (a_db st))\<rparr>)"

definition api_run_sync ::
  "api_env \<Rightarrow> 'a network \<Rightarrow> nat \<Rightarrow> string \<Rightarrow> 'a \<Rightarrow> i64 \<Rightarrow> string \<Rightarrow> bool \<Rightarrow> ApiState \<Rightarrow> ApiState \<times> (sync_error + SyncResult)" where
  "api_run_sync E net k local_path addr fid did dry_run st =
     (case run_sync (ae_env E) (idn_cert (a_identity st)) (n_answer net k addr) local_path (n_show net addr) fid did dry_run
             (a_fs st, a_db st) of
        ((fs', db'), r) \<Rightarrow> (st\<lparr>a_fs := fs', a_db := db'\<rparr>, r))"

definition discover_address_for :: "'a network \<Rightarrow> string \<Rightarrow> string \<Rightarrow> 'a option" where
  "discover_address_for net did own = (if did = own then None else map_of (n_discovered net) did)"

definition sync_folder ::
  "api_env \<Rightarrow> (sync_error \<Rightarrow> string) \<Rightarrow> 'a network \<Rightarrow> i64 \<Rightarrow> string \<Rightarrow> 'a option \<Rightarrow> string \<Rightarrow> bool \<Rightarrow> ApiState \<Rightarrow> SyncResult api" where
  "sync_folder E msg_of net fid local_path parsed did dry_run st =
     (case parsed of
        None \<Rightarrow> (st, Inl ApiAddr)
      | Some addr \<Rightarrow>
          (case api_run_sync E net 0 local_path addr fid did dry_run st of
             (st1, Inr r) \<Rightarrow> (remember_addr E did (n_show net addr) dry_run st1, Inr r)
           | (st1, Inl err) \<Rightarrow>
               if \<not> sublist ''could not reach'' (msg_of err) then (st1, Inl (ApiSync err))
               else
                 (case discover_address_for net did (api_device_id st1) of
                    None \<Rightarrow> (st1, Inl (ApiSync err))
                  | Some fresh \<Rightarrow>
                      if fresh = addr \<or> n_own net fresh then (st1, Inl (ApiSync err))
                      else
                        (case api_run_sync E net 1 local_path fresh fid did dry_run st1 of
                           (st2, Inl err2) \<Rightarrow> (st2, Inl (ApiSync err2))
                         | (st2, Inr r) \<Rightarrow> (remember_addr E did (n_show net fresh) dry_run st2, Inr r)))))"

section \<open>History, conflicts and statuses\<close>

record SessionEntry =
  se_ts :: i64
  se_direction :: string
  se_peer_device :: string
  se_addr :: string
  se_folder_path :: string
  se_pushed_count :: nat
  se_pulled_count :: nat
  se_conflicts_count :: nat
  se_pushed_bytes :: u64
  se_pulled_bytes :: u64

definition session_entry :: "sess_row \<Rightarrow> SessionEntry" where
  "session_entry r = \<lparr>se_ts = ss_ts r, se_direction = ss_direction r, se_peer_device = ss_peer_device r,
     se_addr = ss_addr r, se_folder_path = ss_folder_path r, se_pushed_count = ss_pushed_count r,
     se_pulled_count = ss_pulled_count r, se_conflicts_count = ss_conflicts_count r,
     se_pushed_bytes = ss_pushed_bytes r, se_pulled_bytes = ss_pulled_bytes r\<rparr>"

definition api_list_recent_sessions :: "nat \<Rightarrow> ApiState \<Rightarrow> SessionEntry list" where
  "api_list_recent_sessions limit st = map session_entry (list_recent_sessions (a_db st) limit)"

definition api_list_sessions_for_device :: "string \<Rightarrow> nat \<Rightarrow> ApiState \<Rightarrow> SessionEntry list" where
  "api_list_sessions_for_device did limit st = map session_entry (list_sessions_for_device (a_db st) did limit)"

record FileHistoryEntry =
  fh_path :: string
  fh_device_id :: "string option"
  fh_action :: string
  fh_size :: "i64 option"
  fh_recorded_at :: i64

definition api_list_file_history :: "i64 option \<Rightarrow> nat \<Rightarrow> ApiState \<Rightarrow> FileHistoryEntry list" where
  "api_list_file_history fid limit st =
     map (\<lambda>r. \<lparr>fh_path = h_path r, fh_device_id = Some (h_device_id r), fh_action = h_action r, fh_size = Some (h_size r),
         fh_recorded_at = h_recorded_at r\<rparr>) (list_file_history (a_db st) fid limit)"

definition api_list_conflicts :: "ApiState \<Rightarrow> ConflictEntry list" where
  "api_list_conflicts st = list_conflicts (a_fs st) (a_db st)"

definition api_resolve_conflict :: "api_env \<Rightarrow> i64 \<Rightarrow> string \<Rightarrow> string \<Rightarrow> ApiState \<Rightarrow> ApiState \<times> (resolve_error + string)" where
  "api_resolve_conflict E fid backup_path action st =
     (case resolve_conflict (ae_env E) fid backup_path action (a_fs st, a_db st) of
        ((fs', db'), r) \<Rightarrow> (st\<lparr>a_fs := fs', a_db := db'\<rparr>, r))"

record ConflictContents =
  cc_winner :: string
  cc_loser :: string
  cc_winner_truncated :: bool
  cc_loser_truncated :: bool
  cc_textual :: bool

definition CONFLICT_READ_LIMIT :: nat where
  "CONFLICT_READ_LIMIT = 512 * 1024"

definition read_conflict_text :: "fs \<Rightarrow> path \<Rightarrow> (string \<times> bool) option" where
  "read_conflict_text fs p =
     (if \<not> path_exists fs p then None
      else Option.bind (fs_read fs p) (\<lambda>data.
        let truncated = CONFLICT_READ_LIMIT < length data;
            slice = (if truncated then take CONFLICT_READ_LIMIT data else data)
        in map_option (\<lambda>s. (s, truncated)) (from_utf8 slice)))"

definition read_conflict_contents :: "i64 \<Rightarrow> string \<Rightarrow> string \<Rightarrow> ApiState \<Rightarrow> api_error + ConflictContents" where
  "read_conflict_contents fid winner_path loser_path st =
     (case find (\<lambda>(f, _). f = fid) (list_sync_folders (a_db st)) of
        None \<Rightarrow> Inl (NoSuchFolder fid)
      | Some (_, path, _) \<Rightarrow>
          map_sum ApiPath id (res_bind (sync_root_open (a_fs st) (raw_path path)) (\<lambda>root.
            res_bind (root_safe_join (a_fs st) root winner_path) (\<lambda>winner_abs.
              res_bind (root_safe_join (a_fs st) root loser_path) (\<lambda>loser_abs.
                case (read_conflict_text (a_fs st) winner_abs, read_conflict_text (a_fs st) loser_abs) of
                  (Some (w, wt), Some (l, lt)) \<Rightarrow>
                    Inr \<lparr>cc_winner = w, cc_loser = l, cc_winner_truncated = wt, cc_loser_truncated = lt, cc_textual = True\<rparr>
                | _ \<Rightarrow>
                    Inr \<lparr>cc_winner = [], cc_loser = [], cc_winner_truncated = False, cc_loser_truncated = False,
                         cc_textual = False\<rparr>)))))"

definition no_live :: LiveState where
  "no_live = \<lparr>syncing = [], errored = []\<rparr>"

definition device_statuses :: "i64 \<Rightarrow> ApiState \<Rightarrow> DeviceStatus list" where
  "device_statuses now st = compute_device_statuses (a_db st) (api_device_id st) now"

definition folder_statuses :: "i64 \<Rightarrow> ApiState \<Rightarrow> FolderStatus list" where
  "folder_statuses now st = compute_folder_statuses (a_fs st) (a_db st) (api_device_id st) now no_live"

definition folder_status :: "i64 \<Rightarrow> i64 \<Rightarrow> ApiState \<Rightarrow> FolderStatus list" where
  "folder_status now fid st = filter (\<lambda>f. fs_id f = fid) (folder_statuses now st)"

definition device_folders :: "i64 \<Rightarrow> string \<Rightarrow> ApiState \<Rightarrow> FolderStatus list" where
  "device_folders now did st = filter (\<lambda>f. fs_device_id f = did) (folder_statuses now st)"

definition overall_health :: "i64 \<Rightarrow> ApiState \<Rightarrow> HealthSummary" where
  "overall_health now st = hs_summary (health_snapshot (a_fs st) (a_db st) (api_device_id st) now no_live)"

section \<open>Discovery\<close>

text \<open>The peers of an mDNS browse, with the time in milliseconds at which they are reported.\<close>

record DiscoveredDevice =
  dd_id :: string
  dd_name :: string
  dd_ip :: string
  dd_port :: nat

definition discover_devices :: "nat \<Rightarrow> (nat \<times> string \<times> string \<times> (string \<times> nat) list) list \<Rightarrow> DiscoveredDevice list" where
  "discover_devices timeout_secs peers =
     List.map_filter (\<lambda>(_, did, name, addrs). case addrs of [] \<Rightarrow> None
         | (ip, port) # _ \<Rightarrow> Some \<lparr>dd_id = did, dd_name = name, dd_ip = ip, dd_port = port\<rparr>)
       (takeWhile (\<lambda>(t, _). t < timeout_secs * 1000) peers)"

end
