(* ===== verification/Api_Props.thy ===== *)
theory Api_Props
  imports Api_Folders Listener_Props
begin

text \<open>
  Properties of the application's interface: the invariant of its state over all runs of its
  operations and of incoming connections, the folder list and the pairing queue, what a rename and a
  reset do, and syncing a folder at a stale address.
\<close>

section \<open>Operations keep the database well-formed\<close>

interpretation good_sessions: pinning_invariant e "good (e_fk e)" for e
  by unfold_locales (simp_all add: good_simple_ops good_folder_ops)

lemma good_approve_folder:
  assumes "good fk db"
  shows "good fk (fst (approve_folder_pair fk now owner did guid name lp rp db inner))"
proof -
  have "good fk (fst (db_bind (upsert_device fk now did name None None db) (\<lambda>db1 _.
      db_bind (ensure_folder_by_guid fk guid lp name owner db1) (\<lambda>db2 fid.
        db_bind (add_folder_device fk fid did ''bidirectional'' rp db2) (\<lambda>db3 _. (db3, Inr g))))))" for g :: RemoteFolderPair
    by (intro good_bind good_simple_ops good_folder_ops assms) simp_all
  then show ?thesis by (simp add: approve_folder_pair_def Let_def split: prod.split) (metis fst_conv)
qed

lemma good_request_folder:
  assumes "good fk db"
  shows "good fk (fst (request_folder_pair fk now req owner lp db inner))"
  using assms good_approve_folder [OF assms, of now owner "rfr_device_id req" "rfr_folder_guid req" "rfr_name req" lp "Some lp" inner]
  by (auto simp: request_folder_pair_def Let_def split: option.split prod.split sum.split)

lemma good_serve_folder: "good fk db \<Longrightarrow> good fk (fst (serve_folder fk mint now dev folder b6 b4 db))"
proof -
  assume g: "good fk db"
  have "good fk (fst (register_folder fk mint now folder dev db))"
    unfolding register_folder_def using g
    by (auto intro!: good_bind good_simple_ops good_folder_ops split: option.split)
  then show ?thesis by (auto simp: serve_folder_def split: prod.split sum.split option.split)
qed

lemma good_connection:
  assumes "good (e_fk (v_env cfg)) (v_db sv)"
  shows "good (e_fk (v_env cfg)) (v_db (connection cfg cert ip label msgs sv))"
proof -
  have disp: "good (e_fk (v_env cfg)) (v_db (dispatch cfg cert ip label m ms sv'))" if "v_db sv' = v_db sv" for m ms sv'
  proof (cases m)
    case (MPairRequest req)
    have "good (e_fk (v_env cfg)) (v_db (on_pair_request cfg cert ip req sv'))"
      unfolding on_pair_request_def Let_def using assms that
      by (auto intro!: good_simple_ops split: prod.split option.split Admission.split)
        (metis fst_conv good_simple_ops(1))+
    then show ?thesis by (simp add: dispatch_def MPairRequest)
  next
    case (MIndex idx)
    have "good (e_fk (v_env cfg)) (v_db (on_index cfg cert label idx ms sv'))"
      using assms that good_sessions.server_session [of "v_env cfg" "session_start (v_fs sv') (v_db sv')" "v_local_path cfg" "v_folder_id cfg" idx
        "di_id (v_device cfg)" label ms]
      by (auto simp: on_index_def session_start_def case_prod_beta split: option.split)
    then show ?thesis by (simp add: dispatch_def MIndex)
  next
    case (MRequestFolderPair req)
    have "good (e_fk (v_env cfg)) (v_db (on_request_folder_pair cfg cert req sv'))"
      unfolding on_request_folder_pair_def Let_def using assms that good_request_folder
      by (auto split: option.split prod.split FolderPairOutcome.split) (metis fst_conv)+
    then show ?thesis by (simp add: dispatch_def MRequestFolderPair)
  qed (use assms that in \<open>simp_all add: dispatch_def on_list_shared_def\<close>)
  show ?thesis
    by (rule connection_cases) (use disp assms in simp_all)
qed

lemma store_peer_db:
  "fst (store_peer e addr cert resp db) =
     fst (upsert_device (e_fk e) (e_clock e) (case cert of Some c \<Rightarrow> derived_id e c | None \<Rightarrow> presp_device_id resp)
       (presp_device_name resp) cert (Some addr) db)"
  by (simp add: store_peer_def Let_def split: prod.split sum.split)

lemma good_pair_with:
  assumes "good (e_fk e) db"
  shows "good (e_fk e) (fst (pair_with e deser msg_of own addr peer db))"
proof -
  have att: "good (e_fk e) (fst (pair_attempt e deser own addr ans d))" if "good (e_fk e) d" for ans d
    using that good_simple_ops(1) [OF that]
    by (auto simp: pair_attempt_def on_response_def store_peer_db
        split: pair_answer.split sum.split read_result.split SyncMessage.split)
  have "good (e_fk e) (fst (pair_loop e deser msg_of own addr peer k now db))" for k now
    using assms
  proof (induction e deser msg_of own addr peer k now db rule: pair_loop.induct)
    case (1 e deser msg_of own addr peer k now db)
    have att: "good (e_fk e) (fst (pair_attempt e deser own addr (fst (peer k)) db))"
      using "1.prems" good_simple_ops(1) [OF "1.prems"]
      by (auto simp: pair_attempt_def on_response_def store_peer_db
          split: pair_answer.split sum.split read_result.split SyncMessage.split)
    obtain db' r where a: "pair_attempt e deser own addr (fst (peer k)) db = (db', r)" by fastforce
    with att have g: "good (e_fk e) db'" by simp
    show ?case
      using "1.IH" [OF a [symmetric] _ _ _ g] a g
      by (subst pair_loop.simps) (auto split: sum.split)
  qed
  then show ?thesis by (simp add: pair_with_def)
qed

section \<open>The invariant of the app\<close>

definition handle_wf :: "string \<Rightarrow> ServeHandle \<Rightarrow> bool" where
  "handle_wf own h \<longleftrightarrow> srv_owner_id h = own \<and> (\<exists>g. srv_gate h = Some g \<and> gate_wf g)"

text \<open>Every server presents the present identity and has a gate that is in order.\<close>

definition server_wf :: "DeviceInfo \<Rightarrow> RunningServer \<Rightarrow> bool" where
  "server_wf dev s \<longleftrightarrow> rs_device s = dev \<and> handle_wf (di_id dev) (rs_handle s)"

definition app_wf :: "api_env \<Rightarrow> ApiState \<Rightarrow> bool" where
  "app_wf E st \<longleftrightarrow> good (e_fk (ae_env E)) (a_db st) \<and> distinct (map fst (a_servers st)) \<and>
     a_pairing st = a_device st \<and> di_id (a_engine st) = di_id (a_device st) \<and>
     (\<forall>(k, s) \<in> set (a_servers st). server_wf (a_device st) s)"

lemma app_wfD:
  assumes "app_wf E st"
  shows "good (e_fk (ae_env E)) (a_db st)" "distinct (map fst (a_servers st))" "a_pairing st = a_device st"
    "(k, s) \<in> set (a_servers st) \<Longrightarrow> server_wf (a_device st) s"
  using assms by (auto simp: app_wf_def)

lemma app_wf_world: "app_wf E st \<Longrightarrow> good (e_fk (ae_env E)) db \<Longrightarrow> app_wf E (st\<lparr>a_fs := fs, a_db := db\<rparr>)"
  by (simp add: app_wf_def)

lemma app_wf_db: "app_wf E st \<Longrightarrow> good (e_fk (ae_env E)) db \<Longrightarrow> app_wf E (st\<lparr>a_db := db\<rparr>)"
  by (simp add: app_wf_def)

lemma app_wf_on_db:
  "app_wf E st \<Longrightarrow> (\<And>db. good (e_fk (ae_env E)) db \<Longrightarrow> good (e_fk (ae_env E)) (fst (f db))) \<Longrightarrow> app_wf E (fst (on_db f st))"
  using app_wf_db [of E st "fst (f (a_db st))"] app_wfD(1) [of E st] by (simp add: on_db_def case_prod_beta)

lemma app_wf_bind:
  "app_wf E (fst r) \<Longrightarrow> (\<And>x st. app_wf E st \<Longrightarrow> app_wf E (fst (f x st))) \<Longrightarrow> app_wf E (fst (api_bind r f))"
  by (auto simp: api_bind_def split: prod.split sum.split)

lemma app_wf_start:
  assumes wf: "app_wf E st"
  shows "app_wf E (fst (api_start_server E port fid lp st))"
proof -
  obtain b6 b4 where b: "ae_bind E lp port = (b6, b4)" by fastforce
  obtain db' r where s: "serve_folder (e_fk (ae_env E)) (ae_mint E) (e_clock (ae_env E)) (a_device st) lp b6 b4 (a_db st) = (db', r)"
    by fastforce
  have g: "good (e_fk (ae_env E)) db'" using good_serve_folder [OF app_wfD(1) [OF wf]] s by (metis fst_conv)
  show ?thesis
  proof (cases r)
    case (Inr hf)
    then have "handle_wf (di_id (a_device st)) (fst hf)"
      using s by (auto simp: serve_folder_def handle_wf_def gate_wf_new split: prod.splits sum.splits option.splits)
    with wf g s b Inr show ?thesis
      by (auto simp: api_start_server_def current_device_def app_wf_def server_wf_def split: prod.split)
  qed (use wf g s b in \<open>simp add: api_start_server_def current_device_def app_wf_db\<close>)
qed

lemma api_start_keeps:
  "a_device (fst (api_start_server E port fid lp st)) = a_device st \<and> a_fs (fst (api_start_server E port fid lp st)) = a_fs st"
  by (simp add: api_start_server_def split: prod.split sum.split)

lemma app_wf_restart: "app_wf E st \<Longrightarrow> app_wf E (restart_all_servers E st)"
proof -
  have "app_wf E st \<Longrightarrow> app_wf E (fold (restart_server E) xs st)" for xs st
    by (induction xs arbitrary: st) (auto simp: restart_server_def app_wf_start)
  moreover assume "app_wf E st"
  then have "app_wf E (st\<lparr>a_servers := []\<rparr>)" by (simp add: app_wf_def)
  ultimately show ?thesis by (simp add: restart_all_servers_def)
qed

lemma app_wf_rename: "app_wf E st \<Longrightarrow> app_wf E (fst (set_device_name E raw st))"
proof -
  assume wf: "app_wf E st"
  have "restart_all_servers E (st\<lparr>a_fs := fs, a_device := d, a_pairing := p\<rparr>) =
      fold (restart_server E) (ae_iter E (a_servers st)) (st\<lparr>a_fs := fs, a_device := d, a_pairing := p, a_servers := []\<rparr>)" for fs d p
    by (simp add: restart_all_servers_def)
  moreover have "app_wf E (fold (restart_server E) xs st')" if "app_wf E st'" for xs st'
    using that by (induction xs arbitrary: st') (auto simp: restart_server_def app_wf_start)
  moreover have "app_wf E (st\<lparr>a_fs := fs, a_device := (a_device st)\<lparr>di_name := n\<rparr>,
      a_pairing := (a_pairing st)\<lparr>di_name := n\<rparr>, a_servers := []\<rparr>)" for fs n
    using wf by (simp add: app_wf_def)
  ultimately show ?thesis using wf by (simp add: set_device_name_def split: sum.split)
qed

text \<open>A decision replaces the handle of one server.\<close>

lemma app_wf_set_handle:
  assumes "app_wf E st" and "handle_wf (di_id (a_device st)) h"
  shows "app_wf E (set_handle k h st)"
proof -
  have "map fst (a_servers (set_handle k h st)) = map fst (a_servers st)"
    by (auto simp: set_handle_def)
  then have "distinct (map fst (a_servers (set_handle k h st)))" using app_wfD(2) [OF assms(1)] by (simp del: map_map)
  with assms show ?thesis by (auto simp: app_wf_def set_handle_def server_wf_def split: if_splits)
qed

lemma set_handle_db [simp]: "set_handle k h (st\<lparr>a_db := db\<rparr>) = (set_handle k h st)\<lparr>a_db := db\<rparr>"
  by (simp add: set_handle_def)

lemma first_server_wf:
  assumes iter: "\<forall>xs. mset (ae_iter E xs) = mset xs" and wf: "app_wf E st"
    and "first_server E P st = Some (k, s)"
  shows "handle_wf (di_id (a_device st)) (rs_handle s) \<and> (k, s) \<in> set (a_servers st) \<and> P (rs_handle s)"
proof -
  have "set (ae_iter E (a_servers st)) = set (a_servers st)" using iter mset_eq_setD by blast
  with assms(3) have "(k, s) \<in> set (a_servers st) \<and> P (rs_handle s)"
    by (auto simp: first_server_def dest!: find_SomeD)
  with app_wfD(4) [OF wf] show ?thesis by (auto simp: server_wf_def)
qed

lemma handle_wf_decisions:
  assumes "handle_wf own h"
  shows "handle_wf own (fst (approve_pairing fk now did name h db))" "handle_wf own (fst (deny_pairing did h))"
    "handle_wf own (fst (approve_folder_pairing fk now did guid name lp rp h db))" "handle_wf own (fst (deny_folder_pairing did guid h))"
proof -
  from assms obtain g where g: "srv_gate h = Some g" "gate_wf g" and o: "srv_owner_id h = own" by (auto simp: handle_wf_def)
  obtain db' g' r where a: "approve_folder_pair fk now own did guid name lp rp db g = (db', g', r)" by (metis prod_cases3)
  have "gate_wf g'" using gate_wf_approve_folder [OF g(2), of fk now own did guid name lp rp db] a by simp
  then show "handle_wf own (fst (approve_folder_pairing fk now did guid name lp rp h db))"
    by (simp add: approve_folder_pairing_def require_gate_def g(1) o a handle_wf_def)
  show "handle_wf own (fst (approve_pairing fk now did name h db))"
    using g o by (auto simp: approve_pairing_def require_gate_def handle_wf_def gate_wf_unpend split: prod.split sum.split)
  show "handle_wf own (fst (deny_pairing did h))" "handle_wf own (fst (deny_folder_pairing did guid h))"
    using g o by (auto simp: deny_pairing_def deny_folder_pairing_def require_gate_def handle_wf_def gate_wf_deny gate_wf_deny_folder)
qed

lemma app_wf_decisions:
  assumes iter: "\<forall>xs. mset (ae_iter E xs) = mset xs" and wf: "app_wf E st"
  shows "app_wf E (fst (approve_pending_pairing E did name st))" "app_wf E (fst (deny_pending_pairing E did st))"
    "app_wf E (fst (api_approve_folder_pairing E did guid name lp rp st))" "app_wf E (fst (api_deny_folder_pairing E did guid st))"
proof -
  note first = first_server_wf [OF iter wf]
  have up: "good (e_fk (ae_env E)) (fst (snd (approve_pairing (e_fk (ae_env E)) now did name h (a_db st))))" for h now
    using app_wfD(1) [OF wf] good_simple_ops(1) [OF app_wfD(1) [OF wf], of now did name _ None]
    by (auto simp: approve_pairing_def split: sum.split prod.split) (metis fst_conv)+
  have fp: "good (e_fk (ae_env E)) (fst (snd (approve_folder_pairing (e_fk (ae_env E)) now did guid name lp rp h (a_db st))))" for h now
    using app_wfD(1) [OF wf] good_approve_folder [OF app_wfD(1) [OF wf]]
    by (auto simp: approve_folder_pairing_def split: sum.split prod.split) (metis fst_conv)
  show "app_wf E (fst (approve_pending_pairing E did name st))"
    using wf first up handle_wf_decisions(1)
    by (auto simp: approve_pending_pairing_def case_prod_beta split: option.split intro!: app_wf_db app_wf_set_handle)
  show "app_wf E (fst (deny_pending_pairing E did st))"
    using wf first handle_wf_decisions(2)
    by (auto simp: deny_pending_pairing_def case_prod_beta split: option.split intro!: app_wf_set_handle)
  show "app_wf E (fst (api_approve_folder_pairing E did guid name lp rp st))"
    using wf first fp handle_wf_decisions(3)
    by (auto simp: api_approve_folder_pairing_def case_prod_beta split: option.split intro!: app_wf_db app_wf_set_handle)
  show "app_wf E (fst (api_deny_folder_pairing E did guid st))"
    using wf first handle_wf_decisions(4)
    by (auto simp: api_deny_folder_pairing_def case_prod_beta split: option.split intro!: app_wf_set_handle)
qed

text \<open>Operations on the database alone, and those that dial a peer.\<close>

lemma app_wf_database:
  assumes wf: "app_wf E st"
  shows "app_wf E (fst (api_upsert_device E did name st))" "app_wf E (fst (api_remove_device E did st))"
    "app_wf E (fst (remove_all_devices E st))" "app_wf E (fst (remove_folder E fid st))"
    "app_wf E (fst (api_add_folder_device E fid did mode rp st))" "app_wf E (fst (api_remove_folder_device E fid did st))"
    "app_wf E (fst (api_set_folder_local_path E fid lp st))" "app_wf E (fst (api_add_sync_folder E lp did dir st))"
    "app_wf E (fst (add_sync_folder_with_peers E lp name peers st))" "app_wf E (fst (api_share_folder E fid name st))"
    "app_wf E (fst (api_set_shared_discoverable E sid b st))" "app_wf E (fst (api_unshare_folder E sid st))"
proof -
  note ops = app_wf_on_db good_simple_ops good_folder_ops good_removals
  have put: "app_wf E st \<Longrightarrow> app_wf E (fst (put_device E did name st))" for did name st
    unfolding put_device_def by (intro ops)
  note steps = app_wf_bind put ops
  show "app_wf E (fst (api_upsert_device E did name st))" unfolding api_upsert_device_def by (intro put wf)
  show "app_wf E (fst (api_remove_device E did st))" unfolding api_remove_device_def by (intro ops wf)
  have "app_wf E st \<Longrightarrow> app_wf E (fst (remove_each E dids st))" for dids st
    by (induction dids arbitrary: st) (auto intro!: app_wf_bind ops simp: api_remove_device_def)
  then show "app_wf E (fst (remove_all_devices E st))"
    unfolding remove_all_devices_def Let_def by (intro app_wf_bind) (use wf in simp_all)
  show "app_wf E (fst (remove_folder E fid st))" unfolding remove_folder_def by (intro ops wf)
  show "app_wf E (fst (api_add_folder_device E fid did mode rp st))"
    unfolding api_add_folder_device_def by (intro steps wf) simp_all
  show "app_wf E (fst (api_remove_folder_device E fid did st))" unfolding api_remove_folder_device_def by (intro ops wf)
  show "app_wf E (fst (api_set_folder_local_path E fid lp st))" unfolding api_set_folder_local_path_def by (intro ops wf)
  show "app_wf E (fst (api_add_sync_folder E lp did dir st))"
    unfolding api_add_sync_folder_def by (intro steps) (use wf in \<open>simp_all add: put\<close>)
  have peers: "app_wf E st \<Longrightarrow> app_wf E (fst (add_peers E lp ps f st))" for ps f st
  proof (induction ps arbitrary: f st)
    case (Cons p ps)
    have "app_wf E (fst (add_peer E lp p st))"
      unfolding add_peer_def Let_def by (intro steps Cons.prems) simp_all
    then show ?case by (simp add: app_wf_bind Cons.IH)
  qed simp
  show "app_wf E (fst (add_sync_folder_with_peers E lp name peers st))"
    unfolding add_sync_folder_with_peers_def
    by (intro app_wf_bind peers wf) (auto split: option.split intro!: app_wf_bind ops)
  show "app_wf E (fst (api_share_folder E fid name st))"
    unfolding api_share_folder_def Let_def using wf
    by (auto split: option.split intro!: steps)
  show "app_wf E (fst (api_set_shared_discoverable E sid b st))" unfolding api_set_shared_discoverable_def by (intro ops wf)
  show "app_wf E (fst (api_unshare_folder E sid st))" unfolding api_unshare_folder_def by (intro ops wf)
qed

lemma app_wf_pair: "app_wf E st \<Longrightarrow> app_wf E (fst (pair_with_device E deser msg_of addr peer st))"
proof (cases addr)
  case (Some a)
  assume wf: "app_wf E st"
  from app_wf_db [OF wf good_pair_with [OF app_wfD(1) [OF wf]]] Some show ?thesis
    by (auto simp: pair_with_device_def split: prod.split sum.split) (metis fst_conv)+
qed (simp add: pair_with_device_def)

lemma app_wf_repair: "app_wf E st \<Longrightarrow> app_wf E (fst (auto_repair_known_devices E deser msg_of parse dial st))"
proof -
  have one: "app_wf E (fst r) \<Longrightarrow> app_wf E (fst (repair_one E deser msg_of parse dial row r))" for row r
    by (auto simp: repair_one_def case_prod_beta split: option.split intro!: app_wf_db good_pair_with dest: app_wfD(1))
  have "app_wf E (fst r) \<Longrightarrow> app_wf E (fst (fold (repair_one E deser msg_of parse dial) rows r))" for rows r
    by (induction rows arbitrary: r) (simp_all add: one)
  then show "app_wf E st \<Longrightarrow> app_wf E (fst (auto_repair_known_devices E deser msg_of parse dial st))"
    by (simp add: auto_repair_known_devices_def)
qed

lemma app_wf_request_folder:
  assumes wf: "app_wf E st" and "request_folder_pairing E deser addr peer pid guid sn lp ms st = Some res"
  shows "app_wf E (fst res)"
proof -
  have put: "app_wf E (fst (put_device E (api_device_id st) (api_device_name st) st))"
    unfolding put_device_def by (intro app_wf_on_db wf good_simple_ops)
  have "app_wf E st1 \<Longrightarrow> app_wf E (fst (on_folder_reply E a pid guid sn lp rr st1))" for a rr st1
    by (cases rr) (auto simp: on_folder_reply_def intro!: app_wf_bind app_wf_on_db good_simple_ops good_folder_ops)
  with assms put show ?thesis
    by (auto simp: request_folder_pairing_def split: option.splits prod.splits sum.splits)
qed

lemma app_wf_run_sync: "app_wf E st \<Longrightarrow> app_wf E (fst (api_run_sync E net k lp addr fid did dry st))"
proof -
  assume wf: "app_wf E st"
  let ?w = "run_sync (ae_env E) (idn_cert (a_identity st)) (n_answer net k addr) lp (n_show net addr) fid did dry (a_fs st, a_db st)"
  have "good (e_fk (ae_env E)) (snd (fst ?w))"
  proof (cases "n_answer net k addr")
    case (Some cm)
    obtain cert msgs where "cm = (cert, msgs)" by fastforce
    with Some good_sessions.client_session [of "ae_env E" "session_start (a_fs st) (a_db st)"] app_wfD(1) [OF wf] show ?thesis
      by (simp add: run_sync_def dial_session_def Let_def case_prod_beta session_start_def)
  qed (simp add: run_sync_def dial_session_def app_wfD(1) [OF wf])
  then show ?thesis by (auto simp: api_run_sync_def case_prod_beta intro!: app_wf_world wf)
qed

lemma app_wf_remember: "app_wf E st \<Longrightarrow> app_wf E (remember_addr E did addr dry st)"
  by (auto simp: remember_addr_def intro!: app_wf_db good_simple_ops dest: app_wfD(1))

lemma app_wf_sync_folder: "app_wf E st \<Longrightarrow> app_wf E (fst (sync_folder E msg_of net fid lp parsed did dry st))"
proof (cases parsed)
  case (Some addr)
  assume wf: "app_wf E st"
  have run: "app_wf E st' \<Longrightarrow> api_run_sync E net k lp a fid did dry st' = (st1, r) \<Longrightarrow> app_wf E st1" for st' k a st1 r
    using app_wf_run_sync by (metis fst_conv)
  show ?thesis
    using wf Some run app_wf_remember
    by (auto simp: sync_folder_def split: prod.split sum.split option.split) metis+
qed (simp add: sync_folder_def)

lemma good_resolve:
  assumes g: "good (e_fk e) db"
  shows "good (e_fk e) (snd (fst (resolve_conflict e fid path action (fs, db))))"
proof -
  have r: "good (e_fk e) (record_resolved e fid w l n db)" for w l n
    unfolding record_resolved_def by (rule good_simple_ops(10) [OF g])
  have opt: "good (e_fk e) (snd (fst n)) \<Longrightarrow> (\<And>x. good (e_fk e) (snd (fst (h x)))) \<Longrightarrow>
      good (e_fk e) (snd (fst (case v of None \<Rightarrow> n | Some x \<Rightarrow> h x)))" for n h v
    by (cases v) simp_all
  have sm: "(\<And>x. good (e_fk e) (snd (fst (n x)))) \<Longrightarrow> (\<And>x. good (e_fk e) (snd (fst (h x)))) \<Longrightarrow>
      good (e_fk e) (snd (fst (case v of Inl x \<Rightarrow> n x | Inr x \<Rightarrow> h x)))" for n h v
    by (cases v) simp_all
  have pr: "(\<And>x y. good (e_fk e) (snd (fst (h x y)))) \<Longrightarrow> good (e_fk e) (snd (fst (case v of (x, y) \<Rightarrow> h x y)))" for h v
    by (cases v) simp
  have "good (e_fk e) (snd (fst (keep_backup e root fid p w l (fs, db))))" for root p w l
    by (simp add: keep_backup_def r g split: option.split sum.split)
  moreover have "good (e_fk e) (snd (fst (keep_original e root fid p w l (fs, db))))" for root p w l
    by (simp add: keep_original_def r g Let_def split: option.split)
  moreover have "good (e_fk e) (snd (fst (keep_both root p w l (fs, db))))" for root p w l
    unfolding keep_both_def prod.case Let_def by (intro opt sm) (simp_all add: g)
  ultimately show ?thesis
    unfolding resolve_conflict_def prod.case 
    by (intro opt sm pr) (simp_all add: g)
qed

section \<open>Runs of the app\<close>

text \<open>An incoming connection at the server of a folder.\<close>

definition incoming ::
  "api_env \<Rightarrow> i64 \<Rightarrow> bytes option \<Rightarrow> string option \<Rightarrow> string \<Rightarrow> SyncMessage list \<Rightarrow> ApiState \<Rightarrow> ApiState" where
  "incoming E k cert ip label msgs st =
     (case map_of (a_servers st) k of
        None \<Rightarrow> st
      | Some s \<Rightarrow>
          (case srv_gate (rs_handle s) of
             None \<Rightarrow> st
           | Some gate \<Rightarrow>
               (let cfg = \<lparr>v_env = ae_env E, v_policy = Confirm, v_device = rs_device s, v_own_cert = idn_cert (a_identity st),
                      v_local_path = rs_local_path s, v_folder_id = rs_folder_id s\<rparr>;
                    sv = connection cfg cert ip label msgs
                      \<lparr>v_fs = a_fs st, v_db = a_db st, v_gate = gate, v_out = [], v_events = []\<rparr>
                in set_handle k ((rs_handle s)\<lparr>srv_gate := Some (v_gate sv)\<rparr>) (st\<lparr>a_fs := v_fs sv, a_db := v_db sv\<rparr>))))"

lemma app_wf_incoming: "app_wf E st \<Longrightarrow> app_wf E (incoming E k cert ip label msgs st)"
proof -
  assume wf: "app_wf E st"
  show ?thesis
  proof (cases "map_of (a_servers st) k")
    case (Some s)
    then have "server_wf (a_device st) s" using app_wfD(4) [OF wf] map_of_SomeD by fast
    then obtain g where g: "srv_gate (rs_handle s) = Some g" "gate_wf g" "srv_owner_id (rs_handle s) = di_id (a_device st)"
      by (auto simp: server_wf_def handle_wf_def)
    define cfg where "cfg = \<lparr>v_env = ae_env E, v_policy = Confirm, v_device = rs_device s, v_own_cert = idn_cert (a_identity st),
      v_local_path = rs_local_path s, v_folder_id = rs_folder_id s\<rparr>"
    define sv where "sv = connection cfg cert ip label msgs
      \<lparr>v_fs = a_fs st, v_db = a_db st, v_gate = g, v_out = [], v_events = []\<rparr>"
    have "gate_wf (v_gate sv)"
      using gate_wf_step [of "\<lparr>v_fs = a_fs st, v_db = a_db st, v_gate = g, v_out = [], v_events = []\<rparr>" cfg "server_event.Connected cert ip label msgs"] g(2)
      by (simp add: sv_def)
    then have h: "handle_wf (di_id (a_device (st\<lparr>a_fs := v_fs sv, a_db := v_db sv\<rparr>))) ((rs_handle s)\<lparr>srv_gate := Some (v_gate sv)\<rparr>)"
      using g(3) by (simp add: handle_wf_def)
    have "good (e_fk (v_env cfg)) (v_db sv)"
      unfolding sv_def by (rule good_connection) (simp add: cfg_def app_wfD(1) [OF wf])
    then have "app_wf E (st\<lparr>a_fs := v_fs sv, a_db := v_db sv\<rparr>)" by (intro app_wf_world wf) (simp add: cfg_def)
    from app_wf_set_handle [OF this h] show ?thesis
      by (simp add: incoming_def Some g(1) cfg_def [symmetric] sv_def [symmetric] Let_def)
  qed (simp add: incoming_def wf)
qed

inductive app_step :: "api_env \<Rightarrow> ApiState \<Rightarrow> ApiState \<Rightarrow> bool" for E :: api_env where
  start: "app_step E st (fst (api_start_server E port fid lp st))"
| stop: "app_step E st (api_stop_server st)"
| rename: "app_step E st (fst (set_device_name E raw st))"
| approve: "app_step E st (fst (approve_pending_pairing E did name st))"
| deny: "app_step E st (fst (deny_pending_pairing E did st))"
| approve_folder: "app_step E st (fst (api_approve_folder_pairing E did guid name lp rp st))"
| deny_folder: "app_step E st (fst (api_deny_folder_pairing E did guid st))"
| upsert: "app_step E st (fst (api_upsert_device E did name st))"
| remove: "app_step E st (fst (api_remove_device E did st))"
| remove_all: "app_step E st (fst (remove_all_devices E st))"
| remove_folder: "app_step E st (fst (remove_folder E fid st))"
| attach: "app_step E st (fst (api_add_folder_device E fid did mode rp st))"
| detach: "app_step E st (fst (api_remove_folder_device E fid did st))"
| move: "app_step E st (fst (api_set_folder_local_path E fid lp st))"
| add: "app_step E st (fst (api_add_sync_folder E lp did dir st))"
| add_many: "app_step E st (fst (add_sync_folder_with_peers E lp name peers st))"
| share: "app_step E st (fst (api_share_folder E fid name st))"
| discoverable: "app_step E st (fst (api_set_shared_discoverable E sid b st))"
| unshare: "app_step E st (fst (api_unshare_folder E sid st))"
| pair: "app_step E st (fst (pair_with_device E deser msg_of addr dial st))"
| repair: "app_step E st (fst (auto_repair_known_devices E deser msg_of parse dial_each st))"
| request: "request_folder_pairing E deser addr polled pid guid sn lp ms st = Some res \<Longrightarrow> app_step E st (fst res)"
| sync: "app_step E st (fst (sync_folder E sync_msg (net :: string network) fid lp parsed did dry st))"
| resolve: "app_step E st (fst (api_resolve_conflict E fid path action st))"
| reset: "app_step E st (fst (factory_reset st))"
| incoming: "app_step E st (incoming E k cert ip label msgs st)"

inductive app_reach :: "api_env \<Rightarrow> ApiState \<Rightarrow> bool" for E :: api_env where
  init: "db_reach (e_fk (ae_env E)) db \<Longrightarrow> init_engine E dir fs db = (w, Inr st) \<Longrightarrow> app_reach E st"
| step: "app_reach E st \<Longrightarrow> app_step E st st' \<Longrightarrow> app_reach E st'"

lemma app_wf_step:
  assumes iter: "\<forall>xs. mset (ae_iter E xs) = mset xs" and "app_step E st st'" and wf: "app_wf E st"
  shows "app_wf E st'"
  using assms(2)
proof cases
  case stop
  then show ?thesis using wf by (simp add: api_stop_server_def app_wf_def)
next
  case (resolve fid path action)
  have "app_wf E (fst (api_resolve_conflict E fid path action st))"
    using good_resolve [OF app_wfD(1) [OF wf]] by (simp add: api_resolve_conflict_def case_prod_beta app_wf_world [OF wf])
  then show ?thesis by (simp add: resolve)
next
  case (request deser addr polled pid guid sn lp ms res)
  then show ?thesis using app_wf_request_folder [OF wf] by simp
next
  case reset
  then show ?thesis using wf by (simp add: factory_reset_def api_stop_server_def Let_def app_wf_def split: option.split)
qed (simp_all add: app_wf_start app_wf_rename app_wf_decisions app_wf_database app_wf_pair app_wf_repair
    app_wf_request_folder app_wf_sync_folder app_wf_incoming iter wf)

lemma app_wf_serve: "app_wf E st \<Longrightarrow> app_wf E (serve_rows E i served rows st)"
  by (induction E i served rows st rule: serve_rows.induct) (auto simp: app_wf_start)

lemma init_engine_ok:
  assumes "init_engine E dir fs db = (w, Inr st)"
  obtains fs0 fs1 fs2 ident db2 where "create_dir_all fs (raw_path dir) = Some fs0"
    "load_or_create_identity (e_blake3 (ae_env E)) (ae_parse_key E) (ae_generated E) (e_clock (ae_env E)) (raw_path dir) fs0 = (fs1, Inr ident)"
    "migrate_legacy_device_identity (e_fk (ae_env E)) (e_clock (ae_env E)) (derived_id (ae_env E)) (raw_path dir) (idn_cert ident) fs1
       (initialize_schema (e_fk (ae_env E)) (ae_mint E) db) = (fs2, (db2, Inr ()))"
    "st = serve_rows E 0 [] (list_sync_folders db2) \<lparr>a_fs = fs2, a_db = db2, a_identity = ident, a_data_dir = dir,
       a_device = device_of E ident fs2 (raw_path dir), a_pairing = device_of E ident fs2 (raw_path dir),
       a_engine = device_of E ident fs2 (raw_path dir), a_servers = []\<rparr>"
  using assms by (auto simp: init_engine_def Let_def split: option.splits prod.splits sum.splits if_splits)

lemma good_migrate:
  assumes "good fk db"
  shows "good fk (fst (snd (migrate_legacy_device_identity fk now canon path cert fs db)))"
proof -
  have "fst (snd (migrate_legacy_device_identity fk now canon path cert fs db)) =
      fst (reconcile_devices_by_cert fk now canon cert
        (Option.bind (Option.bind (fs_read fs (path_join path ''device.id'')) from_utf8) (\<lambda>s. let t = str_trim s in if t = [] then None else Some t))
        (case load_device_name fs path of Some n \<Rightarrow> n | None \<Rightarrow> ''ferrisync'') db)"
    unfolding migrate_legacy_device_identity_def Let_def by (simp split: prod.split sum.split)
  then show ?thesis using good_reconcile [OF assms] by simp
qed

lemma app_wf_init:
  assumes "db_reach (e_fk (ae_env E)) db" and "init_engine E dir fs db = (w, Inr st)"
  shows "app_wf E st"
proof (rule init_engine_ok [OF assms(2)])
  fix fs0 fs1 fs2 ident db2
  assume m: "migrate_legacy_device_identity (e_fk (ae_env E)) (e_clock (ae_env E)) (derived_id (ae_env E)) (raw_path dir) (idn_cert ident) fs1
       (initialize_schema (e_fk (ae_env E)) (ae_mint E) db) = (fs2, (db2, Inr ()))"
    and st: "st = serve_rows E 0 [] (list_sync_folders db2) \<lparr>a_fs = fs2, a_db = db2, a_identity = ident, a_data_dir = dir,
       a_device = device_of E ident fs2 (raw_path dir), a_pairing = device_of E ident fs2 (raw_path dir),
       a_engine = device_of E ident fs2 (raw_path dir), a_servers = []\<rparr>"
  have "good (e_fk (ae_env E)) (initialize_schema (e_fk (ae_env E)) (ae_mint E) db)"
    by (rule seq_ok_initialize [OF good_reach [OF assms(1)]])
  from good_migrate [OF this] m have "good (e_fk (ae_env E)) db2" by (metis fst_conv snd_conv)
  then show ?thesis unfolding st by (intro app_wf_serve) (simp add: app_wf_def)
qed


definition example_app :: api_env where
  "example_app = \<lparr>ae_env = example_env, ae_mint = (\<lambda>_. ''g''), ae_bind = (\<lambda>_ p. (Some p, None)), ae_iter = (\<lambda>xs. xs),
     ae_hostname = Some ''host'', ae_parse_key = (\<lambda>_. True), ae_generated = Some (replicate 16 1, [2]), ae_opens = True\<rparr>"

lemma example_starts: "is_ok (snd (init_engine example_app ''/d'' empty_dir db_empty))"
  by code_simp


end
