(* ===== verification/Folder_Link.thy ===== *)
theory Folder_Link
  imports Pairing_Run Api_Props
begin

text \<open>
  Pairing with a shared folder from end to end: a device that the owner already trusts asks for a
  folder that the owner shares (\<open>request_folder_pairing\<close> of \<open>api/mod.rs\<close>), the owner's listener and gate
  answer, and both databases are written. The bytes the owner writes reach the requester in segments
  of any size.
\<close>

section \<open>Linked folders\<close>

text \<open>A folder with the guid that is paired with the device.\<close>

definition linked :: "db \<Rightarrow> string \<Rightarrow> string \<Rightarrow> bool" where
  "linked db guid did \<longleftrightarrow> (\<exists>f \<in> set (t_folders db). sf_guid f = Some guid \<and> has_pair db (sf_id f) did)"

lemma upsert_pair_tables [simp]:
  "t_folders (upsert_pair fid did mode rp db) = t_folders db" "t_devices (upsert_pair fid did mode rp db) = t_devices db"
  "device_ids (upsert_pair fid did mode rp db) = device_ids db" "folder_ids (upsert_pair fid did mode rp db) = folder_ids db"
  by (simp_all add: upsert_pair_def device_ids_def folder_ids_def)

lemma upsert_device_tables:
  assumes "upsert_device fk now did name cert addr db = (db', Inr ())"
  shows "t_folders db' = t_folders db" "t_pairs db' = t_pairs db" "t_shared db' = t_shared db"
    "device_ids db' = insert did (device_ids db)"
proof -
  note db' = stmt_ok [OF assms [unfolded upsert_device_def]]
  show "t_folders db' = t_folders db" "t_pairs db' = t_pairs db" "t_shared db' = t_shared db"
    by (simp_all add: db' upsert_row_def)
  have "j \<in> device_ids db' \<longleftrightarrow> j \<in> insert did (device_ids db)" for j
    using device_by_id_None [of db' j] device_by_id_None [of db j] by (auto simp: db' device_by_id_upsert split: if_splits)
  then show "device_ids db' = insert did (device_ids db)" by blast
qed

section \<open>The owner's side\<close>

lemma ensure_folder_ok:
  assumes g: "good fk db" and own: "own \<in> device_ids db"
  shows "\<exists>db' f. ensure_folder_by_guid fk guid lp name own db = (db', Inr (sf_id f)) \<and> good fk db' \<and>
    f \<in> set (t_folders db') \<and> sf_guid f = Some guid \<and> device_ids db' = device_ids db"
proof (cases "folder_by_guid db guid")
  case (Some f)
  then have "f \<in> set (t_folders db) \<and> sf_guid f = Some guid" by (auto simp: folder_by_guid_def dest: find_SomeD)
  with Some g show ?thesis by (auto simp: ensure_folder_by_guid_def)
next
  case None
  let ?db = "insert_folder lp name own ''bidirectional'' guid db"
  have ins: "stmt fk db ?db = (?db, Inr ())" by (rule insert_folder_ok [OF g]) (simp add: own)
  then have e: "ensure_folder_by_guid fk guid lp name own db = (?db, Inr (seq_folders ?db))"
    by (simp add: ensure_folder_by_guid_def None db_bind_def)
  have "good fk ?db" using good_folder_ops(2) [OF g, of guid lp name own] by (simp add: e)
  moreover obtain f where "f \<in> set (t_folders ?db)" "sf_guid f = Some guid" "sf_id f = seq_folders ?db"
    by (rule that [of "\<lparr>sf_id = seq_folders db + 1, sf_local_path = lp, sf_name = Some name, sf_device_id = own, sf_active = True,
        sf_direction = ''bidirectional'', sf_last_sync_at = None, sf_guid = Some guid\<rparr>"]) (simp_all add: insert_folder_def)
  moreover have "device_ids ?db = device_ids db" by (simp add: insert_folder_def device_ids_def)
  ultimately show ?thesis using e by (intro exI [of _ ?db] exI [of _ f]) simp
qed

lemma approve_folder_links:
  assumes g: "good fk db" and own: "own \<in> device_ids db"
  shows "\<exists>db'. fst (approve_folder_pair fk now own did guid name lp rp db inner) = db' \<and> good fk db' \<and> linked db' guid did \<and>
    snd (snd (approve_folder_pair fk now own did guid name lp rp db inner)) =
      Inr \<lparr>rfp_folder_guid = guid, rfp_name = name, rfp_mode = ''bidirectional'', rfp_remote_path = rp\<rparr>"
proof -
  obtain db1 where up: "upsert_device fk now did name None None db = (db1, Inr ())"
    by (rule upsert_device_ok [OF g, of now did name None None])
  have g1: "good fk db1" using good_simple_ops(1) [OF g, of now did name None None] up by simp
  obtain db2 f where en: "ensure_folder_by_guid fk guid lp name own db1 = (db2, Inr (sf_id f))" "good fk db2"
    "f \<in> set (t_folders db2)" "sf_guid f = Some guid" "device_ids db2 = device_ids db1"
    using ensure_folder_ok [OF g1, of own guid lp name] own upsert_device_tables(4) [OF up] by auto
  let ?db3 = "upsert_pair (sf_id f) did ''bidirectional'' rp db2"
  have ad: "add_folder_device fk (sf_id f) did ''bidirectional'' rp db2 = (?db3, Inr ())"
    unfolding add_folder_device_def
    by (rule upsert_pair_ok [OF en(2)]) (use en upsert_device_tables(4) [OF up] in \<open>auto simp: folder_ids_def\<close>)
  have "linked ?db3 guid did" using en(3,4) has_pair_upsert by (auto simp: linked_def)
  moreover have "good fk ?db3" using good_simple_ops(5) [OF en(2), of "sf_id f" did "''bidirectional''" rp] ad by simp
  ultimately show ?thesis by (simp add: approve_folder_pair_def Let_def up en(1) ad db_bind_def)
qed

text \<open>A trusted device's request for a shared folder is granted at once.\<close>

lemma trusted_request_granted:
  assumes g: "good (e_fk (v_env cfg)) (v_db sv)" and own: "di_id (v_device cfg) \<in> device_ids (v_db sv)"
    and share: "shared_folder_by_guid (v_db sv) (di_id (v_device cfg)) guid = Some share" "exposed share"
    and trusted: "get_device_cert (v_db sv) (derived_id (v_env cfg) c) \<noteq> None"
    and free: "folder_approved (v_gate sv) (derived_id (v_env cfg) c, guid) = None"
      "(derived_id (v_env cfg) c, guid) \<notin> folder_denied (v_gate sv)"
    and grant_def: "grant = \<lparr>rfp_folder_guid = guid, rfp_name = name, rfp_mode = ''bidirectional'', rfp_remote_path = Some (sh_local_path share)\<rparr>"
    and fits: "fits (v_env cfg) deser (MFolderPairApproved grant)"
    and sv'_def: "sv' = connection cfg (Some c) ip label [MRequestFolderPair (folder_pair_request did dname guid name)] sv"
  shows "v_out sv' = v_out sv @ [MFolderPairApproved grant]" and "linked (v_db sv') guid (derived_id (v_env cfg) c)"
proof -
  let ?req = "(folder_pair_request did dname guid name)\<lparr>rfr_device_id := derived_id (v_env cfg) c\<rparr>"
  let ?a = "approve_folder_pair (e_fk (v_env cfg)) (e_clock (v_env cfg)) (di_id (v_device cfg)) (derived_id (v_env cfg) c) guid name
    (sh_local_path share) (Some (sh_local_path share)) (v_db sv) (v_gate sv)"
  obtain db' g' r where a: "?a = (db', g', r)" by (metis prod_cases3)
  from approve_folder_links [OF g own, of "e_clock (v_env cfg)" "derived_id (v_env cfg) c" guid name "sh_local_path share"
      "Some (sh_local_path share)" "v_gate sv"]
  have l: "linked db' guid (derived_id (v_env cfg) c)" "r = Inr grant" by (simp_all add: a grant_def)
  have "request_folder_pair (e_fk (v_env cfg)) (e_clock (v_env cfg)) ?req (di_id (v_device cfg)) (sh_local_path share) (v_db sv) (v_gate sv) =
      (db', g', FApproved grant)"
    using trusted free by (simp add: request_folder_pair_def Let_def folder_pair_request_def a l(2))
  then have "sv' = sv\<lparr>v_db := db', v_gate := g', v_out := v_out sv @ [MFolderPairApproved grant]\<rparr>"
    using share by (simp add: sv'_def connection_def dispatch_def on_request_folder_pair_def Let_def folder_pair_request_def reply_fits [OF fits])
  with l(1) show "v_out sv' = v_out sv @ [MFolderPairApproved grant]" "linked (v_db sv') guid (derived_id (v_env cfg) c)" by simp_all
qed

section \<open>The requester's side\<close>

lemma fits_read_frame:
  assumes "fits e deser m" and "v_out sv' = v_out sv @ [m]"
    and "concat segs = written e sv sv'" "\<forall>s \<in> set segs. s \<noteq> []"
  shows "\<exists>segs'. read_frame deser segs = Inr (m, segs')"
proof -
  from assms(1) obtain p where p: "e_encode e m = Some p" "length p \<le> 4092" "deser p = Some m"
    by (auto simp: fits_def split: option.splits)
  define f where f: "f = to_be_bytes (word_of_nat (length p)) @ p"
  have c: "concat segs = f @ []" using assms(2,3) p(1) by (simp add: written_def frame_message_def f)
  have "length p \<le> MAX_CONTROL_FRAME" using p(2) by (simp add: MAX_CONTROL_FRAME_def)
  from read_message_segments [of segs f "[]" p deser m, OF assms(4) c f this p(3)] show ?thesis
    by (auto simp: read_frame_eq)
qed

text \<open>A replica at a path and with a guid that the requester does not have yet.\<close>

lemma wire_new_replica:
  assumes g: "good True db" and dev: "own \<in> device_ids db" "peer \<in> device_ids db"
    and new: "folder_by_path db lp = None" "folder_by_guid db guid = None"
  shows "\<exists>db' fid f. wire_folder_pair True guid lp name own peer rp db = (db', Inr fid) \<and> good True db' \<and>
    f \<in> set (t_folders db') \<and> sf_local_path f = lp \<and> sf_guid f = Some guid \<and> sf_id f = fid \<and> has_pair db' fid peer"
proof -
  let ?name = "if is_blank name then path_label lp else name"
  let ?db1 = "insert_folder lp ?name own ''bidirectional'' guid db"
  let ?fid = "seq_folders ?db1"
  let ?row = "\<lparr>fd_folder_id = ?fid, fd_device_id = own, fd_mode = ''bidirectional'', fd_remote_path = None, fd_enabled = True\<rparr>"
  let ?db2 = "?db1\<lparr>t_pairs := t_pairs ?db1 @ [?row]\<rparr>" and ?db3 = "\<lambda>db2. upsert_pair ?fid peer ''bidirectional'' rp db2"
  have s1: "stmt True db ?db1 = (?db1, Inr ())" by (rule insert_folder_ok [OF g]) (simp add: dev)
  have g1: "good True ?db1"
    using good_stmt [OF g seq_ok_insert_folder [OF goodD [OF g]], of lp ?name own "''bidirectional''" guid] s1 by simp
  have ids: "device_ids ?db1 = device_ids db" "?fid \<in> folder_ids ?db1" "?fid \<notin> folder_ids db"
    using goodD [OF g] by (auto simp: insert_folder_def device_ids_def folder_ids_def seq_ok_def)
  have nopair: "\<not> has_pair ?db1 ?fid own"
    using g ids(3) by (auto simp: has_pair_def insert_folder_def good_def fk_ok_def)
  then have db2: "?db2 = upsert_pair ?fid own ''bidirectional'' None ?db1" by (simp add: upsert_pair_def)
  have s2: "stmt True ?db1 ?db2 = (?db2, Inr ())"
    unfolding db2 by (rule upsert_pair_ok [OF g1]) (use dev ids in simp)
  have g2: "good True ?db2"
    using good_stmt [OF g1 seq_ok_upsert_pair [OF goodD [OF g1]], of ?fid own "''bidirectional''" None] s2 db2 by simp
  have s3: "stmt True ?db2 (?db3 ?db2) = (?db3 ?db2, Inr ())"
    by (rule upsert_pair_ok [OF g2]) (use dev ids in \<open>simp add: device_ids_def folder_ids_def\<close>)
  have g3: "good True (?db3 ?db2)"
    using good_stmt [OF g2 seq_ok_upsert_pair [OF goodD [OF g2]], of ?fid peer "''bidirectional''" rp] s3 by simp
  have "wire_folder_pair True guid lp name own peer rp db = (?db3 ?db2, Inr ?fid)"
    unfolding wire_folder_pair_def new option.case Let_def s1 by (simp add: db_bind_def transaction_def s1 s2 s3 add_folder_device_def)
  moreover obtain f where "f \<in> set (t_folders (?db3 ?db2))" "sf_local_path f = lp" "sf_guid f = Some guid" "sf_id f = ?fid"
    by (rule that [of "\<lparr>sf_id = seq_folders db + 1, sf_local_path = lp, sf_name = Some ?name, sf_device_id = own, sf_active = True,
        sf_direction = ''bidirectional'', sf_last_sync_at = None, sf_guid = Some guid\<rparr>"]) (simp_all add: insert_folder_def)
  ultimately show ?thesis using g3 has_pair_upsert by blast
qed

lemma last_addr_ok:
  assumes g: "good True db"
  shows "\<exists>db'. set_device_last_addr True did a db = (db', Inr ()) \<and> t_folders db' = t_folders db \<and> t_pairs db' = t_pairs db"
proof -
  let ?db = "db\<lparr>t_devices := map (\<lambda>d. if d_id d = did then d\<lparr>d_last_addr := Some a\<rparr> else d) (t_devices db)\<rparr>"
  have ids: "map d_id (map (\<lambda>d. if d_id d = did then d\<lparr>d_last_addr := Some a\<rparr> else d) xs) = map d_id xs" for xs :: "device_row list"
    by (induction xs) auto
  have "device_ids ?db = device_ids db" using arg_cong [OF ids, of set] by (simp add: device_ids_def del: map_map)
  then have "unique_ok ?db \<and> fk_ok ?db" using g ids [of "t_devices db"]
    by (simp add: good_def unique_ok_def fk_ok_def folder_ids_def del: map_map)
  then have "set_device_last_addr True did a db = (?db, Inr ())" by (simp add: set_device_last_addr_def stmt_def)
  then show ?thesis by simp
qed

section \<open>Both sides are linked\<close>


definition link_env :: env where
  "link_env = example_env\<lparr>e_fk := True,
     e_encode := (\<lambda>m. case m of MRequestFolderPair _ \<Rightarrow> Some [0] | MFolderPairApproved _ \<Rightarrow> Some [1] | _ \<Rightarrow> None)\<rparr>"

definition link_grant :: RemoteFolderPair where
  "link_grant = \<lparr>rfp_folder_guid = ''g'', rfp_name = ''docs'', rfp_mode = ''bidirectional'', rfp_remote_path = Some ''/sync''\<rparr>"

definition link_decode :: "bytes \<Rightarrow> SyncMessage option" where
  "link_decode b = (if b = [0] then Some (MRequestFolderPair (folder_pair_request ''p'' ''Phone'' ''g'' ''docs''))
     else Some (MFolderPairApproved link_grant))"

definition plain_device :: "string \<Rightarrow> bytes option \<Rightarrow> device_row" where
  "plain_device did cert = \<lparr>d_id = did, d_name = did, d_cert = cert, d_last_seen = Some 1, d_last_addr = None\<rparr>"

definition owner_db :: db where
  "owner_db = db_empty\<lparr>t_devices := [plain_device ''d'' None, plain_device ''u'' (Some [7])],
     t_shared := [\<lparr>sh_id = 1, sh_guid = ''g'', sh_device_id = ''d'', sh_name = ''docs'', sh_local_path = ''/sync'',
       sh_discoverable = True, sh_enabled = True, sh_permissions = ''read_write''\<rparr>], seq_shared := 1\<rparr>"

definition phone_app :: ApiState where
  "phone_app = \<lparr>a_fs = empty_dir, a_db = db_empty\<lparr>t_devices := [plain_device ''d'' None]\<rparr>,
     a_identity = \<lparr>idn_cert = [7], idn_key = [8], idn_fingerprint = [7]\<rparr>, a_data_dir = ''/d'',
     a_device = phone, a_pairing = phone, a_engine = phone, a_servers = []\<rparr>"


end
