(* ===== verification/Api_Results.thy ===== *)
theory Api_Results
  imports Api_Props
begin

text \<open>
  What the operations of \<open>api/mod.rs\<close> return and do: the folder list and the queue of pairing requests
  against their specifications, the effects of a rename and of a factory reset, and behaviours of
  the code that its documentation does not mention.
\<close>

section \<open>The folder list\<close>

definition pairs_of :: "i64 \<Rightarrow> folder_group list \<Rightarrow> (string \<times> string) list" where
  "pairs_of f gs = (case map_of gs f of None \<Rightarrow> [] | Some (_, _, pairs) \<Rightarrow> pairs)"

lemma group_row_keys: "set (map fst (group_row row gs)) = insert (fst row) (set (map fst gs))"
  by (induction row gs rule: group_row.induct) auto

lemma group_row_sorted: "sorted_wrt (<) (map fst gs) \<Longrightarrow> sorted_wrt (<) (map fst (group_row row gs))"
proof (induction row gs rule: group_row.induct)
  case (2 fid path dev mode sync_at f p l pairs gs)
  have "\<forall>k \<in> set (map fst (group_row (fid, path, dev, mode, sync_at) gs)). f < k" if "f < fid"
    unfolding group_row_keys using 2 that by auto
  with 2 show ?case by (auto simp del: set_map)
qed simp

lemma group_row_pairs:
  assumes "sorted_wrt (<) (map fst gs)"
  shows "pairs_of f (group_row (fid, path, dev, mode, sync_at) gs) = pairs_of f gs @ (if f = fid then [(dev, mode)] else [])"
  using assms
proof (induction gs)
  case (Cons g gs)
  obtain k p l pairs where g: "g = (k, p, l, pairs)" by (metis prod_cases4)
  have "map_of gs fid = None" if "fid < k" using Cons.prems that by (force simp: g map_of_eq_None_iff)
  with Cons show ?case by (auto simp: g pairs_of_def)
qed (simp add: pairs_of_def)

lemma fold_group:
  "sorted_wrt (<) (map fst gs) \<Longrightarrow>
     sorted_wrt (<) (map fst (fold group_row rows gs)) \<and>
     set (map fst (fold group_row rows gs)) = set (map fst gs) \<union> fst ` set rows \<and>
     pairs_of f (fold group_row rows gs) = pairs_of f gs @ [(dev, mode). (fid, _, dev, mode, _) \<leftarrow> rows, fid = f]"
proof (induction rows arbitrary: gs)
  case (Cons row rows)
  obtain fid path dev mode sync_at where row: "row = (fid, path, dev, mode, sync_at)" by (metis prod_cases5)
  from Cons.IH [OF group_row_sorted [OF Cons.prems, of row]] group_row_pairs [OF Cons.prems] group_row_keys [of row gs]
  show ?case by (auto simp: row)
qed simp

lemma folder_entry_fields:
  "fe_id (folder_entry db own (fid, path, sync_at, pairs)) = fid"
  "map (\<lambda>p. (fpe_device_id p, fpe_mode p)) (fe_peers (folder_entry db own (fid, path, sync_at, pairs))) =
     filter (\<lambda>(dev, _). dev \<noteq> own) pairs"
  by (auto simp: folder_entry_def Let_def comp_def split_def)


section \<open>The queue of pairing requests\<close>

lemma map_dedup_on: "map k (dedup_on k xs) = remdups_adj (map k xs)"
  by (induction k xs rule: dedup_on.induct) auto

lemma set_dedup_on: "set (dedup_on k xs) \<subseteq> set xs"
  by (induction k xs rule: dedup_on.induct) auto

lemma remdups_adj_sorted:
  fixes xs :: "'a :: linorder list"
  shows "sorted xs \<Longrightarrow> sorted (remdups_adj xs) \<and> distinct (remdups_adj xs)"
  by (induction xs rule: remdups_adj.induct) force+

text \<open>Whatever the order in which the servers are visited, the queue shown to the operator lists
  exactly the devices whose requests some running server holds, each once and in ascending order.\<close>

theorem pairing_queue_exact:
  "map snd (api_pending_pairings E st) = sorted_list_of_set
     {pp_device_id p |p k s g. (k, s) \<in> set (ae_iter E (a_servers st)) \<and> srv_gate (rs_handle s) = Some g \<and> p \<in> set (pending g)}"
proof -
  let ?all = "concat (map (\<lambda>(_, s). or_empty (pending_pairings (rs_handle s))) (ae_iter E (a_servers st)))"
  have held: "set (or_empty (pending_pairings h)) =
      {(pp_device_name p, pp_device_id p) |p g. srv_gate h = Some g \<and> p \<in> set (pending g)}" for h
    by (cases "srv_gate h") (auto simp: pending_pairings_def require_gate_def or_empty_def)
  have "snd ` set ?all =
      {pp_device_id p |p k s g. (k, s) \<in> set (ae_iter E (a_servers st)) \<and> srv_gate (rs_handle s) = Some g \<and> p \<in> set (pending g)}"
    (is "_ = ?ids")
    by (force simp: held)
  then have ids: "set (remdups_adj (map snd (sort_key snd ?all))) = ?ids" by simp
  have "finite ?ids" using ids by (metis List.finite_set)
  with ids remdups_adj_sorted [of "map snd (sort_key snd ?all)"]
  have "remdups_adj (map snd (sort_key snd ?all)) = sorted_list_of_set ?ids"
    by (intro sorted_distinct_set_unique) simp_all
  then show ?thesis by (simp add: api_pending_pairings_def map_dedup_on)
qed

section \<open>Renaming the device\<close>

definition registered :: "db \<Rightarrow> string \<Rightarrow> bool" where
  "registered db path \<longleftrightarrow> (\<exists>row \<in> set (list_sync_folders db). fst (snd row) = path)"

text \<open>A server whose folder is registered and whose port can be bound starts without touching the database.\<close>

definition startable :: "api_env \<Rightarrow> db \<Rightarrow> i64 \<times> RunningServer \<Rightarrow> bool" where
  "startable E db = (\<lambda>(_, s). registered db (rs_local_path s) \<and> (\<exists>p. fst (ae_bind E (rs_local_path s) (rs_port s)) = Some p))"

lemma restart_startable:
  assumes "startable E (a_db st) (k, s)" and new: "k \<notin> fst ` set (a_servers st)"
  shows "\<exists>s'. restart_server E (k, s) st = st\<lparr>a_servers := a_servers st @ [(k, s')]\<rparr> \<and>
    rs_local_path s' = rs_local_path s \<and> rs_device s' = a_device st \<and> srv_gate (rs_handle s') = Some gate_new"
proof -
  from assms(1) obtain p b4 where b: "ae_bind E (rs_local_path s) (rs_port s) = (Some p, b4)"
    and reg: "registered (a_db st) (rs_local_path s)" by (cases "ae_bind E (rs_local_path s) (rs_port s)") (auto simp: startable_def)
  from reg obtain row where f: "find (\<lambda>(fid, path, _). path = rs_local_path s) (list_sync_folders (a_db st)) = Some row"
    by (cases "find (\<lambda>(fid, path, _). path = rs_local_path s) (list_sync_folders (a_db st))")
      (auto simp: registered_def find_None_iff split_def)
  obtain fid rest where "row = (fid, rest)" by (cases row)
  with f have "register_folder fk mint now (rs_local_path s) dev (a_db st) = (a_db st, Inr fid)" for fk mint now dev
    by (simp add: register_folder_def)
  then show ?thesis using new
    by (intro exI [of _ "\<lparr>rs_handle = \<lparr>srv_folder = rs_local_path s, srv_port = p, srv_owner_id = di_id (a_device st),
        srv_gate = Some gate_new\<rparr>, rs_port = p, rs_local_path = rs_local_path s, rs_device = a_device st, rs_folder_id = fid\<rparr>"])
      (simp add: restart_server_def api_start_server_def b serve_folder_def current_device_def)
qed

lemma restart_fold:
  assumes "\<forall>x \<in> set xs. startable E (a_db st) x" and "distinct (map fst xs)"
    and "fst ` set xs \<inter> fst ` set (a_servers st) = {}"
  shows "\<exists>ys. fold (restart_server E) xs st = st\<lparr>a_servers := a_servers st @ ys\<rparr> \<and>
    list_all2 (\<lambda>(k, s) (k', s'). k' = k \<and> rs_local_path s' = rs_local_path s \<and> rs_device s' = a_device st \<and>
      srv_gate (rs_handle s') = Some gate_new) xs ys"
  using assms
proof (induction xs arbitrary: st)
  case Nil
  show ?case by (rule exI [of _ "[]"]) simp
next
  case (Cons x xs)
  obtain k s where x: "x = (k, s)" by fastforce
  from restart_startable [of E st k s] Cons.prems obtain s' where s':
    "restart_server E x st = st\<lparr>a_servers := a_servers st @ [(k, s')]\<rparr>"
    "rs_local_path s' = rs_local_path s" "rs_device s' = a_device st" "srv_gate (rs_handle s') = Some gate_new"
    by (auto simp: x)
  let ?st = "st\<lparr>a_servers := a_servers st @ [(k, s')]\<rparr>"
  have "\<exists>ys. fold (restart_server E) xs ?st = ?st\<lparr>a_servers := a_servers ?st @ ys\<rparr> \<and>
    list_all2 (\<lambda>(k, s) (k', s'). k' = k \<and> rs_local_path s' = rs_local_path s \<and> rs_device s' = a_device ?st \<and>
      srv_gate (rs_handle s') = Some gate_new) xs ys"
    by (rule Cons.IH) (use Cons.prems in \<open>auto simp: x\<close>)
  then obtain ys where ys: "fold (restart_server E) xs ?st = ?st\<lparr>a_servers := a_servers ?st @ ys\<rparr>"
    "list_all2 (\<lambda>(k, s) (k', s'). k' = k \<and> rs_local_path s' = rs_local_path s \<and> rs_device s' = a_device st \<and>
      srv_gate (rs_handle s') = Some gate_new) xs ys" by auto
  show ?case by (rule exI [of _ "(k, s') # ys"]) (use ys s' in \<open>simp add: x\<close>)
qed

text \<open>An accepted rename reaches every server: when the folders served are registered and their ports
  can be bound again, the same folders are served at the same paths under the new name; but their
  gates start afresh, so requests that were held are dropped and devices and folder pairings that the
  operator had denied are no longer denied.\<close>

theorem rename_restarts_servers:
  assumes ok: "set_device_name E raw st = (st', Inr name)" and iter: "\<forall>xs. mset (ae_iter E xs) = mset xs"
    and wf: "distinct (map fst (a_servers st))" and start: "\<forall>x \<in> set (a_servers st). startable E (a_db st) x"
  shows "di_name (a_device st') = name \<and> di_name (a_pairing st') = name \<and> a_db st' = a_db st \<and>
    fst ` set (a_servers st') = fst ` set (a_servers st) \<and>
    (\<forall>(k, s') \<in> set (a_servers st'). \<exists>s. (k, s) \<in> set (a_servers st) \<and> rs_local_path s' = rs_local_path s \<and>
       di_name (rs_device s') = name \<and> srv_gate (rs_handle s') = Some gate_new)"
proof -
  let ?xs = "ae_iter E (a_servers st)"
  have set: "set ?xs = set (a_servers st)" and m: "mset (map fst ?xs) = mset (map fst (a_servers st))"
    using iter by (auto dest: mset_eq_setD)
  have d: "distinct (map fst ?xs)" using wf mset_eq_imp_distinct_iff [OF m] by simp
  from ok have name: "sanitize_device_name raw = Inr name"
    and st': "st' = restart_all_servers E (st\<lparr>a_fs := persist_device_name (e_clock (ae_env E)) (raw_path (a_data_dir st)) name (a_fs st),
        a_device := (a_device st)\<lparr>di_name := name\<rparr>, a_pairing := (a_pairing st)\<lparr>di_name := name\<rparr>\<rparr>)"
    by (auto simp: set_device_name_def split: sum.splits)
  let ?st = "st\<lparr>a_fs := persist_device_name (e_clock (ae_env E)) (raw_path (a_data_dir st)) name (a_fs st),
        a_device := (a_device st)\<lparr>di_name := name\<rparr>, a_pairing := (a_pairing st)\<lparr>di_name := name\<rparr>, a_servers := []\<rparr>"
  have "\<exists>ys. fold (restart_server E) ?xs ?st = ?st\<lparr>a_servers := a_servers ?st @ ys\<rparr> \<and>
    list_all2 (\<lambda>(k, s) (k', s'). k' = k \<and> rs_local_path s' = rs_local_path s \<and> rs_device s' = a_device ?st \<and>
      srv_gate (rs_handle s') = Some gate_new) ?xs ys"
    by (rule restart_fold) (use start d set in simp_all)
  then obtain ys where f: "fold (restart_server E) ?xs ?st = ?st\<lparr>a_servers := a_servers ?st @ ys\<rparr>"
    and l: "list_all2 (\<lambda>(k, s) (k', s'). k' = k \<and> rs_local_path s' = rs_local_path s \<and> rs_device s' = a_device ?st \<and>
      srv_gate (rs_handle s') = Some gate_new) ?xs ys" by blast
  have ys: "fold (restart_server E) ?xs ?st = ?st\<lparr>a_servers := ys\<rparr>"
    "list_all2 (\<lambda>(k, s) (k', s'). k' = k \<and> rs_local_path s' = rs_local_path s \<and> di_name (rs_device s') = name \<and>
      srv_gate (rs_handle s') = Some gate_new) ?xs ys"
    using f by simp (rule list_all2_mono [OF l], auto)
  have st'_ys: "st' = ?st\<lparr>a_servers := ys\<rparr>" using ys(1) by (simp add: st' restart_all_servers_def)
  have "map fst ys = map fst ?xs" using ys(2) by (induction rule: list_all2_induct) auto
  then have keys: "fst ` set ys = fst ` set (a_servers st)" using set by (metis list.set_map)
  have "\<exists>s. (k, s) \<in> set ?xs \<and> rs_local_path s' = rs_local_path s \<and> di_name (rs_device s') = name \<and> srv_gate (rs_handle s') = Some gate_new"
    if "(k, s') \<in> set ys" for k s'
    using ys(2) that by (induction rule: list_all2_induct) auto
  with keys set show ?thesis by (auto simp: st'_ys)
qed

definition serving_app :: ApiState where
  "serving_app = \<lparr>a_fs = empty_dir, a_db = bulk_db, a_identity = \<lparr>idn_cert = [1], idn_key = [2], idn_fingerprint = [1]\<rparr>,
     a_data_dir = ''/d'', a_device = \<lparr>di_id = ''me'', di_name = ''old'', di_cert_fingerprint = [1]\<rparr>,
     a_pairing = \<lparr>di_id = ''me'', di_name = ''old'', di_cert_fingerprint = [1]\<rparr>,
     a_engine = \<lparr>di_id = ''me'', di_name = ''old'', di_cert_fingerprint = [1]\<rparr>,
     a_servers = [(1, \<lparr>rs_handle = \<lparr>srv_folder = ''/sync'', srv_port = 9847, srv_owner_id = ''me'',
         srv_gate = Some (gate_new\<lparr>denied := {''x''}\<rparr>)\<rparr>, rs_port = 9847, rs_local_path = ''/sync'',
       rs_device = \<lparr>di_id = ''me'', di_name = ''old'', di_cert_fingerprint = [1]\<rparr>, rs_folder_id = 1\<rparr>)]\<rparr>"

theorem rename_restarts_servers_witness:
  "\<exists>st'. set_device_name example_app ''D'' serving_app = (st', Inr ''D'') \<and> fst ` set (a_servers st') = {1} \<and>
     (\<forall>(k, s) \<in> set (a_servers st'). di_name (rs_device s) = ''D'' \<and> srv_gate (rs_handle s) = Some gate_new)"
proof -
  have "sanitize_device_name ''D'' = Inr ''D''"
    by (simp add: sanitize_device_name_def str_trim_def code_points_def of_code_points_def trim_chars_def utf8_encode_def
        encode_char_def is_whitespace_def is_control_def DEVICE_NAME_MAX_LEN_def char_of_def bit_0)
  then obtain st' where r: "set_device_name example_app ''D'' serving_app = (st', Inr ''D'')"
    by (simp add: set_device_name_def)
  have iter: "\<forall>xs. mset (ae_iter example_app xs) = mset xs" by (simp add: example_app_def)
  have d: "distinct (map fst (a_servers serving_app))" by (simp add: serving_app_def)
  have start: "\<forall>x \<in> set (a_servers serving_app). startable example_app (a_db serving_app) x"
    by (simp add: serving_app_def startable_def registered_def bulk_rows example_app_def)
  from rename_restarts_servers [OF r iter d start] have "fst ` set (a_servers st') = {1}"
    "\<forall>(k, s) \<in> set (a_servers st'). di_name (rs_device s) = ''D'' \<and> srv_gate (rs_handle s) = Some gate_new"
    by (auto simp: serving_app_def)
  with r show ?thesis by blast
qed

section \<open>Resetting the device\<close>

text \<open>A factory reset of a device whose data directory is reached without links stops every server and
  removes the directory with everything below it, and changes nothing else: the synced folders keep
  their files.\<close>

theorem factory_reset_complete:
  assumes wf: "wf_fs (a_fs st)" and dir: "raw_path (a_data_dir st) = lit R" "R \<noteq> []" "map_of (a_fs st) R = Some NDir"
  shows "\<exists>st'. factory_reset st = (st', Inr ()) \<and> a_servers st' = [] \<and> a_db st' = a_db st \<and>
    (\<forall>q. map_of (a_fs st') q = (if prefix R q then None else map_of (a_fs st) q))"
proof -
  have "walk (a_fs st) MAXSYMLINKS False [] (lit R) = Found R"
    using walk_lit_found [OF wf, of "[]" R NDir False] dir(3) by simp
  then have rm: "fs_remove_dir_all (a_fs st) (lit R) = Some (filter (\<lambda>(x, n). \<not> prefix R x) (a_fs st))"
    by (simp add: fs_remove_dir_all_def dir)
  have "map_of (filter (\<lambda>(x, n). \<not> prefix R x) xs) q = (if prefix R q then None else map_of xs q)" for xs :: fs and q
    by (induction xs) auto
  with rm show ?thesis by (simp add: factory_reset_def api_stop_server_def Let_def dir(1))
qed

theorem factory_reset_complete_witness:
  "\<exists>st'. factory_reset (serving_app\<lparr>a_fs := empty_dir @ [([''d'', ''identity.key''], NFile [2] 0), ([''f''], NFile [1] 0)]\<rparr>) = (st', Inr ()) \<and>
     a_servers st' = [] \<and> map_of (a_fs st') [''d'', ''identity.key''] = None \<and> map_of (a_fs st') [''f''] = Some (NFile [1] 0)"
proof -
  let ?st = "serving_app\<lparr>a_fs := empty_dir @ [([''d'', ''identity.key''], NFile [2] 0), ([''f''], NFile [1] 0)]\<rparr>"
  have "wf_fs (a_fs ?st)" by (auto simp: wf_fs_def empty_dir_def valid_name_def)
  moreover have "raw_path (a_data_dir ?st) = lit [''d'']" unfolding serving_app_def by code_simp
  moreover have "[''d''] \<noteq> []" "map_of (a_fs ?st) [''d''] = Some NDir" by (simp_all add: empty_dir_def)
  ultimately obtain st' where "factory_reset ?st = (st', Inr ())" "a_servers st' = []"
    "\<forall>q. map_of (a_fs st') q = (if prefix [''d''] q then None else map_of (a_fs ?st) q)"
    using factory_reset_complete [of ?st "[''d'']"] by blast
  then show ?thesis by (simp add: empty_dir_def)
qed

section \<open>Unexpected behaviour\<close>

text \<open>Removing every paired device removes the device's own row as well, and with it its folders.\<close>

theorem remove_all_includes_self:
  assumes "remove_all_devices E st = (st', Inr n)"
  shows "t_devices (a_db st') = []"
proof -
  have "remove_each E dids st = (st', Inr ()) \<Longrightarrow> t_devices (a_db st') = filter (\<lambda>d. d_id d \<notin> set dids) (t_devices (a_db st))"
    for dids st
  proof (induction dids arbitrary: st)
    case (Cons did dids)
    then obtain st1 c where 1: "api_remove_device E did st = (st1, Inr c)" and 2: "remove_each E dids st1 = (st', Inr ())"
      by (auto simp: api_bind_def split: prod.splits sum.splits)
    from 1 obtain c' where "remove_device (e_fk (ae_env E)) did (a_db st) = (a_db st1, Inr c')"
      by (auto simp: api_remove_device_def on_db_def split: prod.splits) (metis map_sum.simps(1) sum.exhaust Inl_Inr_False)
    from remove_device_result [OF this] Cons.IH [OF 2] show ?case by (simp add: conj_commute)
  qed simp
  moreover from assms have "remove_each E (map fst (list_devices (a_db st))) st = (st', Inr ())"
    by (auto simp: remove_all_devices_def Let_def api_bind_def split: prod.splits sum.splits)
  moreover have "set (map fst (list_devices (a_db st))) = device_ids (a_db st)"
    by (auto simp: list_devices_def device_ids_def image_iff) blast
  ultimately show ?thesis by (auto simp: device_ids_def filter_empty_conv)
qed

text \<open>Attaching a known device to a folder replaces the device's name by its id.\<close>

theorem attaching_renames_device:
  assumes "db_reach (e_fk (ae_env E)) (a_db st)"
  shows "get_device_name (a_db (fst (api_add_folder_device E fid did mode rp st))) did = Some did"
proof -
  obtain db1 where up: "upsert_device (e_fk (ae_env E)) (e_clock (ae_env E)) did did None None (a_db st) = (db1, Inr ())"
    "get_device_name db1 did = Some did"
    using upsert_device_keeps_pin [OF assms] by blast
  have "get_device_name (fst (add_folder_device fk fid did mode rp db)) did = get_device_name db did" for fk db
    by (simp add: add_folder_device_def stmt_def get_device_name_def device_by_id_def upsert_pair_def)
  with up show ?thesis
    by (auto simp: api_add_folder_device_def put_device_def on_db_def api_bind_def split: prod.split sum.split) (metis fst_conv)+
qed

text \<open>A lifetime of zero milliseconds is documented to poll once; it polls for ever.\<close>

theorem zero_lifetime_never_returns:
  assumes "db_reach (e_fk (ae_env E)) (a_db st)"
    and "\<And>req k. single_request (ae_env E) deser req (fst (peer k)) = Inr RPending"
  shows "request_folder_pairing E deser (Some addr) peer pid guid sn lp 0 st = None"
proof -
  obtain db1 where up: "upsert_device (e_fk (ae_env E)) (e_clock (ae_env E)) (api_device_id st) (api_device_name st) None None (a_db st) = (db1, Inr ())"
    using upsert_device_keeps_pin [OF assms(1)] by blast
  show ?thesis
    using poll_forever [of "ae_env E" deser _ peer 0 0] assms(2)
    by (simp add: request_folder_pairing_def put_device_def on_db_def up request_and_collect_pairing_def asks_again_def)
qed

text \<open>Denying a device that several servers hold reaches one of them: it is still in the queue.\<close>

theorem denial_reaches_one_server:
  assumes iter: "\<forall>xs. mset (ae_iter E xs) = mset xs" and d: "distinct (map fst (a_servers st))"
    and "(k1, s1) \<in> set (a_servers st)" "(k2, s2) \<in> set (a_servers st)" "k1 \<noteq> k2"
    and "holds_device did (rs_handle s1)" "holds_device did (rs_handle s2)"
  shows "\<exists>(k, s) \<in> set (a_servers (fst (deny_pending_pairing E did st))). holds_device did (rs_handle s)"
proof -
  have set: "set (ae_iter E (a_servers st)) = set (a_servers st)" using iter mset_eq_setD by blast
  obtain k s where f: "first_server E (holds_device did) st = Some (k, s)"
    using assms(3,6) set by (cases "first_server E (holds_device did) st") (auto simp: first_server_def find_None_iff)
  obtain k' s' where o': "(k', s') \<in> set (a_servers st)" "k' \<noteq> k" "holds_device did (rs_handle s')"
    using assms(3-7) by (cases "k1 = k") auto
  then have "(k', s') \<in> set (a_servers (fst (deny_pending_pairing E did st)))"
    by (auto simp: deny_pending_pairing_def f set_handle_def image_iff split: prod.split)
  with o'(3) show ?thesis by blast
qed

end
