(* ===== verification/State_Store.thy ===== *)
theory State_Store
  imports Storage
begin

text \<open>
  The \<open>StateStore\<close> interface of \<open>persistence/traits.rs\<close> and its two implementations, the hash maps of
  \<open>persistence/memory.rs\<close> and the SQLite tables of \<open>persistence/sqlite.rs\<close>. A hash map is the
  association list of its entries; the order in which the code visits them is the parameter \<open>it\<close>.
  A table is the list of its rows in row-id order. \<open>fk\<close> says whether SQLite enforces foreign keys
  and \<open>now\<close> is \<open>unixepoch()\<close>, as in the theory \<open>Storage\<close>.
\<close>

section \<open>Records of the interface\<close>

record SessionRecord =
  sr_ts :: i64
  sr_direction :: string
  sr_peer_device :: string
  sr_addr :: string
  sr_folder_path :: string
  sr_pushed_count :: u64
  sr_pulled_count :: u64
  sr_conflicts_count :: u64
  sr_pushed_bytes :: u64
  sr_pulled_bytes :: u64

record HistoryEntry =
  he_folder_id :: FolderId
  he_path :: FilePath
  he_device_id :: DeviceId
  he_action :: string
  he_version :: i64
  he_mtime :: i64
  he_hash :: bytes
  he_size :: i64

definition direction_or_default :: "string \<Rightarrow> SyncDirection" where
  "direction_or_default s = (case direction_from_str s of Inr d \<Rightarrow> d | Inl _ \<Rightarrow> Bidirectional)"

section \<open>The store in memory\<close>

record mem_store =
  ms_devices :: "(DeviceId \<times> Device) list"
  ms_folders :: "(FolderId \<times> Folder) list"
  ms_metadata :: "((FolderId \<times> FilePath) \<times> FileMetadata) list"
  ms_history :: "HistoryEntry list"
  ms_tombstones :: "Tombstone list"
  ms_sessions :: "SessionRecord list"
  ms_next_folder_id :: i64

definition mem_new :: mem_store where
  "mem_new = \<lparr>ms_devices = [], ms_folders = [], ms_metadata = [], ms_history = [], ms_tombstones = [],
     ms_sessions = [], ms_next_folder_id = 0\<rparr>"

definition mem_get_device :: "DeviceId \<Rightarrow> mem_store \<Rightarrow> Device option" where
  "mem_get_device did st = map_of (ms_devices st) did"

definition mem_upsert_device :: "Device \<Rightarrow> mem_store \<Rightarrow> mem_store" where
  "mem_upsert_device dev st = st\<lparr>ms_devices := AList.update (dev_id dev) dev (ms_devices st)\<rparr>"

definition mem_list_devices :: "(Device list \<Rightarrow> Device list) \<Rightarrow> mem_store \<Rightarrow> Device list" where
  "mem_list_devices it st = it (map snd (ms_devices st))"

definition mem_remove_device :: "DeviceId \<Rightarrow> mem_store \<Rightarrow> mem_store \<times> DeviceCleanup" where
  "mem_remove_device did st =
     (let folder_ids = map (fol_id \<circ> snd) (filter (\<lambda>(_, f). fol_device_id f = did) (ms_folders st));
          folders = filter (\<lambda>(k, _). k \<notin> set folder_ids) (ms_folders st);
          metadata = filter (\<lambda>((fid, _), _). fid \<notin> set folder_ids) (ms_metadata st);
          history = filter (\<lambda>h. he_device_id h \<noteq> did \<and> he_folder_id h \<notin> set folder_ids) (ms_history st);
          sessions = filter (\<lambda>s. sr_peer_device s \<noteq> did) (ms_sessions st)
      in (st\<lparr>ms_devices := AList.delete did (ms_devices st), ms_folders := folders, ms_metadata := metadata,
             ms_history := history, ms_sessions := sessions\<rparr>,
          \<lparr>sessions_removed = length (ms_sessions st) - length sessions,
           history_removed = length (ms_history st) - length history,
           metadata_removed = length (ms_metadata st) - length metadata,
           folders_removed = length (ms_folders st) - length folders,
           device_removed = (if map_of (ms_devices st) did = None then 0 else 1)\<rparr>))"

definition mem_get_device_cert :: "DeviceId \<Rightarrow> mem_store \<Rightarrow> bytes option" where
  "mem_get_device_cert did st = Option.bind (map_of (ms_devices st) did) dev_fingerprint"

definition mem_set_device_cert :: "(bytes \<Rightarrow> bytes) \<Rightarrow> DeviceId \<Rightarrow> bytes \<Rightarrow> mem_store \<Rightarrow> mem_store" where
  "mem_set_device_cert blake3 did cert st =
     (let fp = fingerprint_from_der blake3 cert;
          dev = (case map_of (ms_devices st) did of
            Some d \<Rightarrow> d\<lparr>dev_fingerprint := Some fp\<rparr>
          | None \<Rightarrow> \<lparr>dev_id = did, dev_name = [], dev_fingerprint = Some fp, dev_last_seen = None, dev_last_addr = None\<rparr>)
      in st\<lparr>ms_devices := AList.update did dev (ms_devices st)\<rparr>)"

definition mem_get_device_by_cert_fingerprint ::
  "(Device list \<Rightarrow> Device list) \<Rightarrow> CertificateFingerprint \<Rightarrow> mem_store \<Rightarrow> DeviceId option" where
  "mem_get_device_by_cert_fingerprint it fp st =
     map_option dev_id (find (\<lambda>d. dev_fingerprint d = Some fp) (it (map snd (ms_devices st))))"

definition mem_device_last_addr :: "DeviceId \<Rightarrow> mem_store \<Rightarrow> string option" where
  "mem_device_last_addr did st = Option.bind (map_of (ms_devices st) did) dev_last_addr"

definition mem_set_device_last_addr :: "DeviceId \<Rightarrow> string \<Rightarrow> mem_store \<Rightarrow> mem_store" where
  "mem_set_device_last_addr did addr st =
     (case map_of (ms_devices st) did of
        None \<Rightarrow> st
      | Some d \<Rightarrow> st\<lparr>ms_devices := AList.update did (d\<lparr>dev_last_addr := Some addr\<rparr>) (ms_devices st)\<rparr>)"

definition mem_get_folder :: "FolderId \<Rightarrow> mem_store \<Rightarrow> Folder option" where
  "mem_get_folder fid st = map_of (ms_folders st) fid"

definition mem_list_folders :: "(Folder list \<Rightarrow> Folder list) \<Rightarrow> mem_store \<Rightarrow> Folder list" where
  "mem_list_folders it st = sort_key fol_id (it (map snd (ms_folders st)))"

definition mem_add_folder :: "string \<Rightarrow> DeviceId \<Rightarrow> string \<Rightarrow> mem_store \<Rightarrow> mem_store \<times> FolderId" where
  "mem_add_folder local_path did direction st =
     (let fid = ms_next_folder_id st + 1;
          folder = \<lparr>fol_id = fid, fol_local_path = local_path, fol_device_id = did,
            fol_direction = direction_or_default direction, fol_last_sync_at = None\<rparr>
      in (st\<lparr>ms_next_folder_id := fid, ms_folders := AList.update fid folder (ms_folders st)\<rparr>, fid))"

definition mem_remove_folder :: "FolderId \<Rightarrow> mem_store \<Rightarrow> mem_store" where
  "mem_remove_folder fid st = st\<lparr>ms_folders := AList.delete fid (ms_folders st)\<rparr>"

definition mem_change_folder :: "FolderId \<Rightarrow> (Folder \<Rightarrow> Folder) \<Rightarrow> mem_store \<Rightarrow> mem_store" where
  "mem_change_folder fid f st =
     (case map_of (ms_folders st) fid of
        None \<Rightarrow> st
      | Some x \<Rightarrow> st\<lparr>ms_folders := AList.update fid (f x) (ms_folders st)\<rparr>)"

definition mem_set_folder_last_sync :: "FolderId \<Rightarrow> i64 \<Rightarrow> mem_store \<Rightarrow> mem_store" where
  "mem_set_folder_last_sync fid ts st = mem_change_folder fid (\<lambda>f. f\<lparr>fol_last_sync_at := Some ts\<rparr>) st"

definition mem_set_folder_device :: "FolderId \<Rightarrow> DeviceId \<Rightarrow> mem_store \<Rightarrow> mem_store" where
  "mem_set_folder_device fid did st = mem_change_folder fid (\<lambda>f. f\<lparr>fol_device_id := did\<rparr>) st"

definition mem_get_file_metadata :: "FolderId \<Rightarrow> FilePath \<Rightarrow> mem_store \<Rightarrow> FileMetadata option" where
  "mem_get_file_metadata fid path st = map_of (ms_metadata st) (fid, path)"

definition mem_upsert_file_metadata :: "FileMetadata \<Rightarrow> mem_store \<Rightarrow> mem_store" where
  "mem_upsert_file_metadata m st =
     st\<lparr>ms_metadata := AList.update (fm_folder_id m, fm_path m) m (ms_metadata st)\<rparr>"

definition mem_record_history :: "HistoryEntry \<Rightarrow> mem_store \<Rightarrow> mem_store" where
  "mem_record_history e st = st\<lparr>ms_history := ms_history st @ [e]\<rparr>"

definition mem_get_tombstones :: "FolderId \<Rightarrow> u64 \<Rightarrow> mem_store \<Rightarrow> Tombstone list" where
  "mem_get_tombstones fid since st =
     filter (\<lambda>t. tomb_folder_id t = fid \<and> since \<le> tomb_deleted_at t) (ms_tombstones st)"

definition mem_add_tombstone :: "Tombstone \<Rightarrow> mem_store \<Rightarrow> mem_store" where
  "mem_add_tombstone t st = st\<lparr>ms_tombstones := ms_tombstones st @ [t]\<rparr>"

definition mem_record_session :: "SessionRecord \<Rightarrow> mem_store \<Rightarrow> mem_store" where
  "mem_record_session s st = st\<lparr>ms_sessions := ms_sessions st @ [s]\<rparr>"

definition mem_list_recent_sessions :: "u32 \<Rightarrow> mem_store \<Rightarrow> SessionRecord list" where
  "mem_list_recent_sessions limit st = take (unat limit) (rev (ms_sessions st))"

definition mem_clear_all_sync_state :: "mem_store \<Rightarrow> mem_store \<times> nat \<times> nat" where
  "mem_clear_all_sync_state st =
     (st\<lparr>ms_folders := [], ms_devices := [], ms_metadata := [], ms_history := []\<rparr>,
      length (ms_folders st), length (ms_devices st))"

definition mem_remove_sync_folders :: "string \<Rightarrow> DeviceId option \<Rightarrow> mem_store \<Rightarrow> mem_store \<times> nat" where
  "mem_remove_sync_folders local_path dev st =
     (let folders = filter (\<lambda>(_, f). if fol_local_path f \<noteq> local_path then True
            else case dev of Some d \<Rightarrow> fol_device_id f \<noteq> d | None \<Rightarrow> False) (ms_folders st)
      in (st\<lparr>ms_folders := folders\<rparr>, length (ms_folders st) - length folders))"

section \<open>The store in SQLite\<close>

record sq_folder =
  qf_id :: i64
  qf_local_path :: string
  qf_device_id :: string
  qf_active :: bool
  qf_direction :: string
  qf_last_sync_at :: "i64 option"

record sq_history =
  qh_folder_id :: i64
  qh_path :: string
  qh_device_id :: string
  qh_action :: string
  qh_version :: i64
  qh_mtime :: i64
  qh_hash :: bytes
  qh_size :: i64
  qh_recorded_at :: i64

text \<open>Unsigned counts are cast to the signed integers of SQLite.\<close>

record sq_session =
  qs_ts :: i64
  qs_direction :: string
  qs_peer_device :: string
  qs_addr :: string
  qs_folder_path :: string
  qs_pushed_count :: i64
  qs_pulled_count :: i64
  qs_conflicts_count :: i64
  qs_pushed_bytes :: i64
  qs_pulled_bytes :: i64

record sq_tombstone =
  qt_folder_id :: i64
  qt_path :: string
  qt_device_id :: string
  qt_deleted_at :: i64

record sqlite =
  q_devices :: "device_row list"
  q_folders :: "sq_folder list"
  q_metadata :: "meta_row list"
  q_history :: "sq_history list"
  q_sessions :: "sq_session list"
  q_tombstones :: "sq_tombstone list"
  q_seq_folders :: i64

definition sql_new :: sqlite where
  "sql_new = \<lparr>q_devices = [], q_folders = [], q_metadata = [], q_history = [], q_sessions = [],
     q_tombstones = [], q_seq_folders = 0\<rparr>"

datatype sq_error = SqUnique | SqForeignKey | SqIntegerRange

type_synonym 'a sq = "sqlite \<times> (sq_error + 'a)"

definition sq_unique :: "sqlite \<Rightarrow> bool" where
  "sq_unique q \<longleftrightarrow> distinct (map d_id (q_devices q)) \<and> distinct (map qf_id (q_folders q)) \<and>
     distinct (map (\<lambda>m. (m_folder_id m, m_path m)) (q_metadata q))"

definition sq_fk_ok :: "sqlite \<Rightarrow> bool" where
  "sq_fk_ok q \<longleftrightarrow>
     (\<forall>f \<in> set (q_folders q). qf_device_id f \<in> d_id ` set (q_devices q)) \<and>
     (\<forall>m \<in> set (q_metadata q). m_folder_id m \<in> qf_id ` set (q_folders q)) \<and>
     (\<forall>h \<in> set (q_history q). qh_folder_id h \<in> qf_id ` set (q_folders q)) \<and>
     (\<forall>t \<in> set (q_tombstones q). qt_folder_id t \<in> qf_id ` set (q_folders q))"

text \<open>One statement; its result is a value of the database it leaves.\<close>

definition sq_execute :: "bool \<Rightarrow> sqlite \<Rightarrow> sqlite \<Rightarrow> 'a \<Rightarrow> 'a sq" where
  "sq_execute fk q q' r =
     (if \<not> sq_unique q' then (q, Inl SqUnique)
      else if fk \<and> \<not> sq_fk_ok q' then (q, Inl SqForeignKey)
      else (q', Inr r))"

definition sq_bind :: "'a sq \<Rightarrow> (sqlite \<Rightarrow> 'a \<Rightarrow> 'b sq) \<Rightarrow> 'b sq" where
  "sq_bind r f = (case r of (q, Inl e) \<Rightarrow> (q, Inl e) | (q, Inr x) \<Rightarrow> f q x)"

definition sq_transaction :: "sqlite \<Rightarrow> 'a sq \<Rightarrow> 'a sq" where
  "sq_transaction q r = (case r of (_, Inl e) \<Rightarrow> (q, Inl e) | ok \<Rightarrow> ok)"

definition device_of_row :: "device_row \<Rightarrow> Device" where
  "device_of_row r = \<lparr>dev_id = d_id r, dev_name = d_name r, dev_fingerprint = d_cert r,
     dev_last_seen = d_last_seen r, dev_last_addr = d_last_addr r\<rparr>"

definition sq_device_row :: "sqlite \<Rightarrow> DeviceId \<Rightarrow> device_row option" where
  "sq_device_row q did = find (\<lambda>r. d_id r = did) (q_devices q)"

definition sql_get_device :: "DeviceId \<Rightarrow> sqlite \<Rightarrow> Device option" where
  "sql_get_device did q = map_option device_of_row (sq_device_row q did)"

definition sql_upsert_device :: "bool \<Rightarrow> i64 \<Rightarrow> Device \<Rightarrow> sqlite \<Rightarrow> unit sq" where
  "sql_upsert_device fk now dev q =
     sq_execute fk q
       (if dev_id dev \<in> d_id ` set (q_devices q)
        then q\<lparr>q_devices := map (\<lambda>r. if d_id r = dev_id dev
               then r\<lparr>d_name := dev_name dev, d_cert := coalesce (dev_fingerprint dev) (d_cert r), d_last_seen := Some now,
                      d_last_addr := coalesce (dev_last_addr dev) (d_last_addr r)\<rparr> else r) (q_devices q)\<rparr>
        else q\<lparr>q_devices := q_devices q @ [\<lparr>d_id = dev_id dev, d_name = dev_name dev, d_cert = dev_fingerprint dev,
               d_last_seen = Some now, d_last_addr = dev_last_addr dev\<rparr>]\<rparr>) ()"

text \<open>\<open>ORDER BY last_seen DESC\<close>: rows never seen come last.\<close>

definition sql_list_devices :: "sqlite \<Rightarrow> Device list" where
  "sql_list_devices q =
     map device_of_row
       (sort_key (\<lambda>r. - the (d_last_seen r)) (filter (\<lambda>r. d_last_seen r \<noteq> None) (q_devices q)) @
        filter (\<lambda>r. d_last_seen r = None) (q_devices q))"

definition sql_remove_device :: "bool \<Rightarrow> DeviceId \<Rightarrow> sqlite \<Rightarrow> DeviceCleanup sq" where
  "sql_remove_device fk did q =
     (let owned = (\<lambda>fid. fid \<in> qf_id ` set (filter (\<lambda>f. qf_device_id f = did) (q_folders q)));
          sessions = filter (\<lambda>s. qs_peer_device s \<noteq> did) (q_sessions q);
          history = filter (\<lambda>h. \<not> (qh_device_id h = did \<or> owned (qh_folder_id h))) (q_history q);
          metadata = filter (\<lambda>m. \<not> owned (m_folder_id m)) (q_metadata q);
          folders = filter (\<lambda>f. qf_device_id f \<noteq> did) (q_folders q);
          devices = filter (\<lambda>r. d_id r \<noteq> did) (q_devices q)
      in sq_transaction q
        (sq_bind (sq_execute fk q (q\<lparr>q_sessions := sessions\<rparr>) (length (q_sessions q) - length sessions)) (\<lambda>q1 ns.
         sq_bind (sq_execute fk q1 (q1\<lparr>q_history := history\<rparr>) (length (q_history q) - length history)) (\<lambda>q2 nh.
         sq_bind (sq_execute fk q2 (q2\<lparr>q_metadata := metadata\<rparr>) (length (q_metadata q) - length metadata)) (\<lambda>q3 nm.
         sq_bind (sq_execute fk q3 (q3\<lparr>q_folders := folders\<rparr>) (length (q_folders q) - length folders)) (\<lambda>q4 nf.
         sq_bind (sq_execute fk q4 (q4\<lparr>q_devices := devices\<rparr>) (length (q_devices q) - length devices)) (\<lambda>q5 nd.
           (q5, Inr \<lparr>sessions_removed = ns, history_removed = nh, metadata_removed = nm,
              folders_removed = nf, device_removed = nd\<rparr>))))))))"

definition sql_get_device_cert :: "DeviceId \<Rightarrow> sqlite \<Rightarrow> bytes option" where
  "sql_get_device_cert did q = Option.bind (sq_device_row q did) d_cert"

definition sq_change_device :: "bool \<Rightarrow> DeviceId \<Rightarrow> (device_row \<Rightarrow> device_row) \<Rightarrow> sqlite \<Rightarrow> unit sq" where
  "sq_change_device fk did f q =
     sq_execute fk q (q\<lparr>q_devices := map (\<lambda>r. if d_id r = did then f r else r) (q_devices q)\<rparr>) ()"

definition sql_set_device_cert :: "bool \<Rightarrow> DeviceId \<Rightarrow> bytes \<Rightarrow> sqlite \<Rightarrow> unit sq" where
  "sql_set_device_cert fk did cert q = sq_change_device fk did (\<lambda>r. r\<lparr>d_cert := Some cert\<rparr>) q"

definition sql_get_device_by_cert_fingerprint ::
  "(bytes \<Rightarrow> bytes) \<Rightarrow> CertificateFingerprint \<Rightarrow> sqlite \<Rightarrow> DeviceId option" where
  "sql_get_device_by_cert_fingerprint blake3 fp q =
     map_option d_id (find (\<lambda>r. case d_cert r of None \<Rightarrow> False | Some der \<Rightarrow> fingerprint_from_der blake3 der = fp) (q_devices q))"

definition sql_device_last_addr :: "DeviceId \<Rightarrow> sqlite \<Rightarrow> string option" where
  "sql_device_last_addr did q = Option.bind (sq_device_row q did) d_last_addr"

definition sql_set_device_last_addr :: "bool \<Rightarrow> DeviceId \<Rightarrow> string \<Rightarrow> sqlite \<Rightarrow> unit sq" where
  "sql_set_device_last_addr fk did addr q = sq_change_device fk did (\<lambda>r. r\<lparr>d_last_addr := Some addr\<rparr>) q"

definition folder_of_row :: "sq_folder \<Rightarrow> Folder" where
  "folder_of_row r = \<lparr>fol_id = qf_id r, fol_local_path = qf_local_path r, fol_device_id = qf_device_id r,
     fol_direction = direction_or_default (qf_direction r), fol_last_sync_at = qf_last_sync_at r\<rparr>"

definition sql_get_folder :: "FolderId \<Rightarrow> sqlite \<Rightarrow> Folder option" where
  "sql_get_folder fid q = map_option folder_of_row (find (\<lambda>r. qf_id r = fid) (q_folders q))"

definition sql_list_folders :: "sqlite \<Rightarrow> Folder list" where
  "sql_list_folders q = map folder_of_row (sort_key qf_id (q_folders q))"

definition sql_add_folder :: "bool \<Rightarrow> string \<Rightarrow> DeviceId \<Rightarrow> string \<Rightarrow> sqlite \<Rightarrow> FolderId sq" where
  "sql_add_folder fk local_path did direction q =
     (let fid = q_seq_folders q + 1
      in sq_execute fk q
           (q\<lparr>q_seq_folders := fid, q_folders := q_folders q @
             [\<lparr>qf_id = fid, qf_local_path = local_path, qf_device_id = did, qf_active = True,
               qf_direction = direction, qf_last_sync_at = None\<rparr>]\<rparr>) fid)"

definition sql_remove_folder :: "bool \<Rightarrow> FolderId \<Rightarrow> sqlite \<Rightarrow> unit sq" where
  "sql_remove_folder fk fid q = sq_execute fk q (q\<lparr>q_folders := filter (\<lambda>f. qf_id f \<noteq> fid) (q_folders q)\<rparr>) ()"

definition sq_change_folder :: "bool \<Rightarrow> FolderId \<Rightarrow> (sq_folder \<Rightarrow> sq_folder) \<Rightarrow> sqlite \<Rightarrow> unit sq" where
  "sq_change_folder fk fid f q =
     sq_execute fk q (q\<lparr>q_folders := map (\<lambda>r. if qf_id r = fid then f r else r) (q_folders q)\<rparr>) ()"

definition sql_set_folder_last_sync :: "bool \<Rightarrow> FolderId \<Rightarrow> i64 \<Rightarrow> sqlite \<Rightarrow> unit sq" where
  "sql_set_folder_last_sync fk fid ts q = sq_change_folder fk fid (\<lambda>r. r\<lparr>qf_last_sync_at := Some ts\<rparr>) q"

definition sql_set_folder_device :: "bool \<Rightarrow> FolderId \<Rightarrow> DeviceId \<Rightarrow> sqlite \<Rightarrow> unit sq" where
  "sql_set_folder_device fk fid did q = sq_change_folder fk fid (\<lambda>r. r\<lparr>qf_device_id := did\<rparr>) q"

text \<open>The hash column is copied into 32 bytes.\<close>

definition hash_array :: "bytes \<Rightarrow> FileHash" where
  "hash_array raw = take 32 raw @ replicate (32 - length raw) 0"

definition metadata_of_row :: "meta_row \<Rightarrow> FileMetadata" where
  "metadata_of_row r = \<lparr>fm_path = m_path r, fm_folder_id = m_folder_id r, fm_kind = File, fm_mtime = m_mtime r,
     fm_size = m_size r, fm_hash = hash_array (m_hash r), fm_device_id = m_device_id r, fm_version = m_version r,
     fm_local_version = m_local_version r, fm_remote_version = m_remote_version r,
     fm_local_mtime = m_local_mtime r, fm_remote_mtime = m_remote_mtime r\<rparr>"

definition sql_get_file_metadata :: "FolderId \<Rightarrow> FilePath \<Rightarrow> sqlite \<Rightarrow> FileMetadata option" where
  "sql_get_file_metadata fid path q =
     map_option metadata_of_row (find (\<lambda>r. m_folder_id r = fid \<and> m_path r = path) (q_metadata q))"

definition sql_upsert_file_metadata :: "bool \<Rightarrow> FileMetadata \<Rightarrow> sqlite \<Rightarrow> unit sq" where
  "sql_upsert_file_metadata fk m q =
     sq_execute fk q
       (if (fm_folder_id m, fm_path m) \<in> (\<lambda>r. (m_folder_id r, m_path r)) ` set (q_metadata q)
        then q\<lparr>q_metadata := map (\<lambda>r. if (m_folder_id r, m_path r) = (fm_folder_id m, fm_path m)
               then r\<lparr>m_mtime := fm_mtime m, m_size := fm_size m, m_hash := fm_hash m, m_device_id := fm_device_id m\<rparr>
               else r) (q_metadata q)\<rparr>
        else q\<lparr>q_metadata := q_metadata q @ [\<lparr>m_path = fm_path m, m_folder_id = fm_folder_id m, m_mtime = fm_mtime m,
               m_size = fm_size m, m_hash = fm_hash m, m_device_id = fm_device_id m, m_version = 0, m_local_version = 0,
               m_remote_version = 0, m_local_mtime = 0, m_remote_mtime = 0\<rparr>]\<rparr>) ()"

definition sql_record_history :: "bool \<Rightarrow> i64 \<Rightarrow> HistoryEntry \<Rightarrow> sqlite \<Rightarrow> unit sq" where
  "sql_record_history fk now e q =
     sq_execute fk q (q\<lparr>q_history := q_history q @ [\<lparr>qh_folder_id = he_folder_id e, qh_path = he_path e,
       qh_device_id = he_device_id e, qh_action = he_action e, qh_version = he_version e, qh_mtime = he_mtime e,
       qh_hash = he_hash e, qh_size = he_size e, qh_recorded_at = now\<rparr>]\<rparr>) ()"

definition tombstone_of_row :: "sq_tombstone \<Rightarrow> Tombstone" where
  "tombstone_of_row r = \<lparr>tomb_path = qt_path r, tomb_folder_id = qt_folder_id r, tomb_device_id = qt_device_id r,
     tomb_deleted_at = word_of_int (qt_deleted_at r)\<rparr>"

definition sql_get_tombstones :: "FolderId \<Rightarrow> u64 \<Rightarrow> sqlite \<Rightarrow> Tombstone list" where
  "sql_get_tombstones fid since q =
     map tombstone_of_row (filter (\<lambda>r. qt_folder_id r = fid \<and> sint since \<le> qt_deleted_at r) (q_tombstones q))"

definition sql_add_tombstone :: "bool \<Rightarrow> Tombstone \<Rightarrow> sqlite \<Rightarrow> unit sq" where
  "sql_add_tombstone fk t q =
     sq_execute fk q (q\<lparr>q_tombstones := q_tombstones q @ [\<lparr>qt_folder_id = tomb_folder_id t, qt_path = tomb_path t,
       qt_device_id = tomb_device_id t, qt_deleted_at = sint (tomb_deleted_at t)\<rparr>]\<rparr>) ()"

definition sql_record_session :: "bool \<Rightarrow> SessionRecord \<Rightarrow> sqlite \<Rightarrow> unit sq" where
  "sql_record_session fk s q =
     sq_execute fk q (q\<lparr>q_sessions := q_sessions q @ [\<lparr>qs_ts = sr_ts s, qs_direction = sr_direction s,
       qs_peer_device = sr_peer_device s, qs_addr = sr_addr s, qs_folder_path = sr_folder_path s,
       qs_pushed_count = sint (sr_pushed_count s), qs_pulled_count = sint (sr_pulled_count s),
       qs_conflicts_count = sint (sr_conflicts_count s), qs_pushed_bytes = sint (sr_pushed_bytes s),
       qs_pulled_bytes = sint (sr_pulled_bytes s)\<rparr>]\<rparr>) ()"

text \<open>Byte counts are cast back; a negative count cannot be read as \<open>usize\<close> and fails the query.\<close>

definition session_of_row :: "sq_session \<Rightarrow> SessionRecord option" where
  "session_of_row r =
     (if qs_pushed_count r < 0 \<or> qs_pulled_count r < 0 \<or> qs_conflicts_count r < 0 then None
      else Some \<lparr>sr_ts = qs_ts r, sr_direction = qs_direction r, sr_peer_device = qs_peer_device r, sr_addr = qs_addr r,
        sr_folder_path = qs_folder_path r, sr_pushed_count = word_of_int (qs_pushed_count r),
        sr_pulled_count = word_of_int (qs_pulled_count r), sr_conflicts_count = word_of_int (qs_conflicts_count r),
        sr_pushed_bytes = word_of_int (qs_pushed_bytes r), sr_pulled_bytes = word_of_int (qs_pulled_bytes r)\<rparr>)"

definition sql_list_recent_sessions :: "u32 \<Rightarrow> sqlite \<Rightarrow> sq_error + SessionRecord list" where
  "sql_list_recent_sessions limit q =
     (case those (map session_of_row (take (unat limit) (rev (q_sessions q)))) of
        None \<Rightarrow> Inl SqIntegerRange
      | Some xs \<Rightarrow> Inr xs)"

definition sql_clear_all_sync_state :: "bool \<Rightarrow> sqlite \<Rightarrow> (nat \<times> nat) sq" where
  "sql_clear_all_sync_state fk q =
     sq_transaction q
       (sq_bind (sq_execute fk q (q\<lparr>q_history := []\<rparr>) ()) (\<lambda>q1 _.
        sq_bind (sq_execute fk q1 (q1\<lparr>q_metadata := []\<rparr>) ()) (\<lambda>q2 _.
        sq_bind (sq_execute fk q2 (q2\<lparr>q_folders := []\<rparr>) (length (q_folders q2))) (\<lambda>q3 folders.
        sq_bind (sq_execute fk q3 (q3\<lparr>q_devices := []\<rparr>) (length (q_devices q3))) (\<lambda>q4 devices.
          (q4, Inr (folders, devices)))))))"

definition sql_remove_sync_folders :: "bool \<Rightarrow> string \<Rightarrow> DeviceId option \<Rightarrow> sqlite \<Rightarrow> nat sq" where
  "sql_remove_sync_folders fk local_path dev q =
     (let folders = filter (\<lambda>f. \<not> (case dev of
            Some d \<Rightarrow> qf_local_path f = local_path \<and> qf_device_id f = d
          | None \<Rightarrow> qf_local_path f = local_path)) (q_folders q)
      in sq_execute fk q (q\<lparr>q_folders := folders\<rparr>) (length (q_folders q) - length folders))"

end
