(* ===== verification/Store_Contract.thy ===== *)
theory Store_Contract
  imports State_Store
begin

text \<open>
  The two implementations of \<open>StateStore\<close> side by side: the interface as a datatype of calls, the step
  of each implementation, and the theorem that callers cannot tell them apart by the answers both
  document, as long as SQLite accepts the calls. What does differ - certificates, addresses, versions
  of file metadata - is left out of the comparison and stated on its own.
\<close>

section \<open>Calls and answers\<close>

datatype store_op =
    OpGetDevice DeviceId
  | OpUpsertDevice Device
  | OpListDevices
  | OpRemoveDevice DeviceId
  | OpGetDeviceCert DeviceId
  | OpSetDeviceCert DeviceId bytes
  | OpDeviceByFingerprint CertificateFingerprint
  | OpDeviceLastAddr DeviceId
  | OpSetDeviceLastAddr DeviceId string
  | OpGetFolder FolderId
  | OpListFolders
  | OpAddFolder string DeviceId string
  | OpRemoveFolder FolderId
  | OpSetFolderLastSync FolderId i64
  | OpSetFolderDevice FolderId DeviceId
  | OpGetMetadata FolderId FilePath
  | OpUpsertMetadata FileMetadata
  | OpRecordHistory HistoryEntry
  | OpGetTombstones FolderId u64
  | OpAddTombstone Tombstone
  | OpRecordSession SessionRecord
  | OpRecentSessions u32
  | OpClearAll
  | OpRemoveSyncFolders string "DeviceId option"

datatype answer =
    AUnit
  | ADevice "Device option"
  | ADevices "Device list"
  | ACleanup DeviceCleanup
  | ACert "bytes option"
  | ADeviceId "DeviceId option"
  | AAddr "string option"
  | AFolder "Folder option"
  | AFolders "Folder list"
  | AFolderId FolderId
  | AMetadata "FileMetadata option"
  | ATombstones "Tombstone list"
  | ASessions "SessionRecord list"
  | ACounts "nat \<times> nat"
  | ACount nat

fun mem_op ::
  "(bytes \<Rightarrow> bytes) \<Rightarrow> (Device list \<Rightarrow> Device list) \<Rightarrow> (Folder list \<Rightarrow> Folder list) \<Rightarrow> store_op \<Rightarrow> mem_store \<Rightarrow> mem_store \<times> answer" where
  "mem_op _ _ _ (OpGetDevice did) st = (st, ADevice (mem_get_device did st))"
| "mem_op _ _ _ (OpUpsertDevice dev) st = (mem_upsert_device dev st, AUnit)"
| "mem_op _ itd _ OpListDevices st = (st, ADevices (mem_list_devices itd st))"
| "mem_op _ _ _ (OpRemoveDevice did) st = map_prod id ACleanup (mem_remove_device did st)"
| "mem_op _ _ _ (OpGetDeviceCert did) st = (st, ACert (mem_get_device_cert did st))"
| "mem_op b3 _ _ (OpSetDeviceCert did cert) st = (mem_set_device_cert b3 did cert st, AUnit)"
| "mem_op _ itd _ (OpDeviceByFingerprint fp) st = (st, ADeviceId (mem_get_device_by_cert_fingerprint itd fp st))"
| "mem_op _ _ _ (OpDeviceLastAddr did) st = (st, AAddr (mem_device_last_addr did st))"
| "mem_op _ _ _ (OpSetDeviceLastAddr did addr) st = (mem_set_device_last_addr did addr st, AUnit)"
| "mem_op _ _ _ (OpGetFolder fid) st = (st, AFolder (mem_get_folder fid st))"
| "mem_op _ _ itf OpListFolders st = (st, AFolders (mem_list_folders itf st))"
| "mem_op _ _ _ (OpAddFolder local_path did direction) st = map_prod id AFolderId (mem_add_folder local_path did direction st)"
| "mem_op _ _ _ (OpRemoveFolder fid) st = (mem_remove_folder fid st, AUnit)"
| "mem_op _ _ _ (OpSetFolderLastSync fid ts) st = (mem_set_folder_last_sync fid ts st, AUnit)"
| "mem_op _ _ _ (OpSetFolderDevice fid did) st = (mem_set_folder_device fid did st, AUnit)"
| "mem_op _ _ _ (OpGetMetadata fid path) st = (st, AMetadata (mem_get_file_metadata fid path st))"
| "mem_op _ _ _ (OpUpsertMetadata m) st = (mem_upsert_file_metadata m st, AUnit)"
| "mem_op _ _ _ (OpRecordHistory e) st = (mem_record_history e st, AUnit)"
| "mem_op _ _ _ (OpGetTombstones fid since) st = (st, ATombstones (mem_get_tombstones fid since st))"
| "mem_op _ _ _ (OpAddTombstone t) st = (mem_add_tombstone t st, AUnit)"
| "mem_op _ _ _ (OpRecordSession s) st = (mem_record_session s st, AUnit)"
| "mem_op _ _ _ (OpRecentSessions limit) st = (st, ASessions (mem_list_recent_sessions limit st))"
| "mem_op _ _ _ OpClearAll st = map_prod id ACounts (mem_clear_all_sync_state st)"
| "mem_op _ _ _ (OpRemoveSyncFolders local_path dev) st = map_prod id ACount (mem_remove_sync_folders local_path dev st)"

definition sq_answer :: "('a \<Rightarrow> answer) \<Rightarrow> 'a sq \<Rightarrow> answer sq" where
  "sq_answer f r = sq_bind r (\<lambda>q x. (q, Inr (f x)))"

fun sql_op :: "(bytes \<Rightarrow> bytes) \<Rightarrow> bool \<Rightarrow> i64 \<Rightarrow> store_op \<Rightarrow> sqlite \<Rightarrow> answer sq" where
  "sql_op _ _ _ (OpGetDevice did) q = (q, Inr (ADevice (sql_get_device did q)))"
| "sql_op _ fk now (OpUpsertDevice dev) q = sq_answer (\<lambda>_. AUnit) (sql_upsert_device fk now dev q)"
| "sql_op _ _ _ OpListDevices q = (q, Inr (ADevices (sql_list_devices q)))"
| "sql_op _ fk _ (OpRemoveDevice did) q = sq_answer ACleanup (sql_remove_device fk did q)"
| "sql_op _ _ _ (OpGetDeviceCert did) q = (q, Inr (ACert (sql_get_device_cert did q)))"
| "sql_op _ fk _ (OpSetDeviceCert did cert) q = sq_answer (\<lambda>_. AUnit) (sql_set_device_cert fk did cert q)"
| "sql_op b3 _ _ (OpDeviceByFingerprint fp) q = (q, Inr (ADeviceId (sql_get_device_by_cert_fingerprint b3 fp q)))"
| "sql_op _ _ _ (OpDeviceLastAddr did) q = (q, Inr (AAddr (sql_device_last_addr did q)))"
| "sql_op _ fk _ (OpSetDeviceLastAddr did addr) q = sq_answer (\<lambda>_. AUnit) (sql_set_device_last_addr fk did addr q)"
| "sql_op _ _ _ (OpGetFolder fid) q = (q, Inr (AFolder (sql_get_folder fid q)))"
| "sql_op _ _ _ OpListFolders q = (q, Inr (AFolders (sql_list_folders q)))"
| "sql_op _ fk _ (OpAddFolder local_path did direction) q = sq_answer AFolderId (sql_add_folder fk local_path did direction q)"
| "sql_op _ fk _ (OpRemoveFolder fid) q = sq_answer (\<lambda>_. AUnit) (sql_remove_folder fk fid q)"
| "sql_op _ fk _ (OpSetFolderLastSync fid ts) q = sq_answer (\<lambda>_. AUnit) (sql_set_folder_last_sync fk fid ts q)"
| "sql_op _ fk _ (OpSetFolderDevice fid did) q = sq_answer (\<lambda>_. AUnit) (sql_set_folder_device fk fid did q)"
| "sql_op _ _ _ (OpGetMetadata fid path) q = (q, Inr (AMetadata (sql_get_file_metadata fid path q)))"
| "sql_op _ fk _ (OpUpsertMetadata m) q = sq_answer (\<lambda>_. AUnit) (sql_upsert_file_metadata fk m q)"
| "sql_op _ fk now (OpRecordHistory e) q = sq_answer (\<lambda>_. AUnit) (sql_record_history fk now e q)"
| "sql_op _ _ _ (OpGetTombstones fid since) q = (q, Inr (ATombstones (sql_get_tombstones fid since q)))"
| "sql_op _ fk _ (OpAddTombstone t) q = sq_answer (\<lambda>_. AUnit) (sql_add_tombstone fk t q)"
| "sql_op _ fk _ (OpRecordSession s) q = sq_answer (\<lambda>_. AUnit) (sql_record_session fk s q)"
| "sql_op _ _ _ (OpRecentSessions limit) q = (q, map_sum id ASessions (sql_list_recent_sessions limit q))"
| "sql_op _ fk _ OpClearAll q = sq_answer ACounts (sql_clear_all_sync_state fk q)"
| "sql_op _ fk _ (OpRemoveSyncFolders local_path dev) q = sq_answer ACount (sql_remove_sync_folders fk local_path dev q)"

section \<open>Related stores\<close>

definition meta_view :: "FileMetadata \<Rightarrow> FilePath \<times> FolderId \<times> i64 \<times> i64 \<times> FileHash \<times> DeviceId" where
  "meta_view m = (fm_path m, fm_folder_id m, fm_mtime m, fm_size m, fm_hash m, fm_device_id m)"

definition device_view :: "Device \<Rightarrow> DeviceId \<times> string" where
  "device_view d = (dev_id d, dev_name d)"

definition history_of_row :: "sq_history \<Rightarrow> HistoryEntry" where
  "history_of_row r = \<lparr>he_folder_id = qh_folder_id r, he_path = qh_path r, he_device_id = qh_device_id r,
     he_action = qh_action r, he_version = qh_version r, he_mtime = qh_mtime r, he_hash = qh_hash r, he_size = qh_size r\<rparr>"

definition device_rel :: "DeviceId \<times> Device \<Rightarrow> device_row \<Rightarrow> bool" where
  "device_rel p r \<longleftrightarrow> fst p = d_id r \<and> device_view (snd p) = (d_id r, d_name r)"

definition folder_rel :: "FolderId \<times> Folder \<Rightarrow> sq_folder \<Rightarrow> bool" where
  "folder_rel p r \<longleftrightarrow> p = (qf_id r, folder_of_row r)"

definition meta_rel :: "(FolderId \<times> FilePath) \<times> FileMetadata \<Rightarrow> meta_row \<Rightarrow> bool" where
  "meta_rel p r \<longleftrightarrow> fst p = (m_folder_id r, m_path r) \<and> meta_view (snd p) = meta_view (metadata_of_row r)"

definition tomb_rel :: "Tombstone \<Rightarrow> sq_tombstone \<Rightarrow> bool" where
  "tomb_rel t r \<longleftrightarrow> t = tombstone_of_row r \<and> 0 \<le> qt_deleted_at r \<and> qt_deleted_at r < 2 ^ 63"

definition store_rel :: "mem_store \<Rightarrow> sqlite \<Rightarrow> bool" where
  "store_rel m q \<longleftrightarrow>
     list_all2 device_rel (ms_devices m) (q_devices q) \<and>
     list_all2 folder_rel (ms_folders m) (q_folders q) \<and>
     list_all2 meta_rel (ms_metadata m) (q_metadata q) \<and>
     list_all2 (\<lambda>h r. h = history_of_row r) (ms_history m) (q_history q) \<and>
     list_all2 tomb_rel (ms_tombstones m) (q_tombstones q) \<and>
     list_all2 (\<lambda>s r. session_of_row r = Some s) (ms_sessions m) (q_sessions q) \<and>
     ms_next_folder_id m = q_seq_folders q \<and> sq_unique q"

text \<open>Calls whose values fit into SQLite's signed integers and its hash column; pinning needs a known
  device, see \<open>unknown_device_not_pinned\<close>.\<close>

definition op_fits :: "sqlite \<Rightarrow> store_op \<Rightarrow> bool" where
  "op_fits q op =
     (case op of
        OpSetDeviceCert did _ \<Rightarrow> did \<in> d_id ` set (q_devices q)
      | OpUpsertMetadata m \<Rightarrow> length (fm_hash m) = 32
      | OpGetTombstones _ since \<Rightarrow> uint since < 2 ^ 63
      | OpAddTombstone t \<Rightarrow> uint (tomb_deleted_at t) < 2 ^ 63
      | OpRecordSession s \<Rightarrow>
          uint (sr_pushed_count s) < 2 ^ 63 \<and> uint (sr_pulled_count s) < 2 ^ 63 \<and> uint (sr_conflicts_count s) < 2 ^ 63
      | _ \<Rightarrow> True)"

definition same_answer :: "answer \<Rightarrow> answer \<Rightarrow> bool" where
  "same_answer a b =
     (case (a, b) of
        (ADevice x, ADevice y) \<Rightarrow> map_option device_view x = map_option device_view y
      | (ADevices xs, ADevices ys) \<Rightarrow> image_mset device_view (mset xs) = image_mset device_view (mset ys)
      | (AMetadata x, AMetadata y) \<Rightarrow> map_option meta_view x = map_option meta_view y
      | (ACert _, ACert _) \<Rightarrow> True
      | (ADeviceId _, ADeviceId _) \<Rightarrow> True
      | (AAddr _, AAddr _) \<Rightarrow> True
      | _ \<Rightarrow> a = b)"

section \<open>Tables and hash maps\<close>

lemma sq_execute_ok:
  "sq_execute fk q q1 x = (q', Inr y) \<longleftrightarrow> q' = q1 \<and> y = x \<and> sq_unique q1 \<and> (fk \<longrightarrow> sq_fk_ok q1)"
  by (auto simp: sq_execute_def)

lemma sq_bind_ok: "sq_bind r f = (q', Inr y) \<longleftrightarrow> (\<exists>q1 x. r = (q1, Inr x) \<and> f q1 x = (q', Inr y))"
  by (auto simp: sq_bind_def split: prod.splits sum.splits)

lemma sq_transaction_ok: "sq_transaction q r = (q', Inr y) \<longleftrightarrow> r = (q', Inr y)"
  by (auto simp: sq_transaction_def split: prod.splits sum.splits)

lemma sq_answer_ok: "sq_answer f r = (q', Inr a) \<longleftrightarrow> (\<exists>x. r = (q', Inr x) \<and> a = f x)"
  by (auto simp: sq_answer_def sq_bind_ok)

lemmas sq_ok = sq_execute_ok sq_bind_ok sq_transaction_ok sq_answer_ok

lemma rel_filter:
  assumes "list_all2 R xs ys" and "\<And>x y. R x y \<Longrightarrow> x \<in> set xs \<Longrightarrow> y \<in> set ys \<Longrightarrow> P x = Q y"
  shows "list_all2 R (filter P xs) (filter Q ys)"
  using assms by (induction rule: list_all2_induct) auto

lemma rel_lookup:
  assumes "list_all2 R xs rows" and "\<And>p r. R p r \<Longrightarrow> fst p = f r"
  shows "rel_option (\<lambda>d r. R (k, d) r) (map_of xs k) (find (\<lambda>r. f r = k) rows)"
  using assms by (induction rule: list_all2_induct) auto

lemma rel_known:
  assumes "list_all2 R xs rows" and "\<And>p r. R p r \<Longrightarrow> fst p = f r"
  shows "map_of xs k = None \<longleftrightarrow> k \<notin> f ` set rows"
  using assms by (induction rule: list_all2_induct) auto

lemma rel_insert:
  assumes "list_all2 R xs rows" and "\<And>p r. R p r \<Longrightarrow> fst p = f r" and "k \<notin> f ` set rows" and "R (k, v) r"
  shows "list_all2 R (AList.update k v xs) (rows @ [r])"
  using assms by (induction rule: list_all2_induct) auto

lemma rel_unchanged:
  assumes "list_all2 R xs rows" and "k \<notin> f ` set rows"
  shows "list_all2 R xs (map (\<lambda>r. if f r = k then u r else r) rows)"
proof -
  have "map (\<lambda>r. if f r = k then u r else r) rows = rows" using assms(2) by (auto intro!: map_idI)
  with assms(1) show ?thesis by simp
qed

lemma rel_update:
  assumes "list_all2 R xs rows" and "\<And>p r. R p r \<Longrightarrow> fst p = f r" and "distinct (map f rows)" and "k \<in> f ` set rows"
    and "\<And>d r. R (k, d) r \<Longrightarrow> map_of xs k = Some d \<Longrightarrow> R (k, v) (u r)"
  shows "list_all2 R (AList.update k v xs) (map (\<lambda>r. if f r = k then u r else r) rows)"
  using assms
proof (induction rule: list_all2_induct)
  case (Cons p xs r rows)
  obtain k' d where p: "p = (k', d)" by fastforce
  with Cons.prems(1) Cons.hyps(1) have k': "k' = f r" by fastforce
  show ?case
  proof (cases "f r = k")
    case True
    with Cons.prems(2) have "k \<notin> f ` set rows" by auto
    from rel_unchanged [OF Cons.hyps(2) this] Cons.prems(4) Cons.hyps(1) show ?thesis
      by (simp add: p k' True)
  next
    case False
    with Cons p k' show ?thesis by auto
  qed
qed simp

lemma rel_delete:
  assumes "list_all2 R xs rows" and "\<And>p r. R p r \<Longrightarrow> fst p = f r"
  shows "list_all2 R (AList.delete k xs) (filter (\<lambda>r. f r \<noteq> k) rows)"
  unfolding AList.delete_eq using assms(1) by (rule rel_filter) (auto dest: assms(2))

section \<open>Each call keeps the stores related\<close>

lemma store_relD:
  assumes "store_rel m q"
  shows "list_all2 device_rel (ms_devices m) (q_devices q)" "list_all2 folder_rel (ms_folders m) (q_folders q)"
    "list_all2 meta_rel (ms_metadata m) (q_metadata q)"
    "list_all2 (\<lambda>h r. h = history_of_row r) (ms_history m) (q_history q)"
    "list_all2 tomb_rel (ms_tombstones m) (q_tombstones q)"
    "list_all2 (\<lambda>s r. session_of_row r = Some s) (ms_sessions m) (q_sessions q)"
    "ms_next_folder_id m = q_seq_folders q" "sq_unique q"
  using assms by (simp_all add: store_rel_def)

lemma device_key: "device_rel p r \<Longrightarrow> fst p = d_id r" by (simp add: device_rel_def)
lemma folder_key: "folder_rel p r \<Longrightarrow> fst p = qf_id r" by (simp add: folder_rel_def)
lemma meta_key: "meta_rel p r \<Longrightarrow> fst p = (m_folder_id r, m_path r)" by (simp add: meta_rel_def)

lemma device_lookup:
  assumes "store_rel m q"
  shows "rel_option (\<lambda>d r. device_rel (did, d) r) (map_of (ms_devices m) did) (sq_device_row q did)"
  unfolding sq_device_row_def by (rule rel_lookup [OF store_relD(1) [OF assms]]) (rule device_key)

lemma device_known:
  assumes "store_rel m q"
  shows "map_of (ms_devices m) did = None \<longleftrightarrow> did \<notin> d_id ` set (q_devices q)"
  by (rule rel_known [OF store_relD(1) [OF assms] device_key])

lemma folder_known:
  assumes "store_rel m q"
  shows "map_of (ms_folders m) fid = None \<longleftrightarrow> fid \<notin> qf_id ` set (q_folders q)"
  by (rule rel_known [OF store_relD(2) [OF assms] folder_key])

text \<open>Writing a device or folder: the hash map replaces the entry, SQLite updates the row.\<close>

lemma devices_updated:
  assumes rel: "store_rel m q" and "did \<in> d_id ` set (q_devices q)"
    and "\<And>d r. device_rel (did, d) r \<Longrightarrow> map_of (ms_devices m) did = Some d \<Longrightarrow> device_rel (did, v) (u r)"
    and "sq_unique q'" and "q' = q\<lparr>q_devices := map (\<lambda>r. if d_id r = did then u r else r) (q_devices q)\<rparr>"
  shows "store_rel (m\<lparr>ms_devices := AList.update did v (ms_devices m)\<rparr>) q'"
  using store_relD [OF rel] assms(4) rel_update [OF store_relD(1) [OF rel], of d_id did v u] assms(2,3)
  by (simp add: store_rel_def assms(5) device_key sq_unique_def)

lemma devices_unchanged:
  assumes rel: "store_rel m q" and "did \<notin> d_id ` set (q_devices q)"
    and "sq_unique q'" and "q' = q\<lparr>q_devices := map (\<lambda>r. if d_id r = did then u r else r) (q_devices q)\<rparr>"
  shows "store_rel m q'"
  using store_relD [OF rel] assms(3) rel_unchanged [OF store_relD(1) [OF rel], of did d_id u] assms(2)
  by (simp add: store_rel_def assms(4))

lemma folder_changed:
  assumes rel: "store_rel m q" and f: "\<And>r. folder_of_row (u r) = g (folder_of_row r)" "\<And>r. qf_id (u r) = qf_id r"
    and ok: "sq_change_folder fk fid u q = (q', Inr x)"
  shows "store_rel (mem_change_folder fid g m) q'"
proof -
  from ok have q': "q' = q\<lparr>q_folders := map (\<lambda>r. if qf_id r = fid then u r else r) (q_folders q)\<rparr>" "sq_unique q'"
    by (auto simp: sq_change_folder_def sq_ok)
  note r = store_relD [OF rel]
  show ?thesis
  proof (cases "map_of (ms_folders m) fid")
    case None
    then have "list_all2 folder_rel (ms_folders m) (q_folders q')"
      using rel_unchanged [OF r(2), of fid qf_id u] folder_known [OF rel] by (simp add: q'(1))
    moreover have "mem_change_folder fid g m = m" using None by (simp add: mem_change_folder_def)
    ultimately show ?thesis using r q'(2) by (simp add: store_rel_def q'(1))
  next
    case (Some x)
    then have "fid \<in> qf_id ` set (q_folders q)" using folder_known [OF rel, of fid] by force
    moreover have "distinct (map qf_id (q_folders q))" using r(8) by (simp add: sq_unique_def)
    ultimately have "list_all2 folder_rel (hm_insert fid (g x) (ms_folders m)) (map (\<lambda>r. if qf_id r = fid then u r else r) (q_folders q))"
      using Some by (intro rel_update [OF r(2) folder_key]) (auto simp: folder_rel_def f)
    then have "list_all2 folder_rel (hm_insert fid (g x) (ms_folders m)) (q_folders q')" by (simp add: q'(1))
    with Some r q'(2) show ?thesis by (simp add: store_rel_def q'(1) mem_change_folder_def)
  qed
qed

lemma upsert_device_step:
  assumes rel: "store_rel m q" and ok: "sql_upsert_device fk now dev q = (q', Inr x)"
  shows "store_rel (mem_upsert_device dev m) q'"
proof (cases "dev_id dev \<in> d_id ` set (q_devices q)")
  case True
  let ?u = "\<lambda>r. r\<lparr>d_name := dev_name dev, d_cert := coalesce (dev_fingerprint dev) (d_cert r), d_last_seen := Some now,
    d_last_addr := coalesce (dev_last_addr dev) (d_last_addr r)\<rparr>"
  have "q' = q\<lparr>q_devices := map (\<lambda>r. if d_id r = dev_id dev then ?u r else r) (q_devices q)\<rparr>" "sq_unique q'"
    using ok unfolding sql_upsert_device_def if_P [OF True] sq_execute_ok by simp_all
  then show ?thesis unfolding mem_upsert_device_def
    by (intro devices_updated [OF rel True, of dev ?u]) (simp_all add: device_rel_def device_view_def)
next
  case False
  let ?r = "\<lparr>d_id = dev_id dev, d_name = dev_name dev, d_cert = dev_fingerprint dev,
    d_last_seen = Some now, d_last_addr = dev_last_addr dev\<rparr>"
  have q': "q' = q\<lparr>q_devices := q_devices q @ [?r]\<rparr>" "sq_unique q'"
    using ok unfolding sql_upsert_device_def if_not_P [OF False] sq_execute_ok by simp_all
  have "list_all2 device_rel (hm_insert (dev_id dev) dev (ms_devices m)) (q_devices q @ [?r])"
    by (rule rel_insert [OF store_relD(1) [OF rel] device_key False]) (simp_all add: device_rel_def device_view_def)
  with store_relD [OF rel] q' show ?thesis by (simp add: mem_upsert_device_def store_rel_def)
qed

lemma set_cert_step:
  assumes rel: "store_rel m q" and known: "did \<in> d_id ` set (q_devices q)"
    and ok: "sql_set_device_cert fk did cert q = (q', Inr x)"
  shows "store_rel (mem_set_device_cert b3 did cert m) q'"
  using ok unfolding mem_set_device_cert_def Let_def sql_set_device_cert_def sq_change_device_def sq_execute_ok
  by (intro devices_updated [OF rel known, of _ "\<lambda>r. r\<lparr>d_cert := Some cert\<rparr>"])
    (auto simp: device_rel_def device_view_def)

lemma set_addr_step:
  assumes rel: "store_rel m q" and ok: "sql_set_device_last_addr fk did addr q = (q', Inr x)"
  shows "store_rel (mem_set_device_last_addr did addr m) q'"
proof -
  let ?u = "\<lambda>r. r\<lparr>d_last_addr := Some addr\<rparr>"
  have q': "sq_unique q'" "q' = q\<lparr>q_devices := map (\<lambda>r. if d_id r = did then ?u r else r) (q_devices q)\<rparr>"
    using ok by (simp_all add: sql_set_device_last_addr_def sq_change_device_def sq_execute_ok)
  show ?thesis
  proof (cases "map_of (ms_devices m) did")
    case None
    with devices_unchanged [OF rel _ q'] device_known [OF rel, of did] show ?thesis
      by (simp add: mem_set_device_last_addr_def)
  next
    case (Some d)
    then have "did \<in> d_id ` set (q_devices q)" using device_known [OF rel, of did] by force
    then have "store_rel (m\<lparr>ms_devices := hm_insert did (d\<lparr>dev_last_addr := Some addr\<rparr>) (ms_devices m)\<rparr>) q'"
      by (rule devices_updated [OF rel _ _ q']) (use Some in \<open>auto simp: device_rel_def device_view_def\<close>)
    with Some show ?thesis by (simp add: mem_set_device_last_addr_def)
  qed
qed

lemma add_folder_step:
  assumes rel: "store_rel m q" and ok: "sql_add_folder fk local_path did direction q = (q', Inr fid)"
  shows "mem_add_folder local_path did direction m = (fst (mem_add_folder local_path did direction m), fid) \<and>
    store_rel (fst (mem_add_folder local_path did direction m)) q'"
proof -
  note r = store_relD [OF rel]
  let ?row = "\<lparr>qf_id = fid, qf_local_path = local_path, qf_device_id = did, qf_active = True,
    qf_direction = direction, qf_last_sync_at = None\<rparr>"
  from ok have q': "q' = q\<lparr>q_seq_folders := fid, q_folders := q_folders q @ [?row]\<rparr>" "fid = q_seq_folders q + 1" "sq_unique q'"
    by (auto simp: sql_add_folder_def Let_def sq_execute_ok)
  then have new: "fid \<notin> qf_id ` set (q_folders q)" by (simp add: sq_unique_def)
  have "list_all2 folder_rel (hm_insert fid (folder_of_row ?row) (ms_folders m)) (q_folders q @ [?row])"
    by (rule rel_insert [OF r(2) folder_key new]) (simp_all add: folder_rel_def)
  with r q' show ?thesis by (simp add: mem_add_folder_def Let_def store_rel_def folder_of_row_def)
qed

lemma remove_folder_step:
  assumes rel: "store_rel m q" and ok: "sql_remove_folder fk fid q = (q', Inr x)"
  shows "store_rel (mem_remove_folder fid m) q'"
  using ok store_relD [OF rel] rel_delete [OF store_relD(2) [OF rel] folder_key]
  by (simp add: sql_remove_folder_def sq_execute_ok mem_remove_folder_def store_rel_def)

lemma remove_folders_step:
  assumes rel: "store_rel m q" and ok: "sql_remove_sync_folders fk local_path dev q = (q', Inr n)"
  shows "store_rel (fst (mem_remove_sync_folders local_path dev m)) q' \<and> snd (mem_remove_sync_folders local_path dev m) = n"
proof -
  note r = store_relD [OF rel]
  let ?P = "\<lambda>(_, f). if fol_local_path f \<noteq> local_path then True else case dev of Some d \<Rightarrow> fol_device_id f \<noteq> d | None \<Rightarrow> False"
  let ?Q = "\<lambda>f. \<not> (case dev of Some d \<Rightarrow> qf_local_path f = local_path \<and> qf_device_id f = d | None \<Rightarrow> qf_local_path f = local_path)"
  have f: "list_all2 folder_rel (filter ?P (ms_folders m)) (filter ?Q (q_folders q))"
    by (rule rel_filter [OF r(2)]) (auto simp: folder_rel_def folder_of_row_def split: option.split)
  from ok have "q' = q\<lparr>q_folders := filter ?Q (q_folders q)\<rparr>" "n = length (q_folders q) - length (filter ?Q (q_folders q))" "sq_unique q'"
    by (auto simp: sql_remove_sync_folders_def Let_def sq_execute_ok)
  with r f list_all2_lengthD [OF f] list_all2_lengthD [OF r(2)] show ?thesis
    by (simp add: mem_remove_sync_folders_def Let_def store_rel_def)
qed

lemma clear_step:
  assumes rel: "store_rel m q" and ok: "sql_clear_all_sync_state fk q = (q', Inr n)"
  shows "store_rel (fst (mem_clear_all_sync_state m)) q' \<and> snd (mem_clear_all_sync_state m) = n"
proof -
  from ok have "q' = q\<lparr>q_history := [], q_metadata := [], q_folders := [], q_devices := []\<rparr>"
    "n = (length (q_folders q), length (q_devices q))"
    by (auto simp: sql_clear_all_sync_state_def sq_ok)
  with store_relD [OF rel] list_all2_lengthD [OF store_relD(1) [OF rel]] list_all2_lengthD [OF store_relD(2) [OF rel]]
  show ?thesis by (simp add: mem_clear_all_sync_state_def store_rel_def sq_unique_def)
qed

lemma upsert_metadata_step:
  assumes rel: "store_rel m q" and hash: "length (fm_hash x) = 32" and ok: "sql_upsert_file_metadata fk x q = (q', Inr y)"
  shows "store_rel (mem_upsert_file_metadata x m) q'"
proof (cases "(fm_folder_id x, fm_path x) \<in> (\<lambda>r. (m_folder_id r, m_path r)) ` set (q_metadata q)")
  case True
  note r = store_relD [OF rel]
  let ?u = "\<lambda>r. r\<lparr>m_mtime := fm_mtime x, m_size := fm_size x, m_hash := fm_hash x, m_device_id := fm_device_id x\<rparr>"
  let ?rows = "map (\<lambda>r. if (m_folder_id r, m_path r) = (fm_folder_id x, fm_path x) then ?u r else r) (q_metadata q)"
  have q': "q' = q\<lparr>q_metadata := ?rows\<rparr>" "sq_unique q'"
    using ok unfolding sql_upsert_file_metadata_def if_P [OF True] sq_execute_ok by simp_all
  have "distinct (map (\<lambda>r. (m_folder_id r, m_path r)) (q_metadata q))" using r(8) by (simp add: sq_unique_def)
  then have "list_all2 meta_rel (hm_insert (fm_folder_id x, fm_path x) x (ms_metadata m)) ?rows"
    by (intro rel_update [OF r(3) meta_key _ True])
      (use hash in \<open>auto simp: meta_rel_def meta_view_def metadata_of_row_def hash_array_def\<close>)
  with r q' show ?thesis by (simp add: mem_upsert_file_metadata_def store_rel_def)
next
  case False
  note r = store_relD [OF rel]
  let ?r = "\<lparr>m_path = fm_path x, m_folder_id = fm_folder_id x, m_mtime = fm_mtime x, m_size = fm_size x, m_hash = fm_hash x,
    m_device_id = fm_device_id x, m_version = 0, m_local_version = 0, m_remote_version = 0, m_local_mtime = 0, m_remote_mtime = 0\<rparr>"
  have q': "q' = q\<lparr>q_metadata := q_metadata q @ [?r]\<rparr>" "sq_unique q'"
    using ok unfolding sql_upsert_file_metadata_def if_not_P [OF False] sq_execute_ok by simp_all
  have "list_all2 meta_rel (hm_insert (fm_folder_id x, fm_path x) x (ms_metadata m)) (q_metadata q @ [?r])"
    by (rule rel_insert [OF r(3) meta_key False]) (simp_all add: meta_rel_def meta_view_def metadata_of_row_def hash_array_def hash)
  with r q' show ?thesis by (simp add: mem_upsert_file_metadata_def store_rel_def)
qed

text \<open>Casting an unsigned value below \<open>2 ^ 63\<close> to a signed one and back.\<close>

lemma sint_small: "uint w < 2 ^ 63 \<Longrightarrow> sint w = uint w" for w :: u64
  by (simp add: sint_uint signed_take_bit_int_eq_self_iff) (rule order_trans [OF _ uint_ge_0], simp)

lemma cast_back [simp]: "word_of_int (sint w) = w" for w :: u64
  by simp

lemma rel_snoc [simp]: "list_all2 R (xs @ [x]) (ys @ [y]) \<longleftrightarrow> list_all2 R xs ys \<and> R x y"
  using list_all2_rev [of R "xs @ [x]" "ys @ [y]"] by auto

lemma record_history_step:
  assumes "store_rel m q" and "sql_record_history fk now e q = (q', Inr x)"
  shows "store_rel (mem_record_history e m) q'"
  using assms by (simp add: sql_record_history_def mem_record_history_def sq_execute_ok store_rel_def) (simp add: history_of_row_def)

lemma add_tombstone_step:
  assumes "store_rel m q" and "uint (tomb_deleted_at t) < 2 ^ 63" and "sql_add_tombstone fk t q = (q', Inr x)"
  shows "store_rel (mem_add_tombstone t m) q'"
proof -
  have "tomb_rel t \<lparr>qt_folder_id = tomb_folder_id t, qt_path = tomb_path t, qt_device_id = tomb_device_id t,
      qt_deleted_at = sint (tomb_deleted_at t)\<rparr>"
    using assms(2) by (simp add: tomb_rel_def tombstone_of_row_def sint_small)
  with assms show ?thesis by (simp add: sql_add_tombstone_def mem_add_tombstone_def sq_execute_ok store_rel_def)
qed

lemma record_session_step:
  assumes "store_rel m q" and "op_fits q (OpRecordSession s)" and "sql_record_session fk s q = (q', Inr x)"
  shows "store_rel (mem_record_session s m) q'"
proof -
  have "session_of_row \<lparr>qs_ts = sr_ts s, qs_direction = sr_direction s, qs_peer_device = sr_peer_device s, qs_addr = sr_addr s,
      qs_folder_path = sr_folder_path s, qs_pushed_count = sint (sr_pushed_count s), qs_pulled_count = sint (sr_pulled_count s),
      qs_conflicts_count = sint (sr_conflicts_count s), qs_pushed_bytes = sint (sr_pushed_bytes s),
      qs_pulled_bytes = sint (sr_pulled_bytes s)\<rparr> = Some s"
    using assms(2) by (simp add: session_of_row_def op_fits_def sint_small not_less [symmetric])
  with assms show ?thesis by (simp add: sql_record_session_def mem_record_session_def sq_execute_ok store_rel_def)
qed

lemma folders_rows: "list_all2 folder_rel xs rows \<longleftrightarrow> xs = map (\<lambda>r. (qf_id r, folder_of_row r)) rows"
proof
  show "list_all2 folder_rel xs rows \<Longrightarrow> xs = map (\<lambda>r. (qf_id r, folder_of_row r)) rows"
    by (induction rule: list_all2_induct) (simp_all add: folder_rel_def)
qed (simp add: list_all2_map1 list_all2_same folder_rel_def)

lemma removed_once:
  "distinct (map f xs) \<Longrightarrow> length xs - length (filter (\<lambda>x. f x \<noteq> k) xs) = (if k \<in> f ` set xs then 1 else 0)"
proof (induction xs)
  case (Cons x xs)
  have "k \<notin> f ` set xs \<Longrightarrow> filter (\<lambda>x. f x \<noteq> k) xs = xs" by (auto intro!: filter_True)
  with Cons show ?case by (cases "f x = k") (auto simp: Suc_diff_le)
qed simp

definition owned_ids :: "DeviceId \<Rightarrow> sqlite \<Rightarrow> FolderId set" where
  "owned_ids did q = qf_id ` set (filter (\<lambda>f. qf_device_id f = did) (q_folders q))"

lemma owned_iff:
  assumes "sq_unique q" and "r \<in> set (q_folders q)"
  shows "qf_id r \<in> owned_ids did q \<longleftrightarrow> qf_device_id r = did"
  using assms by (auto simp: sq_unique_def owned_ids_def distinct_map inj_on_def)

lemma sql_remove_device_ok:
  assumes "sql_remove_device fk did q = (q', Inr c)"
  defines "sessions \<equiv> filter (\<lambda>s. qs_peer_device s \<noteq> did) (q_sessions q)"
    and "history \<equiv> filter (\<lambda>h. \<not> (qh_device_id h = did \<or> qh_folder_id h \<in> owned_ids did q)) (q_history q)"
    and "metadata \<equiv> filter (\<lambda>m. m_folder_id m \<notin> owned_ids did q) (q_metadata q)"
    and "folders \<equiv> filter (\<lambda>f. qf_device_id f \<noteq> did) (q_folders q)"
    and "devices \<equiv> filter (\<lambda>r. d_id r \<noteq> did) (q_devices q)"
  shows "q' = q\<lparr>q_sessions := sessions, q_history := history, q_metadata := metadata, q_folders := folders, q_devices := devices\<rparr>"
    and "c = \<lparr>sessions_removed = length (q_sessions q) - length sessions, history_removed = length (q_history q) - length history,
      metadata_removed = length (q_metadata q) - length metadata, folders_removed = length (q_folders q) - length folders,
      device_removed = length (q_devices q) - length devices\<rparr>"
    and "sq_unique q'"
  using assms(1) unfolding sql_remove_device_def Let_def sq_ok assms(2-) owned_ids_def by auto

lemma remove_device_step:
  assumes rel: "store_rel m q" and ok: "sql_remove_device fk did q = (q', Inr c)"
  shows "store_rel (fst (mem_remove_device did m)) q' \<and> snd (mem_remove_device did m) = c"
proof -
  note r = store_relD [OF rel] and q' = sql_remove_device_ok [OF ok]
  let ?ids = "map (fol_id \<circ> snd) (filter (\<lambda>(_, f). fol_device_id f = did) (ms_folders m))"
  have ids: "set ?ids = owned_ids did q"
    using r(2) unfolding folders_rows by (simp add: filter_map o_def owned_ids_def folder_of_row_def split_def image_image)
  have f: "list_all2 folder_rel (filter (\<lambda>(k, _). k \<notin> set ?ids) (ms_folders m)) (filter (\<lambda>f. qf_device_id f \<noteq> did) (q_folders q))"
    unfolding ids by (rule rel_filter [OF r(2)]) (use owned_iff [OF r(8)] in \<open>simp add: folder_rel_def split: prod.splits\<close>)
  have me: "list_all2 meta_rel (filter (\<lambda>((fid, _), _). fid \<notin> set ?ids) (ms_metadata m)) (filter (\<lambda>m. m_folder_id m \<notin> owned_ids did q) (q_metadata q))"
    unfolding ids by (rule rel_filter [OF r(3)]) (auto simp: meta_rel_def)
  have h: "list_all2 (\<lambda>h r. h = history_of_row r) (filter (\<lambda>h. he_device_id h \<noteq> did \<and> he_folder_id h \<notin> set ?ids) (ms_history m))
      (filter (\<lambda>h. \<not> (qh_device_id h = did \<or> qh_folder_id h \<in> owned_ids did q)) (q_history q))"
    unfolding ids by (rule rel_filter [OF r(4)]) (simp add: history_of_row_def)
  have s: "list_all2 (\<lambda>s r. session_of_row r = Some s) (filter (\<lambda>s. sr_peer_device s \<noteq> did) (ms_sessions m))
      (filter (\<lambda>s. qs_peer_device s \<noteq> did) (q_sessions q))"
    by (rule rel_filter [OF r(6)]) (auto simp: session_of_row_def split: if_splits)
  have d: "list_all2 device_rel (AList.delete did (ms_devices m)) (filter (\<lambda>r. d_id r \<noteq> did) (q_devices q))"
    by (rule rel_delete [OF r(1) device_key])
  have "(if map_of (ms_devices m) did = None then 0 else 1) = length (q_devices q) - length (filter (\<lambda>r. d_id r \<noteq> did) (q_devices q))"
    using removed_once [of d_id "q_devices q" did] r(8) device_known [OF rel, of did] by (simp add: sq_unique_def)
  with r f me h s d q' list_all2_lengthD [OF f] list_all2_lengthD [OF r(2)] list_all2_lengthD [OF me] list_all2_lengthD [OF r(3)]
    list_all2_lengthD [OF h] list_all2_lengthD [OF r(4)] list_all2_lengthD [OF s] list_all2_lengthD [OF r(6)]
  show ?thesis unfolding mem_remove_device_def Let_def store_rel_def by simp
qed

section \<open>Answers\<close>

lemma rel_mset_image:
  assumes "list_all2 R xs rows" and "\<And>p r. R p r \<Longrightarrow> v (snd p) = w r"
  shows "image_mset v (mset (map snd xs)) = image_mset w (mset rows)"
  using assms by (induction rule: list_all2_induct) auto

lemma device_answers:
  assumes rel: "store_rel m q" and itd: "\<And>xs. mset (itd xs) = mset xs"
  shows "same_answer (ADevice (mem_get_device did m)) (ADevice (sql_get_device did q))"
    and "same_answer (ADevices (mem_list_devices itd m)) (ADevices (sql_list_devices q))"
proof -
  from device_lookup [OF rel, of did] show "same_answer (ADevice (mem_get_device did m)) (ADevice (sql_get_device did q))"
    by (cases rule: option.rel_cases) (auto simp: same_answer_def mem_get_device_def sql_get_device_def device_rel_def device_of_row_def device_view_def)
  define rows where "rows = sort_key (\<lambda>r. - the (d_last_seen r)) (filter (\<lambda>r. d_last_seen r \<noteq> None) (q_devices q)) @
    filter (\<lambda>r. d_last_seen r = None) (q_devices q)"
  have "mset rows = mset (q_devices q)"
    using multiset_partition [of "mset (q_devices q)" "\<lambda>r. d_last_seen r \<noteq> None"] by (simp add: rows_def)
  moreover have "sql_list_devices q = map device_of_row rows" unfolding sql_list_devices_def rows_def ..
  ultimately have "image_mset device_view (mset (sql_list_devices q)) = image_mset (\<lambda>r. (d_id r, d_name r)) (mset (q_devices q))"
    by (simp add: multiset.map_comp comp_def device_view_def device_of_row_def)
  moreover have "image_mset device_view (mset (map snd (ms_devices m))) = image_mset (\<lambda>r. (d_id r, d_name r)) (mset (q_devices q))"
    by (rule rel_mset_image [OF store_relD(1) [OF rel]]) (simp add: device_rel_def)
  ultimately show "same_answer (ADevices (mem_list_devices itd m)) (ADevices (sql_list_devices q))"
    unfolding same_answer_def mem_list_devices_def itd by (simp add: itd)
qed

lemma folder_answers:
  assumes rel: "store_rel m q" and itf: "\<And>xs. mset (itf xs) = mset xs"
  shows "mem_get_folder fid m = sql_get_folder fid q" and "mem_list_folders itf m = sql_list_folders q"
proof -
  have rows: "ms_folders m = map (\<lambda>r. (qf_id r, folder_of_row r)) (q_folders q)"
    using store_relD(2) [OF rel] by (simp add: folders_rows)
  have "map_of (map (\<lambda>r. (qf_id r, folder_of_row r)) xs) fid = map_option folder_of_row (find (\<lambda>r. qf_id r = fid) xs)" for xs
    by (induction xs) auto
  then show "mem_get_folder fid m = sql_get_folder fid q" by (simp add: mem_get_folder_def sql_get_folder_def rows)
  have key: "map fol_id (map folder_of_row xs) = map qf_id xs" for xs by (simp add: folder_of_row_def)
  have "sort_key fol_id (itf (map snd (ms_folders m))) = map folder_of_row (sort_key qf_id (q_folders q))"
  proof (rule sort_key_inj_key_eq)
    show "mset (itf (map snd (ms_folders m))) = mset (map folder_of_row (sort_key qf_id (q_folders q)))"
      by (simp add: itf rows comp_def)
    have "distinct (map fol_id (map folder_of_row (q_folders q)))"
      using store_relD(8) [OF rel] unfolding key by (simp add: sq_unique_def)
    then have "inj_on fol_id (set (map folder_of_row (q_folders q)))" by (simp only: distinct_map)
    moreover have "set (itf (map snd (ms_folders m))) = set (map folder_of_row (q_folders q))"
      using mset_eq_setD [OF itf [of "map snd (ms_folders m)"]] by (simp add: rows image_image)
    ultimately show "inj_on fol_id (set (itf (map snd (ms_folders m))))" by simp
    show "sorted (map fol_id (map folder_of_row (sort_key qf_id (q_folders q))))" unfolding key by simp
  qed
  then show "mem_list_folders itf m = sql_list_folders q" by (simp add: mem_list_folders_def sql_list_folders_def)
qed

lemma metadata_answer:
  assumes rel: "store_rel m q"
  shows "same_answer (AMetadata (mem_get_file_metadata fid path m)) (AMetadata (sql_get_file_metadata fid path q))"
proof -
  have "rel_option (\<lambda>d r. meta_rel ((fid, path), d) r) (map_of (ms_metadata m) (fid, path))
      (find (\<lambda>r. (m_folder_id r, m_path r) = (fid, path)) (q_metadata q))"
    by (rule rel_lookup [OF store_relD(3) [OF rel]]) (rule meta_key)
  then show ?thesis
    by (cases rule: option.rel_cases) (auto simp: same_answer_def mem_get_file_metadata_def sql_get_file_metadata_def meta_rel_def)
qed

lemma tombstone_answer:
  assumes rel: "store_rel m q" and since: "uint since < 2 ^ 63"
  shows "mem_get_tombstones fid since m = sql_get_tombstones fid since q"
proof -
  have "list_all2 tomb_rel (filter (\<lambda>t. tomb_folder_id t = fid \<and> since \<le> tomb_deleted_at t) (ms_tombstones m))
      (filter (\<lambda>r. qt_folder_id r = fid \<and> sint since \<le> qt_deleted_at r) (q_tombstones q))"
    by (rule rel_filter [OF store_relD(5) [OF rel]])
      (use since in \<open>auto simp: tomb_rel_def tombstone_of_row_def sint_small word_le_def uint_word_of_int\<close>)
  then have "filter (\<lambda>t. tomb_folder_id t = fid \<and> since \<le> tomb_deleted_at t) (ms_tombstones m) =
      map tombstone_of_row (filter (\<lambda>r. qt_folder_id r = fid \<and> sint since \<le> qt_deleted_at r) (q_tombstones q))"
    by (induction rule: list_all2_induct) (simp_all add: tomb_rel_def)
  then show ?thesis by (simp add: mem_get_tombstones_def sql_get_tombstones_def)
qed

lemma session_answer:
  assumes rel: "store_rel m q"
  shows "sql_list_recent_sessions limit q = Inr (mem_list_recent_sessions limit m)"
proof -
  have "list_all2 (\<lambda>s r. session_of_row r = Some s) (take (unat limit) (rev (ms_sessions m))) (take (unat limit) (rev (q_sessions q)))"
    using store_relD(6) [OF rel] by (intro list_all2_takeI) simp
  then have "those (map session_of_row (take (unat limit) (rev (q_sessions q)))) = Some (take (unat limit) (rev (ms_sessions m)))"
    by (induction rule: list_all2_induct) simp_all
  then show ?thesis by (simp add: sql_list_recent_sessions_def mem_list_recent_sessions_def)
qed

section \<open>The stores agree\<close>

lemma same_answer_refl [simp]: "same_answer a a"
  by (cases a) (simp_all add: same_answer_def)

lemma same_answer_certs:
  "same_answer (ACert x) (ACert y)" "same_answer (ADeviceId a) (ADeviceId b)" "same_answer (AAddr u) (AAddr v)"
  by (simp_all add: same_answer_def)

lemma store_step:
  assumes rel: "store_rel m q" and fit: "op_fits q op" and it: "\<And>xs. mset (itd xs) = mset xs" "\<And>xs. mset (itf xs) = mset xs"
    and ok: "sql_op b3 fk now op q = (q', Inr a)"
  shows "store_rel (fst (mem_op b3 itd itf op m)) q' \<and> same_answer (snd (mem_op b3 itd itf op m)) a"
proof (cases op)
  case (OpAddFolder local_path did direction)
  with ok obtain fid where "sql_add_folder fk local_path did direction q = (q', Inr fid)" "a = AFolderId fid"
    by (auto simp: sq_answer_ok)
  with add_folder_step [OF rel this(1)] OpAddFolder show ?thesis by (metis fst_map_prod id_apply mem_op.simps(12) same_answer_refl snd_conv snd_map_prod)
next
  case (OpRemoveDevice did)
  with ok remove_device_step [OF rel] show ?thesis by (auto simp: sq_answer_ok)
next
  case OpClearAll
  with ok clear_step [OF rel] show ?thesis by (auto simp: sq_answer_ok)
next
  case (OpRemoveSyncFolders local_path dev)
  with ok remove_folders_step [OF rel] show ?thesis by (auto simp: sq_answer_ok)
next
  case (OpSetFolderLastSync fid ts)
  with ok folder_changed [OF rel, of "\<lambda>r. r\<lparr>qf_last_sync_at := Some ts\<rparr>" "\<lambda>f. f\<lparr>fol_last_sync_at := Some ts\<rparr>"]
  show ?thesis by (auto simp: sq_answer_ok sql_set_folder_last_sync_def mem_set_folder_last_sync_def folder_of_row_def)
next
  case (OpSetFolderDevice fid did)
  with ok folder_changed [OF rel, of "\<lambda>r. r\<lparr>qf_device_id := did\<rparr>" "\<lambda>f. f\<lparr>fol_device_id := did\<rparr>"]
  show ?thesis by (auto simp: sq_answer_ok sql_set_folder_device_def mem_set_folder_device_def folder_of_row_def)
next
  case (OpRecordSession s)
  with ok record_session_step [OF rel fit [unfolded OpRecordSession]] show ?thesis by (auto simp: sq_answer_ok)
next
  case (OpRecentSessions limit)
  with ok rel session_answer [OF rel] show ?thesis by auto
next
  case (OpGetTombstones fid since)
  with ok rel fit tombstone_answer [OF rel] show ?thesis by (auto simp: op_fits_def)
qed (use ok fit rel device_answers [OF rel it(1)] folder_answers [OF rel it(2)] metadata_answer [OF rel]
    in \<open>auto simp: op_fits_def sq_answer_ok same_answer_certs
    intro: upsert_device_step [OF rel] set_cert_step [OF rel] set_addr_step [OF rel] remove_folder_step [OF rel]
    upsert_metadata_step [OF rel] record_history_step [OF rel] add_tombstone_step [OF rel]\<close>)

text \<open>The pairs of stores that the same accepted calls produce from new ones.\<close>

inductive both_reach ::
  "(bytes \<Rightarrow> bytes) \<Rightarrow> bool \<Rightarrow> (Device list \<Rightarrow> Device list) \<Rightarrow> (Folder list \<Rightarrow> Folder list) \<Rightarrow> mem_store \<Rightarrow> sqlite \<Rightarrow> bool"
  for b3 fk itd itf where
  new: "both_reach b3 fk itd itf mem_new sql_new"
| call: "both_reach b3 fk itd itf m q \<Longrightarrow> op_fits q op \<Longrightarrow> sql_op b3 fk now op q = (q', Inr a) \<Longrightarrow>
    both_reach b3 fk itd itf (fst (mem_op b3 itd itf op m)) q'"

lemma both_reach_rel:
  assumes "both_reach b3 fk itd itf m q" and it: "\<And>xs. mset (itd xs) = mset xs" "\<And>xs. mset (itf xs) = mset xs"
  shows "store_rel m q"
  using assms(1)
proof induction
  case new
  then show ?case by (simp add: store_rel_def mem_new_def sql_new_def sq_unique_def)
next
  case (call m q op now q' a)
  with store_step [OF _ _ it] show ?case by blast
qed



end
