(* ===== verification/Authorization.thy ===== *)
theory Authorization
  imports Store_Contract
begin

text \<open>
  The authorization layer over a \<open>StateStore\<close>: trust on first use of certificates
  (\<open>IdentityVerifier\<close> of \<open>authorization/identity.rs\<close>) and folder permissions (\<open>FolderAuthorizer\<close> of
  \<open>authorization/folder_auth.rs\<close>). The operations of the store that they call are arguments; the locale
  states what the verifier relies on and both stores are interpreted in it.
\<close>

section \<open>Trust on first use\<close>

definition verify_peer ::
  "(bytes \<Rightarrow> bytes) \<Rightarrow> (CertificateFingerprint \<Rightarrow> 's \<Rightarrow> DeviceId option) \<Rightarrow> bytes \<Rightarrow> 's \<Rightarrow> DeviceId option" where
  "verify_peer blake3 by_fingerprint cert s = by_fingerprint (fingerprint_from_der blake3 cert) s"

definition trust_first_use ::
  "(DeviceId \<Rightarrow> bytes \<Rightarrow> 's \<Rightarrow> 's \<times> (sq_error + unit)) \<Rightarrow> DeviceId \<Rightarrow> bytes \<Rightarrow> 's \<Rightarrow> 's \<times> (sq_error + unit)" where
  "trust_first_use set_cert did cert s = set_cert did cert s"

definition verify_or_trust ::
  "(DeviceId \<Rightarrow> 's \<Rightarrow> bytes option) \<Rightarrow> (DeviceId \<Rightarrow> bytes \<Rightarrow> 's \<Rightarrow> 's \<times> (sq_error + unit)) \<Rightarrow>
   DeviceId \<Rightarrow> bytes \<Rightarrow> 's \<Rightarrow> 's \<times> (sq_error + bool)" where
  "verify_or_trust get_cert set_cert did cert s =
     (case get_cert did s of
        Some stored \<Rightarrow> (s, Inr (cert = stored))
      | None \<Rightarrow>
          (case trust_first_use set_cert did cert s of
             (s', Inl err) \<Rightarrow> (s', Inl err)
           | (s', Inr _) \<Rightarrow> (s', Inr True)))"

text \<open>A sequence of connections, each presenting a certificate for a device.\<close>

fun present_all ::
  "(DeviceId \<Rightarrow> 's \<Rightarrow> bytes option) \<Rightarrow> (DeviceId \<Rightarrow> bytes \<Rightarrow> 's \<Rightarrow> 's \<times> (sq_error + unit)) \<Rightarrow>
   (DeviceId \<times> bytes) list \<Rightarrow> 's \<Rightarrow> 's" where
  "present_all get_cert set_cert [] s = s"
| "present_all get_cert set_cert ((did, cert) # ps) s =
     present_all get_cert set_cert ps (fst (verify_or_trust get_cert set_cert did cert s))"

text \<open>What the verifier relies on: in a good store, pinning a device that is \<open>known\<close> records
  \<open>stored cert\<close>, a device that is not stays as it was, and no other device is touched.\<close>

locale cert_store =
  fixes good :: "'s \<Rightarrow> bool" and known :: "'s \<Rightarrow> DeviceId \<Rightarrow> bool" and stored :: "bytes \<Rightarrow> bytes"
    and get_cert :: "DeviceId \<Rightarrow> 's \<Rightarrow> bytes option"
    and set_cert :: "DeviceId \<Rightarrow> bytes \<Rightarrow> 's \<Rightarrow> 's \<times> (sq_error + unit)"
  assumes set_cert_ok: "good s \<Longrightarrow> snd (set_cert did cert s) = Inr ()"
    and set_cert_good: "good s \<Longrightarrow> good (fst (set_cert did cert s))"
    and get_set_known: "good s \<Longrightarrow> known s did \<Longrightarrow> get_cert did (fst (set_cert did cert s)) = Some (stored cert)"
    and get_set_unknown: "good s \<Longrightarrow> \<not> known s did \<Longrightarrow> get_cert did (fst (set_cert did cert s)) = get_cert did s"
    and get_set_other: "good s \<Longrightarrow> j \<noteq> did \<Longrightarrow> get_cert j (fst (set_cert did cert s)) = get_cert j s"
    and known_set: "good s \<Longrightarrow> known (fst (set_cert did cert s)) j \<longleftrightarrow> known s j"
begin

lemma verify_cases:
  "good s \<Longrightarrow> verify_or_trust get_cert set_cert did cert s =
     (case get_cert did s of Some d \<Rightarrow> (s, Inr (cert = d)) | None \<Rightarrow> (fst (set_cert did cert s), Inr True))"
  using set_cert_ok [of s did cert]
  by (auto simp: verify_or_trust_def trust_first_use_def split: option.splits prod.splits sum.splits)

lemma present_step:
  assumes "good s"
  shows "good (fst (verify_or_trust get_cert set_cert did cert s))"
    and "known (fst (verify_or_trust get_cert set_cert did cert s)) j = known s j"
    and "get_cert j s = Some d \<Longrightarrow> get_cert j (fst (verify_or_trust get_cert set_cert did cert s)) = Some d"
    and "get_cert j s = None \<Longrightarrow> \<not> known s j \<Longrightarrow> get_cert j (fst (verify_or_trust get_cert set_cert did cert s)) = None"
  using assms set_cert_good known_set get_set_other [OF assms, of j did cert] get_set_unknown [OF assms, of did cert]
  by (cases "j = did"; auto simp: verify_cases split: option.splits)+

lemma present_all_keeps:
  assumes "good s"
  shows "good (present_all get_cert set_cert ps s) \<and> (known (present_all get_cert set_cert ps s) j \<longleftrightarrow> known s j) \<and>
    (\<forall>d. get_cert j s = Some d \<longrightarrow> get_cert j (present_all get_cert set_cert ps s) = Some d) \<and>
    (get_cert j s = None \<longrightarrow> \<not> known s j \<longrightarrow> get_cert j (present_all get_cert set_cert ps s) = None)"
  using assms
proof (induction ps arbitrary: s)
  case (Cons p ps)
  obtain did cert where p: "p = (did, cert)" by fastforce
  note st = present_step [OF Cons.prems, where did = did and cert = cert]
  from Cons.IH [OF st(1)] st(2-4) [of j] show ?case by (simp add: p)
qed simp

text \<open>The first certificate that a known device presents is accepted and pinned for good.\<close>

lemma first_use_pins:
  assumes "good s" and "known s did" and "get_cert did s = None"
  shows "snd (verify_or_trust get_cert set_cert did cert s) = Inr True"
    and "snd (verify_or_trust get_cert set_cert did cert' (present_all get_cert set_cert ps
      (fst (verify_or_trust get_cert set_cert did cert s)))) = Inr (cert' = stored cert)"
proof -
  show "snd (verify_or_trust get_cert set_cert did cert s) = Inr True" using assms by (simp add: verify_cases)
  let ?s = "fst (verify_or_trust get_cert set_cert did cert s)"
  have "good ?s" "get_cert did ?s = Some (stored cert)"
    using assms set_cert_good get_set_known by (simp_all add: verify_cases)
  with present_all_keeps [OF this(1), of ps did]
  show "snd (verify_or_trust get_cert set_cert did cert' (present_all get_cert set_cert ps ?s)) = Inr (cert' = stored cert)"
    by (simp add: verify_cases)
qed

text \<open>A device that is not known is never pinned, so every certificate is accepted for it.\<close>

lemma unknown_never_pinned:
  assumes "good s" and "\<not> known s did" and "get_cert did s = None"
  shows "snd (verify_or_trust get_cert set_cert did cert (present_all get_cert set_cert ps s)) = Inr True"
  using present_all_keeps [OF assms(1), of ps did] assms(2,3) by (simp add: verify_cases)

end

section \<open>Both stores\<close>

definition sql_good :: "bool \<Rightarrow> sqlite \<Rightarrow> bool" where
  "sql_good fk q \<longleftrightarrow> sq_unique q \<and> (fk \<longrightarrow> sq_fk_ok q)"

lemma sql_good_devices:
  assumes "map d_id rows = map d_id (q_devices q)"
  shows "sql_good fk (q\<lparr>q_devices := rows\<rparr>) \<longleftrightarrow> sql_good fk q"
proof -
  have "d_id ` set rows = d_id ` set (q_devices q)" using assms by (metis list.set_map)
  with assms show ?thesis by (simp add: sql_good_def sq_unique_def sq_fk_ok_def)
qed

lemma ids_kept:
  assumes "\<And>r. d_id (u r) = d_id r"
  shows "map d_id (map (\<lambda>r. if d_id r = did then u r else r) rows) = map d_id rows"
  using assms by (induction rows) auto

lemma sql_set_device_cert_ok:
  assumes "sql_good fk q"
  shows "sql_set_device_cert fk did cert q =
    (q\<lparr>q_devices := map (\<lambda>r. if d_id r = did then r\<lparr>d_cert := Some cert\<rparr> else r) (q_devices q)\<rparr>, Inr ())"
    and "sql_good fk (fst (sql_set_device_cert fk did cert q))"
proof -
  let ?rows = "map (\<lambda>r. if d_id r = did then r\<lparr>d_cert := Some cert\<rparr> else r) (q_devices q)"
  have "map d_id ?rows = map d_id (q_devices q)" by (rule ids_kept) simp
  with assms have ok: "sql_good fk (q\<lparr>q_devices := ?rows\<rparr>)" by (simp only: sql_good_devices)
  then show "sql_set_device_cert fk did cert q = (q\<lparr>q_devices := ?rows\<rparr>, Inr ())"
    by (auto simp: sql_set_device_cert_def sq_change_device_def sq_execute_def sql_good_def)
  with ok show "sql_good fk (fst (sql_set_device_cert fk did cert q))" by simp
qed

lemma sql_row_set:
  "find (\<lambda>r. d_id r = j) (map (\<lambda>r. if d_id r = did then r\<lparr>d_cert := Some cert\<rparr> else r) rows) =
    (if j = did then map_option (\<lambda>r. r\<lparr>d_cert := Some cert\<rparr>) (find (\<lambda>r. d_id r = j) rows) else find (\<lambda>r. d_id r = j) rows)"
  by (induction rows) auto

interpretation sql_pins: cert_store "sql_good fk" "\<lambda>q did. sq_device_row q did \<noteq> None" "\<lambda>c. c" sql_get_device_cert
  "sql_set_device_cert fk" for fk
proof unfold_locales
  fix s did cert j
  assume good: "sql_good fk s"
  show "sql_good fk (fst (sql_set_device_cert fk did cert s))" by (rule sql_set_device_cert_ok(2) [OF good])
qed (auto simp: sql_set_device_cert_ok sql_get_device_cert_def sq_device_row_def sql_row_set)

definition mem_set_cert ::
  "(bytes \<Rightarrow> bytes) \<Rightarrow> DeviceId \<Rightarrow> bytes \<Rightarrow> mem_store \<Rightarrow> mem_store \<times> (sq_error + unit)" where
  "mem_set_cert blake3 did cert st = (mem_set_device_cert blake3 did cert st, Inr ())"

interpretation mem_pins: cert_store "\<lambda>_ :: mem_store. True" "\<lambda>_ _. True" blake3 mem_get_device_cert "mem_set_cert blake3"
  for blake3 :: "bytes \<Rightarrow> bytes"
  by unfold_locales
    (auto simp: mem_set_cert_def mem_set_device_cert_def mem_get_device_cert_def Let_def update_conv
      fingerprint_from_der_def split: option.splits)

section \<open>Folder permissions\<close>

datatype Permission = Denied | ReadOnly | ReadWrite

instantiation Permission :: linorder
begin

fun permission_rank :: "Permission \<Rightarrow> nat" where
  "permission_rank Denied = 0"
| "permission_rank ReadOnly = 1"
| "permission_rank ReadWrite = 2"

definition less_eq_Permission :: "Permission \<Rightarrow> Permission \<Rightarrow> bool" where
  "less_eq_Permission a b \<longleftrightarrow> permission_rank a \<le> permission_rank b"

definition less_Permission :: "Permission \<Rightarrow> Permission \<Rightarrow> bool" where
  "less_Permission a b \<longleftrightarrow> permission_rank a < permission_rank b"

instance
proof
  fix a b :: Permission
  show "a \<le> b \<Longrightarrow> b \<le> a \<Longrightarrow> a = b" by (cases a; cases b) (simp_all add: less_eq_Permission_def)
qed (auto simp: less_eq_Permission_def less_Permission_def)

end

definition check_permission :: "(DeviceId \<Rightarrow> 's \<Rightarrow> Device option) \<Rightarrow> DeviceId \<Rightarrow> FolderId \<Rightarrow> 's \<Rightarrow> Permission" where
  "check_permission get_device did fid s = (if get_device did s \<noteq> None then ReadWrite else Denied)"

definition can_read :: "(DeviceId \<Rightarrow> 's \<Rightarrow> Device option) \<Rightarrow> DeviceId \<Rightarrow> FolderId \<Rightarrow> 's \<Rightarrow> bool" where
  "can_read get_device did fid s \<longleftrightarrow> ReadOnly \<le> check_permission get_device did fid s"

definition can_write :: "(DeviceId \<Rightarrow> 's \<Rightarrow> Device option) \<Rightarrow> DeviceId \<Rightarrow> FolderId \<Rightarrow> 's \<Rightarrow> bool" where
  "can_write get_device did fid s \<longleftrightarrow> ReadWrite \<le> check_permission get_device did fid s"

lemma can_read_iff: "can_read get_device did fid s \<longleftrightarrow> get_device did s \<noteq> None"
  by (simp add: can_read_def check_permission_def less_eq_Permission_def)

lemma can_write_iff: "can_write get_device did fid s \<longleftrightarrow> get_device did s \<noteq> None"
  by (simp add: can_write_def check_permission_def less_eq_Permission_def)

section \<open>What the verifier achieves\<close>

text \<open>C11. Trust on first use holds on SQLite for devices with a row: the first certificate that such a
  device presents is accepted, and from then on, whatever other connections present for whichever
  devices, exactly that certificate is accepted for it.\<close>

theorem first_certificate_pinned:
  assumes "sql_good fk q" and "sql_get_device did q \<noteq> None" and "sql_get_device_cert did q = None"
    and "q1 = fst (verify_or_trust sql_get_device_cert (sql_set_device_cert fk) did cert q)"
    and "q2 = present_all sql_get_device_cert (sql_set_device_cert fk) others q1"
  shows "snd (verify_or_trust sql_get_device_cert (sql_set_device_cert fk) did cert q) = Inr True \<and>
    snd (verify_or_trust sql_get_device_cert (sql_set_device_cert fk) did cert' q2) = Inr (cert' = cert)"
  using sql_pins.first_use_pins [OF assms(1) _ assms(3)] assms(2) unfolding assms(4,5) sql_get_device_def by simp_all

theorem first_certificate_pinned_witness:
  "let row = \<lparr>d_id = ''d'', d_name = ''Desk'', d_cert = None, d_last_seen = None, d_last_addr = None\<rparr>;
       q = sql_new\<lparr>q_devices := [row]\<rparr>; verify = verify_or_trust sql_get_device_cert (sql_set_device_cert True);
       q2 = present_all sql_get_device_cert (sql_set_device_cert True) [(''d'', [8]), (''e'', [9])] (fst (verify ''d'' [7] q))
   in snd (verify ''d'' [7] q2) = Inr True \<and> snd (verify ''d'' [8] q2) = Inr False"
proof -
  let ?q = "sql_new\<lparr>q_devices := [\<lparr>d_id = ''d'', d_name = ''Desk'', d_cert = None, d_last_seen = None, d_last_addr = None\<rparr>]\<rparr>"
  have "sql_good True ?q" "sql_get_device ''d'' ?q \<noteq> None" "sql_get_device_cert ''d'' ?q = None"
    by (simp_all add: sql_good_def sq_unique_def sq_fk_ok_def sql_new_def sql_get_device_def sq_device_row_def sql_get_device_cert_def)
  note pinned = first_certificate_pinned [OF this refl refl, where others = "[(''d'', [8]), (''e'', [9])]" and cert = "[7]", THEN conjunct2]
  show ?thesis unfolding Let_def pinned by simp
qed

text \<open>On SQLite a device without a row is never pinned: every certificate is accepted for it, always.\<close>

theorem unknown_device_not_pinned:
  assumes "sql_good fk q" and "sql_get_device did q = None"
  shows "snd (verify_or_trust sql_get_device_cert (sql_set_device_cert fk) did cert
    (present_all sql_get_device_cert (sql_set_device_cert fk) others q)) = Inr True"
  using sql_pins.unknown_never_pinned [OF assms(1)] assms(2) by (simp add: sql_get_device_def sql_get_device_cert_def)

text \<open>The store in memory keeps the fingerprint in place of the certificate, so the certificate that was
  just trusted is rejected when it is presented again.\<close>

theorem memory_rejects_trusted_certificate:
  assumes "mem_get_device_cert did st = None" and "blake3 cert \<noteq> cert"
  shows "snd (verify_or_trust mem_get_device_cert (mem_set_cert blake3) did cert
    (fst (verify_or_trust mem_get_device_cert (mem_set_cert blake3) did cert st))) = Inr False"
  using mem_pins.first_use_pins(2) [of did st blake3 cert "[]" cert] assms by (simp add: eq_commute)

text \<open>SQLite stores the fingerprint of an upserted device in the column of the certificate and hashes it
  again in a lookup, so the certificate does not verify.\<close>

theorem upserted_device_not_verified:
  assumes "q_devices q = []" and "dev_fingerprint dev = Some (fingerprint_from_der blake3 cert)"
    and "sql_upsert_device fk now dev q = (q', Inr x)" and "blake3 (blake3 cert) \<noteq> blake3 cert"
  shows "verify_peer blake3 (sql_get_device_by_cert_fingerprint blake3) cert q' = None"
  using assms by (auto simp: sql_upsert_device_def sq_execute_ok verify_peer_def sql_get_device_by_cert_fingerprint_def fingerprint_from_der_def)

text \<open>Devices have the same permissions on both stores: those with a record read and write every folder.\<close>

theorem permissions_agree:
  assumes "store_rel m q"
  shows "can_read mem_get_device did fid m = can_read sql_get_device did fid q"
    and "can_write mem_get_device did fid m = can_write sql_get_device did fid q"
  using device_lookup [OF assms, of did]
  by (auto simp: can_read_iff can_write_iff mem_get_device_def sql_get_device_def elim: option.rel_cases)

end
