(* ===== verification/Commands.thy ===== *)
theory Commands
  imports Api
begin

text \<open>
  The command line's operations on devices, folders and shares, \<open>ferrisync/src/commands\<close>: resolving the
  devices a user names, attaching folders, publishing them, asking for a peer's folder, one-shot syncs
  and hosting all folders. Printed text is left out; a question to the user is a parameter that
  holds the line typed. Lower-casing (Unicode) and the parsing of addresses are parameters.
\<close>

section \<open>Results\<close>

datatype cli_error =
    CDb db_error | UnknownDevice string | AmbiguousDevice string "string list" | BadAddress string | NotReachable string
  | CSync sync_error | DryRunNeedsFolder | SyncUsage | NotADirectory string | DeviceNotFound string | CName name_error
  | NoFolderFor string | InvalidMode string | AlreadySyncs string string | SharePanic | CRpc rpc_error | ServeOnly
  | UnknownKeep string | NoConflictFor string | ManyConflicts string nat | CResolve resolve_error | CGate gate_error
  | PortNeedsFolder | NothingToServe | CIo

type_synonym 'a cli = "db \<times> (cli_error + 'a)"

definition cli_bind :: "'a cli \<Rightarrow> ('a \<Rightarrow> db \<Rightarrow> 'b cli) \<Rightarrow> 'b cli" where
  "cli_bind r f = (case r of (db, Inl e) \<Rightarrow> (db, Inl e) | (db, Inr x) \<Rightarrow> f x db)"

definition cli_db :: "'a dbres \<Rightarrow> 'a cli" where
  "cli_db r = (case r of (db, Inl e) \<Rightarrow> (db, Inl (CDb e)) | (db, Inr x) \<Rightarrow> (db, Inr x))"

section \<open>Naming devices\<close>

definition ensure_device :: "bool \<Rightarrow> i64 \<Rightarrow> string \<Rightarrow> db \<Rightarrow> unit dbres" where
  "ensure_device fk now did db =
     (if get_device_name db did \<noteq> None then (db, Inr ()) else upsert_device fk now did did None None db)"

record 'a addrs =
  ad_parse :: "string \<Rightarrow> 'a option"
  ad_is_ip :: "string \<Rightarrow> bool"
  ad_lower :: "string \<Rightarrow> string"

definition parse_device :: "('a, 'b) addrs_scheme \<Rightarrow> string \<Rightarrow> nat \<Rightarrow> cli_error + 'a" where
  "parse_device A device port =
     (case ad_parse A (if CHR '':'' \<in> set device then device else device @ '':'' @ show_nat port) of
        Some a \<Rightarrow> Inr a
      | None \<Rightarrow> Inl (BadAddress device))"

definition paired_devices :: "db \<Rightarrow> string \<Rightarrow> (string \<times> string) list" where
  "paired_devices db own = map (\<lambda>(did, name, _). (did, name)) (filter (\<lambda>(did, _). did \<noteq> own) (list_devices db))"

definition resolve_device_id :: "('a, 'b) addrs_scheme \<Rightarrow> string \<Rightarrow> string \<Rightarrow> db \<Rightarrow> cli_error + string \<times> string" where
  "resolve_device_id A device own db =
     (let paired = paired_devices db own
      in case find (\<lambda>(did, _). did = device) paired of
           Some p \<Rightarrow> Inr p
         | None \<Rightarrow>
             (case filter (\<lambda>(_, name). prefix (ad_lower A device) (ad_lower A name)) paired of
                [one] \<Rightarrow> Inr one
              | [] \<Rightarrow> Inl (UnknownDevice device)
              | many \<Rightarrow> Inl (AmbiguousDevice device (map snd many))))"

definition resolve_device_key ::
  "('a, 'b) addrs_scheme \<Rightarrow> string \<Rightarrow> string \<Rightarrow> db \<Rightarrow> cli_error + string \<times> 'a option" where
  "resolve_device_key A device own db =
     (if CHR '':'' \<in> set device \<or> ad_is_ip A device
      then res_bind (parse_device A device DEFAULT_PORT) (\<lambda>addr. Inr (device, Some addr))
      else res_bind (resolve_device_id A device own db) (\<lambda>(did, _).
        Inr (did, Option.bind (device_last_addr db did) (ad_parse A))))"

definition resolve_watch_target ::
  "('a, 'b) addrs_scheme \<Rightarrow> string \<Rightarrow> string \<Rightarrow> db \<Rightarrow> cli_error + string \<times> 'a" where
  "resolve_watch_target A device own db =
     res_bind (resolve_device_id A device own db) (\<lambda>(did, _).
       case Option.bind (device_last_addr db did) (ad_parse A) of
         Some addr \<Rightarrow> Inr (did, addr)
       | None \<Rightarrow> Inl (NotReachable device))"

definition lift_res :: "cli_error + 'a \<Rightarrow> db \<Rightarrow> 'a cli" where
  "lift_res r db = (db, r)"

definition cli_rename_device :: "bool \<Rightarrow> i64 \<Rightarrow> ('a, 'b) addrs_scheme \<Rightarrow> string \<Rightarrow> string \<Rightarrow> string \<Rightarrow> db \<Rightarrow> string cli" where
  "cli_rename_device fk now A device name own db =
     (case sanitize_device_name name of
        Inl err \<Rightarrow> (db, Inl (CName err))
      | Inr clean \<Rightarrow>
          cli_bind (lift_res (resolve_device_id A device own db) db) (\<lambda>(did, current) db1.
          cli_bind (cli_db (upsert_device fk now did clean None None db1)) (\<lambda>_ db2. (db2, Inr current))))"

section \<open>Answers of the user\<close>

definition says_yes :: "('a, 'b) addrs_scheme \<Rightarrow> string \<Rightarrow> bool" where
  "says_yes A line \<longleftrightarrow> ad_lower A (str_trim line) \<in> {''y'', ''yes''}"

text \<open>\<open>commands/remove.rs\<close>: None when the user declined.\<close>

definition cli_remove_device ::
  "bool \<Rightarrow> ('a, 'b) addrs_scheme \<Rightarrow> string \<Rightarrow> bool \<Rightarrow> string \<Rightarrow> db \<Rightarrow> DeviceCleanup option cli" where
  "cli_remove_device fk A did yes line db =
     (case find (\<lambda>(d, _). d = did) (list_devices db) of
        None \<Rightarrow> (db, Inl (DeviceNotFound did))
      | Some _ \<Rightarrow>
          if \<not> yes \<and> \<not> says_yes A line then (db, Inr None)
          else cli_bind (cli_db (remove_device fk did db)) (\<lambda>c db1. (db1, Inr (Some c))))"

section \<open>Folders\<close>

text \<open>\<open>commands/watch.rs\<close>: the row of the folder and device, created when missing.\<close>

definition get_or_create_folder ::
  "bool \<Rightarrow> i64 \<Rightarrow> (i64 \<Rightarrow> string) \<Rightarrow> string \<Rightarrow> string \<Rightarrow> db \<Rightarrow> i64 cli" where
  "get_or_create_folder fk now mint path device db =
     (case find (\<lambda>(_, p, dev, _). p = path \<and> dev = device) (list_sync_folders db) of
        Some (fid, _) \<Rightarrow> (db, Inr fid)
      | None \<Rightarrow>
          cli_bind (cli_db (ensure_device fk now device db)) (\<lambda>_ db1.
            cli_db (add_sync_folder fk mint path device ''bidirectional'' db1)))"

text \<open>Rows of the folder that point at this device are moved to the device it is attached to.\<close>

fun adopt_rows ::
  "bool \<Rightarrow> string \<Rightarrow> string \<Rightarrow> string \<Rightarrow> (i64 \<times> string \<times> string \<times> string \<times> i64 option) list \<Rightarrow> db \<Rightarrow> unit cli" where
  "adopt_rows fk path own device [] db = (db, Inr ())"
| "adopt_rows fk path own device ((fid, p, dev, _) # rows) db =
     (if p = path \<and> dev = own
      then cli_bind (cli_db (set_folder_device fk fid device db)) (\<lambda>_ db1. adopt_rows fk path own device rows db1)
      else adopt_rows fk path own device rows db)"

definition cli_add_folder ::
  "bool \<Rightarrow> i64 \<Rightarrow> (i64 \<Rightarrow> string) \<Rightarrow> ('a, 'b) addrs_scheme \<Rightarrow> fs \<Rightarrow> string \<Rightarrow> string \<Rightarrow> string \<Rightarrow> string \<Rightarrow> db \<Rightarrow> i64 option cli" where
  "cli_add_folder fk now mint A fs own path device line db =
     (if \<not> is_dir fs (raw_path path) then (db, Inl (NotADirectory path))
      else cli_bind (lift_res (resolve_device_id A device own db) db) (\<lambda>(row_device, _) db1.
        if \<not> says_yes A line then (db1, Inr None)
        else cli_bind (adopt_rows fk path own row_device (list_sync_folders db1) db1) (\<lambda>_ db2.
             cli_bind (get_or_create_folder fk now mint path row_device db2) (\<lambda>fid db3. (db3, Inr (Some fid))))))"

definition cli_remove_folder ::
  "bool \<Rightarrow> ('a, 'b) addrs_scheme \<Rightarrow> string \<Rightarrow> string \<Rightarrow> string option \<Rightarrow> bool \<Rightarrow> string \<Rightarrow> db \<Rightarrow> nat option cli" where
  "cli_remove_folder fk A own path device yes line db =
     cli_bind (case device of
         None \<Rightarrow> (db, Inr None)
       | Some dev \<Rightarrow> cli_bind (lift_res (resolve_device_id A dev own db) db) (\<lambda>(did, _) db1. (db1, Inr (Some did)))) (\<lambda>did db1.
     if \<not> yes \<and> \<not> says_yes A line then (db1, Inr None)
     else cli_bind (cli_db (remove_sync_folders fk path did db1)) (\<lambda>n db2. (db2, Inr (Some n))))"

definition folder_id_for_path :: "string \<Rightarrow> db \<Rightarrow> cli_error + i64" where
  "folder_id_for_path path db =
     (case find (\<lambda>(_, p, _). p = path) (list_sync_folders db) of Some (fid, _) \<Rightarrow> Inr fid | None \<Rightarrow> Inl (NoFolderFor path))"

text \<open>\<open>folders status\<close>: name, mode, remote path and state of every device of the folder.\<close>

definition cli_folder_status :: "string \<Rightarrow> db \<Rightarrow> cli_error + (string \<times> string \<times> string \<times> bool) list" where
  "cli_folder_status path db =
     res_bind (folder_id_for_path path db) (\<lambda>fid.
       Inr (map (\<lambda>(did, mode, remote_path, enabled).
              (case find (\<lambda>(d, _). d = did) (list_devices db) of Some (_, n, _) \<Rightarrow> n | None \<Rightarrow> did,
               mode, case remote_path of Some r \<Rightarrow> r | None \<Rightarrow> path, enabled)) (folder_pairs db fid)))"

definition cli_attach_device ::
  "bool \<Rightarrow> ('a, 'b) addrs_scheme \<Rightarrow> fs \<Rightarrow> string \<Rightarrow> string \<Rightarrow> string \<Rightarrow> string option \<Rightarrow> string \<Rightarrow> db \<Rightarrow> unit cli" where
  "cli_attach_device fk A fs own path device remote_path mode db =
     (if mode \<notin> {''bidirectional'', ''send-only'', ''receive-only''} then (db, Inl (InvalidMode mode))
      else if \<not> is_dir fs (raw_path path) then (db, Inl (NotADirectory path))
      else cli_bind (lift_res (folder_id_for_path path db) db) (\<lambda>fid db1.
        cli_bind (lift_res (resolve_device_id A device own db1) db1) (\<lambda>(row_device, name) db2.
          if row_device \<in> fst ` set (folder_pairs db2 fid) then (db2, Inl (AlreadySyncs path name))
          else cli_db (add_folder_device fk fid row_device mode remote_path db2))))"

definition cli_detach_device ::
  "bool \<Rightarrow> ('a, 'b) addrs_scheme \<Rightarrow> string \<Rightarrow> string \<Rightarrow> string \<Rightarrow> bool \<Rightarrow> string \<Rightarrow> db \<Rightarrow> bool option cli" where
  "cli_detach_device fk A own path device yes line db =
     cli_bind (lift_res (folder_id_for_path path db) db) (\<lambda>fid db1.
       cli_bind (lift_res (resolve_device_id A device own db1) db1) (\<lambda>(row_device, _) db2.
         if \<not> yes \<and> \<not> says_yes A line then (db2, Inr None)
         else cli_bind (cli_db (remove_folder_device fk fid row_device db2)) (\<lambda>b db3. (db3, Inr (Some b)))))"

section \<open>Shares\<close>

definition share_display :: "string option \<Rightarrow> string \<Rightarrow> string" where
  "share_display name fallback =
     (case name of None \<Rightarrow> fallback | Some s \<Rightarrow> if str_trim s = [] then fallback else str_trim s)"

definition share_add ::
  "bool \<Rightarrow> i64 \<Rightarrow> (i64 \<Rightarrow> string) \<Rightarrow> DeviceInfo \<Rightarrow> string \<Rightarrow> string option \<Rightarrow> db \<Rightarrow> unit cli" where
  "share_add fk now mint own path name db =
     (case find (\<lambda>r. sh_local_path r = path) (list_shared_folders db (di_id own)) of
        Some _ \<Rightarrow> (db, Inr ())
      | None \<Rightarrow>
          cli_bind (cli_db (upsert_device fk now (di_id own) (di_name own) None None db)) (\<lambda>_ db1.
          cli_bind (case find (\<lambda>(_, p, _). p = path) (list_sync_folders db1) of
              Some (fid, _) \<Rightarrow> (db1, Inr fid)
            | None \<Rightarrow> cli_db (add_sync_folder fk mint path (di_id own) ''bidirectional'' db1)) (\<lambda>fid db2.
          let guid = (case folder_guid db2 fid of Some g \<Rightarrow> g | None \<Rightarrow> mint fid)
          in cli_bind (cli_db (share_folder fk guid (di_id own) (share_display name (path_label path)) path db2)) (\<lambda>_ db3.
               case shared_folder_by_guid db3 (di_id own) guid of
                 None \<Rightarrow> (db3, Inl SharePanic)
               | Some _ \<Rightarrow> (db3, Inr ())))))"

text \<open>\<open>commands/add.rs\<close>.\<close>

definition cli_add ::
  "bool \<Rightarrow> i64 \<Rightarrow> (i64 \<Rightarrow> string) \<Rightarrow> fs \<Rightarrow> DeviceInfo \<Rightarrow> string \<Rightarrow> string option \<Rightarrow> db \<Rightarrow> unit cli" where
  "cli_add fk now mint fs own path name db =
     (if \<not> is_dir fs (raw_path path) then (db, Inl (NotADirectory path)) else share_add fk now mint own path name db)"

section \<open>Asking for a peer's folder\<close>

definition resolve_owner_id :: "db \<Rightarrow> string \<Rightarrow> string" where
  "resolve_owner_id db name_or_id =
     (case find (\<lambda>(did, _). did = name_or_id) (list_devices db) of
        Some (did, _) \<Rightarrow> did
      | None \<Rightarrow>
          (case find (\<lambda>(_, name, _). name = name_or_id) (list_devices db) of
             Some (did, _) \<Rightarrow> did
           | None \<Rightarrow> name_or_id))"

definition register_replica ::
  "bool \<Rightarrow> string \<Rightarrow> string \<Rightarrow> string \<Rightarrow> string \<Rightarrow> string option \<Rightarrow> db \<Rightarrow> unit cli" where
  "register_replica fk own guid display local_path remote_path db =
     cli_bind (cli_db (ensure_folder_by_guid fk guid local_path display own db)) (\<lambda>fid db1.
       let peer_path = (case remote_path of Some p \<Rightarrow> p | None \<Rightarrow> local_path)
       in cli_db (add_folder_device fk fid (resolve_owner_id db1 display) ''bidirectional'' (Some peer_path) db1))"

definition cli_browse ::
  "env \<Rightarrow> (bytes \<Rightarrow> SyncMessage option) \<Rightarrow> ('a, 'b) addrs_scheme \<Rightarrow> string \<Rightarrow> nat \<Rightarrow> rpc_answer \<Rightarrow>
   cli_error + SharedFolderInfo list" where
  "cli_browse e deser A ip port answer =
     (case ad_parse A (ip @ '':'' @ show_nat port) of
        None \<Rightarrow> Inl (BadAddress ip)
      | Some _ \<Rightarrow> map_sum CRpc id (client_list_shared_folders e deser answer))"

text \<open>A request polls for at least one second, so it returns (\<open>folder_poll_returns\<close>); the outer option
  is that of the poll loop.\<close>

definition cli_request ::
  "env \<Rightarrow> (bytes \<Rightarrow> SyncMessage option) \<Rightarrow> ('a, 'b) addrs_scheme \<Rightarrow> DeviceInfo \<Rightarrow> string \<Rightarrow> nat \<Rightarrow> string \<Rightarrow> string \<Rightarrow>
   string option \<Rightarrow> nat \<Rightarrow> (nat \<Rightarrow> rpc_answer \<times> nat) \<Rightarrow> db \<Rightarrow> FolderPairReply cli option" where
  "cli_request e deser A own ip port guid local_path name seconds peer db =
     (case ad_parse A (ip @ '':'' @ show_nat port) of
        None \<Rightarrow> Some (db, Inl (BadAddress ip))
      | Some _ \<Rightarrow>
          (let display = share_display name guid
           in case request_and_collect_pairing e deser (di_id own) (di_name own) guid display
                  (Some (max seconds 1 * 1000)) peer of
                None \<Rightarrow> None
              | Some (Inl err) \<Rightarrow> Some (db, Inl (CRpc err))
              | Some (Inr (RApproved grant)) \<Rightarrow>
                  Some (cli_bind (register_replica (e_fk e) (di_id own) guid display local_path (rfp_remote_path grant) db)
                    (\<lambda>_ db1. (db1, Inr (RApproved grant))))
              | Some (Inr ans) \<Rightarrow> Some (db, Inr ans)))"

section \<open>One-shot sync\<close>

type_synonym world = "fs \<times> db"

text \<open>The n-th attempt: what the peer does and how long it takes, in milliseconds. A peer that cannot be
  reached is tried again every two seconds while the time to wait is not over.\<close>

definition SYNC_RETRY :: nat where
  "SYNC_RETRY = 2000"

function sync_loop ::
  "(nat \<Rightarrow> world \<Rightarrow> world \<times> (sync_error + SyncResult)) \<Rightarrow> (nat \<Rightarrow> nat) \<Rightarrow> nat \<Rightarrow> nat \<Rightarrow> nat \<Rightarrow> world \<Rightarrow>
   world \<times> (sync_error + SyncResult)" where
  "sync_loop attempt duration wait k now w =
     (case attempt k w of
        (w', Inl err) \<Rightarrow>
          if 0 < wait \<and> err = Unreachable \<and> now + duration k < wait
          then sync_loop attempt duration wait (Suc k) (now + duration k + SYNC_RETRY) w'
          else (w', Inl err)
      | done' \<Rightarrow> done')"
  by pat_completeness auto
termination
  by (relation "measure (\<lambda>(_, _, wait, _, now, _). wait - now)") (auto simp: SYNC_RETRY_def)

declare sync_loop.simps [simp del]

definition run_single ::
  "env \<Rightarrow> bytes \<Rightarrow> (i64 \<Rightarrow> string) \<Rightarrow> ('a, 'b) addrs_scheme \<Rightarrow> ('a \<Rightarrow> string) \<Rightarrow> (nat \<Rightarrow> 'a \<Rightarrow> answer) \<Rightarrow> (nat \<Rightarrow> nat) \<Rightarrow>
   string \<Rightarrow> string \<Rightarrow> string \<Rightarrow> nat \<Rightarrow> bool \<Rightarrow> world \<Rightarrow> world \<times> (cli_error + SyncResult)" where
  "run_single e own_cert mint A show_addr peer duration own folder device wait dry_run = (\<lambda>(fs, db).
     (let prepared =
        cli_bind (lift_res (resolve_device_key A device own db) db) (\<lambda>(row_device, resolved) db1.
        cli_bind (if row_device = device then cli_db (ensure_device (e_fk e) (e_clock e) row_device db1) else (db1, Inr ())) (\<lambda>_ db2.
        cli_bind (adopt_rows (e_fk e) folder own row_device (list_sync_folders db2) db2) (\<lambda>_ db3.
        cli_bind (get_or_create_folder (e_fk e) (e_clock e) mint folder row_device db3) (\<lambda>fid db4.
        case resolved of
          None \<Rightarrow> (db4, Inl (NotReachable device))
        | Some addr \<Rightarrow> (db4, Inr (row_device, addr, fid))))))
      in case prepared of
           (db', Inl err) \<Rightarrow> ((fs, db'), Inl err)
         | (db', Inr (row_device, addr, fid)) \<Rightarrow>
             (case sync_loop (\<lambda>k. run_sync e own_cert (peer k addr) folder (show_addr addr) fid row_device dry_run)
                     duration (wait * 1000) 0 0 (fs, db') of
                (w, r) \<Rightarrow> (w, map_sum CSync id r))))"

section \<open>Hosting every folder\<close>

text \<open>\<open>start_port.saturating_add(i as u16)\<close>.\<close>

definition nth_port :: "nat \<Rightarrow> nat \<Rightarrow> nat" where
  "nth_port start i = min (start + i mod 2 ^ 16) (2 ^ 16 - 1)"

fun serve_each ::
  "api_env \<Rightarrow> DeviceInfo \<Rightarrow> nat \<Rightarrow> nat \<Rightarrow> (i64 \<times> string) list \<Rightarrow> (i64 \<times> string \<times> string \<times> string \<times> i64 option) list \<Rightarrow>
   db \<Rightarrow> db \<times> ServeHandle list" where
  "serve_each E own start i served [] db = (db, [])"
| "serve_each E own start i served ((fid, path, _) # rows) db =
     (if \<exists>(f, p) \<in> set served. f = fid \<or> p = path then serve_each E own start i served rows db
      else
        (let (bind6, bind4) = ae_bind E path (nth_port start i)
         in case serve_folder (e_fk (ae_env E)) (ae_mint E) (e_clock (ae_env E)) own path bind6 bind4 db of
              (db', Inl _) \<Rightarrow> serve_each E own start (Suc i) (served @ [(fid, path)]) rows db'
            | (db', Inr (handle, _)) \<Rightarrow>
                (case serve_each E own start (Suc i) (served @ [(fid, path)]) rows db' of
                   (db'', handles) \<Rightarrow> (db'', handle # handles))))"

definition serve_all_configured :: "api_env \<Rightarrow> DeviceInfo \<Rightarrow> nat \<Rightarrow> db \<Rightarrow> db \<times> ServeHandle list" where
  "serve_all_configured E own start db = serve_each E own start 0 [] (list_sync_folders db) db"

definition serve_all :: "api_env \<Rightarrow> DeviceInfo \<Rightarrow> nat \<Rightarrow> db \<Rightarrow> ServeHandle list cli" where
  "serve_all E own port db =
     (if port \<noteq> DEFAULT_PORT then (db, Inl PortNeedsFolder)
      else case serve_all_configured E own port db of
             (db', []) \<Rightarrow> (db', Inl NothingToServe)
           | (db', handles) \<Rightarrow> (db', Inr handles))"

section \<open>Conflicts\<close>

definition cli_conflicts :: "fs \<Rightarrow> string option \<Rightarrow> db \<Rightarrow> cli_error + ConflictEntry list" where
  "cli_conflicts fs folder db =
     (case folder of
        None \<Rightarrow> Inr (list_conflicts fs db)
      | Some name \<Rightarrow>
          (let ids = map fst (filter (\<lambda>(_, path, _). path = name) (list_sync_folders db))
           in if ids = [] then Inl (NoFolderFor name)
              else Inr (filter (\<lambda>c. ce_folder_id c \<in> set ids) (list_conflicts fs db))))"

definition keep_action :: "string \<Rightarrow> string option" where
  "keep_action keep = map_of [(''this'', ''keep_original''), (''other'', ''keep_backup''), (''both'', ''keep_both'')] keep"

definition cli_resolve_conflict :: "env \<Rightarrow> string \<Rightarrow> string \<Rightarrow> world \<Rightarrow> world \<times> (cli_error + unit)" where
  "cli_resolve_conflict e winner_path keep = (\<lambda>(fs, db).
     case keep_action keep of
       None \<Rightarrow> ((fs, db), Inl (UnknownKeep keep))
     | Some action \<Rightarrow>
         (case filter (\<lambda>c. ce_path c = winner_path) (list_conflicts fs db) of
            [] \<Rightarrow> ((fs, db), Inl (NoConflictFor winner_path))
          | [c] \<Rightarrow>
              (case resolve_conflict e (ce_folder_id c) (ce_backup_path c) action (fs, db) of
                 (w, Inl err) \<Rightarrow> (w, Inl (CResolve err))
               | (w, Inr _) \<Rightarrow> (w, Inr ()))
          | many \<Rightarrow> ((fs, db), Inl (ManyConflicts winner_path (length many)))))"

end
