(* ===== verification/Commands_Props.thy ===== *)
theory Commands_Props
  imports Commands Folder_Link
begin

text \<open>
  Properties of the command line's operations: a name resolves to exactly the device it stands for, a
  sync that waits makes a bounded number of attempts, and a granted request for a peer's folder is
  lost when the owner cannot be told from the folder's name.
\<close>

section \<open>Resolving names\<close>

lemma set_list_devices: "set (list_devices db) = (\<lambda>d. (d_id d, d_name d, d_last_seen d)) ` set (t_devices db)"
proof -
  let ?rows = "sort_key (\<lambda>d. - the (d_last_seen d)) (filter (\<lambda>d. d_last_seen d \<noteq> None) (t_devices db)) @
    filter (\<lambda>d. d_last_seen d = None) (t_devices db)"
  have "set ?rows = set (t_devices db)" by auto
  then show ?thesis unfolding list_devices_def set_map by (rule arg_cong)
qed

lemma map_list_devices: "mset (map fst (list_devices db)) = mset (map d_id (t_devices db))"
proof -
  have "mset (filter (\<lambda>d. d_last_seen d \<noteq> None) xs) + mset (filter (\<lambda>d. d_last_seen d = None) xs) = mset xs" for xs :: "device_row list"
    using multiset_partition [of "mset xs" "\<lambda>d. d_last_seen d \<noteq> None"] by simp
  then have "mset (map f (sort_key k (filter (\<lambda>d. d_last_seen d \<noteq> None) xs)) @ map f (filter (\<lambda>d. d_last_seen d = None) xs)) = image_mset f (mset xs)"
    for f :: "device_row \<Rightarrow> string" and k :: "device_row \<Rightarrow> int" and xs
    by (simp flip: image_mset_union)
  then show ?thesis by (simp add: list_devices_def comp_def)
qed

lemma distinct_paired:
  assumes "distinct (map d_id (t_devices db))"
  shows "distinct (map fst (paired_devices db own))"
proof -
  have "distinct (map fst (list_devices db))"
    using assms map_list_devices [of db] by (metis mset_eq_imp_distinct_iff)
  then have "distinct (map fst (filter (\<lambda>(did, _). did \<noteq> own) (list_devices db)))" by (simp add: distinct_map_filter)
  moreover have "map fst (paired_devices db own) = map fst (filter (\<lambda>(did, _). did \<noteq> own) (list_devices db))"
    by (simp add: paired_devices_def comp_def split_def)
  ultimately show ?thesis by simp
qed

lemma set_paired: "set (paired_devices db own) = {(d_id d, d_name d) |d. d \<in> set (t_devices db) \<and> d_id d \<noteq> own}"
  unfolding paired_devices_def set_map set_filter set_list_devices by force

lemma singleton_iff_set:
  assumes "distinct xs"
  shows "xs = [x] \<longleftrightarrow> set xs = {x}"
proof
  assume x: "set xs = {x}"
  then have "length xs = 1" using distinct_card [OF assms] by simp
  then obtain y where "xs = [y]" by (auto simp: length_Suc_conv)
  with x show "xs = [x]" by simp
qed simp

lemma filter_singleton:
  fixes xs :: "('a \<times> 'b) list"
  assumes "distinct (map fst xs)"
  shows "filter Q xs = [x] \<longleftrightarrow> x \<in> set xs \<and> Q x \<and> (\<forall>y \<in> set xs. Q y \<longrightarrow> fst y = fst x)"
proof -
  have "distinct (filter Q xs)" using assms by (simp add: distinct_map)
  then have "filter Q xs = [x] \<longleftrightarrow> set (filter Q xs) = {x}" by (rule singleton_iff_set)
  also have "\<dots> \<longleftrightarrow> x \<in> set xs \<and> Q x \<and> (\<forall>y \<in> set xs. Q y \<longrightarrow> y = x)" by auto
  also have "\<dots> \<longleftrightarrow> x \<in> set xs \<and> Q x \<and> (\<forall>y \<in> set xs. Q y \<longrightarrow> fst y = fst x)"
    using assms by (auto simp: distinct_map inj_on_def)
  finally show ?thesis .
qed

text \<open>C17. The device a user names is resolved to the paired device, never this one, whose id is exactly
  the argument, or else to the only one whose name starts with it, ignoring case; an argument that is
  no id and matches no name or several devices is refused.\<close>

theorem resolve_device_exact:
  assumes "distinct (map d_id (t_devices db))"
  shows "resolve_device_id A device own db = Inr (did, name) \<longleftrightarrow>
    (\<exists>d \<in> set (t_devices db). d_id d = did \<and> d_name d = name) \<and> did \<noteq> own \<and>
    (did = device \<or>
     (\<forall>d \<in> set (t_devices db). d_id d \<noteq> own \<longrightarrow> d_id d \<noteq> device) \<and> prefix (ad_lower A device) (ad_lower A name) \<and>
     (\<forall>d \<in> set (t_devices db). d_id d \<noteq> own \<and> prefix (ad_lower A device) (ad_lower A (d_name d)) \<longrightarrow> d_id d = did))"
    (is "_ \<longleftrightarrow> ?row \<and> did \<noteq> own \<and> (_ \<or> ?unique)")
proof -
  let ?P = "paired_devices db own" and ?Q = "\<lambda>(_ :: string, n). prefix (ad_lower A device) (ad_lower A n)"
  have dist: "distinct (map fst ?P)" by (rule distinct_paired [OF assms])
  have row: "(did, name) \<in> set ?P \<longleftrightarrow> ?row \<and> did \<noteq> own" unfolding set_paired by blast
  show ?thesis
  proof (cases "find (\<lambda>(did, _). did = device) ?P")
    case (Some p)
    then have p: "p \<in> set ?P" "fst p = device" by (auto dest!: find_SomeD)
    have "resolve_device_id A device own db = Inr (did, name) \<longleftrightarrow> p = (did, name)"
      using Some by (auto simp: resolve_device_id_def)
    also have "\<dots> \<longleftrightarrow> (did, name) \<in> set ?P \<and> did = device"
      using p dist by (auto simp: distinct_map inj_on_def)
    moreover have "\<not> ?unique" using p unfolding set_paired by force
    ultimately show ?thesis using row by blast
  next
    case None
    then have none: "\<forall>q \<in> set ?P. fst q \<noteq> device" by (auto simp: find_None_iff)
    have "resolve_device_id A device own db = Inr (did, name) \<longleftrightarrow> filter ?Q ?P = [(did, name)]"
      using None by (auto simp: resolve_device_id_def split: list.splits)
    also have "\<dots> \<longleftrightarrow> (did, name) \<in> set ?P \<and> ?Q (did, name) \<and> (\<forall>y \<in> set ?P. ?Q y \<longrightarrow> fst y = did)"
      unfolding filter_singleton [OF dist] by simp
    moreover have "(\<forall>y \<in> set ?P. ?Q y \<longrightarrow> fst y = did) \<longleftrightarrow>
        (\<forall>d \<in> set (t_devices db). d_id d \<noteq> own \<and> prefix (ad_lower A device) (ad_lower A (d_name d)) \<longrightarrow> d_id d = did)"
      unfolding set_paired by auto
    moreover have "\<forall>d \<in> set (t_devices db). d_id d \<noteq> own \<longrightarrow> d_id d \<noteq> device" using none unfolding set_paired by force
    moreover have "(did, name) \<in> set ?P \<Longrightarrow> did \<noteq> device" using none by force
    ultimately show ?thesis using row by auto
  qed
qed

theorem resolve_device_exact_witness:
  "resolve_device_id (\<lparr>ad_parse = (\<lambda>_. None), ad_is_ip = (\<lambda>_. False), ad_lower = map (\<lambda>c. if c = CHR ''P'' then CHR ''p'' else c)\<rparr> :: unit addrs)
     ''P'' ''d'' (db_empty\<lparr>t_devices := [plain_device ''d'' None, plain_device ''phone'' None]\<rparr>) = Inr (''phone'', ''phone'')"
  by (subst resolve_device_exact) (simp_all add: plain_device_def)

section \<open>Waiting for a peer\<close>

text \<open>The state in which the n-th attempt from attempt k on is made, and the time at which it is made.\<close>

fun retried :: "(nat \<Rightarrow> world \<Rightarrow> world \<times> (sync_error + SyncResult)) \<Rightarrow> nat \<Rightarrow> nat \<Rightarrow> world \<Rightarrow> world" where
  "retried attempt k 0 w = w"
| "retried attempt k (Suc n) w = retried attempt (Suc k) n (fst (attempt k w))"

fun elapsed :: "(nat \<Rightarrow> nat) \<Rightarrow> nat \<Rightarrow> nat \<Rightarrow> nat" where
  "elapsed duration k 0 = 0"
| "elapsed duration k (Suc n) = duration k + SYNC_RETRY + elapsed duration (Suc k) n"

lemma elapsed_least: "SYNC_RETRY * n \<le> elapsed duration k n"
  by (induction n arbitrary: k) (simp_all add: trans_le_add2)

lemma sync_loop_attempts:
  "\<exists>n. sync_loop attempt duration wait k now w = attempt (k + n) (retried attempt k n w) \<and>
    (\<forall>i < n. snd (attempt (k + i) (retried attempt k i w)) = Inl Unreachable \<and> now + elapsed duration k i + duration (k + i) < wait) \<and>
    (snd (attempt (k + n) (retried attempt k n w)) = Inl Unreachable \<longrightarrow> wait \<le> now + elapsed duration k n + duration (k + n))"
proof (induction attempt duration wait k now w rule: sync_loop.induct)
  case (1 attempt duration wait k now w)
  obtain w' r where a: "attempt k w = (w', r)" by fastforce
  show ?case
  proof (cases "r = Inl Unreachable \<and> now + duration k < wait")
    case True
    from "1.IH" [OF a [symmetric], of Unreachable] True obtain n where
      n: "sync_loop attempt duration wait (Suc k) (now + duration k + SYNC_RETRY) w' = attempt (Suc k + n) (retried attempt (Suc k) n w')"
      "\<forall>i < n. snd (attempt (Suc k + i) (retried attempt (Suc k) i w')) = Inl Unreachable \<and>
         now + duration k + SYNC_RETRY + elapsed duration (Suc k) i + duration (Suc k + i) < wait"
      "snd (attempt (Suc k + n) (retried attempt (Suc k) n w')) = Inl Unreachable \<longrightarrow>
         wait \<le> now + duration k + SYNC_RETRY + elapsed duration (Suc k) n + duration (Suc k + n)" by auto
    have "\<forall>i < Suc n. snd (attempt (k + i) (retried attempt k i w)) = Inl Unreachable \<and> now + elapsed duration k i + duration (k + i) < wait"
    proof (intro allI impI)
      fix i assume "i < Suc n"
      with n(2) True show "snd (attempt (k + i) (retried attempt k i w)) = Inl Unreachable \<and> now + elapsed duration k i + duration (k + i) < wait"
        by (cases i) (auto simp: a add.assoc)
    qed
    with n True show ?thesis
      by (intro exI [of _ "Suc n"] conjI) (simp_all add: a sync_loop.simps [of attempt duration wait k] add.assoc)
  next
    case False
    then show ?thesis
      by (intro exI [of _ 0] conjI) (auto simp: a sync_loop.simps [of attempt duration wait k] split: sum.split)
  qed
qed



section \<open>Replicas of a peer's folder\<close>

lemma ensure_folder_devices: "t_devices (fst (ensure_folder_by_guid fk guid lp name own db)) = t_devices db"
  by (auto simp: ensure_folder_by_guid_def db_bind_def stmt_def insert_folder_def split: option.split)

text \<open>The owner of a granted folder is looked up by the folder's name. When no device has it as its name
  or id, the reference is violated after the folder was stored, and the folder stays without its
  owner.\<close>

theorem granted_replica_loses_owner:
  assumes g: "good True db" and own: "own \<in> device_ids db"
    and name: "\<forall>d \<in> set (t_devices db). d_id d \<noteq> display \<and> d_name d \<noteq> display"
  shows "\<exists>db' f. register_replica True own guid display lp rp db = (db', Inl (CDb FkViolation)) \<and>
    f \<in> set (t_folders db') \<and> sf_guid f = Some guid"
proof -
  obtain db1 f where e: "ensure_folder_by_guid True guid lp display own db = (db1, Inr (sf_id f))" "good True db1"
    "f \<in> set (t_folders db1)" "sf_guid f = Some guid"
    using ensure_folder_ok [OF g own, of guid lp display] by blast
  from ensure_folder_devices [of True guid lp display own db] e(1) have dev: "t_devices db1 = t_devices db" by simp
  have owner: "resolve_owner_id db1 display = display"
    using name dev set_list_devices [of db1]
    by (auto simp: resolve_owner_id_def find_None_iff split: option.split dest!: find_SomeD)
  let ?db2 = "\<lambda>rp'. upsert_pair (sf_id f) display ''bidirectional'' rp' db1"
  have "stmt True db1 (?db2 rp') = (db1, Inl FkViolation)" for rp'
  proof -
    have "has_pair (?db2 rp') (sf_id f) display" by (rule has_pair_upsert)
    moreover have "display \<notin> device_ids (?db2 rp')" using name dev by (auto simp: device_ids_def)
    ultimately have "\<not> fk_ok (?db2 rp')" by (auto simp: fk_ok_def has_pair_def)
    with unique_upsert_pair [OF e(2)] show ?thesis by (simp add: stmt_def)
  qed
  then have "register_replica True own guid display lp rp db = (db1, Inl (CDb FkViolation))"
    by (simp add: register_replica_def cli_bind_def cli_db_def e(1) owner add_folder_device_def Let_def)
  with e show ?thesis by blast
qed

end
