(* ===== verification/Shell_Parser.thy ===== *)
theory Shell_Parser
  imports Conflict_Props Listener Utf8
begin

text \<open>
  The command language of the interactive shell, \<open>repl/parser.rs\<close>, \<open>repl/commands.rs\<close> and
  \<open>commands/args.rs\<close>. Splitting a line into words (the \<open>shlex\<close> crate) is a parameter. An error is the
  outermost message that the code attaches to it.
\<close>

section \<open>Commands\<close>

record SyncArgs =
  sy_folder :: "string option"
  sy_device :: "string option"
  sy_wait :: nat
  sy_dry_run :: bool

record WatchArgs =
  wa_folder :: string
  wa_device :: string

datatype ReplCommand =
    CmdHelp | CmdStatus | CmdDevices | CmdFolders | CmdActivity | CmdConflicts | CmdDoctor | CmdSessions
  | CmdRename string
  | CmdReset bool
  | CmdDiscover nat
  | CmdPair string nat
  | CmdAdd string "string option"
  | CmdSync SyncArgs
  | CmdUnsync "string option" "string option" bool
  | CmdWatch WatchArgs
  | CmdWatches
  | CmdUnwatch nat
  | CmdServe "string option" nat
  | CmdServes
  | CmdUnserve nat
  | CmdPendings
  | CmdConfirm nat
  | CmdDeny nat
  | CmdYes | CmdNo | CmdExit

section \<open>Numbers and flags\<close>

text \<open>\<open>str::parse\<close> for an unsigned type whose values are below \<open>bound\<close>.\<close>

definition parse_uint :: "nat \<Rightarrow> string \<Rightarrow> nat option" where
  "parse_uint bound s = (case parse_u64 s of Some n \<Rightarrow> if n < bound then Some n else None | None \<Rightarrow> None)"

definition quoted :: "string \<Rightarrow> string" where
  "quoted s = CHR 0x27 # s @ [CHR 0x27]"

definition parse_or :: "string \<Rightarrow> nat \<Rightarrow> string \<Rightarrow> string + nat" where
  "parse_or msg bound s = (case parse_uint bound s of Some n \<Rightarrow> Inr n | None \<Rightarrow> Inl msg)"

definition is_flag :: "string \<Rightarrow> bool" where
  "is_flag s \<longleftrightarrow> prefix ''--'' s"

text \<open>The word after the first occurrence of the flag.\<close>

fun flag_value :: "string list \<Rightarrow> string \<Rightarrow> string + string option" where
  "flag_value [] name = Inr None"
| "flag_value (a # args) name =
     (if a = name then (case args of [] \<Rightarrow> Inl (''missing value for '' @ name) | v # _ \<Rightarrow> Inr (Some v))
      else flag_value args name)"

definition required_flag :: "string list \<Rightarrow> string \<Rightarrow> string + string" where
  "required_flag args name =
     res_bind (flag_value args name) (\<lambda>v. case v of None \<Rightarrow> Inl (''missing required flag '' @ name) | Some v \<Rightarrow> Inr v)"

definition port_flag :: "string list \<Rightarrow> string + nat" where
  "port_flag args =
     res_bind (flag_value args ''--port'') (\<lambda>v.
       case v of None \<Rightarrow> Inr DEFAULT_PORT | Some p \<Rightarrow> parse_or (''invalid port '' @ quoted p) (2 ^ 16) p)"

section \<open>Loops over the arguments\<close>

fun add_args :: "string option \<Rightarrow> string list \<Rightarrow> string + string option" where
  "add_args name [] = Inr name"
| "add_args name (tok # ts) =
     (if tok = ''--name''
      then if name \<noteq> None then Inl ''duplicate --name''
           else (case ts of [] \<Rightarrow> Inl ''missing value for --name'' | v # ts' \<Rightarrow> add_args (Some v) ts')
      else Inl ''usage: add <folder> [--name <name>]'')"

fun sync_args :: "SyncArgs \<Rightarrow> string list \<Rightarrow> string + SyncArgs" where
  "sync_args a [] = Inr a"
| "sync_args a (tok # ts) =
     (if tok = ''--device''
      then if sy_device a \<noteq> None then Inl ''duplicate --device''
           else (case ts of [] \<Rightarrow> Inl ''missing value for --device'' | v # ts' \<Rightarrow> sync_args (a\<lparr>sy_device := Some v\<rparr>) ts')
      else if tok = ''--wait''
      then if sy_wait a \<noteq> 0 then Inl ''duplicate --wait''
           else (case ts of [] \<Rightarrow> Inl ''missing value for --wait''
                 | v # ts' \<Rightarrow> (case parse_or (''invalid wait seconds '' @ quoted v) (2 ^ 64) v of
                     Inl err \<Rightarrow> Inl err | Inr n \<Rightarrow> sync_args (a\<lparr>sy_wait := n\<rparr>) ts'))
      else if tok = ''--dry-run'' then sync_args (a\<lparr>sy_dry_run := True\<rparr>) ts
      else if is_flag tok then Inl (''unknown flag '' @ quoted tok @ '' for sync'')
      else if sy_folder a = None then sync_args (a\<lparr>sy_folder := Some tok\<rparr>) ts
      else Inl (''unexpected argument '' @ quoted tok))"

fun unsync_args ::
  "string option \<Rightarrow> string option \<Rightarrow> bool \<Rightarrow> string list \<Rightarrow> string + string option \<times> string option \<times> bool" where
  "unsync_args folder device yes [] = Inr (folder, device, yes)"
| "unsync_args folder device yes (tok # ts) =
     (if tok = ''--yes''
      then if yes then Inl ''duplicate --yes'' else unsync_args folder device True ts
      else if tok = ''--device''
      then if device \<noteq> None then Inl ''duplicate --device''
           else (case ts of [] \<Rightarrow> Inl ''missing value for --device'' | v # ts' \<Rightarrow> unsync_args folder (Some v) yes ts')
      else if is_flag tok then Inl (''unknown flag '' @ quoted tok @ '' for unsync'')
      else if folder = None then unsync_args (Some tok) device yes ts
      else Inl (''unexpected argument '' @ quoted tok))"

fun reset_args :: "bool \<Rightarrow> string list \<Rightarrow> string + bool" where
  "reset_args yes [] = Inr yes"
| "reset_args yes (tok # ts) =
     (if tok = ''--yes'' then if yes then Inl ''duplicate --yes'' else reset_args True ts
      else Inl ''usage: reset [--yes]'')"

section \<open>Commands with arguments\<close>

fun join_words :: "string list \<Rightarrow> string" where
  "join_words [] = []"
| "join_words [w] = w"
| "join_words (w # ws) = w @ '' '' @ join_words ws"

definition first_arg :: "string \<Rightarrow> string list \<Rightarrow> string + string" where
  "first_arg usage args = (case args of [] \<Rightarrow> Inl usage | a # _ \<Rightarrow> Inr a)"

definition number_arg :: "string \<Rightarrow> string \<Rightarrow> string list \<Rightarrow> string + nat" where
  "number_arg usage msg args = res_bind (first_arg usage args) (parse_or msg (2 ^ 32))"

definition parse_rename :: "string list \<Rightarrow> string + ReplCommand" where
  "parse_rename args =
     (let name = join_words args
      in if str_trim name = [] then Inl ''usage: rename <new name> (e.g. rename Mr Desktop)'' else Inr (CmdRename name))"

definition parse_discover :: "string list \<Rightarrow> string + ReplCommand" where
  "parse_discover args =
     (case args of
        [] \<Rightarrow> Inr (CmdDiscover 3)
      | s # _ \<Rightarrow> res_bind (parse_or (''invalid duration '' @ quoted s @ '' (expected seconds)'') (2 ^ 64) s) (\<lambda>n. Inr (CmdDiscover n)))"

definition parse_pair :: "string list \<Rightarrow> string + ReplCommand" where
  "parse_pair args =
     res_bind (first_arg ''usage: pair <ip> [--port <port>]'' args) (\<lambda>ip.
     res_bind (port_flag args) (\<lambda>port. Inr (CmdPair ip port)))"

definition parse_add :: "string list \<Rightarrow> string + ReplCommand" where
  "parse_add args =
     res_bind (first_arg ''usage: add <folder> [--name <name>]'' args) (\<lambda>path.
     res_bind (add_args None (tl args)) (\<lambda>name. Inr (CmdAdd path name)))"

definition parse_sync :: "string list \<Rightarrow> string + ReplCommand" where
  "parse_sync args =
     res_bind (sync_args \<lparr>sy_folder = None, sy_device = None, sy_wait = 0, sy_dry_run = False\<rparr> args) (\<lambda>a.
       case (sy_folder a, sy_device a) of
         (None, None) \<Rightarrow> Inr (CmdSync \<lparr>sy_folder = None, sy_device = None, sy_wait = 0, sy_dry_run = sy_dry_run a\<rparr>)
       | (Some folder, Some device) \<Rightarrow>
           Inr (CmdSync \<lparr>sy_folder = Some folder, sy_device = Some device, sy_wait = sy_wait a, sy_dry_run = sy_dry_run a\<rparr>)
       | _ \<Rightarrow> Inl ''usage: sync [<folder> --device <ip[:port]|name|uuid> [--wait secs] [--dry-run]]'')"

definition parse_unsync :: "string list \<Rightarrow> string + ReplCommand" where
  "parse_unsync args =
     res_bind (unsync_args None None False args) (\<lambda>(folder, device, yes).
       if yes \<and> (folder \<noteq> None \<or> device \<noteq> None)
       then Inl ''--yes clears everything; it cannot be combined with a folder or --device''
       else Inr (CmdUnsync folder device yes))"

definition parse_watch :: "string list \<Rightarrow> string + ReplCommand" where
  "parse_watch args =
     res_bind (first_arg ''usage: watch <folder> --device <ip[:port]>'' args) (\<lambda>folder.
     res_bind (required_flag args ''--device'') (\<lambda>device. Inr (CmdWatch \<lparr>wa_folder = folder, wa_device = device\<rparr>)))"

definition parse_serve :: "string list \<Rightarrow> string + ReplCommand" where
  "parse_serve args =
     (let folder = (case args of [] \<Rightarrow> None | a # _ \<Rightarrow> Some a)
      in res_bind (port_flag args) (\<lambda>port. Inr (CmdServe folder port)))"

definition SIMPLE_COMMANDS :: "(string \<times> ReplCommand) list" where
  "SIMPLE_COMMANDS =
     [(''help'', CmdHelp), (''?'', CmdHelp), (''exit'', CmdExit), (''quit'', CmdExit), (''q'', CmdExit),
      (''y'', CmdYes), (''yes'', CmdYes), (''n'', CmdNo), (''no'', CmdNo), (''status'', CmdStatus),
      (''devices'', CmdDevices), (''folders'', CmdFolders), (''activity'', CmdActivity),
      (''conflicts'', CmdConflicts), (''doctor'', CmdDoctor), (''sessions'', CmdSessions),
      (''watches'', CmdWatches), (''serves'', CmdServes), (''pendings'', CmdPendings)]"

definition parse_words :: "string list \<Rightarrow> string + ReplCommand option" where
  "parse_words words =
     (case words of
        [] \<Rightarrow> Inr None
      | cmd # args \<Rightarrow>
          map_sum id Some
            (case map_of SIMPLE_COMMANDS cmd of
               Some c \<Rightarrow> Inr c
             | None \<Rightarrow>
                 if cmd = ''rename'' then parse_rename args
                 else if cmd = ''discover'' then parse_discover args
                 else if cmd = ''pair'' then parse_pair args
                 else if cmd = ''add'' then parse_add args
                 else if cmd = ''sync'' then parse_sync args
                 else if cmd = ''unsync'' then parse_unsync args
                 else if cmd = ''watch'' then parse_watch args
                 else if cmd = ''unwatch'' then res_bind (number_arg ''usage: unwatch <id>'' ''watch id must be a number'' args) (\<lambda>n. Inr (CmdUnwatch n))
                 else if cmd = ''serve'' then parse_serve args
                 else if cmd = ''unserve'' then res_bind (number_arg ''usage: unserve <id>'' ''server id must be a number'' args) (\<lambda>n. Inr (CmdUnserve n))
                 else if cmd = ''reset'' then res_bind (reset_args False args) (\<lambda>yes. Inr (CmdReset yes))
                 else if cmd = ''confirm'' then res_bind (number_arg (''usage: confirm <n> (see '' @ quoted ''pendings'' @ '')'') ''pairing number must be a number'' args) (\<lambda>n. Inr (CmdConfirm n))
                 else if cmd = ''deny'' then res_bind (number_arg (''usage: deny <n> (see '' @ quoted ''pendings'' @ '')'') ''pairing number must be a number'' args) (\<lambda>n. Inr (CmdDeny n))
                 else Inl (''unknown command: '' @ cmd @ '' (try '' @ quoted ''help'' @ '')'')))"

definition parse_line :: "(string \<Rightarrow> string list option) \<Rightarrow> string \<Rightarrow> string + ReplCommand option" where
  "parse_line split line =
     (case split (str_trim line) of None \<Rightarrow> Inl ''unbalanced quotes'' | Some words \<Rightarrow> parse_words words)"

section \<open>Printing commands\<close>

text \<open>The words a user would type for a command.\<close>

definition dry_words :: "bool \<Rightarrow> string list" where
  "dry_words dry = (if dry then [''--dry-run''] else [])"

fun print_words :: "ReplCommand \<Rightarrow> string list" where
  "print_words (CmdRename name) = [''rename'', name]"
| "print_words (CmdReset yes) = ''reset'' # (if yes then [''--yes''] else [])"
| "print_words (CmdDiscover n) = [''discover'', show_nat n]"
| "print_words (CmdPair ip port) = [''pair'', ip, ''--port'', show_nat port]"
| "print_words (CmdAdd path name) = [''add'', path] @ (case name of None \<Rightarrow> [] | Some n \<Rightarrow> [''--name'', n])"
| "print_words (CmdSync a) =
     (case (sy_folder a, sy_device a) of
        (Some f, Some d) \<Rightarrow> [''sync'', f, ''--device'', d, ''--wait'', show_nat (sy_wait a)] @ dry_words (sy_dry_run a)
      | _ \<Rightarrow> ''sync'' # dry_words (sy_dry_run a))"
| "print_words (CmdUnsync folder device yes) =
     ''unsync'' # (case folder of None \<Rightarrow> [] | Some f \<Rightarrow> [f]) @ (case device of None \<Rightarrow> [] | Some d \<Rightarrow> [''--device'', d]) @
       (if yes then [''--yes''] else [])"
| "print_words (CmdWatch a) = [''watch'', wa_folder a, ''--device'', wa_device a]"
| "print_words (CmdUnwatch n) = [''unwatch'', show_nat n]"
| "print_words (CmdServe None port) = [''serve'']"
| "print_words (CmdServe (Some f) port) = [''serve'', f, ''--port'', show_nat port]"
| "print_words (CmdUnserve n) = [''unserve'', show_nat n]"
| "print_words (CmdConfirm n) = [''confirm'', show_nat n]"
| "print_words (CmdDeny n) = [''deny'', show_nat n]"
| "print_words CmdHelp = [''help'']"
| "print_words CmdStatus = [''status'']"
| "print_words CmdDevices = [''devices'']"
| "print_words CmdFolders = [''folders'']"
| "print_words CmdActivity = [''activity'']"
| "print_words CmdConflicts = [''conflicts'']"
| "print_words CmdDoctor = [''doctor'']"
| "print_words CmdSessions = [''sessions'']"
| "print_words CmdWatches = [''watches'']"
| "print_words CmdServes = [''serves'']"
| "print_words CmdPendings = [''pendings'']"
| "print_words CmdYes = [''y'']"
| "print_words CmdNo = [''n'']"
| "print_words CmdExit = [''exit'']"

text \<open>What the types of the fields and the grammar guarantee of a command.\<close>

definition command_ok :: "ReplCommand \<Rightarrow> bool" where
  "command_ok c =
     (case c of
        CmdRename name \<Rightarrow> str_trim name \<noteq> []
      | CmdDiscover n \<Rightarrow> n < 2 ^ 64
      | CmdPair ip port \<Rightarrow> port < 2 ^ 16
      | CmdSync a \<Rightarrow> sy_wait a < 2 ^ 64 \<and> (sy_folder a = None \<longleftrightarrow> sy_device a = None) \<and>
          (sy_folder a = None \<longrightarrow> sy_wait a = 0) \<and> (\<forall>f. sy_folder a = Some f \<longrightarrow> \<not> is_flag f)
      | CmdUnsync folder device yes \<Rightarrow> (yes \<longrightarrow> folder = None \<and> device = None) \<and> (\<forall>f. folder = Some f \<longrightarrow> \<not> is_flag f)
      | CmdUnwatch n \<Rightarrow> n < 2 ^ 32
      | CmdServe f port \<Rightarrow> port < 2 ^ 16 \<and> (f = None \<longrightarrow> port = DEFAULT_PORT)
      | CmdUnserve n \<Rightarrow> n < 2 ^ 32
      | CmdConfirm n \<Rightarrow> n < 2 ^ 32
      | CmdDeny n \<Rightarrow> n < 2 ^ 32
      | _ \<Rightarrow> True)"

text \<open>The first argument is not checked to be no flag, so a path or address that looks like one is read
  as both; such commands are not printable.\<close>

definition printable :: "ReplCommand \<Rightarrow> bool" where
  "printable c \<longleftrightarrow> command_ok c \<and>
     (case c of CmdPair ip _ \<Rightarrow> ip \<noteq> ''--port'' | CmdServe (Some f) _ \<Rightarrow> f \<noteq> ''--port'' | CmdWatch a \<Rightarrow> wa_folder a \<noteq> ''--device'' | _ \<Rightarrow> True)"

section \<open>Numbers and flags read back\<close>

lemma parse_uint_show: "n < bound \<Longrightarrow> bound \<le> 2 ^ 64 \<Longrightarrow> parse_uint bound (show_nat n) = Some n"
  by (simp add: parse_uint_def parse_show)

lemma parse_or_show:
  "n < 2 ^ 64 \<Longrightarrow> parse_or msg (2 ^ 64) (show_nat n) = Inr n"
  "n < 2 ^ 32 \<Longrightarrow> parse_or msg (2 ^ 32) (show_nat n) = Inr n"
  "n < 2 ^ 16 \<Longrightarrow> parse_or msg (2 ^ 16) (show_nat n) = Inr n"
  by (simp_all add: parse_or_def parse_uint_show del: power_numeral)

lemmas parse_or_num [simp] = parse_or_show [simplified]

lemma parse_or_ok: "parse_or msg bound s = Inr n \<Longrightarrow> n < bound"
  by (auto simp: parse_or_def parse_uint_def split: option.splits if_splits)

lemma not_flag:
  "\<not> is_flag f \<Longrightarrow> f \<noteq> ''--device'' \<and> f \<noteq> ''--wait'' \<and> f \<noteq> ''--dry-run'' \<and> f \<noteq> ''--yes''"
  by (auto simp: is_flag_def)

lemma res_bind_ok: "res_bind r f = Inr y \<longleftrightarrow> (\<exists>x. r = Inr x \<and> f x = Inr y)"
  by (cases r) (simp_all add: res_bind_def)

section \<open>Parsed commands are well formed\<close>

lemma sync_args_ok:
  assumes "sync_args a ts = Inr b" and "sy_wait a < 2 ^ 64" and "\<forall>f. sy_folder a = Some f \<longrightarrow> \<not> is_flag f"
  shows "sy_wait b < 2 ^ 64 \<and> (\<forall>f. sy_folder b = Some f \<longrightarrow> \<not> is_flag f)"
  using assms
proof (induction a ts rule: sync_args.induct)
  case (2 a tok ts)
  consider (device) "tok = ''--device''" | (wait) "tok = ''--wait''" | (dry) "tok = ''--dry-run''"
    | (folder) "tok \<noteq> ''--device''" "tok \<noteq> ''--wait''" "tok \<noteq> ''--dry-run''" by blast
  then show ?case
  proof cases
    case device
    with "2.prems"(1) obtain v ts' where d: "sy_device a = None" "ts = v # ts'" "sync_args (a\<lparr>sy_device := Some v\<rparr>) ts' = Inr b"
      by (auto split: if_splits list.splits)
    from "2.IH"(1) [OF device _ d(2,3)] d(1) "2.prems"(2,3) show ?thesis by simp
  next
    case wait
    with "2.prems"(1) obtain v ts' n where w: "sy_wait a = 0" "ts = v # ts'"
      "parse_or (''invalid wait seconds '' @ quoted v) (2 ^ 64) v = Inr n" "sync_args (a\<lparr>sy_wait := n\<rparr>) ts' = Inr b"
      by (auto simp del: power_numeral split: if_splits list.splits sum.splits)
    from "2.IH"(2) [OF _ wait _ w(2,3,4)] w(1) wait parse_or_ok [OF w(3)] "2.prems"(3) show ?thesis by simp
  next
    case dry
    then have ne: "tok \<noteq> ''--device''" "tok \<noteq> ''--wait''" by simp_all
    from dry "2.prems"(1) have "sync_args (a\<lparr>sy_dry_run := True\<rparr>) ts = Inr b" by simp
    from "2.IH"(3) [OF ne dry this] "2.prems"(2,3) show ?thesis by simp
  next
    case folder
    with "2.prems"(1) have f: "\<not> is_flag tok" "sy_folder a = None" "sync_args (a\<lparr>sy_folder := Some tok\<rparr>) ts = Inr b"
      by (simp_all split: if_splits)
    from "2.IH"(4) [OF folder f] f(1) "2.prems"(2) show ?thesis by simp
  qed
qed simp

lemma unsync_args_ok:
  assumes "unsync_args folder device yes ts = Inr (folder', device', yes')" and "\<forall>f. folder = Some f \<longrightarrow> \<not> is_flag f"
  shows "\<forall>f. folder' = Some f \<longrightarrow> \<not> is_flag f"
  using assms
  by (induction folder device yes ts rule: unsync_args.induct) (auto split: if_splits list.splits)

lemma port_flag_ok: "port_flag args = Inr port \<Longrightarrow> port < 2 ^ 16"
  by (auto simp: port_flag_def res_bind_ok DEFAULT_PORT_def split: option.splits dest: parse_or_ok)

lemma number_arg_ok: "number_arg usage msg args = Inr n \<Longrightarrow> n < 2 ^ 32"
  by (auto simp: number_arg_def res_bind_ok simp del: power_numeral dest: parse_or_ok)

lemma parse_words_Nil [simp]: "parse_words [] = Inr None"
  by (simp add: parse_words_def)

lemma parse_simple: "map_of SIMPLE_COMMANDS cmd = Some c \<Longrightarrow> parse_words (cmd # args) = Inr (Some c)"
  by (simp add: parse_words_def)

lemma parse_keyword:
  "parse_words (''rename'' # args) = map_sum id Some (parse_rename args)"
  "parse_words (''discover'' # args) = map_sum id Some (parse_discover args)"
  "parse_words (''pair'' # args) = map_sum id Some (parse_pair args)"
  "parse_words (''add'' # args) = map_sum id Some (parse_add args)"
  "parse_words (''sync'' # args) = map_sum id Some (parse_sync args)"
  "parse_words (''unsync'' # args) = map_sum id Some (parse_unsync args)"
  "parse_words (''watch'' # args) = map_sum id Some (parse_watch args)"
  "parse_words (''serve'' # args) = map_sum id Some (parse_serve args)"
  "parse_words (''reset'' # args) = map_sum id Some (res_bind (reset_args False args) (\<lambda>yes. Inr (CmdReset yes)))"
  by (simp_all add: parse_words_def SIMPLE_COMMANDS_def)

lemma parse_number_keyword:
  "\<exists>u m. parse_words (''unwatch'' # args) = map_sum id Some (res_bind (number_arg u m args) (\<lambda>n. Inr (CmdUnwatch n)))"
  "\<exists>u m. parse_words (''unserve'' # args) = map_sum id Some (res_bind (number_arg u m args) (\<lambda>n. Inr (CmdUnserve n)))"
  "\<exists>u m. parse_words (''confirm'' # args) = map_sum id Some (res_bind (number_arg u m args) (\<lambda>n. Inr (CmdConfirm n)))"
  "\<exists>u m. parse_words (''deny'' # args) = map_sum id Some (res_bind (number_arg u m args) (\<lambda>n. Inr (CmdDeny n)))"
  by (simp add: parse_words_def SIMPLE_COMMANDS_def, blast)+

lemma parse_words_cases:
  assumes "parse_words (cmd # args) = Inr (Some c)"
  obtains "map_of SIMPLE_COMMANDS cmd = Some c" | "parse_rename args = Inr c" | "parse_discover args = Inr c" | "parse_pair args = Inr c"
    | "parse_add args = Inr c" | "parse_sync args = Inr c" | "parse_unsync args = Inr c" | "parse_watch args = Inr c"
    | "parse_serve args = Inr c" | yes where "c = CmdReset yes"
    | u m n where "number_arg u m args = Inr n" "c \<in> {CmdUnwatch n, CmdUnserve n, CmdConfirm n, CmdDeny n}"
proof (cases "map_of SIMPLE_COMMANDS cmd")
  case None
  have inj: "map_sum id Some r = Inr (Some c) \<longleftrightarrow> r = Inr c" for r :: "string + ReplCommand" by (cases r) auto
  from assms that show thesis
    unfolding parse_words_def list.case None option.case inj
    by (simp only: split: if_splits) (auto simp: res_bind_ok)
qed (use assms that in \<open>simp add: parse_words_def\<close>)

lemma simple_ok: "map_of SIMPLE_COMMANDS cmd = Some c \<Longrightarrow> command_ok c"
  by (drule map_of_SomeD) (auto simp: SIMPLE_COMMANDS_def command_ok_def)

lemma parse_sync_ok: "parse_sync args = Inr c \<Longrightarrow> command_ok c"
proof -
  assume "parse_sync args = Inr c"
  then obtain b where b: "sync_args \<lparr>sy_folder = None, sy_device = None, sy_wait = 0, sy_dry_run = False\<rparr> args = Inr b"
    and c: "(case (sy_folder b, sy_device b) of
         (None, None) \<Rightarrow> c = CmdSync \<lparr>sy_folder = None, sy_device = None, sy_wait = 0, sy_dry_run = sy_dry_run b\<rparr>
       | (Some folder, Some device) \<Rightarrow>
           c = CmdSync \<lparr>sy_folder = Some folder, sy_device = Some device, sy_wait = sy_wait b, sy_dry_run = sy_dry_run b\<rparr>
       | _ \<Rightarrow> False)"
    by (auto simp: parse_sync_def res_bind_ok split: option.splits)
  from sync_args_ok [OF b] have "sy_wait b < 2 ^ 64 \<and> (\<forall>f. sy_folder b = Some f \<longrightarrow> \<not> is_flag f)" by simp
  with c show ?thesis by (auto simp: command_ok_def split: option.splits)
qed

lemma parse_unsync_ok: "parse_unsync args = Inr c \<Longrightarrow> command_ok c"
  by (auto simp: parse_unsync_def res_bind_ok command_ok_def split: if_splits dest: unsync_args_ok)

lemma parse_arg_ok:
  "parse_rename args = Inr c \<Longrightarrow> command_ok c"
  "parse_discover args = Inr c \<Longrightarrow> command_ok c"
  "parse_pair args = Inr c \<Longrightarrow> command_ok c"
  "parse_add args = Inr c \<Longrightarrow> command_ok c"
  "parse_watch args = Inr c \<Longrightarrow> command_ok c"
  by (auto simp: parse_rename_def parse_discover_def parse_pair_def parse_add_def parse_watch_def Let_def res_bind_ok command_ok_def
      split: if_splits list.splits dest!: parse_or_ok port_flag_ok)

lemma parse_serve_ok: "parse_serve args = Inr c \<Longrightarrow> command_ok c"
  by (cases args) (auto simp: parse_serve_def res_bind_ok command_ok_def port_flag_def DEFAULT_PORT_def
      split: option.splits dest: parse_or_ok)



section \<open>Round trip\<close>

lemma print_plain: "c \<in> snd ` set SIMPLE_COMMANDS \<Longrightarrow> parse_words (print_words c) = Inr (Some c)"
  by (auto simp: SIMPLE_COMMANDS_def parse_words_def)

lemmas print_arg = parse_keyword res_bind_def

lemma print_named:
  "str_trim name \<noteq> [] \<Longrightarrow> parse_words (print_words (CmdRename name)) = Inr (Some (CmdRename name))"
  "parse_words (print_words (CmdReset yes)) = Inr (Some (CmdReset yes))"
  "n < 2 ^ 64 \<Longrightarrow> parse_words (print_words (CmdDiscover n)) = Inr (Some (CmdDiscover n))"
  "parse_words (print_words (CmdAdd path alias)) = Inr (Some (CmdAdd path alias))"
  by (simp_all add: print_arg parse_rename_def parse_discover_def parse_add_def first_arg_def split: option.split)

lemma print_port:
  "port < 2 ^ 16 \<Longrightarrow> ip \<noteq> ''--port'' \<Longrightarrow> parse_words (print_words (CmdPair ip port)) = Inr (Some (CmdPair ip port))"
  "port < 2 ^ 16 \<Longrightarrow> ip \<noteq> ''--port'' \<Longrightarrow> parse_words (print_words (CmdServe (Some ip) port)) = Inr (Some (CmdServe (Some ip) port))"
  "parse_words (print_words (CmdServe None DEFAULT_PORT)) = Inr (Some (CmdServe None DEFAULT_PORT))"
  by (simp_all add: print_arg parse_pair_def parse_serve_def port_flag_def first_arg_def)

lemma print_watch:
  "wa_folder a \<noteq> ''--device'' \<Longrightarrow> parse_words (print_words (CmdWatch a)) = Inr (Some (CmdWatch a))"
  by (simp add: print_arg parse_watch_def required_flag_def first_arg_def)

lemma print_number:
  assumes "n < 2 ^ 32"
  shows "parse_words (print_words (CmdUnwatch n)) = Inr (Some (CmdUnwatch n))"
    "parse_words (print_words (CmdUnserve n)) = Inr (Some (CmdUnserve n))"
    "parse_words (print_words (CmdConfirm n)) = Inr (Some (CmdConfirm n))"
    "parse_words (print_words (CmdDeny n)) = Inr (Some (CmdDeny n))"
  using assms parse_number_keyword [of "[show_nat n]"]
  by (auto simp: number_arg_def first_arg_def res_bind_def)

lemma print_unsync:
  "command_ok (CmdUnsync folder device yes) \<Longrightarrow> parse_words (print_words (CmdUnsync folder device yes)) = Inr (Some (CmdUnsync folder device yes))"
  by (cases folder; cases device) (auto simp: print_arg parse_unsync_def command_ok_def dest!: not_flag)

lemma print_sync:
  assumes "command_ok (CmdSync a)"
  shows "parse_words (print_words (CmdSync a)) = Inr (Some (CmdSync a))"
proof -
  obtain folder device wait dry where a: "a = \<lparr>sy_folder = folder, sy_device = device, sy_wait = wait, sy_dry_run = dry\<rparr>"
    by (cases a)
  show ?thesis
  proof (cases folder)
    case None
    with assms show ?thesis by (simp add: a command_ok_def print_arg parse_sync_def dry_words_def)
  next
    case (Some f)
    with assms obtain d where "device = Some d" "wait < 2 ^ 64" "\<not> is_flag f" by (auto simp: a command_ok_def)
    with not_flag [of f] Some show ?thesis by (simp add: a print_arg parse_sync_def dry_words_def)
  qed
qed



text \<open>A port without a folder is read as the folder named after the flag.\<close>

theorem serve_port_is_folder:
  assumes "port < 2 ^ 16"
  shows "parse_words [''serve'', ''--port'', show_nat port] = Inr (Some (CmdServe (Some ''--port'') port))"
  using assms by (simp add: print_arg parse_serve_def port_flag_def)

end
