(* ===== verification/Shell.thy ===== *)
theory Shell
  imports Shell_Parser Commands
begin

text \<open>
  The interactive shell, \<open>repl/state.rs\<close>, \<open>repl/runner.rs\<close> and the loop of \<open>repl/mod.rs\<close>: the background
  watches and servers it owns, the pairing requests its servers hold, and the dispatch of every
  command; and the foreground \<open>serve\<close> and \<open>watch\<close> of \<open>commands/serve.rs\<close> and \<open>commands/watch.rs\<close>. The
  tasks' own work, mDNS and what is printed are left out, but what a listing shows is kept as a value.
\<close>

section \<open>Maps with ascending keys\<close>

text \<open>\<open>BTreeMap::insert\<close>; removal is a filter.\<close>

fun bt_insert :: "nat \<Rightarrow> 'v \<Rightarrow> (nat \<times> 'v) list \<Rightarrow> (nat \<times> 'v) list" where
  "bt_insert k v [] = [(k, v)]"
| "bt_insert k v ((k', v') # m) =
     (if k < k' then (k, v) # (k', v') # m else if k = k' then (k, v) # m else (k', v') # bt_insert k v m)"

definition bt_remove :: "nat \<Rightarrow> (nat \<times> 'v) list \<Rightarrow> (nat \<times> 'v) list" where
  "bt_remove k m = filter (\<lambda>(k', _). k' \<noteq> k) m"

definition bt_update :: "nat \<Rightarrow> 'v \<Rightarrow> (nat \<times> 'v) list \<Rightarrow> (nat \<times> 'v) list" where
  "bt_update k v m = map (\<lambda>(k', v'). if k' = k then (k', v) else (k', v')) m"

section \<open>State\<close>

record WatchHandle =
  wh_folder :: string
  wh_device :: string

record ReplState =
  rp_device :: DeviceInfo
  rp_watches :: "(nat \<times> WatchHandle) list"
  rp_servers :: "(nat \<times> ServeHandle) list"
  rp_next :: nat

text \<open>The context, and the certificate of its \<open>CryptoProvider\<close>.\<close>

record ApplicationContext =
  cx_fs :: fs
  cx_db :: db
  cx_data_dir :: string
  cx_cert :: bytes
  cx_device :: DeviceInfo
  cx_pairing :: DeviceInfo

type_synonym shell = "ReplState \<times> ApplicationContext"

definition repl_new :: "ApplicationContext \<Rightarrow> ReplState" where
  "repl_new ctx = \<lparr>rp_device = cx_device ctx, rp_watches = [], rp_servers = [], rp_next = 1\<rparr>"

text \<open>A \<open>u32\<close> counter.\<close>

definition next_id :: "ReplState \<Rightarrow> nat \<times> ReplState" where
  "next_id st = (rp_next st, st\<lparr>rp_next := (rp_next st + 1) mod 2 ^ 32\<rparr>)"

text \<open>What the commands depend on: \<open>s_answer\<close> gives what the n-th dial of a session meets, with its
  duration in milliseconds, \<open>s_pair\<close> the same for pairing, \<open>s_line\<close> the line typed when the reset asks.\<close>

record 'a surroundings =
  s_api :: api_env
  s_addrs :: "'a addrs"
  s_net :: "'a network"
  s_deser :: "bytes \<Rightarrow> SyncMessage option"
  s_pair_text :: "pair_error \<Rightarrow> string"
  s_pair :: "nat \<Rightarrow> pair_answer \<times> nat"
  s_duration :: "nat \<Rightarrow> nat"
  s_line :: string
  s_peers :: "(string \<times> string) list"

datatype 'a reply =
    Quiet | Shown | Failed cli_error | PairFailed pair_error | Synced SyncResult | SyncedAll "'a FolderOutcome list"
  | Watching "(nat \<times> string \<times> string) list" | Serving "(nat \<times> string \<times> nat) list" | Waiting "(nat \<times> string) list"
  | NoSuch nat | Nobody | SeveralWaiting | Counted nat nat | Found "string list" | GateRefused gate_error | Aborted

section \<open>Watches\<close>

definition start_watch :: "'a surroundings \<Rightarrow> string \<Rightarrow> string \<Rightarrow> shell \<Rightarrow> shell \<times> 'a reply" where
  "start_watch S folder device = (\<lambda>(st, ctx).
     let e = ae_env (s_api S)
     in case resolve_watch_target (s_addrs S) device (di_id (rp_device st)) (cx_db ctx) of
          Inl err \<Rightarrow> ((st, ctx), Failed err)
        | Inr (row_device, _) \<Rightarrow>
            (case get_or_create_folder (e_fk e) (e_clock e) (ae_mint (s_api S)) folder row_device (cx_db ctx) of
               (db', Inl err) \<Rightarrow> ((st, ctx\<lparr>cx_db := db'\<rparr>), Failed err)
             | (db', Inr _) \<Rightarrow>
                 (let (k, st1) = next_id st
                  in ((st1\<lparr>rp_watches := bt_insert k \<lparr>wh_folder = folder, wh_device = device\<rparr> (rp_watches st1)\<rparr>,
                       ctx\<lparr>cx_db := db'\<rparr>), Quiet))))"

definition list_watches :: "ReplState \<Rightarrow> (nat \<times> string \<times> string) list" where
  "list_watches st = map (\<lambda>(k, w). (k, wh_folder w, wh_device w)) (rp_watches st)"

definition stop_watch :: "nat \<Rightarrow> ReplState \<Rightarrow> ReplState \<times> 'a reply" where
  "stop_watch k st =
     (case map_of (rp_watches st) k of
        None \<Rightarrow> (st, NoSuch k)
      | Some _ \<Rightarrow> (st\<lparr>rp_watches := bt_remove k (rp_watches st)\<rparr>, Quiet))"

text \<open>The loop of a watch: each burst of changes runs one session, with an empty device id, until the
  event channel closes or the watch is stopped.\<close>

datatype watch_signal = FilesChanged | EventsClosed | Shutdown

fun folder_loop ::
  "env \<Rightarrow> bytes \<Rightarrow> (nat \<Rightarrow> 'a \<Rightarrow> answer) \<Rightarrow> ('a \<Rightarrow> string) \<Rightarrow> string \<Rightarrow> 'a \<Rightarrow> i64 \<Rightarrow> nat \<Rightarrow> watch_signal list \<Rightarrow>
   world \<Rightarrow> world \<times> (sync_error + SyncResult) list" where
  "folder_loop e own_cert peer show_addr folder addr fid k [] w = (w, [])"
| "folder_loop e own_cert peer show_addr folder addr fid k (FilesChanged # sigs) w =
     (let (w1, r) = run_sync e own_cert (peer k addr) folder (show_addr addr) fid '''' False w;
          (w2, rs) = folder_loop e own_cert peer show_addr folder addr fid (Suc k) sigs w1
      in (w2, r # rs))"
| "folder_loop e own_cert peer show_addr folder addr fid k (EventsClosed # sigs) w = (w, [])"
| "folder_loop e own_cert peer show_addr folder addr fid k (Shutdown # sigs) w = (w, [])"

section \<open>Servers\<close>

definition spawn_server :: "api_env \<Rightarrow> string \<Rightarrow> nat \<Rightarrow> DeviceInfo \<Rightarrow> db \<Rightarrow> db \<times> (gate_error + ServeHandle)" where
  "spawn_server E folder port device db =
     (let (bind6, bind4) = ae_bind E folder port
      in case serve_folder (e_fk (ae_env E)) (ae_mint E) (e_clock (ae_env E)) device folder bind6 bind4 db of
           (db', r) \<Rightarrow> (db', map_sum id fst r))"

definition start_server :: "api_env \<Rightarrow> string \<Rightarrow> nat \<Rightarrow> shell \<Rightarrow> shell \<times> (gate_error + nat)" where
  "start_server E folder port = (\<lambda>(st, ctx).
     case spawn_server E folder port (rp_device st) (cx_db ctx) of
       (db', Inl err) \<Rightarrow> ((st, ctx\<lparr>cx_db := db'\<rparr>), Inl err)
     | (db', Inr handle) \<Rightarrow>
         (let (k, st1) = next_id st
          in ((st1\<lparr>rp_servers := bt_insert k handle (rp_servers st1)\<rparr>, ctx\<lparr>cx_db := db'\<rparr>), Inr k)))"

text \<open>Every distinct folder once; the port is counted by rows, \<open>u16::try_from(9847 + i)\<close>. The number
  of folders tried is returned too.\<close>

fun start_rows ::
  "api_env \<Rightarrow> nat \<Rightarrow> (i64 \<times> string) list \<Rightarrow> (i64 \<times> string \<times> string \<times> string \<times> i64 option) list \<Rightarrow> shell \<Rightarrow> nat \<times> shell" where
  "start_rows E i seen [] sh = (0, sh)"
| "start_rows E i seen ((fid, path, _) # rows) sh =
     (if \<exists>(f, p) \<in> set seen. f = fid \<or> p = path then start_rows E (Suc i) seen rows sh
      else (let (n, sh') = start_rows E (Suc i) (seen @ [(fid, path)]) rows (fst (start_server E path (serve_port i) sh))
            in (Suc n, sh')))"

definition auto_serve_existing :: "api_env \<Rightarrow> shell \<Rightarrow> shell" where
  "auto_serve_existing E sh = snd (start_rows E 0 [] (list_sync_folders (cx_db (snd sh))) sh)"

definition start_all_servers :: "api_env \<Rightarrow> nat \<Rightarrow> shell \<Rightarrow> shell \<times> 'a reply" where
  "start_all_servers E port sh =
     (if port \<noteq> DEFAULT_PORT then (sh, Failed PortNeedsFolder)
      else case start_rows E 0 [] (list_sync_folders (cx_db (snd sh))) sh of
             (n, sh') \<Rightarrow> (sh', if n = 0 then Failed NothingToServe else Quiet))"

definition list_servers :: "ReplState \<Rightarrow> (nat \<times> string \<times> nat) list" where
  "list_servers st = map (\<lambda>(k, s). (k, srv_folder s, srv_port s)) (rp_servers st)"

definition has_background :: "ReplState \<Rightarrow> bool" where
  "has_background st \<longleftrightarrow> rp_watches st \<noteq> [] \<or> rp_servers st \<noteq> []"

definition stop_server :: "nat \<Rightarrow> ReplState \<Rightarrow> ReplState \<times> 'a reply" where
  "stop_server k st =
     (case map_of (rp_servers st) k of
        None \<Rightarrow> (st, NoSuch k)
      | Some _ \<Rightarrow> (st\<lparr>rp_servers := bt_remove k (rp_servers st)\<rparr>, Quiet))"

text \<open>All servers stop first; each is started again under its id, or dropped.\<close>

definition restart_entry :: "api_env \<Rightarrow> nat \<times> ServeHandle \<Rightarrow> shell \<Rightarrow> shell" where
  "restart_entry E = (\<lambda>(k, s) (st, ctx).
     case spawn_server E (srv_folder s) (srv_port s) (rp_device st) (cx_db ctx) of
       (db', Inl _) \<Rightarrow> (st, ctx\<lparr>cx_db := db'\<rparr>)
     | (db', Inr handle) \<Rightarrow> (st\<lparr>rp_servers := bt_insert k handle (rp_servers st)\<rparr>, ctx\<lparr>cx_db := db'\<rparr>))"

definition rename_restart_servers :: "api_env \<Rightarrow> shell \<Rightarrow> shell" where
  "rename_restart_servers E = (\<lambda>(st, ctx). fold (restart_entry E) (rp_servers st) (st\<lparr>rp_servers := []\<rparr>, ctx))"

section \<open>Held pairing requests\<close>

definition collect_pending :: "ReplState \<Rightarrow> (nat \<times> string \<times> string) list" where
  "collect_pending st =
     concat (map (\<lambda>(k, s). map (\<lambda>(name, did). (k, name, did)) (or_empty (pending_pairings s))) (rp_servers st))"

text \<open>\<open>format_pendings\<close>: the requests numbered from one, by name.\<close>

definition list_pendings :: "ReplState \<Rightarrow> (nat \<times> string) list" where
  "list_pendings st = map (\<lambda>(i, _, name, _). (i + 1, name)) (enumerate 0 (collect_pending st))"

definition resolve_pending :: "env \<Rightarrow> nat \<Rightarrow> bool \<Rightarrow> shell \<Rightarrow> shell \<times> 'a reply" where
  "resolve_pending e n approve = (\<lambda>(st, ctx).
     let pendings = collect_pending st
     in if n = 0 \<or> length pendings < n then ((st, ctx), NoSuch n)
        else
          (let (k, name, did) = pendings ! (n - 1)
           in case map_of (rp_servers st) k of
                None \<Rightarrow> ((st, ctx), Quiet)
              | Some server \<Rightarrow>
                  if approve
                  then (case approve_pairing (e_fk e) (e_clock e) did name server (cx_db ctx) of
                          (h, db', r) \<Rightarrow> ((st\<lparr>rp_servers := bt_update k h (rp_servers st)\<rparr>, ctx\<lparr>cx_db := db'\<rparr>),
                            case r of Inl err \<Rightarrow> GateRefused err | Inr _ \<Rightarrow> Quiet))
                  else (case deny_pairing did server of
                          (h, r) \<Rightarrow> ((st\<lparr>rp_servers := bt_update k h (rp_servers st)\<rparr>, ctx),
                            case r of Inl err \<Rightarrow> GateRefused err | Inr _ \<Rightarrow> Quiet))))"

definition answer_latest :: "env \<Rightarrow> bool \<Rightarrow> shell \<Rightarrow> shell \<times> 'a reply" where
  "answer_latest e approve sh =
     (case length (collect_pending (fst sh)) of
        0 \<Rightarrow> (sh, Nobody)
      | Suc 0 \<Rightarrow> resolve_pending e 1 approve sh
      | _ \<Rightarrow> (sh, SeveralWaiting))"

definition stop_all :: "ReplState \<Rightarrow> ReplState" where
  "stop_all st = st\<lparr>rp_watches := [], rp_servers := []\<rparr>"

text \<open>\<open>commands/serve.rs\<close>, a server in the foreground: the user answers each request as it comes in.\<close>

definition serve_one_event :: "env \<Rightarrow> string \<Rightarrow> bool \<Rightarrow> SyncEvent \<Rightarrow> bool \<Rightarrow> ServeHandle \<times> db \<Rightarrow> ServeHandle \<times> db" where
  "serve_one_event e folder interactive event answer = (\<lambda>(h, db).
     case event of
       PairRequested name did \<Rightarrow>
         if answer then (case approve_pairing (e_fk e) (e_clock e) did name h db of (h', db', _) \<Rightarrow> (h', db'))
         else (fst (deny_pairing did h), db)
     | FolderPairRequested name did guid \<Rightarrow>
         if \<not> interactive then (h, db)
         else if answer
         then (case approve_folder_pairing (e_fk e) (e_clock e) did guid name folder None h db of (h', db', _) \<Rightarrow> (h', db'))
         else (fst (deny_folder_pairing did guid h), db)
     | _ \<Rightarrow> (h, db))"

section \<open>Commands\<close>

definition DISCOVERY_WINDOW :: nat where
  "DISCOVERY_WINDOW = 2000"

definition cli_sync :: "'a surroundings \<Rightarrow> SyncArgs \<Rightarrow> ApplicationContext \<Rightarrow> ApplicationContext \<times> 'a reply" where
  "cli_sync S args ctx =
     (let e = ae_env (s_api S); own = di_id (cx_device ctx); w = (cx_fs ctx, cx_db ctx);
          store = (\<lambda>(fs, db). ctx\<lparr>cx_fs := fs, cx_db := db\<rparr>)
      in case (sy_folder args, sy_device args) of
           (Some folder, Some device) \<Rightarrow>
             (case run_single e (cx_cert ctx) (ae_mint (s_api S)) (s_addrs S) (n_show (s_net S)) (n_answer (s_net S))
                     (s_duration S) own folder device (sy_wait args) (sy_dry_run args) w of
                (w', r) \<Rightarrow> (store w', case r of Inl err \<Rightarrow> Failed err | Inr res \<Rightarrow> Synced res))
         | (None, None) \<Rightarrow>
             if sy_dry_run args then (ctx, Failed DryRunNeedsFolder)
             else (let b = sync_all_folders_with e (cx_cert ctx) (s_net S) DISCOVERY_WINDOW own w
                   in (store (bk_world b), SyncedAll (bk_outcomes b)))
         | _ \<Rightarrow> (ctx, Failed SyncUsage))"

definition cli_pair :: "'a surroundings \<Rightarrow> string \<Rightarrow> nat \<Rightarrow> ApplicationContext \<Rightarrow> ApplicationContext \<times> 'a reply" where
  "cli_pair S ip port ctx =
     (case ad_parse (s_addrs S) (ip @ '':'' @ show_nat port) of
        None \<Rightarrow> (ctx, Failed (BadAddress ip))
      | Some addr \<Rightarrow>
          (case pair_with (ae_env (s_api S)) (s_deser S) (s_pair_text S) (cx_pairing ctx) (n_show (s_net S) addr) (s_pair S) (cx_db ctx) of
             (db', Inl err) \<Rightarrow> (ctx\<lparr>cx_db := db'\<rparr>, PairFailed err)
           | (db', Inr _) \<Rightarrow> (ctx\<lparr>cx_db := db'\<rparr>, Quiet)))"

text \<open>None is the panic of \<open>unreachable!\<close>.\<close>

definition shell_unsync ::
  "bool \<Rightarrow> string option \<Rightarrow> string option \<Rightarrow> bool \<Rightarrow> ApplicationContext \<Rightarrow> (ApplicationContext \<times> 'a reply) option" where
  "shell_unsync fk folder device yes ctx =
     (case (folder, device, yes) of
        (None, None, False) \<Rightarrow> Some (ctx, Counted (length (list_sync_folders (cx_db ctx))) (length (list_devices (cx_db ctx))))
      | (None, None, True) \<Rightarrow>
          (case clear_all_sync_state fk (cx_db ctx) of
             (db', Inl err) \<Rightarrow> Some (ctx\<lparr>cx_db := db'\<rparr>, Failed (CDb err))
           | (db', Inr (f, d)) \<Rightarrow> Some (ctx\<lparr>cx_db := db'\<rparr>, Counted f d))
      | (None, Some _, False) \<Rightarrow> None
      | (Some path, _, False) \<Rightarrow>
          (case remove_sync_folders fk path device (cx_db ctx) of
             (db', Inl err) \<Rightarrow> Some (ctx\<lparr>cx_db := db'\<rparr>, Failed (CDb err))
           | (db', Inr n) \<Rightarrow> Some (ctx\<lparr>cx_db := db'\<rparr>, Counted n 0))
      | (_, _, True) \<Rightarrow> None)"

definition shell_reset :: "'a surroundings \<Rightarrow> bool \<Rightarrow> shell \<Rightarrow> shell \<times> 'a reply" where
  "shell_reset S yes = (\<lambda>(st, ctx).
     if \<not> yes \<and> \<not> says_yes (s_addrs S) (s_line S) then ((st, ctx), Aborted)
     else (case app_reset (raw_path (cx_data_dir ctx)) (cx_fs ctx) of
             None \<Rightarrow> ((stop_all st, ctx), Failed CIo)
           | Some fs' \<Rightarrow> ((stop_all st, ctx\<lparr>cx_fs := fs'\<rparr>), Quiet)))"

definition shell_rename :: "'a surroundings \<Rightarrow> string \<Rightarrow> shell \<Rightarrow> shell \<times> 'a reply" where
  "shell_rename S name = (\<lambda>(st, ctx).
     case sanitize_device_name name of
       Inl err \<Rightarrow> ((st, ctx), Failed (CName err))
     | Inr clean \<Rightarrow>
         (let ctx1 = ctx\<lparr>cx_fs := persist_device_name (e_clock (ae_env (s_api S))) (raw_path (cx_data_dir ctx)) clean (cx_fs ctx),
                cx_pairing := (cx_pairing ctx)\<lparr>di_name := clean\<rparr>\<rparr>;
              st1 = st\<lparr>rp_device := (rp_device st)\<lparr>di_name := clean\<rparr>\<rparr>
          in (rename_restart_servers (s_api S) (st1, ctx1), Quiet)))"

text \<open>Peers found by mDNS, each device once and never this one.\<close>

fun add_peers :: "string \<Rightarrow> (string \<times> string) list \<Rightarrow> (string \<times> string) list \<Rightarrow> (string \<times> string) list" where
  "add_peers own acc [] = acc"
| "add_peers own acc ((did, name) # ps) =
     (if did = own \<or> did \<in> fst ` set acc then add_peers own acc ps else add_peers own (acc @ [(did, name)]) ps)"

definition shell_discover :: "string \<Rightarrow> (string \<times> string) list \<Rightarrow> string list" where
  "shell_discover own peers = map snd (add_peers own [] peers)"

definition on_state :: "(ReplState \<Rightarrow> ReplState \<times> 'a reply) \<Rightarrow> shell \<Rightarrow> shell \<times> 'a reply" where
  "on_state f = (\<lambda>(st, ctx). case f st of (st', r) \<Rightarrow> ((st', ctx), r))"

definition on_context :: "(ApplicationContext \<Rightarrow> ApplicationContext \<times> 'a reply) \<Rightarrow> shell \<Rightarrow> shell \<times> 'a reply" where
  "on_context f = (\<lambda>(st, ctx). case f ctx of (ctx', r) \<Rightarrow> ((st, ctx'), r))"

definition cli_add_reply :: "'a surroundings \<Rightarrow> string \<Rightarrow> string option \<Rightarrow> ApplicationContext \<Rightarrow> ApplicationContext \<times> 'a reply" where
  "cli_add_reply S path name ctx =
     (let e = ae_env (s_api S)
      in case cli_add (e_fk e) (e_clock e) (ae_mint (s_api S)) (cx_fs ctx) (cx_device ctx) path name (cx_db ctx) of
           (db', r) \<Rightarrow> (ctx\<lparr>cx_db := db'\<rparr>, case r of Inl err \<Rightarrow> Failed err | Inr _ \<Rightarrow> Quiet))"

definition shell_dispatch :: "'a surroundings \<Rightarrow> ReplCommand \<Rightarrow> shell \<Rightarrow> (shell \<times> 'a reply) option" where
  "shell_dispatch S command sh =
     (let E = s_api S; e = ae_env E
      in case command of
           CmdStatus \<Rightarrow> Some (sh, Shown) | CmdDevices \<Rightarrow> Some (sh, Shown) | CmdFolders \<Rightarrow> Some (sh, Shown)
         | CmdActivity \<Rightarrow> Some (sh, Shown) | CmdConflicts \<Rightarrow> Some (sh, Shown) | CmdDoctor \<Rightarrow> Some (sh, Shown)
         | CmdSessions \<Rightarrow> Some (sh, Shown)
         | CmdDiscover seconds \<Rightarrow> Some (sh, Found (shell_discover (di_id (rp_device (fst sh))) (s_peers S)))
         | CmdPair ip port \<Rightarrow> Some (on_context (cli_pair S ip port) sh)
         | CmdAdd path name \<Rightarrow> Some (on_context (cli_add_reply S path name) sh)
         | CmdSync args \<Rightarrow> Some (on_context (cli_sync S args) sh)
         | CmdUnsync folder device yes \<Rightarrow>
             map_option (\<lambda>(ctx, r). ((fst sh, ctx), r)) (shell_unsync (e_fk e) folder device yes (snd sh))
         | CmdWatch args \<Rightarrow> Some (start_watch S (wa_folder args) (wa_device args) sh)
         | CmdWatches \<Rightarrow> Some (sh, Watching (list_watches (fst sh)))
         | CmdUnwatch k \<Rightarrow> Some (on_state (stop_watch k) sh)
         | CmdServe folder port \<Rightarrow>
             Some (case folder of
                Some f \<Rightarrow> map_prod id (\<lambda>r. case r of Inl err \<Rightarrow> GateRefused err | Inr _ \<Rightarrow> Quiet) (start_server E f port sh)
              | None \<Rightarrow> start_all_servers E port sh)
         | CmdServes \<Rightarrow> Some (sh, Serving (list_servers (fst sh)))
         | CmdUnserve k \<Rightarrow> Some (on_state (stop_server k) sh)
         | CmdPendings \<Rightarrow> Some (sh, Waiting (list_pendings (fst sh)))
         | CmdConfirm n \<Rightarrow> Some (resolve_pending e n True sh)
         | CmdDeny n \<Rightarrow> Some (resolve_pending e n False sh)
         | CmdYes \<Rightarrow> Some (answer_latest e True sh)
         | CmdNo \<Rightarrow> Some (answer_latest e False sh)
         | CmdRename name \<Rightarrow> Some (shell_rename S name sh)
         | CmdReset yes \<Rightarrow> Some (shell_reset S yes sh)
         | CmdHelp \<Rightarrow> None
         | CmdExit \<Rightarrow> None)"

section \<open>The loop\<close>

text \<open>One line of input: the shell goes on, ends, or panics.\<close>

datatype 'a line_outcome = Continue shell "'a reply" | Rejected string | Blank | HelpShown | Leave | Panicked

definition shell_line ::
  "(string \<Rightarrow> string list option) \<Rightarrow> 'a surroundings \<Rightarrow> string \<Rightarrow> shell \<Rightarrow> 'a line_outcome" where
  "shell_line split S line sh =
     (case parse_line split (str_trim line) of
        Inr None \<Rightarrow> Blank
      | Inr (Some CmdExit) \<Rightarrow> Leave
      | Inr (Some CmdHelp) \<Rightarrow> HelpShown
      | Inr (Some command) \<Rightarrow>
          (case shell_dispatch S command sh of None \<Rightarrow> Panicked | Some (sh', r) \<Rightarrow> Continue sh' r)
      | Inl err \<Rightarrow> Rejected err)"

text \<open>The whole session: None when it panics, else the state after everything was stopped.\<close>

fun shell_lines ::
  "(string \<Rightarrow> string list option) \<Rightarrow> ('a surroundings \<times> string) list \<Rightarrow> shell \<Rightarrow> shell option" where
  "shell_lines split [] sh = Some (stop_all (fst sh), snd sh)"
| "shell_lines split ((S, line) # rest) sh =
     (case shell_line split S line sh of
        Continue sh' _ \<Rightarrow> shell_lines split rest sh'
      | Leave \<Rightarrow> Some (stop_all (fst sh), snd sh)
      | Panicked \<Rightarrow> None
      | _ \<Rightarrow> shell_lines split rest sh)"

definition shell_run ::
  "(string \<Rightarrow> string list option) \<Rightarrow> api_env \<Rightarrow> ('a surroundings \<times> string) list \<Rightarrow> ApplicationContext \<Rightarrow> shell option" where
  "shell_run split E inputs ctx = shell_lines split inputs (auto_serve_existing E (repl_new ctx, ctx))"

section \<open>First run and completion\<close>

definition is_first_run :: "ApplicationContext \<Rightarrow> bool" where
  "is_first_run ctx \<longleftrightarrow>
     \<not> path_exists (cx_fs ctx) (path_join (raw_path (cx_data_dir ctx)) DEVICE_NAME_FILE) \<and>
     list_devices (cx_db ctx) = [] \<and> list_sync_folders (cx_db ctx) = []"

text \<open>The line typed for the device's name; None when it cannot be read.\<close>

definition first_run_welcome :: "env \<Rightarrow> string option \<Rightarrow> ApplicationContext \<Rightarrow> ApplicationContext" where
  "first_run_welcome e typed ctx =
     (case typed of
        None \<Rightarrow> ctx
      | Some line \<Rightarrow>
          if str_trim line = [] then ctx
          else (case sanitize_device_name (str_trim line) of
                  Inl _ \<Rightarrow> ctx
                | Inr clean \<Rightarrow>
                    ctx\<lparr>cx_fs := persist_device_name (e_clock e) (raw_path (cx_data_dir ctx)) clean (cx_fs ctx),
                      cx_device := (cx_device ctx)\<lparr>di_name := clean\<rparr>, cx_pairing := (cx_pairing ctx)\<lparr>di_name := clean\<rparr>\<rparr>))"

definition COMMANDS :: "string list" where
  "COMMANDS =
     [''help'', ''status'', ''devices'', ''folders'', ''activity'', ''conflicts'', ''doctor'', ''sessions'',
      ''discover'', ''pair'', ''add'', ''sync'', ''unsync'', ''watch'', ''watches'', ''unwatch'', ''serve'',
      ''serves'', ''unserve'', ''pendings'', ''confirm'', ''deny'', ''rename'', ''reset'', ''exit'', ''quit'']"

text \<open>\<open>repl/completion.rs\<close>: where the word under the cursor starts, and what may replace it. A position
  inside a character or beyond the line counts as an empty line.\<close>

definition complete :: "string \<Rightarrow> nat \<Rightarrow> nat \<times> string list" where
  "complete line pos =
     (let prefix' = (if pos \<le> length line \<and> valid_str (take pos line) then take pos line else []);
          word = rev (takeWhile (\<lambda>c. c \<noteq> CHR '' '') (rev prefix'));
          start = length prefix' - length word;
          source = (if start = 0 then COMMANDS else if is_flag word then [''--device'', ''--port''] else [])
      in (start, filter (prefix word) source))"

end
