(* ===== verification/Shell_Props.thy ===== *)
theory Shell_Props
  imports Shell Api_Props
begin

text \<open>
  Properties of the interactive shell: the invariant of its state over every session, with connections
  and background syncs in between; what confirming and denying a listed request does; the only
  input on which it panics; and the certificates its background watches trust.
\<close>

section \<open>Ascending maps\<close>

abbreviation ascending :: "(nat \<times> 'v) list \<Rightarrow> bool" where
  "ascending m \<equiv> sorted_wrt (<) (map fst m)"

lemma set_bt_insert: "ascending m \<Longrightarrow> set (bt_insert k v m) = insert (k, v) {p \<in> set m. fst p \<noteq> k}"
  by (induction k v m rule: bt_insert.induct) auto

lemma ascending_insert: "ascending m \<Longrightarrow> ascending (bt_insert k v m)"
proof (induction k v m rule: bt_insert.induct)
  case (2 k v k' v' m)
  then have m: "ascending m" by simp
  with 2 show ?case by (auto simp: set_bt_insert [OF m])
qed simp

lemma ascending_distinct: "ascending m \<Longrightarrow> distinct (map fst m)"
  by (simp add: strict_sorted_iff)

lemma ascending_remove: "ascending m \<Longrightarrow> ascending (bt_remove k m)"
  by (induction m) (auto simp: bt_remove_def)

lemma bt_update_keys [simp]: "map fst (bt_update k v m) = map fst m"
  by (induction m) (auto simp: bt_update_def)

lemma set_bt_update: "x \<in> set (bt_update k v m) \<Longrightarrow> x = (k, v) \<or> x \<in> set m"
  by (auto simp: bt_update_def split: if_splits)

lemma map_of_bt_insert: "map_of (bt_insert k v m) = (map_of m)(k \<mapsto> v)"
  by (induction k v m rule: bt_insert.induct) auto

section \<open>The command line keeps the database well-formed\<close>

lemma good_cli_bind:
  "good fk (fst r) \<Longrightarrow> (\<And>x db. good fk db \<Longrightarrow> good fk (fst (f x db))) \<Longrightarrow> good fk (fst (cli_bind r f))"
  by (auto simp: cli_bind_def split: prod.split sum.split)

lemma good_cli_db: "good fk (fst r) \<Longrightarrow> good fk (fst (cli_db r))"
  by (auto simp: cli_db_def split: prod.split sum.split)

lemma good_lift_res: "good fk db \<Longrightarrow> good fk (fst (lift_res r db))"
  by (simp add: lift_res_def)

lemma good_ensure_device: "good fk db \<Longrightarrow> good fk (fst (ensure_device fk now did db))"
  by (simp add: ensure_device_def good_simple_ops)

lemmas good_cli = good_cli_bind good_cli_db good_lift_res good_ensure_device good_simple_ops good_folder_ops good_removals

lemma good_get_or_create: "good fk db \<Longrightarrow> good fk (fst (get_or_create_folder fk now mint path did db))"
  unfolding get_or_create_folder_def by (auto intro!: good_cli split: option.split)

lemma good_adopt_rows: "good fk db \<Longrightarrow> good fk (fst (adopt_rows fk path own did rows db))"
  by (induction rows arbitrary: db) (auto intro!: good_cli)

lemma good_share_add: "good fk db \<Longrightarrow> good fk (fst (share_add fk now mint own path name db))"
  unfolding share_add_def Let_def by (auto intro!: good_cli split: option.split)

lemma good_dial:
  assumes "good (e_fk e) (snd w)"
  shows "good (e_fk e) (snd (fst (dial_session e own ans lp addr fid did dry rp w)))"
proof (cases ans)
  case (Some cm)
  obtain cert msgs where "cm = (cert, msgs)" by fastforce
  with Some good_sessions.client_session [of e "session_start (fst w) (snd w)"] assms show ?thesis
    by (simp add: dial_session_def Let_def case_prod_beta session_start_def)
qed (simp add: dial_session_def assms case_prod_beta)

lemma good_run_sync: "good (e_fk e) (snd w) \<Longrightarrow> good (e_fk e) (snd (fst (run_sync e own ans lp addr fid did dry w)))"
  by (simp add: run_sync_def good_dial)

lemma good_sync_loop:
  assumes "\<And>k w. P w \<Longrightarrow> P (fst (attempt k w))" and "P w"
  shows "P (fst (sync_loop attempt duration wait k now w))"
  using assms
proof (induction attempt duration wait k now w rule: sync_loop.induct)
  case (1 attempt duration wait k now w)
  obtain w' r where a: "attempt k w = (w', r)" by fastforce
  with "1.prems" have "P w'" by (metis fst_conv)
  with 1 a show ?case by (subst sync_loop.simps) (auto split: sum.split)
qed

lemma good_run_single:
  assumes "good (e_fk e) (snd w)"
  shows "good (e_fk e) (snd (fst (run_single e own_cert mint A show_addr peer duration own folder device wait dry w)))"
proof -
  let ?prep = "cli_bind (lift_res (resolve_device_key A device own (snd w)) (snd w)) (\<lambda>(row_device, resolved) db1.
    cli_bind (if row_device = device then cli_db (ensure_device (e_fk e) (e_clock e) row_device db1) else (db1, Inr ())) (\<lambda>_ db2.
    cli_bind (adopt_rows (e_fk e) folder own row_device (list_sync_folders db2) db2) (\<lambda>_ db3.
    cli_bind (get_or_create_folder (e_fk e) (e_clock e) mint folder row_device db3) (\<lambda>fid db4.
    case resolved of
      None \<Rightarrow> (db4, Inl (NotReachable device))
    | Some addr \<Rightarrow> (db4, Inr (row_device, addr, fid))))))"
  have "good (e_fk e) (fst ?prep)"
    using assms by (auto intro!: good_cli good_adopt_rows good_get_or_create split: option.split)
  moreover have "good (e_fk e) (snd (fst (sync_loop (\<lambda>k. run_sync e own_cert (peer k addr) folder (show_addr addr) fid did dry) duration n 0 0 w')))"
    if "good (e_fk e) (snd w')" for addr fid did n w'
    by (rule good_sync_loop [where P = "\<lambda>w. good (e_fk e) (snd w)"]) (simp_all add: good_run_sync that)
  ultimately show ?thesis
    by (cases ?prep) (auto simp: run_single_def case_prod_beta Let_def split: sum.split)
qed

lemma good_sync_with: "good (e_fk e) (snd (bk_world b)) \<Longrightarrow> good (e_fk e) (snd (bk_world (sync_with e own_cert net fid path dev addr b)))"
  using good_dial [of e "bk_world b"]
  by (auto simp: sync_with_def push_outcome_def Let_def case_prod_beta good_simple_ops split: sum.split)

lemma good_bulk:
  assumes "good (e_fk e) (snd w)"
  shows "good (e_fk e) (snd (bk_world (sync_all_folders_with e own_cert net window own w)))"
proof -
  have fan: "good (e_fk e) (snd (bk_world b)) \<Longrightarrow>
      good (e_fk e) (snd (bk_world (fold (\<lambda>(p, a). sync_with e own_cert net fid path p a) ts b)))" for fid path ts b
    by (induction ts arbitrary: b) (auto simp: good_sync_with)
  have row: "good (e_fk e) (snd (bk_world b)) \<Longrightarrow> good (e_fk e) (snd (bk_world (sync_row e own_cert net own peers x b)))" for peers x b
    by (auto simp: sync_row_def Let_def push_outcome_def good_sync_with fan split: prod.split option.split list.split)
  have "good (e_fk e) (snd (bk_world b)) \<Longrightarrow> good (e_fk e) (snd (bk_world (fold (sync_row e own_cert net own peers) xs b)))" for peers xs b
    by (induction xs arbitrary: b) (auto simp: row)
  with assms show ?thesis by (simp add: sync_all_folders_with_def Let_def)
qed


section \<open>The invariant of the shell\<close>

text \<open>Its identity is that of the context, and every server belongs to it.\<close>

definition shell_wf :: "env \<Rightarrow> shell \<Rightarrow> bool" where
  "shell_wf e = (\<lambda>(st, ctx).
     good (e_fk e) (cx_db ctx) \<and> ascending (rp_watches st) \<and> ascending (rp_servers st) \<and>
     di_id (cx_device ctx) = di_id (rp_device st) \<and> cx_pairing ctx = rp_device st \<and>
     (\<forall>x \<in> set (rp_servers st). handle_wf (di_id (rp_device st)) (snd x)))"

lemma shell_wf_db: "shell_wf e (st, ctx) \<Longrightarrow> good (e_fk e) db \<Longrightarrow> shell_wf e (st, ctx\<lparr>cx_fs := fs, cx_db := db\<rparr>)"
  by (simp add: shell_wf_def)

lemma shell_wf_only_db: "shell_wf e (st, ctx) \<Longrightarrow> good (e_fk e) db \<Longrightarrow> shell_wf e (st, ctx\<lparr>cx_db := db\<rparr>)"
  by (simp add: shell_wf_def)

lemma shell_wfD:
  assumes "shell_wf e (st, ctx)"
  shows "good (e_fk e) (cx_db ctx)" "ascending (rp_servers st)"
    "map_of (rp_servers st) k = Some s \<Longrightarrow> handle_wf (di_id (rp_device st)) s"
  using assms by (auto simp: shell_wf_def dest!: map_of_SomeD bspec)

lemma good_approve_pairing:
  assumes "good fk db"
  shows "good fk (fst (snd (approve_pairing fk now did name h db)))"
  using assms good_simple_ops(1) [OF assms, of now did name _ None]
  by (auto simp: approve_pairing_def split: sum.split prod.split) (metis fst_conv)+

lemma spawn_server_keeps:
  assumes "good (e_fk (ae_env E)) db" and "spawn_server E folder port dev db = (db', r)"
  shows "good (e_fk (ae_env E)) db'" and "r = Inr h \<Longrightarrow> handle_wf (di_id dev) h"
proof -
  obtain b6 b4 where b: "ae_bind E folder port = (b6, b4)" by fastforce
  obtain d r' where s: "serve_folder (e_fk (ae_env E)) (ae_mint E) (e_clock (ae_env E)) dev folder b6 b4 db = (d, r')" by fastforce
  with assms b have r: "db' = d" "r = map_sum id fst r'" by (simp_all add: spawn_server_def)
  with good_serve_folder [OF assms(1)] s show "good (e_fk (ae_env E)) db'" by (metis fst_conv)
  assume "r = Inr h"
  with r s show "handle_wf (di_id dev) h"
    by (cases r') (auto simp: serve_folder_def handle_wf_def gate_wf_new split: prod.splits sum.splits option.splits)
qed

lemma shell_wf_start:
  assumes "shell_wf (ae_env E) sh"
  shows "shell_wf (ae_env E) (fst (start_server E folder port sh))"
proof -
  obtain st ctx where sh: "sh = (st, ctx)" by fastforce
  obtain db' r where s: "spawn_server E folder port (rp_device st) (cx_db ctx) = (db', r)" by fastforce
  note k = spawn_server_keeps [OF shell_wfD(1) [OF assms [unfolded sh]] s]
  show ?thesis
    using assms k by (cases r) (auto simp: start_server_def sh s next_id_def shell_wf_def ascending_insert set_bt_insert)
qed

lemma shell_wf_rows: "shell_wf (ae_env E) sh \<Longrightarrow> shell_wf (ae_env E) (snd (start_rows E i seen rows sh))"
  by (induction E i seen rows sh rule: start_rows.induct) (auto simp: shell_wf_start case_prod_beta Let_def)

lemma shell_wf_restart:
  assumes "shell_wf (ae_env E) sh"
  shows "shell_wf (ae_env E) (rename_restart_servers E sh)"
proof -
  have entry: "shell_wf (ae_env E) sh \<Longrightarrow> shell_wf (ae_env E) (restart_entry E x sh)" for x sh
  proof -
    assume wf: "shell_wf (ae_env E) sh"
    obtain st ctx k s where sh: "sh = (st, ctx)" "x = (k, s)" by (metis surj_pair)
    obtain db' r where p: "spawn_server E (srv_folder s) (srv_port s) (rp_device st) (cx_db ctx) = (db', r)" by fastforce
    note k = spawn_server_keeps [OF shell_wfD(1) [OF wf [unfolded sh]] p]
    show ?thesis using wf k by (cases r) (auto simp: restart_entry_def sh p shell_wf_def ascending_insert set_bt_insert)
  qed
  have "shell_wf (ae_env E) sh \<Longrightarrow> shell_wf (ae_env E) (fold (restart_entry E) xs sh)" for xs sh
    by (induction xs arbitrary: sh) (auto simp: entry)
  moreover obtain st ctx where sh: "sh = (st, ctx)" by fastforce
  moreover have "shell_wf (ae_env E) (st\<lparr>rp_servers := []\<rparr>, ctx)" using assms by (simp add: sh shell_wf_def)
  ultimately show ?thesis by (simp add: rename_restart_servers_def)
qed

lemma shell_wf_update:
  assumes "shell_wf e (st, ctx)" and "handle_wf (di_id (rp_device st)) h" and "good (e_fk e) db"
  shows "shell_wf e (st\<lparr>rp_servers := bt_update k h (rp_servers st)\<rparr>, ctx\<lparr>cx_db := db\<rparr>)"
  using assms set_bt_update [of _ k h "rp_servers st"] by (fastforce simp: shell_wf_def)

lemma shell_wf_resolve:
  assumes "shell_wf e sh"
  shows "shell_wf e (fst (resolve_pending e n approve sh))"
proof -
  obtain st ctx where sh: "sh = (st, ctx)" by fastforce
  note wf = assms [unfolded sh]
  obtain k name did where p: "collect_pending st ! (n - Suc 0) = (k, name, did)" by (metis prod_cases3)
  show ?thesis
  proof (cases "map_of (rp_servers st) k")
    case (Some s)
    note h = handle_wf_decisions [OF shell_wfD(3) [OF wf Some]]
    obtain h1 db1 r1 where a: "approve_pairing (e_fk e) (e_clock e) did name s (cx_db ctx) = (h1, db1, r1)" by (metis prod_cases3)
    obtain h2 r2 where d: "deny_pairing did s = (h2, r2)" by fastforce
    have "shell_wf e (st\<lparr>rp_servers := bt_update k h1 (rp_servers st)\<rparr>, ctx\<lparr>cx_db := db1\<rparr>)"
      using h(1) [of "e_fk e" "e_clock e" did name "cx_db ctx"] good_approve_pairing [OF shell_wfD(1) [OF wf], of "e_clock e" did name s]
      by (intro shell_wf_update wf) (simp_all add: a)
    moreover have "shell_wf e (st\<lparr>rp_servers := bt_update k h2 (rp_servers st)\<rparr>, ctx)"
      using h(2) [of did] shell_wf_update [OF wf _ shell_wfD(1) [OF wf], of h2 k] by (simp add: d)
    ultimately show ?thesis using wf by (simp add: resolve_pending_def sh p Some Let_def a d)
  qed (use wf in \<open>simp add: resolve_pending_def sh p Let_def\<close>)
qed


lemma shell_wf_watch:
  assumes "shell_wf (ae_env (s_api S)) sh"
  shows "shell_wf (ae_env (s_api S)) (fst (start_watch S folder device sh))"
proof -
  obtain st ctx where sh: "sh = (st, ctx)" by fastforce
  note wf = assms [unfolded sh]
  have watches: "shell_wf e (st, ctx) \<Longrightarrow> ascending ws \<Longrightarrow> shell_wf e (st\<lparr>rp_next := n, rp_watches := ws\<rparr>, ctx)" for e ctx n ws
    by (simp add: shell_wf_def)
  have asc: "ascending (rp_watches st)" using wf by (simp add: shell_wf_def)
  show ?thesis
  proof (cases "resolve_watch_target (s_addrs S) device (di_id (rp_device st)) (cx_db ctx)")
    case (Inr p)
    obtain did addr where p: "p = (did, addr)" by fastforce
    obtain db' r where g: "get_or_create_folder (e_fk (ae_env (s_api S))) (e_clock (ae_env (s_api S))) (ae_mint (s_api S)) folder did (cx_db ctx) = (db', r)"
      by fastforce
    with good_get_or_create [OF shell_wfD(1) [OF wf]] have "good (e_fk (ae_env (s_api S))) db'" by (metis fst_conv)
    note db = shell_wf_only_db [OF wf this]
    from watches [OF db ascending_insert [OF asc]] db show ?thesis
      by (cases r) (simp_all add: start_watch_def sh Inr p g next_id_def Let_def)
  qed (use wf in \<open>simp add: start_watch_def sh Let_def\<close>)
qed

lemma shell_wf_context:
  assumes "shell_wf e sh" and "\<And>ctx. good (e_fk e) (cx_db ctx) \<Longrightarrow> good (e_fk e) (cx_db (fst (f ctx)))"
    and "\<And>ctx. \<exists>fs db. fst (f ctx) = ctx\<lparr>cx_fs := fs, cx_db := db\<rparr>"
  shows "shell_wf e (fst (on_context f sh))"
proof -
  obtain st ctx where sh: "sh = (st, ctx)" by fastforce
  obtain fs db where f: "fst (f ctx) = ctx\<lparr>cx_fs := fs, cx_db := db\<rparr>" using assms(3) by blast
  with assms(2) [OF shell_wfD(1) [OF assms(1) [unfolded sh]]] have "good (e_fk e) db" by simp
  from shell_wf_db [OF assms(1) [unfolded sh] this, of fs] f show ?thesis
    by (simp add: on_context_def sh case_prod_beta)
qed

lemma context_db: "\<exists>fs db'. ctx\<lparr>cx_db := db\<rparr> = ctx\<lparr>cx_fs := fs, cx_db := db'\<rparr>" "\<exists>fs db'. ctx = ctx\<lparr>cx_fs := fs, cx_db := db'\<rparr>"
  by (rule exI [of _ "cx_fs ctx"], rule exI [of _ db], simp) (rule exI [of _ "cx_fs ctx"], rule exI [of _ "cx_db ctx"], simp)

lemma shell_wf_context_ops:
  assumes "shell_wf (ae_env (s_api S)) sh"
  shows "shell_wf (ae_env (s_api S)) (fst (on_context (cli_pair S ip port) sh))"
    "shell_wf (ae_env (s_api S)) (fst (on_context (cli_add_reply S path name) sh))"
    "shell_wf (ae_env (s_api S)) (fst (on_context (cli_sync S args) sh))"
proof -
  show "shell_wf (ae_env (s_api S)) (fst (on_context (cli_pair S ip port) sh))"
  proof (rule shell_wf_context [OF assms])
    show "good (e_fk (ae_env (s_api S))) (cx_db (fst (cli_pair S ip port ctx)))" if "good (e_fk (ae_env (s_api S))) (cx_db ctx)" for ctx
      using that good_pair_with [OF that]
      by (auto simp: cli_pair_def split: option.split prod.split sum.split) (metis fst_conv)+
  qed (auto simp: cli_pair_def context_db split: option.split prod.split sum.split)
  show "shell_wf (ae_env (s_api S)) (fst (on_context (cli_add_reply S path name) sh))"
    by (rule shell_wf_context [OF assms])
      (auto simp: cli_add_reply_def cli_add_def Let_def case_prod_beta good_share_add context_db)
  show "shell_wf (ae_env (s_api S)) (fst (on_context (cli_sync S args) sh))"
  proof (rule shell_wf_context [OF assms])
    fix ctx :: ApplicationContext assume g: "good (e_fk (ae_env (s_api S))) (cx_db ctx)"
    show "good (e_fk (ae_env (s_api S))) (cx_db (fst (cli_sync S args ctx)))"
      using g good_run_single [of "ae_env (s_api S)" "(cx_fs ctx, cx_db ctx)"] good_bulk [of "ae_env (s_api S)" "(cx_fs ctx, cx_db ctx)"]
      by (auto simp: cli_sync_def Let_def case_prod_beta split: option.split)
  qed (auto simp: cli_sync_def Let_def case_prod_beta context_db split: option.split)
qed

lemma shell_unsync_db:
  assumes "shell_unsync fk folder device yes ctx = Some (ctx', r)"
  shows "\<exists>db. ctx' = ctx\<lparr>cx_db := db\<rparr> \<and>
    (db = cx_db ctx \<or> db = fst (clear_all_sync_state fk (cx_db ctx)) \<or> (\<exists>p. db = fst (remove_sync_folders fk p device (cx_db ctx))))"
proof -
  obtain db1 r1 where c: "clear_all_sync_state fk (cx_db ctx) = (db1, r1)" by fastforce
  consider "folder = None" "device = None" "\<not> yes" | "folder = None" "device = None" "yes" | p where "folder = Some p" "\<not> yes"
    using assms by (cases folder; cases device; cases yes) (simp_all add: shell_unsync_def)
  then show ?thesis
  proof cases
    case 1
    then have "ctx' = ctx\<lparr>cx_db := cx_db ctx\<rparr>" using assms by (simp add: shell_unsync_def)
    then show ?thesis by blast
  next
    case 2
    then have "ctx' = ctx\<lparr>cx_db := db1\<rparr>" using assms by (cases r1) (auto simp: shell_unsync_def c)
    then show ?thesis using c by auto
  next
    case (3 p)
    obtain db2 r2 where "remove_sync_folders fk p device (cx_db ctx) = (db2, r2)" by fastforce
    moreover from this 3 have "ctx' = ctx\<lparr>cx_db := db2\<rparr>" using assms by (cases r2) (auto simp: shell_unsync_def)
    ultimately show ?thesis by (metis fst_conv)
  qed
qed

lemma shell_unsync_keeps:
  "shell_unsync fk folder device yes ctx = Some (ctx', r) \<Longrightarrow> good fk (cx_db ctx) \<Longrightarrow> \<exists>db. ctx' = ctx\<lparr>cx_db := db\<rparr> \<and> good fk db"
  by (drule shell_unsync_db) (auto simp: good_removals)

lemma shell_wf_state:
  assumes "shell_wf e sh"
  shows "shell_wf e (fst (on_state (stop_watch k) sh))" "shell_wf e (fst (on_state (stop_server k) sh))"
    "shell_wf e (stop_all (fst sh), snd sh)"
  using assms ascending_remove [of "rp_watches (fst sh)" k] ascending_remove [of "rp_servers (fst sh)" k]
  by (auto simp: on_state_def stop_watch_def stop_server_def stop_all_def shell_wf_def case_prod_beta bt_remove_def split: option.split)

lemma shell_wf_answer: "shell_wf e sh \<Longrightarrow> shell_wf e (fst (answer_latest e approve sh))"
  by (auto simp: answer_latest_def shell_wf_resolve split: nat.split)

lemma shell_wf_rename:
  assumes "shell_wf (ae_env (s_api S)) sh"
  shows "shell_wf (ae_env (s_api S)) (fst (shell_rename S name sh))"
proof -
  obtain st ctx where sh: "sh = (st, ctx)" by fastforce
  show ?thesis
  proof (cases "sanitize_device_name name")
    case (Inr clean)
    have "shell_wf (ae_env (s_api S)) (st\<lparr>rp_device := (rp_device st)\<lparr>di_name := clean\<rparr>\<rparr>,
        ctx\<lparr>cx_fs := fs, cx_pairing := (cx_pairing ctx)\<lparr>di_name := clean\<rparr>\<rparr>)" for fs
      using assms by (simp add: sh shell_wf_def)
    from shell_wf_restart [OF this] show ?thesis by (simp add: shell_rename_def sh Inr Let_def)
  qed (use assms in \<open>simp add: shell_rename_def sh\<close>)
qed

lemma shell_wf_reset: "shell_wf e sh \<Longrightarrow> shell_wf e (fst (shell_reset S yes sh))"
  using shell_wf_state(3) [of e sh] by (auto simp: shell_reset_def case_prod_beta shell_wf_def split: option.split)

lemma shell_wf_dispatch:
  assumes "shell_dispatch S c sh = Some (sh', r)" and wf: "shell_wf (ae_env (s_api S)) sh"
  shows "shell_wf (ae_env (s_api S)) sh'"
proof (cases c)
  case (CmdUnsync folder device yes)
  obtain st ctx where sh: "sh = (st, ctx)" by fastforce
  with assms(1) CmdUnsync obtain ctx' where u: "shell_unsync (e_fk (ae_env (s_api S))) folder device yes ctx = Some (ctx', r)" "sh' = (st, ctx')"
    by (auto simp: shell_dispatch_def Let_def)
  from shell_unsync_keeps [OF u(1) shell_wfD(1) [OF wf [unfolded sh]]] shell_wf_only_db [OF wf [unfolded sh]] u(2) show ?thesis by auto
next
  case (CmdServe folder port)
  then have "sh' = fst (start_server (s_api S) (the folder) port sh) \<or> sh' = fst (start_all_servers (s_api S) port sh :: shell \<times> 'a reply)"
    using assms(1) by (cases folder; cases "start_server (s_api S) (the folder) port sh") (auto simp: shell_dispatch_def Let_def)
  moreover have "shell_wf (ae_env (s_api S)) (fst (start_all_servers (s_api S) port sh :: shell \<times> 'a reply))"
    using shell_wf_rows [OF wf] wf by (auto simp: start_all_servers_def case_prod_beta)
  ultimately show ?thesis using shell_wf_start [OF wf] by auto
next
  case (CmdPair ip port)
  with assms shell_wf_context_ops(1) [OF wf, of ip port] show ?thesis by (simp add: shell_dispatch_def Let_def)
next
  case (CmdAdd path name)
  with assms shell_wf_context_ops(2) [OF wf, of path name] show ?thesis by (simp add: shell_dispatch_def Let_def)
next
  case (CmdSync args)
  with assms shell_wf_context_ops(3) [OF wf, of args] show ?thesis by (simp add: shell_dispatch_def Let_def)
next
  case (CmdWatch args)
  with assms shell_wf_watch [OF wf, of "wa_folder args" "wa_device args"] show ?thesis by (simp add: shell_dispatch_def Let_def)
next
  case (CmdUnwatch k)
  have "sh' = fst (on_state (stop_watch k) sh :: shell \<times> 'a reply)" using assms(1) CmdUnwatch by (simp add: shell_dispatch_def Let_def)
  with shell_wf_state(1) [OF wf, of k] show ?thesis by simp
next
  case (CmdUnserve k)
  have "sh' = fst (on_state (stop_server k) sh :: shell \<times> 'a reply)" using assms(1) CmdUnserve by (simp add: shell_dispatch_def Let_def)
  with shell_wf_state(2) [OF wf, of k] show ?thesis by simp
next
  case (CmdConfirm n)
  with assms(1) have "sh' = fst (resolve_pending (ae_env (s_api S)) n True sh :: shell \<times> 'a reply)" by (simp add: shell_dispatch_def Let_def)
  with shell_wf_resolve [OF wf] show ?thesis by simp
next
  case (CmdDeny n)
  with assms(1) have "sh' = fst (resolve_pending (ae_env (s_api S)) n False sh :: shell \<times> 'a reply)" by (simp add: shell_dispatch_def Let_def)
  with shell_wf_resolve [OF wf] show ?thesis by simp
next
  case CmdYes
  with assms(1) have "sh' = fst (answer_latest (ae_env (s_api S)) True sh :: shell \<times> 'a reply)" by (simp add: shell_dispatch_def Let_def)
  with shell_wf_answer [OF wf] show ?thesis by simp
next
  case CmdNo
  with assms(1) have "sh' = fst (answer_latest (ae_env (s_api S)) False sh :: shell \<times> 'a reply)" by (simp add: shell_dispatch_def Let_def)
  with shell_wf_answer [OF wf] show ?thesis by simp
next
  case (CmdRename name)
  with assms(1) have "sh' = fst (shell_rename S name sh)" by (simp add: shell_dispatch_def Let_def)
  with shell_wf_rename [OF wf] show ?thesis by simp
next
  case (CmdReset yes)
  with assms(1) have "sh' = fst (shell_reset S yes sh)" by (simp add: shell_dispatch_def Let_def)
  with shell_wf_reset [OF wf] show ?thesis by simp
qed (use assms in \<open>simp_all add: shell_dispatch_def Let_def\<close>)


text \<open>What happens between two lines: connections to a server of the shell, and the sessions of its
  watches. The server's folder row is any.\<close>

definition shell_incoming ::
  "env \<Rightarrow> nat \<Rightarrow> i64 \<Rightarrow> bytes option \<Rightarrow> string option \<Rightarrow> string \<Rightarrow> SyncMessage list \<Rightarrow> shell \<Rightarrow> shell" where
  "shell_incoming e k fid cert ip label msgs = (\<lambda>(st, ctx).
     case map_of (rp_servers st) k of
       None \<Rightarrow> (st, ctx)
     | Some h \<Rightarrow>
         (case srv_gate h of
            None \<Rightarrow> (st, ctx)
          | Some gate \<Rightarrow>
              (let cfg = \<lparr>v_env = e, v_policy = Confirm, v_device = rp_device st, v_own_cert = cx_cert ctx,
                     v_local_path = srv_folder h, v_folder_id = fid\<rparr>;
                   sv = connection cfg cert ip label msgs
                     \<lparr>v_fs = cx_fs ctx, v_db = cx_db ctx, v_gate = gate, v_out = [], v_events = []\<rparr>
               in (st\<lparr>rp_servers := bt_update k (h\<lparr>srv_gate := Some (v_gate sv)\<rparr>) (rp_servers st)\<rparr>,
                   ctx\<lparr>cx_fs := v_fs sv, cx_db := v_db sv\<rparr>))))"

lemma shell_wf_incoming:
  assumes "shell_wf e sh"
  shows "shell_wf e (shell_incoming e k fid cert ip label msgs sh)"
proof -
  obtain st ctx where sh: "sh = (st, ctx)" by fastforce
  note wf = assms [unfolded sh]
  show ?thesis
  proof (cases "map_of (rp_servers st) k")
    case (Some h)
    from shell_wfD(3) [OF wf Some] obtain g where g: "srv_gate h = Some g" "gate_wf g" "srv_owner_id h = di_id (rp_device st)"
      by (auto simp: handle_wf_def)
    let ?sv = "\<lparr>v_fs = cx_fs ctx, v_db = cx_db ctx, v_gate = g, v_out = [], v_events = []\<rparr>"
    define cfg where "cfg = \<lparr>v_env = e, v_policy = Confirm, v_device = rp_device st, v_own_cert = cx_cert ctx,
      v_local_path = srv_folder h, v_folder_id = fid\<rparr>"
    define sv where "sv = connection cfg cert ip label msgs ?sv"
    have "gate_wf (v_gate sv)"
      using gate_wf_step [of ?sv cfg "server_event.Connected cert ip label msgs"] g(2) by (simp add: sv_def)
    then have h: "handle_wf (di_id (rp_device st)) (h\<lparr>srv_gate := Some (v_gate sv)\<rparr>)" using g(3) by (simp add: handle_wf_def)
    have "good (e_fk (v_env cfg)) (v_db sv)"
      unfolding sv_def by (rule good_connection) (simp add: cfg_def shell_wfD(1) [OF wf])
    then have db: "good (e_fk e) (v_db sv)" by (simp add: cfg_def)
    from shell_wf_update [OF shell_wf_db [OF wf db, of "v_fs sv"] h db] show ?thesis
      by (simp add: shell_incoming_def sh Some g(1) Let_def cfg_def [symmetric] sv_def [symmetric])
  qed (use wf in \<open>simp add: shell_incoming_def sh\<close>)
qed

inductive shell_reach :: "env \<Rightarrow> shell \<Rightarrow> bool" for e :: env where
  start: "db_reach (e_fk e) (cx_db ctx) \<Longrightarrow> cx_pairing ctx = cx_device ctx \<Longrightarrow> ae_env E = e \<Longrightarrow>
    shell_reach e (auto_serve_existing E (repl_new ctx, ctx))"
| line: "shell_reach e sh \<Longrightarrow> ae_env (s_api S) = e \<Longrightarrow> shell_line split (S :: string surroundings) line sh = Continue sh' r \<Longrightarrow> shell_reach e sh'"
| incoming: "shell_reach e sh \<Longrightarrow> shell_reach e (shell_incoming e k fid cert ip label msgs sh)"
| watched: "shell_reach e (st, ctx) \<Longrightarrow>
    folder_loop e (cx_cert ctx) peer show_addr folder (addr :: string) fid k sigs (cx_fs ctx, cx_db ctx) = ((fs, db), rs) \<Longrightarrow>
    shell_reach e (st, ctx\<lparr>cx_fs := fs, cx_db := db\<rparr>)"

lemma good_folder_loop:
  assumes "good (e_fk e) (snd w)"
  shows "good (e_fk e) (snd (fst (folder_loop e own_cert peer show_addr folder addr fid k sigs w)))"
  using assms
proof (induction sigs arbitrary: k w)
  case (Cons sig sigs)
  show ?case
  proof (cases sig)
    case FilesChanged
    with Cons.IH [OF good_run_sync [OF Cons.prems]] show ?thesis by (simp add: case_prod_beta Let_def)
  qed (simp_all add: Cons.prems)
qed simp

lemma shell_line_command:
  "parse_line split (str_trim line) = Inr (Some c) \<Longrightarrow> c \<noteq> CmdHelp \<Longrightarrow> c \<noteq> CmdExit \<Longrightarrow>
     shell_line split S line sh = (case shell_dispatch S c sh of None \<Rightarrow> Panicked | Some (sh', r) \<Rightarrow> Continue sh' r)"
  by (cases c) (simp_all add: shell_line_def)

lemma shell_line_runs:
  assumes "shell_line split S line sh = Panicked \<or> (\<exists>sh' r. shell_line split S line sh = Continue sh' r)"
  obtains c where "parse_line split (str_trim line) = Inr (Some c)" "c \<noteq> CmdHelp" "c \<noteq> CmdExit"
proof (cases "parse_line split (str_trim line)")
  case (Inr parsed)
  with assms obtain c where c: "parsed = Some c" by (cases parsed) (auto simp: shell_line_def)
  with Inr assms have "c \<noteq> CmdHelp" "c \<noteq> CmdExit" by (auto simp: shell_line_def)
  with Inr c show thesis by (intro that) simp_all
qed (use assms in \<open>auto simp: shell_line_def\<close>)

lemma shell_line_continue:
  assumes "shell_line split S line sh = Continue sh' r"
  obtains c where "shell_dispatch S c sh = Some (sh', r)"
proof (rule shell_line_runs [of split S line sh])
  fix c assume "parse_line split (str_trim line) = Inr (Some c)" "c \<noteq> CmdHelp" "c \<noteq> CmdExit"
  from shell_line_command [OF this, of S sh] assms that show thesis by (auto split: option.splits)
qed (use assms in blast)


definition example_shell :: shell where
  "example_shell =
     (\<lparr>rp_device = \<lparr>di_id = ''me'', di_name = ''desk'', di_cert_fingerprint = []\<rparr>, rp_watches = [],
       rp_servers = [(1, \<lparr>srv_folder = ''/s'', srv_port = 9847, srv_owner_id = ''me'',
         srv_gate = Some (gate_new\<lparr>pending := [\<lparr>pp_device_id = ''p'', pp_device_name = ''Phone'', pp_cert_der = Some [7]\<rparr>]\<rparr>)\<rparr>)],
       rp_next = 2\<rparr>,
      \<lparr>cx_fs = [], cx_db = db_empty, cx_data_dir = ''/d'', cx_cert = [5], cx_device = \<lparr>di_id = ''me'', di_name = ''desk'', di_cert_fingerprint = []\<rparr>,
       cx_pairing = \<lparr>di_id = ''me'', di_name = ''desk'', di_cert_fingerprint = []\<rparr>\<rparr>)"


section \<open>Answering held requests\<close>

lemma collect_update:
  assumes "distinct (map fst m)" and "map_of m k = Some s" and "f h = filter (\<lambda>(_, d). d \<noteq> did) (f s)"
  shows "concat (map (\<lambda>(k', s). map (\<lambda>(name, d). (k', name, d)) (f s)) (bt_update k h m)) =
    filter (\<lambda>(k', _, d). \<not> (k' = k \<and> d = did)) (concat (map (\<lambda>(k', s). map (\<lambda>(name, d). (k', name, d)) (f s)) m))"
  using assms(1,2)
proof (induction m)
  case (Cons x m)
  obtain k1 s1 where x: "x = (k1, s1)" by fastforce
  have other: "filter (\<lambda>(k', _, d). \<not> (k' = k \<and> d = did)) (map (\<lambda>(name, d). (k1, name, d)) (f s')) = map (\<lambda>(name, d). (k1, name, d)) (f s')"
    if "k1 \<noteq> k" for s'
    using that by (auto simp: filter_id_conv)
  show ?case
  proof (cases "k1 = k")
    case True
    with Cons.prems x have s: "s1 = s" "k \<notin> fst ` set m" by auto
    then have "bt_update k h m = m" by (force simp: bt_update_def intro: map_idI)
    moreover have "filter (\<lambda>(k', _, d). \<not> (k' = k \<and> d = did)) (concat (map (\<lambda>(k', s). map (\<lambda>(name, d). (k', name, d)) (f s)) m)) =
        concat (map (\<lambda>(k', s). map (\<lambda>(name, d). (k', name, d)) (f s)) m)"
      using s(2) by (force simp: filter_id_conv)
    moreover have "map (\<lambda>(name, d). (k, name, d)) (filter (\<lambda>(_, d). d \<noteq> did) (f s)) =
        filter (\<lambda>(k', _, d). \<not> (k' = k \<and> d = did)) (map (\<lambda>(name, d). (k, name, d)) (f s))"
      by (simp add: filter_map comp_def split_def)
    ultimately show ?thesis by (simp add: x True s(1) assms(3) bt_update_def)
  next
    case False
    with Cons x have "concat (map (\<lambda>(k', s). map (\<lambda>(name, d). (k', name, d)) (f s)) (bt_update k h m)) =
      filter (\<lambda>(k', _, d). \<not> (k' = k \<and> d = did)) (concat (map (\<lambda>(k', s). map (\<lambda>(name, d). (k', name, d)) (f s)) m))" by simp
    with False other show ?thesis by (simp add: x bt_update_def)
  qed
qed simp

text \<open>C13. Confirming the n-th listed request approves exactly that one: the device gets the name and the
  certificate it was held with, no other device is changed, and the list afterwards is the one before
  without the requests of that device at that server.\<close>

theorem confirm_exact:
  assumes wf: "shell_wf e (st, ctx)" and n: "0 < n" "n \<le> length (collect_pending st)"
    and nth: "collect_pending st ! (n - 1) = (k, name, did)"
  shows "\<exists>st' ctx' g. resolve_pending e n True (st, ctx) = ((st', ctx'), Quiet) \<and>
    collect_pending st' = filter (\<lambda>(k', _, d). \<not> (k' = k \<and> d = did)) (collect_pending st) \<and>
    get_device_name (cx_db ctx') did = Some name \<and>
    Option.bind (map_of (rp_servers st) k) srv_gate = Some g \<and>
    get_device_cert (cx_db ctx') did = coalesce (held_cert did g) (get_device_cert (cx_db ctx) did) \<and>
    (\<forall>d. d \<noteq> did \<longrightarrow> device_by_id (cx_db ctx') d = device_by_id (cx_db ctx) d)"
proof -
  have dist: "distinct (map fst (rp_servers st))" by (rule ascending_distinct [OF shell_wfD(2) [OF wf]])
  from n have "(k, name, did) \<in> set (collect_pending st)" by (simp flip: nth)
  then obtain s where "(k, s) \<in> set (rp_servers st)" by (auto simp: collect_pending_def)
  with dist have s: "map_of (rp_servers st) k = Some s" by simp
  from shell_wfD(3) [OF wf this] obtain g where g: "srv_gate s = Some g" by (auto simp: handle_wf_def)
  let ?upd = "\<lambda>d. d\<lparr>d_name := name, d_cert := coalesce (held_cert did g) (d_cert d), d_last_seen := Some (e_clock e), d_last_addr := coalesce None (d_last_addr d)\<rparr>"
  let ?h = "s\<lparr>srv_gate := Some (g\<lparr>pending := filter (\<lambda>p. pp_device_id p \<noteq> did) (pending g)\<rparr>)\<rparr>"
  obtain db' where up: "upsert_device (e_fk e) (e_clock e) did name (held_cert did g) None (cx_db ctx) = (db', Inr ())"
    by (rule upsert_device_ok [OF shell_wfD(1) [OF wf]])
  then have db': "db' = upsert_row \<lparr>d_id = did, d_name = name, d_cert = held_cert did g, d_last_seen = Some (e_clock e), d_last_addr = None\<rparr> ?upd (cx_db ctx)"
    unfolding upsert_device_def by (rule stmt_ok)
  have rows: "device_by_id db' d = (if d = did then
      Some (case device_by_id (cx_db ctx) did of Some d \<Rightarrow> ?upd d
        | None \<Rightarrow> \<lparr>d_id = did, d_name = name, d_cert = held_cert did g, d_last_seen = Some (e_clock e), d_last_addr = None\<rparr>)
      else device_by_id (cx_db ctx) d)" for d
    unfolding db' by (simp add: device_by_id_upsert)
  have "or_empty (pending_pairings ?h) = filter (\<lambda>(_, d). d \<noteq> did) (or_empty (pending_pairings s))"
    by (simp add: pending_pairings_def require_gate_def g or_empty_def filter_map comp_def)
  from collect_update [OF dist s, of "\<lambda>s. or_empty (pending_pairings s)", OF this]
  have "collect_pending (st\<lparr>rp_servers := bt_update k ?h (rp_servers st)\<rparr>) =
      filter (\<lambda>(k', _, d). \<not> (k' = k \<and> d = did)) (collect_pending st)"
    by (simp add: collect_pending_def)
  moreover have "resolve_pending e n True (st, ctx) = ((st\<lparr>rp_servers := bt_update k ?h (rp_servers st)\<rparr>, ctx\<lparr>cx_db := db'\<rparr>), Quiet)"
    using n nth by (simp add: resolve_pending_def s approve_pairing_def require_gate_def g up)
  moreover have "get_device_name db' did = Some name" by (simp add: get_device_name_def rows split: option.split)
  moreover have "get_device_cert db' did = coalesce (held_cert did g) (get_device_cert (cx_db ctx) did)"
    by (simp add: get_device_cert_def rows coalesce_def split: option.split)
  moreover have "\<forall>d. d \<noteq> did \<longrightarrow> device_by_id db' d = device_by_id (cx_db ctx) d" by (simp add: rows)
  ultimately show ?thesis
    by (intro exI [of _ "st\<lparr>rp_servers := bt_update k ?h (rp_servers st)\<rparr>"] exI [of _ "ctx\<lparr>cx_db := db'\<rparr>"] exI [of _ g] conjI)
      (simp_all add: s g)
qed

theorem confirm_exact_witness:
  "\<exists>st' ctx'. resolve_pending example_env 1 True example_shell = ((st', ctx'), Quiet) \<and> collect_pending st' = [] \<and>
     get_device_cert (cx_db ctx') ''p'' = Some [7]"
proof -
  have wf: "shell_wf example_env (fst example_shell, snd example_shell)"
    by (simp add: example_shell_def shell_wf_def good_empty handle_wf_def gate_wf_def gate_new_def)
  have one: "collect_pending (fst example_shell) = [(1, ''Phone'', ''p'')]"
    by (simp add: example_shell_def collect_pending_def pending_pairings_def require_gate_def or_empty_def)
  have gate: "Option.bind (map_of (rp_servers (fst example_shell)) (Suc 0)) srv_gate =
      Some (gate_new\<lparr>pending := [\<lparr>pp_device_id = ''p'', pp_device_name = ''Phone'', pp_cert_der = Some [7]\<rparr>]\<rparr>)"
    by (simp add: example_shell_def)
  from confirm_exact [OF wf, of 1 1 "''Phone''" "''p''"] show ?thesis
    by (auto simp: one gate held_cert_def coalesce_def)
qed

section \<open>The only panic\<close>

lemma parse_words_unsync:
  assumes "parse_words ws = Inr (Some (CmdUnsync folder device yes))"
  obtains args where "ws = ''unsync'' # args" "parse_unsync args = Inr (CmdUnsync folder device yes)"
proof (cases ws)
  case (Cons cmd args)
  have inj: "map_sum id Some r = Inr (Some c) \<longleftrightarrow> r = Inr c" for r :: "string + ReplCommand" and c by (cases r) auto
  show thesis
  proof (cases "map_of SIMPLE_COMMANDS cmd")
    case None
    have other: "parse_rename args \<noteq> Inr (CmdUnsync folder device yes)" "parse_discover args \<noteq> Inr (CmdUnsync folder device yes)"
      "parse_pair args \<noteq> Inr (CmdUnsync folder device yes)" "parse_add args \<noteq> Inr (CmdUnsync folder device yes)"
      "parse_watch args \<noteq> Inr (CmdUnsync folder device yes)" "parse_serve args \<noteq> Inr (CmdUnsync folder device yes)"
      "parse_sync args \<noteq> Inr (CmdUnsync folder device yes)"
      by (auto simp: parse_rename_def parse_discover_def parse_pair_def parse_add_def parse_watch_def parse_serve_def parse_sync_def
          Let_def res_bind_ok split: if_splits list.splits option.splits)
    from assms other that show thesis
      unfolding Cons parse_words_def list.case None option.case inj
      by (simp only: split: if_splits) (auto simp: res_bind_ok)
  next
    case (Some c)
    with assms have "map_of SIMPLE_COMMANDS cmd = Some (CmdUnsync folder device yes)" by (simp add: Cons parse_words_def)
    then have "CmdUnsync folder device yes \<in> snd ` set SIMPLE_COMMANDS" by (force dest: map_of_SomeD)
    then show thesis by (simp add: SIMPLE_COMMANDS_def)
  qed
qed (use assms in \<open>simp add: parse_words_def\<close>)

lemma dispatch_None:
  "shell_dispatch S c sh = None \<longleftrightarrow>
     c = CmdHelp \<or> c = CmdExit \<or>
     (\<exists>folder device yes. c = CmdUnsync folder device yes \<and>
        (folder = None \<and> device \<noteq> None \<or> yes \<and> (folder \<noteq> None \<or> device \<noteq> None)))"
proof (cases c)
  case (CmdUnsync folder device yes)
  have "shell_unsync fk folder device yes ctx = None \<longleftrightarrow> folder = None \<and> device \<noteq> None \<or> yes \<and> (folder \<noteq> None \<or> device \<noteq> None)" for fk ctx
    by (cases folder; cases device; cases yes) (simp_all add: shell_unsync_def split: prod.split sum.split)
  with CmdUnsync show ?thesis by (simp add: shell_dispatch_def Let_def)
qed (simp_all add: shell_dispatch_def Let_def)

lemma shell_line_panics:
  assumes "split (str_trim (str_trim line)) = Some (''unsync'' # args)" and "unsync_args None None False args = Inr (None, Some device, False)"
  shows "shell_line split S line sh = Panicked"
proof -
  have "parse_line split (str_trim line) = Inr (Some (CmdUnsync None (Some device) False))"
    using assms by (simp add: parse_line_def parse_keyword parse_unsync_def res_bind_def)
  moreover have "shell_dispatch S (CmdUnsync None (Some device) False) sh = None" by (auto simp: dispatch_None)
  ultimately show ?thesis by (simp add: shell_line_def)
qed


text \<open>Example: the line of the help text with its folder left out.\<close>

lemma unsync_device_panics: "shell_line (\<lambda>_. Some [''unsync'', ''--device'', ''phone'']) S line sh = Panicked"
  by (rule shell_line_panics [where args = "[''--device'', ''phone'']" and device = "''phone''"]) simp_all

section \<open>The certificates of watches\<close>

text \<open>A watch starts its sessions with an empty device id. What a session leaves in the database of the
  certificate that is stored for a device, once its peer has been authenticated.\<close>

lemma stmt_db: "fst (stmt fk db db') = db \<or> fst (stmt fk db db') = db'"
  by (simp add: stmt_def)

lemma cert_of_devices: "t_devices db' = t_devices db \<Longrightarrow> get_device_cert db' did = get_device_cert db did"
  by (simp add: get_device_cert_def device_by_id_def)

lemma bookkeeping_keeps_certs:
  "t_devices (fst (record_history fk now rec db)) = t_devices db"
  "t_devices (fst (set_folder_last_sync fk fid t db)) = t_devices db"
  "t_devices (fst (record_session fk now d p a lp n1 n2 n3 b1 b2 db)) = t_devices db"
  by (auto simp: record_history_def set_folder_last_sync_def record_session_def keep_newest_def update_folder_def stmt_def db_bind_def)

interpretation stored_cert: db_invariant e "\<lambda>db. get_device_cert db did = Some c" for e did c
  by unfold_locales (simp_all only: cert_of_devices [OF bookkeeping_keeps_certs(1)]
    cert_of_devices [OF bookkeeping_keeps_certs(2)] cert_of_devices [OF bookkeeping_keeps_certs(3)])

lemma watch_first_use_pins:
  assumes "good (e_fk e) (c_db s)" and "get_device_cert (c_db s) did = None" and "c \<noteq> own"
  shows "snd (client_authenticate e own (Some c) did s) = Inr ()"
    "get_device_cert (c_db (fst (client_authenticate e own (Some c) did s))) did = Some c"
proof -
  have "set_device_cert (e_fk e) (e_clock e) did c (c_db s) = (fst (set_device_cert (e_fk e) (e_clock e) did c (c_db s)), Inr ())"
    unfolding set_device_cert_def by (subst (1 2) upsert_row_ok [OF assms(1)]) simp_all
  moreover note storage_certs.get_put [OF assms(1), of "e_clock e" did c did]
  ultimately show "snd (client_authenticate e own (Some c) did s) = Inr ()"
    "get_device_cert (c_db (fst (client_authenticate e own (Some c) did s))) did = Some c"
    using assms(2,3) by (simp_all add: client_authenticate_def split: prod.split sum.split) (metis sum.distinct(1) sum.inject(2) prod.inject fst_conv)+
qed

text \<open>C18. A background watch authenticates its peer against the certificate kept for the empty id, not
  against the one of the device it watches. With none kept, any certificate but our own passes and is
  kept, whatever is pinned for the watched device and however the session ends; from then on a watch
  of a peer with another certificate ends at once with a mismatch and changes nothing.\<close>

theorem watch_pins_first_peer:
  assumes g: "good (e_fk e) db" and none: "get_device_cert db '''' = None" and c: "c \<noteq> own" "c' \<noteq> own" "c' \<noteq> c"
    and root: "sync_root_open fs (raw_path folder) = Inr r"
    and run: "folder_loop e own peer show_addr folder addr fid 0 [FilesChanged] (fs, db) = ((fs1, db1), rs)"
    and first: "peer 0 addr = Some (Some c, msgs)"
    and root': "sync_root_open fs1 (raw_path folder') = Inr r'"
    and other: "peer' 0 addr' = Some (Some c', msgs')"
  shows "snd (client_authenticate e own (Some c) '''' (session_start fs db)) = Inr () \<and> get_device_cert db1 '''' = Some c \<and>
    folder_loop e own peer' show_addr folder' addr' fid' 0 [FilesChanged] (fs1, db1) =
      ((fs1, db1), [Inl (SessionFailed TofuMismatch)])"
proof -
  have start: "c_fs (session_start fs db) = fs" "c_db (session_start fs db) = db" for fs db by (simp_all add: session_start_def)
  note auth = watch_first_use_pins [of e "session_start fs db" "''''" c own, unfolded start, OF g none c(1)]
  have "get_device_cert (c_db (fst (run_sync_session e own (Some c) folder (show_addr addr) fid '''' False rp msgs (session_start fs db)))) '''' = Some c" for rp
    by (rule stored_cert.session_after_authentication [OF _ auth(2)]) (simp add: start root)
  with run first have pin: "get_device_cert db1 '''' = Some c"
    by (auto simp: run_sync_def dial_session_def Let_def case_prod_beta)
  have "client_authenticate e own (Some c') '''' (session_start fs1 db1) = (session_start fs1 db1, Inl TofuMismatch)"
    using c by (simp add: client_authenticate_def start pin)
  then have "run_sync_session e own (Some c') folder' a fid' '''' False rp msgs' (session_start fs1 db1) =
      (session_start fs1 db1, Inl TofuMismatch)" for a rp
    by (simp add: run_sync_session_def start root' sbind_def [of "client_authenticate e own (Some c') ''''"])
  then have "folder_loop e own peer' show_addr folder' addr' fid' 0 [FilesChanged] (fs1, db1) =
      ((fs1, db1), [Inl (SessionFailed TofuMismatch)])"
    by (simp add: run_sync_def dial_session_def other start)
  with auth(1) pin show ?thesis by blast
qed

lemma example_root: "sync_root_open empty_dir (raw_path ''/d'') = Inr \<lparr>sr_root = [''d'']\<rparr>"
  by code_simp

lemma silent_peer_fs: "c_fs (fst (run_sync_session e own peer lp addr fid did dry rp [] s)) = c_fs s"
proof -
  have "c_fs (fst (client_authenticate e own peer did s)) = c_fs s"
    by (auto simp: client_authenticate_def split: option.split prod.split sum.split)
  moreover have "c_fs (fst (write_msg e m s)) = c_fs s" for m s
    by (cases "frame_message (e_encode e) m") (simp_all add: write_msg_def supdate_def)
  ultimately show ?thesis
    by (auto simp: run_sync_session_def sbind_def slift_def sfail_def split: prod.split sum.split) (metis fst_conv)+
qed

lemma example_watch_fs:
  "fst (fst (folder_loop example_env [5] (\<lambda>_ _. Some (Some [7], [])) (\<lambda>a. a) ''/d'' ''a'' 1 0 [FilesChanged] (empty_dir, db_empty))) = empty_dir"
  by (simp add: case_prod_beta Let_def run_sync_def dial_session_def silent_peer_fs) (simp add: session_start_def)

theorem watch_pins_first_peer_witness:
  "\<exists>w rs. folder_loop example_env [5] (\<lambda>_ _. Some (Some [7], [])) (\<lambda>a. a) ''/d'' ''a'' 1 0 [FilesChanged] (empty_dir, db_empty) = (w, rs) \<and>
     folder_loop example_env [5] (\<lambda>_ _. Some (Some [9], [])) (\<lambda>a. a) ''/d'' ''b'' 1 0 [FilesChanged] w = (w, [Inl (SessionFailed TofuMismatch)])"
proof -
  obtain fs1 db1 rs where run: "folder_loop example_env [5] (\<lambda>_ _. Some (Some [7], [])) (\<lambda>a. a) ''/d'' ''a'' 1 0 [FilesChanged] (empty_dir, db_empty) =
      ((fs1, db1), rs)" by (metis surj_pair)
  with example_watch_fs have "fs1 = empty_dir" by simp
  then have root: "sync_root_open fs1 (raw_path ''/d'') = Inr \<lparr>sr_root = [''d'']\<rparr>" by (simp add: example_root)
  have none: "get_device_cert db_empty '''' = None" by (simp add: get_device_cert_def device_by_id_def db_empty_def)
  from watch_pins_first_peer [OF good_empty none _ _ _ example_root run _ root, of "[7]" "[9]" "[]" "\<lambda>_ _. Some (Some [9], [])" "''b''" "[]" 1] run
  show ?thesis by (intro exI [of _ "(fs1, db1)"] exI [of _ rs]) simp
qed

end
