(* ===== verification/Diagnostics.thy ===== *)
theory Diagnostics
  imports Shell
begin

text \<open>
  The diagnostics of \<open>doctor\<close>, \<open>diagnostics.rs\<close> and \<open>commands/doctor.rs\<close>: every check with its status,
  message and hints, the report over a run, and the explanation of one check. What the network probes
  meet is a parameter; listing rows of the database does not fail in the model. A dash in a message is
  written with its three bytes.
\<close>

section \<open>Checks\<close>

datatype CheckStatus = CheckPass | CheckFail | CheckWarn | CheckInfo

definition status_as_str :: "CheckStatus \<Rightarrow> string" where
  "status_as_str s = (case s of CheckPass \<Rightarrow> ''pass'' | CheckFail \<Rightarrow> ''fail'' | CheckWarn \<Rightarrow> ''warn'' | CheckInfo \<Rightarrow> ''info'')"

record DiagnosticCheck =
  ck_name :: string
  ck_status :: CheckStatus
  ck_message :: string
  ck_hints :: "string list"

definition dash :: string where
  "dash = [CHR '' '', CHR 0xE2, CHR 0x80, CHR 0x94, CHR '' '']"

definition plural :: "nat \<Rightarrow> string \<Rightarrow> string" where
  "plural n ending = (if n = 1 then [] else ending)"

text \<open>The data directory is created and a file is written to it and removed.\<close>

definition data_dir_check :: "string \<Rightarrow> bool \<Rightarrow> DiagnosticCheck" where
  "data_dir_check data_dir ok =
     \<lparr>ck_name = ''data_dir'', ck_status = (if ok then CheckPass else CheckFail),
      ck_message = ''data directory '' @ data_dir @ '' is '' @ (if ok then ''writable'' else ''NOT writable''),
      ck_hints = (if ok then [] else
        [''Create or fix permissions on '' @ data_dir,
         ''Ensure the directory is owned by your user and on a filesystem that permits writes.''])\<rparr>"

definition check_data_dir :: "i64 \<Rightarrow> string \<Rightarrow> fs \<Rightarrow> fs \<times> DiagnosticCheck" where
  "check_data_dir now data_dir fs =
     (let probe = path_join (raw_path data_dir) ''.doctor-write-test''
      in case create_dir_all fs (raw_path data_dir) of
           None \<Rightarrow> (fs, data_dir_check data_dir False)
         | Some fs1 \<Rightarrow>
             (case fs_write fs1 probe (string_bytes ''ok'') now of
                None \<Rightarrow> (fs1, data_dir_check data_dir False)
              | Some fs2 \<Rightarrow>
                  (case fs_remove_file fs2 probe of
                     None \<Rightarrow> (fs2, data_dir_check data_dir False)
                   | Some fs3 \<Rightarrow> (fs3, data_dir_check data_dir True))))"

definition check_storage :: "db \<Rightarrow> DiagnosticCheck" where
  "check_storage db =
     \<lparr>ck_name = ''storage'', ck_status = CheckPass,
      ck_message = ''metadata database is readable ('' @ show_nat (length (list_sync_folders db)) @ '' sync folders)'',
      ck_hints = []\<rparr>"

text \<open>\<open>client_config\<close> never fails, so only the id is compared.\<close>

definition check_identity :: "env \<Rightarrow> bytes \<Rightarrow> string \<Rightarrow> string \<Rightarrow> DiagnosticCheck" where
  "check_identity e cert own_id own_name =
     (let derived = derived_id e cert; ok = (derived = own_id \<and> own_id \<noteq> [])
      in \<lparr>ck_name = ''identity'', ck_status = (if ok then CheckPass else CheckFail),
          ck_message = ''device identity '' @ own_name @ '' ('' @ (if ok then ''is valid'' else ''is INVALID'') @ '')'',
          ck_hints = (if ok then [] else
            [''The identity certificate/key are missing, unreadable or mismatched.'',
             ''Device id: '' @ own_id @ '' (derived from certificate: '' @ derived @ '')'',
             ''Re-run pairing if the certificate was ever replaced.''])\<rparr>)"

definition check_pairings :: "(string \<Rightarrow> 'a option) \<Rightarrow> db \<Rightarrow> DiagnosticCheck" where
  "check_pairings parse db =
     (let devices = list_devices db;
          bad = List.map_filter (\<lambda>(did, _). case device_last_addr db did of
              Some addr \<Rightarrow> if parse addr = None then Some (did @ '': '' @ addr) else None
            | None \<Rightarrow> None) devices
      in \<lparr>ck_name = ''pairings'', ck_status = (if bad = [] then CheckPass else CheckWarn),
          ck_message = show_nat (length devices) @ '' paired device'' @ plural (length devices) ''s'' @ '', '' @
            show_nat (length bad) @ '' malformed address'' @ plural (length bad) ''es'',
          ck_hints = (if bad = [] then [] else
            ''Malformed stored addresses:'' # bad @ [''Re-pair the affected device to refresh its address.''])\<rparr>)"

definition check_folders :: "fs \<Rightarrow> db \<Rightarrow> DiagnosticCheck" where
  "check_folders fs db =
     (let folders = list_sync_folders db;
          missing = filter (\<lambda>path. \<not> is_dir fs (raw_path path)) (map (\<lambda>(_, path, _). path) folders)
      in \<lparr>ck_name = ''folders'', ck_status = (if missing = [] then CheckPass else CheckWarn),
          ck_message = show_nat (length folders) @ '' sync folder'' @ plural (length folders) ''s'' @ '', '' @
            show_nat (length missing) @ '' missing from disk'',
          ck_hints = (if missing = [] then [] else
            ''Configured folders that no longer exist:'' # missing @
            [''Remove them with `ferrisync folders remove <path>`, or recreate the folder.''])\<rparr>)"

section \<open>Network probes\<close>

datatype bind_probe = BindOk | BindInUse | BindError string
datatype connect_probe = ProbeConnected | ProbeFailed string | ProbeTimedOut
datatype mdns_probe = NoDaemon | NoBrowse | MdnsPeers nat

text \<open>\<open>np_ip\<close> is the LAN address, None for the loopback one; \<open>np_ephemeral\<close> the port of the firewall probe.\<close>

record network_probes =
  np_ip :: "string option"
  np_bind :: bind_probe
  np_ephemeral :: "nat option"
  np_connect :: connect_probe
  np_mdns :: mdns_probe

definition check_network_interface :: "network_probes \<Rightarrow> DiagnosticCheck" where
  "check_network_interface p =
     (case np_ip p of
        Some ip \<Rightarrow> \<lparr>ck_name = ''network_interface'', ck_status = CheckPass, ck_message = ''LAN interface detected: '' @ ip, ck_hints = []\<rparr>
      | None \<Rightarrow>
          \<lparr>ck_name = ''network_interface'', ck_status = CheckWarn,
           ck_message = ''could not determine a LAN IP'' @ dash @ ''device may be isolated or offline'',
           ck_hints = [''Make sure the machine is connected to a network.'',
             ''If it is, a VPN or container may be hiding the real interface.'']\<rparr>)"

definition check_port_bind :: "network_probes \<Rightarrow> nat \<Rightarrow> DiagnosticCheck" where
  "check_port_bind p listen_port =
     (let port = show_nat listen_port
      in case np_bind p of
           BindOk \<Rightarrow> \<lparr>ck_name = ''serve_port'', ck_status = CheckPass, ck_message = ''port '' @ port @ '' is available for serving'', ck_hints = []\<rparr>
         | BindInUse \<Rightarrow>
             \<lparr>ck_name = ''serve_port'', ck_status = CheckInfo,
              ck_message = ''port '' @ port @ '' is already in use (expected while a frontend is running)'', ck_hints = []\<rparr>
         | BindError err \<Rightarrow>
             \<lparr>ck_name = ''serve_port'', ck_status = CheckWarn, ck_message = ''cannot bind '' @ port @ '': '' @ err,
              ck_hints = [''Another process may hold the port.'',
                ''If you changed the listen port, pass it as --port to serve/sync.'']\<rparr>)"

definition allow_hint :: "nat \<Rightarrow> string" where
  "allow_hint listen_port = ''Allow the listen port, e.g.: sudo ufw allow '' @ show_nat listen_port @ ''/tcp''"

definition check_firewall :: "network_probes \<Rightarrow> nat \<Rightarrow> DiagnosticCheck" where
  "check_firewall p listen_port =
     (case np_ip p of
        None \<Rightarrow> \<lparr>ck_name = ''firewall'', ck_status = CheckInfo, ck_message = ''skipped'' @ dash @ ''no LAN IP to probe'', ck_hints = []\<rparr>
      | Some ip \<Rightarrow>
          (case np_ephemeral p of
             None \<Rightarrow>
               \<lparr>ck_name = ''firewall'', ck_status = CheckWarn, ck_message = ''could not bind a probe port'',
                ck_hints = [''A restrictive profile may be blocking ephemeral binds.'']\<rparr>
           | Some port \<Rightarrow>
               (let target = ip @ '':'' @ show_nat port
                in case np_connect p of
                     ProbeConnected \<Rightarrow>
                       \<lparr>ck_name = ''firewall'', ck_status = CheckPass, ck_message = ''inbound connections to this machine work'', ck_hints = []\<rparr>
                   | ProbeFailed err \<Rightarrow>
                       \<lparr>ck_name = ''firewall'', ck_status = CheckWarn, ck_message = ''self-connect on '' @ target @ '' failed: '' @ err,
                        ck_hints = [''A firewall is likely dropping inbound ferrisync traffic.'', allow_hint listen_port,
                          ''Or forward the port if this device is behind NAT.'']\<rparr>
                   | ProbeTimedOut \<Rightarrow>
                       \<lparr>ck_name = ''firewall'', ck_status = CheckWarn, ck_message = ''self-connect on '' @ target @ '' timed out'',
                        ck_hints = [''Inbound ferrisync traffic looks blocked.'', allow_hint listen_port]\<rparr>)))"

definition check_mdns :: "network_probes \<Rightarrow> DiagnosticCheck" where
  "check_mdns p =
     (case np_mdns p of
        NoDaemon \<Rightarrow>
          \<lparr>ck_name = ''mdns'', ck_status = CheckWarn, ck_message = ''could not start the mDNS daemon'',
           ck_hints = [''mDNS (port 5353/udp) may be blocked by this network or a firewall.'',
             ''Pair with `ferrisync devices pair <ip>` to skip discovery.'']\<rparr>
      | NoBrowse \<Rightarrow> \<lparr>ck_name = ''mdns'', ck_status = CheckWarn, ck_message = ''could not browse for peers'', ck_hints = []\<rparr>
      | MdnsPeers n \<Rightarrow>
          \<lparr>ck_name = ''mdns'', ck_status = CheckInfo,
           ck_message = ''mDNS discovery is working ('' @ show_nat n @ '' peer'' @ plural n ''s'' @ '' found)'',
           ck_hints = (if n = 0 then [''No peers advertising. This is normal unless FerriSync is open on another machine.''] else [])\<rparr>)"

section \<open>Runs and reports\<close>

definition run_all_checks ::
  "env \<Rightarrow> (string \<Rightarrow> 'a option) \<Rightarrow> network_probes \<Rightarrow> string \<Rightarrow> bytes \<Rightarrow> string \<Rightarrow> string \<Rightarrow> nat \<Rightarrow> world \<Rightarrow>
   fs \<times> DiagnosticCheck list" where
  "run_all_checks e parse p data_dir cert own_id own_name listen_port = (\<lambda>(fs, db).
     case check_data_dir (e_clock e) data_dir fs of
       (fs1, first) \<Rightarrow>
         (fs1, [first, check_storage db, check_identity e cert own_id own_name, check_pairings parse db, check_folders fs1 db,
                check_network_interface p, check_port_bind p listen_port, check_firewall p listen_port, check_mdns p]))"

definition run_doctor ::
  "'a surroundings \<Rightarrow> network_probes \<Rightarrow> ApplicationContext \<Rightarrow> ApplicationContext \<times> DiagnosticCheck list" where
  "run_doctor S p ctx =
     (case run_all_checks (ae_env (s_api S)) (ad_parse (s_addrs S)) p (cx_data_dir ctx) (cx_cert ctx) (di_id (cx_device ctx))
             (di_name (cx_device ctx)) DEFAULT_PORT (cx_fs ctx, cx_db ctx) of
        (fs, checks) \<Rightarrow> (ctx\<lparr>cx_fs := fs\<rparr>, checks))"

definition run_diagnostics ::
  "api_env \<Rightarrow> (string \<Rightarrow> 'a option) \<Rightarrow> network_probes \<Rightarrow> ApiState \<Rightarrow> ApiState \<times> DiagnosticCheck list" where
  "run_diagnostics E parse p st =
     (case run_all_checks (ae_env E) parse p (a_data_dir st) (idn_cert (a_identity st)) (di_id (current_device st))
             (di_name (current_device st)) DEFAULT_PORT (a_fs st, a_db st) of
        (fs, checks) \<Rightarrow> (st\<lparr>a_fs := fs\<rparr>, checks))"

record CheckSummary =
  cs_total :: nat
  cs_passed :: nat
  cs_warnings :: nat
  cs_failures :: nat

record DoctorReport =
  dr_healthy :: bool
  dr_summary :: CheckSummary
  dr_checks :: "DiagnosticCheck list"

definition count_check :: "DiagnosticCheck \<Rightarrow> CheckSummary \<Rightarrow> CheckSummary" where
  "count_check c s =
     (case ck_status c of
        CheckPass \<Rightarrow> s\<lparr>cs_passed := cs_passed s + 1\<rparr>
      | CheckWarn \<Rightarrow> s\<lparr>cs_warnings := cs_warnings s + 1\<rparr>
      | CheckFail \<Rightarrow> s\<lparr>cs_failures := cs_failures s + 1\<rparr>
      | CheckInfo \<Rightarrow> s)"

definition from_checks :: "DiagnosticCheck list \<Rightarrow> DoctorReport" where
  "from_checks checks =
     (let summary = fold count_check checks \<lparr>cs_total = length checks, cs_passed = 0, cs_warnings = 0, cs_failures = 0\<rparr>
      in \<lparr>dr_healthy = (cs_failures summary = 0), dr_summary = summary, dr_checks = checks\<rparr>)"

definition status_tag :: "CheckStatus \<Rightarrow> string" where
  "status_tag s = (case s of CheckPass \<Rightarrow> ''OK'' | CheckFail \<Rightarrow> ''FAIL'' | CheckWarn \<Rightarrow> ''WARN'' | CheckInfo \<Rightarrow> ''INFO'')"

text \<open>The lines that \<open>doctor --explain\<close> prints, without their bullets.\<close>

definition explain :: "DiagnosticCheck list \<Rightarrow> string \<Rightarrow> (string \<times> string list) option" where
  "explain checks name =
     map_option (\<lambda>c. (ck_name c @ dash @ ck_message c, if ck_hints c = [] then [''(no further guidance)''] else ck_hints c))
       (find (\<lambda>c. ck_name c = name) checks)"

section \<open>Properties\<close>

lemma fold_count:
  "cs_total (fold count_check cs s) = cs_total s"
  "cs_passed (fold count_check cs s) = cs_passed s + length (filter (\<lambda>c. ck_status c = CheckPass) cs)"
  "cs_warnings (fold count_check cs s) = cs_warnings s + length (filter (\<lambda>c. ck_status c = CheckWarn) cs)"
  "cs_failures (fold count_check cs s) = cs_failures s + length (filter (\<lambda>c. ck_status c = CheckFail) cs)"
  by (induction cs arbitrary: s) (auto simp: count_check_def split: CheckStatus.split)

lemma from_checks_exact:
  "cs_total (dr_summary (from_checks cs)) = length cs"
  "cs_warnings (dr_summary (from_checks cs)) = length (filter (\<lambda>c. ck_status c = CheckWarn) cs)"
  "dr_healthy (from_checks cs) \<longleftrightarrow> (\<forall>c \<in> set cs. ck_status c \<noteq> CheckFail)"
  by (auto simp: from_checks_def Let_def fold_count filter_empty_conv)

text \<open>The probe of a data directory without links leaves no trace.\<close>

lemma probe_clean:
  assumes l: "linkless fs R" and free: "map_of fs (R @ [''.doctor-write-test'']) = None" and raw: "raw_path data_dir = lit R"
  shows "\<exists>fs'. check_data_dir now data_dir fs = (fs', data_dir_check data_dir True) \<and> map_of fs' = map_of fs"
proof -
  let ?n = "''.doctor-write-test''"
  have wf: "wf_fs fs" and R: "map_of fs R = Some NDir" using l by (simp_all add: linkless_def)
  have name: "valid_name ?n" by (simp add: valid_name_def)
  have w: "fs_write fs (lit (R @ [?n])) (string_bytes ''ok'') now = Some (hm_insert (R @ [?n]) (NFile (string_bytes ''ok'') now) fs)"
    using walk_lit_append [OF wf, of "[]" R MAXSYMLINKS True "[Normal ?n]"] free R
    by (simp add: fs_write_def)
  note after = write_in_dir [OF l name w]
  let ?fs1 = "hm_insert (R @ [?n]) (NFile (string_bytes ''ok'') now) fs"
  have wf1: "wf_fs ?fs1" using after by (simp add: linkless_def)
  have rm: "fs_remove_file ?fs1 (lit (R @ [?n])) = Some (hm_remove (R @ [?n]) ?fs1)"
    using walk_lit_found [OF wf1, of "[]" "R @ [?n]"] after by (simp add: fs_remove_file_def)
  have "map_of (hm_remove (R @ [?n]) ?fs1) = map_of fs"
    using free by (auto simp: hm_simps fun_eq_iff)
  with w rm create_dir_existing [OF l] show ?thesis by (simp add: check_data_dir_def raw Let_def)
qed

text \<open>With a writable data directory a run of the diagnostics leaves every file as it was, makes nine
  checks, and reports the device as healthy exactly if its id is the one of its certificate: missing
  folders, malformed addresses and whatever the network probes meet are at most warnings.\<close>

theorem doctor_exact:
  assumes l: "linkless fs R" and free: "map_of fs (R @ [''.doctor-write-test'']) = None" and raw: "raw_path data_dir = lit R"
  shows "\<exists>fs' checks. run_all_checks e parse p data_dir cert own_id own_name port (fs, db) = (fs', checks) \<and>
    map_of fs' = map_of fs \<and> cs_total (dr_summary (from_checks checks)) = 9 \<and>
    (dr_healthy (from_checks checks) \<longleftrightarrow> derived_id e cert = own_id \<and> own_id \<noteq> []) \<and>
    cs_warnings (dr_summary (from_checks checks)) = length (filter (\<lambda>c. ck_status c = CheckWarn) checks)"
proof -
  from probe_clean [OF l free raw, of "e_clock e"] obtain fs' where
    d: "check_data_dir (e_clock e) data_dir fs = (fs', data_dir_check data_dir True)" "map_of fs' = map_of fs" by blast
  let ?checks = "[data_dir_check data_dir True, check_storage db, check_identity e cert own_id own_name, check_pairings parse db,
    check_folders fs' db, check_network_interface p, check_port_bind p port, check_firewall p port, check_mdns p]"
  have run: "run_all_checks e parse p data_dir cert own_id own_name port (fs, db) = (fs', ?checks)"
    by (simp add: run_all_checks_def d(1))
  have other: "ck_status (data_dir_check data_dir True) \<noteq> CheckFail" "ck_status (check_storage db) \<noteq> CheckFail"
    "ck_status (check_pairings parse db) \<noteq> CheckFail" "ck_status (check_folders fs' db) \<noteq> CheckFail"
    "ck_status (check_network_interface p) \<noteq> CheckFail" "ck_status (check_port_bind p port) \<noteq> CheckFail"
    "ck_status (check_firewall p port) \<noteq> CheckFail" "ck_status (check_mdns p) \<noteq> CheckFail"
    by (simp_all add: data_dir_check_def check_storage_def check_pairings_def check_folders_def check_network_interface_def
        check_port_bind_def check_firewall_def check_mdns_def Let_def
        split: option.split bind_probe.split connect_probe.split mdns_probe.split)
  have ident: "ck_status (check_identity e cert own_id own_name) \<noteq> CheckFail \<longleftrightarrow> derived_id e cert = own_id \<and> own_id \<noteq> []"
    by (simp add: check_identity_def Let_def)
  have "dr_healthy (from_checks ?checks) \<longleftrightarrow> derived_id e cert = own_id \<and> own_id \<noteq> []"
    unfolding from_checks_exact using other by (simp flip: ident)
  moreover have "cs_total (dr_summary (from_checks ?checks)) = 9" unfolding from_checks_exact by simp
  moreover note from_checks_exact(2) [of ?checks]
  ultimately show ?thesis using run d(2) by blast
qed

theorem doctor_exact_witness:
  "\<exists>fs' checks. run_all_checks example_env (\<lambda>_. None :: nat option)
     \<lparr>np_ip = None, np_bind = BindInUse, np_ephemeral = None, np_connect = ProbeTimedOut, np_mdns = NoDaemon\<rparr>
     ''/d'' [7] [] ''desk'' 9847 (empty_dir, db_empty) = (fs', checks) \<and>
     map_of fs' = map_of empty_dir \<and> \<not> dr_healthy (from_checks checks)"
proof -
  have "map_of empty_dir ([''d''] @ [''.doctor-write-test'']) = None" by (simp add: empty_dir_def)
  moreover have "raw_path ''/d'' = lit [''d'']" by code_simp
  ultimately show ?thesis
    using doctor_exact [OF linkless_empty_dir, of "''/d''" example_env "\<lambda>_. None :: nat option"
      "\<lparr>np_ip = None, np_bind = BindInUse, np_ephemeral = None, np_connect = ProbeTimedOut, np_mdns = NoDaemon\<rparr>" "[7]" "[]" "''desk''" 9847 db_empty]
    by blast
qed

end
