(* ===== verification/Discovery.thy ===== *)
theory Discovery
  imports Shell "HOL-Library.AList"
begin

text \<open>
  Finding other devices on the network, \<open>discovery/mod.rs\<close>: what is advertised, the peers a browse makes of
  resolved services, and the search for a second instance with the same name. The mDNS daemon is left
  out; the services it resolves within the time of a browse are parameters, and addresses a type
  parameter with their text. A map without order is an association list.
\<close>

section \<open>Services\<close>

definition SERVICE_TYPE :: string where
  "SERVICE_TYPE = ''_ferrisync._tcp.local.''"

record 'a service =
  sv_fullname :: string
  sv_hostname :: string
  sv_addresses :: "'a list"
  sv_port :: nat
  sv_properties :: "(string \<times> bytes option) list"

record 'a DiscoveredPeer =
  dp_id :: string
  dp_name :: string
  dp_addresses :: "('a \<times> nat) list"
  dp_properties :: "(string \<times> string) list"

text \<open>The service registered by \<open>advertise\<close>; the daemon adds the service type to the name.\<close>

definition advertise :: "DeviceInfo \<Rightarrow> 'a \<Rightarrow> nat \<Rightarrow> 'a service" where
  "advertise dev local_ip port =
     \<lparr>sv_fullname = di_name dev @ ''.'' @ SERVICE_TYPE, sv_hostname = di_name dev @ ''.local.'',
      sv_addresses = [local_ip], sv_port = port, sv_properties = [(''id'', Some (string_bytes (di_id dev)))]\<rparr>"

text \<open>\<open>trim_end_matches\<close>.\<close>

function trim_end_matches :: "string \<Rightarrow> string \<Rightarrow> string" where
  "trim_end_matches pat s =
     (if pat \<noteq> [] \<and> suffix pat s then trim_end_matches pat (take (length s - length pat) s) else s)"
  by pat_completeness auto
termination
  by (relation "measure (\<lambda>(_, s). length s)") (auto simp: suffix_def)

declare trim_end_matches.simps [simp del]

definition properties_of :: "(string \<times> bytes option) list \<Rightarrow> (string \<times> string) list" where
  "properties_of props =
     fold (\<lambda>(k, v) m. case Option.bind v from_utf8 of Some s \<Rightarrow> AList.update k s m | None \<Rightarrow> m) props []"

definition peer_of :: "'a service \<Rightarrow> 'a DiscoveredPeer" where
  "peer_of info =
     (let properties = properties_of (sv_properties info)
      in \<lparr>dp_id = (case map_of properties ''id'' of Some i \<Rightarrow> i | None \<Rightarrow> trim_end_matches ''.local.'' (sv_hostname info)),
          dp_name = sv_fullname info, dp_addresses = map (\<lambda>a. (a, sv_port info)) (sv_addresses info),
          dp_properties = properties\<rparr>)"

definition browse :: "'a service list \<Rightarrow> 'a DiscoveredPeer list" where
  "browse resolved = map peer_of resolved"

section \<open>A second instance\<close>

text \<open>\<open>fullname.split('.').next()\<close>.\<close>

definition instance_name :: "string \<Rightarrow> string" where
  "instance_name fullname = takeWhile (\<lambda>c. c \<noteq> CHR ''.'') fullname"

definition ascii_lower :: "char \<Rightarrow> char" where
  "ascii_lower c = (if 65 \<le> (of_char c :: nat) \<and> (of_char c :: nat) \<le> 90 then char_of (of_char c + 32 :: nat) else c)"

definition eq_ignore_ascii_case :: "string \<Rightarrow> string \<Rightarrow> bool" where
  "eq_ignore_ascii_case a b \<longleftrightarrow> map ascii_lower a = map ascii_lower b"

definition addr_key :: "('a \<Rightarrow> string) \<Rightarrow> 'a \<Rightarrow> nat \<Rightarrow> string" where
  "addr_key show_ip ip port = show_ip ip @ '':'' @ show_nat port"

definition note_service :: "('a \<Rightarrow> string) \<Rightarrow> string \<Rightarrow> string \<Rightarrow> 'a service \<Rightarrow> (string \<times> string) list \<Rightarrow> (string \<times> string) list" where
  "note_service show_ip own_name our info by_addr =
     (if \<not> eq_ignore_ascii_case (instance_name (sv_fullname info)) own_name then by_addr
      else fold (\<lambda>addr m.
             let key = addr_key show_ip addr (sv_port info)
             in if key = our \<or> key \<in> fst ` set m then m else m @ [(key, sv_fullname info)])
           (sv_addresses info) by_addr)"

definition detect_duplicate_on_lan :: "('a \<Rightarrow> string) \<Rightarrow> DeviceInfo \<Rightarrow> 'a \<Rightarrow> nat \<Rightarrow> 'a service list \<Rightarrow> string list" where
  "detect_duplicate_on_lan show_ip dev local_ip port resolved =
     map snd (fold (note_service show_ip (di_name dev) (addr_key show_ip local_ip port)) resolved [])"

fun join_comma :: "string list \<Rightarrow> string" where
  "join_comma [] = []"
| "join_comma [x] = x"
| "join_comma (x # xs) = x @ '', '' @ join_comma xs"

definition duplicate_announce_warning :: "('a \<Rightarrow> string) \<Rightarrow> DeviceInfo \<Rightarrow> 'a \<Rightarrow> nat \<Rightarrow> 'a service list \<Rightarrow> string option" where
  "duplicate_announce_warning show_ip dev local_ip port resolved =
     (let dupes = detect_duplicate_on_lan show_ip dev local_ip port resolved
      in if dupes = [] then None
         else Some (''warning: another instance is already advertising '' @ quoted (di_name dev) @ '' on this LAN ('' @ join_comma dupes @
           ''). This can duplicate `status`/`discover` entries. Stop the other ferrisync process or rename this device.''))"

section \<open>Properties\<close>

lemma fold_addrs:
  "fst ` set (fold (\<lambda>addr m. let key = f addr in if key = our \<or> key \<in> fst ` set m then m else m @ [(key, v)]) as m) =
     fst ` set m \<union> (f ` set as - {our})"
  by (induction as arbitrary: m) (auto simp: Let_def)

lemma fold_services:
  "fst ` set (fold (note_service show_ip own our) infos m) =
     fst ` set m \<union> ({addr_key show_ip a (sv_port info) |info a. info \<in> set infos \<and>
       eq_ignore_ascii_case (instance_name (sv_fullname info)) own \<and> a \<in> set (sv_addresses info)} - {our})"
proof (induction infos arbitrary: m)
  case (Cons info infos)
  have "fst ` set (note_service show_ip own our info m) = fst ` set m \<union>
      ({addr_key show_ip a (sv_port info) |a. eq_ignore_ascii_case (instance_name (sv_fullname info)) own \<and> a \<in> set (sv_addresses info)} - {our})"
    unfolding note_service_def using fold_addrs [of "\<lambda>a. addr_key show_ip a (sv_port info)" our "sv_fullname info" "sv_addresses info" m]
    by auto
  then show ?case by (auto simp: Cons.IH)
qed simp

lemma duplicates_iff:
  "duplicate_announce_warning show_ip dev local_ip port resolved \<noteq> None \<longleftrightarrow>
     (\<exists>info \<in> set resolved. eq_ignore_ascii_case (instance_name (sv_fullname info)) (di_name dev) \<and>
        (\<exists>a \<in> set (sv_addresses info). addr_key show_ip a (sv_port info) \<noteq> addr_key show_ip local_ip port))"
proof -
  have "duplicate_announce_warning show_ip dev local_ip port resolved \<noteq> None \<longleftrightarrow>
      fst ` set (fold (note_service show_ip (di_name dev) (addr_key show_ip local_ip port)) resolved []) \<noteq> {}"
    by (simp add: duplicate_announce_warning_def detect_duplicate_on_lan_def Let_def)
  then show ?thesis unfolding fold_services by auto
qed

text \<open>A device warns of a second instance on the network exactly if a service with its name, up to the
  case of ASCII letters, is resolved at an address and port other than its own.\<close>

theorem duplicate_warning_exact:
  "duplicate_announce_warning show_ip dev local_ip port resolved \<noteq> None \<longleftrightarrow>
     (\<exists>info \<in> set resolved. map ascii_lower (instance_name (sv_fullname info)) = map ascii_lower (di_name dev) \<and>
        (\<exists>a \<in> set (sv_addresses info). addr_key show_ip a (sv_port info) \<noteq> addr_key show_ip local_ip port))"
  by (simp add: duplicates_iff eq_ignore_ascii_case_def del: not_None_eq)

text \<open>The name of a service is cut at its first dot, so a device whose name has one never warns.\<close>

lemma lower_dot: "ascii_lower c = CHR ''.'' \<longleftrightarrow> c = CHR ''.''"
proof
  assume "ascii_lower c = CHR ''.''"
  then have "of_char (ascii_lower c) = (46 :: nat)" by simp
  then have "of_char c = (of_char (CHR ''.'') :: nat)"
    by (cases "65 \<le> (of_char c :: nat) \<and> (of_char c :: nat) \<le> 90") (auto simp: ascii_lower_def)
  then show "c = CHR ''.''" by (simp only: of_char_eq_iff)
qed (simp add: ascii_lower_def)

lemma dot_image: "CHR ''.'' \<in> ascii_lower ` X \<longleftrightarrow> CHR ''.'' \<in> X"
proof
  assume "CHR ''.'' \<in> ascii_lower ` X"
  then obtain c where c: "c \<in> X" "ascii_lower c = CHR ''.''" by (rule imageE) (simp only:)
  from c(1) show "CHR ''.'' \<in> X" unfolding c(2) [unfolded lower_dot] .
next
  assume "CHR ''.'' \<in> X"
  then have "ascii_lower (CHR ''.'') \<in> ascii_lower ` X" by (rule imageI)
  moreover have "ascii_lower (CHR ''.'') = CHR ''.''" by (simp only: lower_dot)
  ultimately show "CHR ''.'' \<in> ascii_lower ` X" by (simp only:)
qed

theorem dotted_name_undetected:
  assumes "CHR ''.'' \<in> set (di_name dev)"
  shows "duplicate_announce_warning show_ip dev local_ip port resolved = None"
proof -
  have "CHR ''.'' \<notin> set (instance_name s)" for s by (auto simp: instance_name_def dest: set_takeWhileD)
  then have "CHR ''.'' \<notin> set (map ascii_lower (instance_name s))" for s by (simp only: list.set_map dot_image) simp
  moreover have "CHR ''.'' \<in> set (map ascii_lower (di_name dev))" using assms by (simp only: list.set_map dot_image)
  ultimately have "set (map ascii_lower (instance_name s)) \<noteq> set (map ascii_lower (di_name dev))" for s by metis
  then have "\<not> eq_ignore_ascii_case (instance_name s) (di_name dev)" for s
    unfolding eq_ignore_ascii_case_def by (metis (full_types))
  with duplicates_iff [of show_ip dev local_ip port resolved] show ?thesis by auto
qed

text \<open>A browse that resolves what a device advertises finds that device: its id, at its address and
  port.\<close>

theorem advertised_peer_found:
  assumes "valid_str (di_id dev)"
  shows "browse [advertise dev ip port] =
    [\<lparr>dp_id = di_id dev, dp_name = di_name dev @ ''.'' @ SERVICE_TYPE, dp_addresses = [(ip, port)],
      dp_properties = [(''id'', di_id dev)]\<rparr>]"
  by (simp add: browse_def advertise_def peer_of_def properties_of_def from_utf8_string [OF assms])

theorem advertised_peer_found_witness:
  "browse [advertise \<lparr>di_id = ''a'', di_name = ''desk'', di_cert_fingerprint = []\<rparr> (1 :: nat) 9847] =
    [\<lparr>dp_id = ''a'', dp_name = ''desk'' @ ''.'' @ SERVICE_TYPE, dp_addresses = [(1, 9847)], dp_properties = [(''id'', ''a'')]\<rparr>]"
proof -
  have "valid_str ''a''" by code_simp
  from advertised_peer_found [of "\<lparr>di_id = ''a'', di_name = ''desk'', di_cert_fingerprint = []\<rparr>", unfolded DeviceInfo.simps, OF this] show ?thesis .
qed

end
