(* ===== verification/Spec2Isabelle.thy ===== *)
theory Spec2Isabelle
  imports Reconciler Protocol Session_State File_Transfer Orchestrator Chunk_Transfer Listener_Props Conflict_Props Convergence
    Health_Props Watcher Folder_Link Api_Results Authorization Commands_Props Shell_Props Diagnostics Discovery
begin

text \<open>
  Verification of FerriSync, a peer-to-peer file synchronisation program for local networks. The
  library crate is \<open>ferrisync-core/src\<close>, the command line and its shell are \<open>ferrisync/src\<close>; paths below
  are relative to these two.

  The program. A device has an identity, a self-signed certificate with its key in the data directory,
  and its device id is a function of that certificate. It keeps a SQLite database of known devices
  with their pinned certificates, of folders, of the devices each folder is paired with, and of shares
  and history. A folder is hosted by a server: its listener takes one connection at a time through
  either pairing, a request for a shared folder, or a sync session. In a session both sides send a
  Hello and an index of their folder, plan from the two indexes, and transfer files in chunks, keeping
  a backup of a file that both sides changed. The pairing gate of a server holds requests of unknown
  devices until the operator decides. Everything a user can do goes through the application interface
  (used by the Flutter app) or through the commands and the interactive shell.

  Theories, from the bottom up, with the code that each models and what it proves.

  \<^item> Prelude: machine integers, byte order, result and option combinators, association lists as hash
    maps. Utf8: \<open>std::str\<close>. Paths: path strings of \<open>std::path\<close> and a file system with directories, files
    and symbolic links, its walk and the system calls used.
  \<^item> Domain (\<open>domain\<close>): all types; the order of versions is the strict product order of their counters.
    Reconciler (\<open>sync/reconciler.rs\<close>): the plan is exact against an independent specification, and the two
    sides' plans mirror each other.
  \<^item> Protocol (\<open>protocol\<close>, \<open>protocol_v2\<close>): messages, frames, Hello; frames round trip, and reading does
    not depend on how the bytes arrive. Session_State (\<open>protocol_v2/state_machine.rs\<close>): the life cycle.
  \<^item> Filesystem (\<open>path_safety.rs\<close>, \<open>filesystem/root.rs\<close>): joining a path stays below the root, without links on
    the way; a scan is exact. File_Transfer (\<open>transfer\<close>): writes are atomic.
    Orchestrator (\<open>sync/orchestrator.rs\<close>, \<open>sync/snapshot.rs\<close>). Chunk_Transfer: chunks reassemble.
  \<^item> Storage and Storage_Props (\<open>storage/mod.rs\<close>): every operation on the database, with its keys and
    references, all kept in every reachable database. State_Store and Store_Contract
    (\<open>persistence\<close>): the two implementations of \<open>StateStore\<close> give the same answers under a simulation.
    Authorization (\<open>authorization\<close>): trust on first use and folder permissions over either store.
  \<^item> Pairing (\<open>sync_engine/server.rs\<close>): the gate and its decisions. Session (\<open>sync_engine/session.rs\<close>): both
    sides of a session. Session_Props: invariants of sessions, once for all, in locales.
    Session_Confinement: whatever the peer sends, a session changes nothing outside its root.
    Delivery and Convergence: two sessions that read each other's output leave equal folders.
  \<^item> Listener and Listener_Props: one connection, and over every run of a server an unknown
    certificate is never served. Client_Rpc (\<open>sync_engine/pairing.rs\<close>, \<open>sync_engine/shared_folder.rs\<close>): the asking side.
    Pairing_Run and Folder_Link: pairing of devices and of folders from end to end.
  \<^item> Bulk (\<open>sync_engine/bulk.rs\<close>): resolving addresses and syncing every folder. Conflict_Files and
    Conflict_Props (\<open>sync_engine/conflicts.rs\<close>): backups are recognised, listed and resolved.
    Watcher (\<open>watcher/mod.rs\<close>): coalescing is exact and the scheduler, a step relation, loses nothing.
    Health and Health_Props (\<open>health.rs\<close>, \<open>commands/status.rs\<close>): status and dashboard.
  \<^item> Identity (\<open>config.rs\<close>, identity of \<open>api/mod.rs\<close> and \<open>app.rs\<close>): loading is stable in both frontends.
    Api, Api_Folders, Api_Props and Api_Results (\<open>api/mod.rs\<close>): every operation, and the invariant of the
    app over all runs with any peers.
  \<^item> Shell_Parser (\<open>repl/parser.rs\<close>, \<open>commands/args.rs\<close>): the shell's language; commands are well-formed and read
    back. Commands and Commands_Props (\<open>commands\<close>): naming devices, attaching folders, waiting syncs. Shell
    and Shell_Props (\<open>repl\<close>, \<open>commands/watch.rs\<close>, \<open>commands/serve.rs\<close>): the shell's state and loop, its invariant, the
    answers to held requests, its only panic, and what background watches trust.
    Diagnostics (\<open>diagnostics.rs\<close>, \<open>commands/doctor.rs\<close>) and Discovery (\<open>discovery/mod.rs\<close>).

  Correspondence. Structs are records, enums are datatypes, integers are words of their width where they
  can wrap and \<open>nat\<close> where the code bounds or checks them; strings are byte lists of characters. An error
  is the left side of a sum, an early return or panic a branch. State is passed explicitly: a session is
  a function from file system, database and connection to their successors and a result, and it keeps
  the effects it had when it fails. Tables are lists of rows with their sequences, and a statement that
  violates a key or reference changes nothing. Interfaces are locales: the certificate store, the
  database invariant and the step invariant of sessions, trust by grants, the two stores; each is
  interpreted on the model's own definitions.

  Parameters. Code that is not part of the repository is an argument: blake3, the text of a UUID, bincode
  (an encoder and a decoder), SQLite's setting of foreign keys, the clock, hash-map order, DNS, mDNS and
  addresses, binding of ports, key generation, splitting of a shell line, lower-casing of Unicode. They are
  fields of the records \<open>env\<close>, \<open>api_env\<close>, \<open>network\<close>, \<open>addrs\<close> and \<open>surroundings\<close>. What a peer sends is a
  list of messages or segments, and ends where the code's timeout would end it.

  Bounds and termination. The walk of a path follows at most MAXSYMLINKS (40) links, as Linux does, and
  is otherwise structural. Pairing retries until its budget of one minute is used up, a measure that
  every attempt lowers by at least the interval, so at most 21 attempts are made; waiting syncs end
  likewise by their pause of two seconds. Asking for a shared folder without a lifetime may poll forever,
  so that loop is a partial function into an option, and exactly when it returns is proved. No other
  loop needs fuel.

  Not modelled, and why. The transports (\<open>transport\<close>) and the TLS configuration (\<open>crypto/mod.rs\<close>) only wrap
  sockets and rustls; a connection is its messages and the certificate shown. The accept loop, its limit
  of sessions and the tasks behind servers and watches are reduced to sequences of their steps. The
  argument definitions of clap (\<open>cli.rs\<close>), tables, JSON and colours of the output (\<open>commands/activity.rs\<close>,
  \<open>commands/fmt.rs\<close>, the lists of \<open>commands/devices.rs\<close>) are printing. The Flutter frontend and the generated
  bridge call the application interface, which is modelled. Permissions, times of directories and
  concurrent changes of a folder during a session are not part of the file system model, and two
  operations on one database never interleave within a statement.
\<close>

end
